(* ===== verification/Prelude.thy ===== *)
theory Prelude
  imports Main "HOL-Library.Monad_Syntax"
begin

text \<open>
  Shared vocabulary of the development: results with an error alternative, the
  named collections the components declare their facts into, and the generic
  list and map lemmas that several components use.
\<close>

section \<open>Named collections\<close>

named_theorems js_simps \<open>evaluation facts about the JavaScript number and string operations\<close>
named_theorems frame_simps \<open>parts of a state that an operation leaves unchanged\<close>
named_theorems inv_intros \<open>operations that keep a component's invariant\<close>

section \<open>Results\<close>

text \<open>
  A thrown error is the left alternative. \<open>ebind\<close> is the sequencing of \<open>await\<close>ed
  calls: the first error ends the computation.
\<close>

type_synonym ('e, 'a) res = "'e + 'a"

definition ebind :: "('e, 'a) res \<Rightarrow> ('a \<Rightarrow> ('e, 'b) res) \<Rightarrow> ('e, 'b) res" where
  "ebind m f = (case m of Inl e \<Rightarrow> Inl e | Inr a \<Rightarrow> f a)"

lemma ebind_simps [simp]:
  "ebind (Inl e) f = Inl e"
  "ebind (Inr a) f = f a"
  by (simp_all add: ebind_def)

lemma ebind_Inr_iff: "ebind m f = Inr b \<longleftrightarrow> (\<exists>a. m = Inr a \<and> f a = Inr b)"
  by (cases m) simp_all

lemma ebind_Inl_iff: "ebind m f = Inl e \<longleftrightarrow> m = Inl e \<or> (\<exists>a. m = Inr a \<and> f a = Inl e)"
  by (cases m) simp_all

definition guard_else :: "bool \<Rightarrow> 'e \<Rightarrow> ('e, unit) res" where
  "guard_else b e = (if b then Inr () else Inl e)"

lemma guard_else_simps [simp]:
  "guard_else True e = Inr ()"
  "guard_else False e = Inl e"
  "guard_else b e = Inr u \<longleftrightarrow> b"
  "guard_else b e = Inl d \<longleftrightarrow> \<not> b \<and> d = e"
  by (auto simp: guard_else_def)

section \<open>Lists\<close>

text \<open>\<open>Array.prototype.find\<close> and \<open>findIndex\<close>.\<close>

fun find_index :: "('a \<Rightarrow> bool) \<Rightarrow> 'a list \<Rightarrow> nat option" where
  "find_index p [] = None"
| "find_index p (x # xs) = (if p x then Some 0 else map_option Suc (find_index p xs))"

lemma find_index_None_iff: "find_index p xs = None \<longleftrightarrow> (\<forall>x \<in> set xs. \<not> p x)"
  by (induction xs) auto

lemma find_index_SomeD:
  "find_index p xs = Some i \<Longrightarrow> i < length xs \<and> p (xs ! i) \<and> (\<forall>j < i. \<not> p (xs ! j))"
  by (induction xs arbitrary: i) (auto split: if_splits simp: nth_Cons less_Suc_eq_0_disj)

text \<open>Updating the first element that satisfies a predicate.\<close>

fun update_first :: "('a \<Rightarrow> bool) \<Rightarrow> ('a \<Rightarrow> 'a) \<Rightarrow> 'a list \<Rightarrow> 'a list" where
  "update_first p f [] = []"
| "update_first p f (x # xs) = (if p x then f x # xs else x # update_first p f xs)"

lemma length_update_first [simp]: "length (update_first p f xs) = length xs"
  by (induction xs) auto

lemma map_update_first:
  "(\<And>x. p x \<Longrightarrow> g (f x) = g x) \<Longrightarrow> map g (update_first p f xs) = map g xs"
  by (induction xs) auto

lemma update_first_none: "(\<forall>x \<in> set xs. \<not> p x) \<Longrightarrow> update_first p f xs = xs"
  by (induction xs) auto

lemma set_update_first: "set (update_first p f xs) \<subseteq> set xs \<union> f ` {x \<in> set xs. p x}"
  by (induction xs) auto

lemma update_first_append:
  "update_first p f (xs @ ys) =
     (if list_ex p xs then update_first p f xs @ ys else xs @ update_first p f ys)"
  by (induction xs) auto

text \<open>Removing the first element that satisfies a predicate.\<close>

fun drop_first :: "('a \<Rightarrow> bool) \<Rightarrow> 'a list \<Rightarrow> 'a list" where
  "drop_first p [] = []"
| "drop_first p (x # xs) = (if p x then xs else x # drop_first p xs)"

lemma set_drop_first: "set (drop_first p xs) \<subseteq> set xs"
  by (induction xs) auto

lemma drop_first_keeps: "x \<in> set xs \<Longrightarrow> \<not> p x \<Longrightarrow> x \<in> set (drop_first p xs)"
  by (induction xs) auto

lemma drop_first_none: "(\<forall>x \<in> set xs. \<not> p x) \<Longrightarrow> drop_first p xs = xs"
  by (induction xs) auto

lemma distinct_drop_first: "distinct (map f xs) \<Longrightarrow> distinct (map f (drop_first p xs))"
  by (induction xs) (auto dest: set_drop_first [THEN subsetD])

lemma filter_drop_first: "(\<And>x. p x \<Longrightarrow> \<not> q x) \<Longrightarrow> filter q (drop_first p xs) = filter q xs"
  by (induction xs) auto

lemma find_SomeD: "find p xs = Some x \<Longrightarrow> x \<in> set xs \<and> p x"
  by (induction xs) (auto split: if_splits)

lemma find_append: "find p (xs @ ys) = (case find p xs of Some x \<Rightarrow> Some x | None \<Rightarrow> find p ys)"
  by (induction xs) auto

section \<open>Machines and their invariants\<close>

text \<open>
  A component whose operations are the events of a step function. An invariant that
  holds of a state and is kept by every event admitted there holds after any admitted
  sequence of events.
\<close>

locale machine =
  fixes step :: "'s \<Rightarrow> 'e \<Rightarrow> 's"
    and admitted :: "'e \<Rightarrow> bool"
    and inv :: "'s \<Rightarrow> bool"
  assumes step_inv: "inv s \<Longrightarrow> admitted e \<Longrightarrow> inv (step s e)"
begin

lemma run_inv: "inv s \<Longrightarrow> list_all admitted es \<Longrightarrow> inv (foldl step s es)"
  by (induction es arbitrary: s) (simp_all add: step_inv)

lemma run_prefix_inv: "inv s \<Longrightarrow> list_all admitted es \<Longrightarrow> inv (foldl step s (take n es))"
  by (rule run_inv) (auto simp: list_all_iff dest: in_set_takeD)

end

text \<open>
  A machine with a reflexive and transitive relation between a state and its successors
  (rows are only appended, counters only grow).
\<close>

locale progressing_machine = machine +
  fixes le :: "'a \<Rightarrow> 'a \<Rightarrow> bool"
  assumes le_refl: "le s s"
    and le_trans: "le s t \<Longrightarrow> le t u \<Longrightarrow> le s u"
    and step_le: "inv s \<Longrightarrow> admitted e \<Longrightarrow> le s (step s e)"
begin

lemma run_le: "inv s \<Longrightarrow> list_all admitted es \<Longrightarrow> le s (foldl step s es)"
proof (induction es arbitrary: s)
  case (Cons e es)
  then have "le s (step s e)" "le (step s e) (foldl step (step s e) es)"
    by (simp_all add: step_le step_inv)
  then show ?case by (simp add: le_trans)
qed (simp add: le_refl)

end

end
