(* ===== verification/JsNumber.thy ===== *)
theory JsNumber
  imports Prelude Complex_Main "HOL-Library.Log_Nat"
begin

text \<open>
  JavaScript numbers. A Number is an IEEE 754 binary64 value: not-a-number, an
  infinity, or a finite value, kept here as the exact rational it denotes (both
  zeros are the rational 0). Every arithmetic operation of the language is the exact
  rational operation followed by \<open>round64\<close>, rounding to the nearest binary64 value
  with ties to the even significand. \<open>to_fixed4\<close> is \<open>Number.prototype.toFixed(4)\<close>,
  read as a count of ten-thousandths; \<open>number_of_units\<close> is \<open>Number(text)\<close> of such a
  decimal text.
\<close>

section \<open>Rounding to binary64\<close>

definition rne :: "rat \<Rightarrow> int" where
  "rne y =
     (let f = \<lfloor>y\<rfloor>; d = y - of_int f
      in if d < 1 / 2 then f
         else if 1 / 2 < d then f + 1
         else if even f then f else f + 1)"

definition ilog2 :: "rat \<Rightarrow> int" where
  "ilog2 x =
     (case quotient_of x of (p, q) \<Rightarrow>
        let k = bitlen p - bitlen q in if 2 powi k \<le> x then k else k - 1)"

definition ulp_exp :: "rat \<Rightarrow> int" where
  "ulp_exp x = max (- 1074) (ilog2 \<bar>x\<bar> - 52)"

definition round64 :: "rat \<Rightarrow> rat" where
  "round64 x =
     (if x = 0 then 0
      else of_int (rne (x / 2 powi ulp_exp x)) * 2 powi ulp_exp x)"

lemma pos_powi [simp]: "(0::rat) < 2 powi e"
  by simp

lemma ilog2_bounds:
  assumes "0 < x"
  shows "2 powi ilog2 x \<le> x" and "x < 2 powi (ilog2 x + 1)"
proof -
  obtain p q where pq: "quotient_of x = (p, q)" by fastforce
  have q: "0 < q" using pq by (rule quotient_of_denom_pos)
  have x: "x = of_int p / of_int q" using pq by (rule quotient_of_div)
  have p: "0 < p" using assms q by (simp add: x zero_less_divide_iff)
  define a b where "a = bitlen p" and "b = bitlen q"
  have a1: "0 < a" and b1: "0 < b"
    using p q bitlen_le_iff_power [of p 0] bitlen_le_iff_power [of q 0]
    by (simp_all add: a_def b_def not_le [symmetric])
  have pow: "(2::rat) powi k = of_int (2 ^ nat k)" if "0 \<le> k" for k :: int
    using that by (simp add: power_int_def)
  have "2 ^ nat (a - 1) \<le> p" "p < 2 ^ nat a" "2 ^ nat (b - 1) \<le> q" "q < 2 ^ nat b"
    using bitlen_bounds [OF p] bitlen_bounds [OF q] by (simp_all add: a_def b_def)
  then have P: "2 powi (a - 1) \<le> rat_of_int p" "rat_of_int p < 2 powi a"
    and Q: "2 powi (b - 1) \<le> rat_of_int q" "rat_of_int q < 2 powi b"
    using a1 b1 by (simp_all only: pow of_int_le_iff of_int_less_iff)
  have qpos: "0 < rat_of_int q" using q by simp
  have "x < 2 powi a / rat_of_int q"
    unfolding x using P(2) qpos by (simp add: divide_strict_right_mono)
  also have "\<dots> \<le> 2 powi a / 2 powi (b - 1)"
    using Q(1) qpos by (intro divide_left_mono mult_pos_pos) simp_all
  also have "\<dots> = 2 powi (a - b + 1)"
    by (simp add: power_int_diff power_int_add field_simps)
  finally have up: "x < 2 powi (a - b + 1)" .
  have "(2::rat) powi (a - b - 1) = 2 powi (a - 1) / 2 powi b"
    by (simp add: power_int_diff power_int_add field_simps)
  also have "\<dots> \<le> 2 powi (a - 1) / rat_of_int q"
    using Q(2) qpos by (intro divide_left_mono mult_pos_pos) simp_all
  also have "\<dots> \<le> x"
    unfolding x using P(1) qpos by (simp add: divide_right_mono)
  finally have lo: "2 powi (a - b - 1) \<le> x" .
  have il: "ilog2 x = (if 2 powi (a - b) \<le> x then a - b else a - b - 1)"
    by (simp add: ilog2_def pq a_def b_def Let_def)
  show "2 powi ilog2 x \<le> x" using lo by (simp add: il)
  show "x < 2 powi (ilog2 x + 1)" using up by (simp add: il)
qed

lemma rne_bounds: "\<bar>rat_of_int (rne y) - y\<bar> \<le> 1 / 2"
proof -
  have "of_int \<lfloor>y\<rfloor> \<le> y" "y < of_int \<lfloor>y\<rfloor> + 1" by linarith+
  then show ?thesis unfolding rne_def Let_def by (simp add: abs_le_iff)
qed

lemma rne_of_int [simp]: "rne (of_int k) = k"
  by (simp add: rne_def)

lemma rne_mono: "x \<le> y \<Longrightarrow> rne x \<le> rne y"
proof -
  assume "x \<le> y"
  then have "\<lfloor>x\<rfloor> \<le> \<lfloor>y\<rfloor>" by (rule floor_mono)
  then show ?thesis
    using \<open>x \<le> y\<close> unfolding rne_def Let_def
    by (cases "\<lfloor>x\<rfloor> = \<lfloor>y\<rfloor>") (auto split: if_splits)
qed

lemma rne_uminus: "rne (- y) = - rne y"
proof (cases "y = of_int \<lfloor>y\<rfloor>")
  case True
  then show ?thesis by (metis of_int_minus rne_of_int)
next
  case False
  then have "\<lfloor>- y\<rfloor> = - \<lfloor>y\<rfloor> - 1"
    by (intro floor_unique) (simp_all, linarith+)
  then show ?thesis unfolding rne_def Let_def by simp
qed

lemma ilog2_eqI:
  assumes "2 powi e \<le> x" "x < 2 powi (e + 1)"
  shows "ilog2 x = e"
proof -
  have pos: "0 < x" using assms(1) by (rule less_le_trans [OF pos_powi])
  note b = ilog2_bounds [OF pos]
  have "\<not> ilog2 x < e"
  proof
    assume "ilog2 x < e"
    then have "(2::rat) powi (ilog2 x + 1) \<le> 2 powi e" by (intro power_int_increasing) simp_all
    with b assms show False by simp
  qed
  moreover have "\<not> e < ilog2 x"
  proof
    assume "e < ilog2 x"
    then have "(2::rat) powi (e + 1) \<le> 2 powi ilog2 x" by (intro power_int_increasing) simp_all
    with b assms show False by simp
  qed
  ultimately show ?thesis by simp
qed

lemma ilog2_mono: "0 < x \<Longrightarrow> x \<le> y \<Longrightarrow> ilog2 x \<le> ilog2 y"
proof (rule ccontr)
  assume a: "0 < x" "x \<le> y" "\<not> ilog2 x \<le> ilog2 y"
  then have "(2::rat) powi (ilog2 y + 1) \<le> 2 powi ilog2 x" by (intro power_int_increasing) simp_all
  with ilog2_bounds [of x] ilog2_bounds [of y] a show False by simp
qed

lemma ulp_exp_uminus [simp]: "ulp_exp (- x) = ulp_exp x"
  by (simp add: ulp_exp_def)

lemma round64_0 [simp]: "round64 0 = 0"
  by (simp add: round64_def)

lemma round64_uminus: "round64 (- x) = - round64 x"
  by (simp add: round64_def rne_uminus)

lemma round64_half_ulp: "\<bar>round64 x - x\<bar> \<le> 2 powi ulp_exp x / 2"
proof (cases "x = 0")
  case False
  define u where "u = (2::rat) powi ulp_exp x"
  have u: "0 < u" by (simp add: u_def)
  have "round64 x - x = (of_int (rne (x / u)) - x / u) * u"
    using False u by (simp add: round64_def u_def field_simps)
  also have "\<bar>\<dots>\<bar> = \<bar>of_int (rne (x / u)) - x / u\<bar> * u"
    using u by (simp add: abs_mult)
  also have "\<dots> \<le> 1 / 2 * u"
    using rne_bounds u by (intro mult_right_mono) simp_all
  finally show ?thesis by (simp add: u_def)
qed simp

lemma ulp_le: "x \<noteq> 0 \<Longrightarrow> 2 powi ulp_exp x \<le> \<bar>x\<bar> / 2 ^ 52 + 2 powi (- 1074)"
proof -
  assume "x \<noteq> 0"
  then have "2 powi ilog2 \<bar>x\<bar> \<le> \<bar>x\<bar>" by (intro ilog2_bounds) simp
  then have "2 powi (ilog2 \<bar>x\<bar> - 52) \<le> \<bar>x\<bar> / 2 ^ 52"
    by (simp add: power_int_diff divide_right_mono)
  moreover have "0 \<le> \<bar>x\<bar> / 2 ^ 52" by simp
  moreover have "(0::rat) < 2 powi (- 1074)" by (rule pos_powi)
  ultimately show ?thesis
    by (cases "- 1074 \<le> ilog2 \<bar>x\<bar> - 52") (simp_all add: ulp_exp_def max_def del: power_int_minus)
qed

lemma round64_error: "\<bar>round64 x - x\<bar> \<le> \<bar>x\<bar> / 2 ^ 53 + 2 powi (- 1074)"
proof (cases "x = 0")
  case False
  have "0 < (2::rat) powi (- 1074)" by (rule pos_powi)
  with round64_half_ulp [of x] ulp_le [OF False] show ?thesis by (simp add: field_simps)
qed simp
lemma round64_nonneg: "0 \<le> x \<Longrightarrow> 0 \<le> round64 x"
proof -
  assume "0 \<le> x"
  then have "rne 0 \<le> rne (x / 2 powi ulp_exp x)" by (intro rne_mono) simp
  moreover have "rne 0 = 0" using rne_of_int [of 0] by simp
  ultimately show ?thesis by (simp add: round64_def)
qed

lemma round64_nonpos: "x \<le> 0 \<Longrightarrow> round64 x \<le> 0"
  using round64_nonneg [of "- x"] by (simp add: round64_uminus)

text \<open>Values with a 53-bit significand are not changed by rounding.\<close>

lemma round64_exact:
  assumes k: "\<bar>k\<bar> < 2 ^ 53" and e: "- 1074 \<le> e"
  shows "round64 (of_int k * 2 powi e) = of_int k * 2 powi e"
proof (cases "k = 0")
  case False
  define x where "x = rat_of_int k * 2 powi e"
  have x0: "x \<noteq> 0" using False by (simp add: x_def)
  have ax: "\<bar>x\<bar> = rat_of_int \<bar>k\<bar> * 2 powi e" by (simp add: x_def abs_mult)
  have "rat_of_int \<bar>k\<bar> < 2 ^ 53" using k by (metis of_int_less_iff of_int_numeral of_int_power)
  then have "\<bar>x\<bar> < 2 ^ 53 * 2 powi e" unfolding ax by (rule mult_strict_right_mono) simp
  also have "\<dots> = 2 powi (e + 53)" by (simp add: power_int_add)
  finally have lt: "\<bar>x\<bar> < 2 powi (e + 53)" .
  have "ilog2 \<bar>x\<bar> < e + 53"
  proof (rule ccontr)
    assume "\<not> ilog2 \<bar>x\<bar> < e + 53"
    then have "(2::rat) powi (e + 53) \<le> 2 powi ilog2 \<bar>x\<bar>" by (intro power_int_increasing) simp_all
    with lt ilog2_bounds(1) [of "\<bar>x\<bar>"] x0 show False by simp
  qed
  then have le: "ulp_exp x \<le> e" using e by (simp add: ulp_exp_def)
  define n where "n = k * 2 ^ nat (e - ulp_exp x)"
  have "x / 2 powi ulp_exp x = rat_of_int k * 2 powi (e - ulp_exp x)"
    by (simp add: x_def power_int_diff)
  also have "\<dots> = of_int n" using le by (simp add: n_def power_int_def)
  finally have q: "x / 2 powi ulp_exp x = of_int n" .
  then have "round64 x = of_int n * 2 powi ulp_exp x" using x0 by (simp add: round64_def)
  also have "\<dots> = x" unfolding q [symmetric] by simp
  finally show ?thesis by (simp add: x_def)
qed simp

lemma round64_of_int: "\<bar>k\<bar> < 2 ^ 53 \<Longrightarrow> round64 (of_int k) = of_int k"
  using round64_exact [of k 0] by simp

lemma round64_powi: "- 1074 \<le> e \<Longrightarrow> round64 (2 powi e) = 2 powi e"
  using round64_exact [of 1 e] by simp

lemma round64_mono_pos:
  assumes "0 < x" "x \<le> y"
  shows "round64 x \<le> round64 y"
proof -
  have y: "0 < y" using assms by simp
  define ex ey where "ex = ulp_exp x" and "ey = ulp_exp y"
  have le: "ex \<le> ey" using ilog2_mono [OF assms] assms y by (simp add: ex_def ey_def ulp_exp_def)
  have rx: "round64 x = of_int (rne (x / 2 powi ex)) * 2 powi ex"
    and ry: "round64 y = of_int (rne (y / 2 powi ey)) * 2 powi ey"
    using assms y by (simp_all add: round64_def ex_def ey_def)
  show ?thesis
  proof (cases "ex = ey")
    case True
    have "rne (x / 2 powi ey) \<le> rne (y / 2 powi ey)"
      using assms by (intro rne_mono divide_right_mono) simp_all
    then show ?thesis unfolding rx ry True by (intro mult_right_mono) simp_all
  next
    case False
    with le have lt: "ex + 1 \<le> ey" by simp
    then have ey: "ey = ilog2 y - 52" using y by (simp add: ey_def ex_def ulp_exp_def)
    have "x < 2 powi (ilog2 x + 1)" using assms by (intro ilog2_bounds)
    also have "\<dots> \<le> 2 powi (ex + 53)"
      using assms by (intro power_int_increasing) (simp_all add: ex_def ulp_exp_def)
    finally have "x / 2 powi ex \<le> of_int (2 ^ 53)" by (simp add: power_int_add field_simps)
    then have "rne (x / 2 powi ex) \<le> rne (of_int (2 ^ 53))" by (rule rne_mono)
    then have "rne (x / 2 powi ex) \<le> 2 ^ 53" by (simp only: rne_of_int)
    then have "rat_of_int (rne (x / 2 powi ex)) \<le> of_int (2 ^ 53)" by (simp only: of_int_le_iff)
    then have "round64 x \<le> of_int (2 ^ 53) * 2 powi ex"
      unfolding rx by (intro mult_right_mono) simp_all
    also have "\<dots> = 2 powi (ex + 1) * of_int (2 ^ 52)" by (simp add: power_int_add)
    also have "\<dots> \<le> 2 powi ey * of_int (2 ^ 52)"
      using lt by (intro mult_right_mono power_int_increasing) simp_all
    also have "\<dots> \<le> round64 y"
    proof -
      have "2 powi ilog2 y \<le> y" using y by (rule ilog2_bounds)
      then have "of_int (2 ^ 52) \<le> y / 2 powi ey" by (simp add: ey power_int_diff field_simps)
      then have "rne (of_int (2 ^ 52)) \<le> rne (y / 2 powi ey)" by (rule rne_mono)
      then have "2 ^ 52 \<le> rne (y / 2 powi ey)" by (simp only: rne_of_int)
      then have "of_int (2 ^ 52) \<le> rat_of_int (rne (y / 2 powi ey))" by (simp only: of_int_le_iff)
      then show ?thesis unfolding ry by (subst mult.commute) (intro mult_right_mono, simp_all)
    qed
    finally show ?thesis .
  qed
qed

lemma round64_mono: "x \<le> y \<Longrightarrow> round64 x \<le> round64 y"
proof -
  assume le: "x \<le> y"
  consider "0 < x" | "x \<le> 0" "0 \<le> y" | "y < 0" using le by linarith
  then show ?thesis
  proof cases
    case 1
    then show ?thesis using le by (rule round64_mono_pos)
  next
    case 2
    then show ?thesis using round64_nonpos [of x] round64_nonneg [of y] by linarith
  next
    case 3
    then have "round64 (- y) \<le> round64 (- x)" using le by (intro round64_mono_pos) simp_all
    then show ?thesis by (simp add: round64_uminus)
  qed
qed

text \<open>Rounding is idempotent: its results have a 53-bit significand.\<close>

lemma rne_significand: "\<bar>rne (x / 2 powi ulp_exp x)\<bar> \<le> 2 ^ 53"
proof (cases "x = 0")
  case True
  then show ?thesis using rne_of_int [of 0] by simp
next
  case False
  have "\<bar>x\<bar> < 2 powi (ilog2 \<bar>x\<bar> + 1)" using False by (intro ilog2_bounds) simp
  also have "\<dots> \<le> 2 powi (ulp_exp x + 53)" by (intro power_int_increasing) (simp_all add: ulp_exp_def)
  also have "\<dots> = of_int (2 ^ 53) * 2 powi ulp_exp x" by (simp add: power_int_add)
  finally have "\<bar>x\<bar> < of_int (2 ^ 53) * 2 powi ulp_exp x" .
  then have b: "\<bar>x / 2 powi ulp_exp x\<bar> \<le> of_int (2 ^ 53)"
    by (simp add: abs_divide divide_le_eq del: of_int_power)
  have "x / 2 powi ulp_exp x \<le> of_int (2 ^ 53)" using b by linarith
  moreover have "of_int (- (2 ^ 53)) \<le> x / 2 powi ulp_exp x" using b unfolding of_int_minus by linarith
  ultimately
  have "rne (x / 2 powi ulp_exp x) \<le> rne (of_int (2 ^ 53))"
    "rne (of_int (- (2 ^ 53))) \<le> rne (x / 2 powi ulp_exp x)" by (blast intro: rne_mono)+
  then show ?thesis by (simp only: rne_of_int abs_le_iff) simp
qed

lemma round64_idem [simp]: "round64 (round64 x) = round64 x"
proof (cases "x = 0")
  case False
  define n e where "n = rne (x / 2 powi ulp_exp x)" and "e = ulp_exp x"
  have r: "round64 x = of_int n * 2 powi e" using False by (simp add: round64_def n_def e_def)
  have e: "- 1074 \<le> e" by (simp add: e_def ulp_exp_def)
  show ?thesis
  proof (cases "\<bar>n\<bar> = 2 ^ 53")
    case True
    define k where "k = sgn n"
    have k: "\<bar>k\<bar> < 2 ^ 53" by (simp add: k_def sgn_if)
    have "n = k * 2 ^ 53" using True mult_sgn_abs [of n] by (simp add: k_def)
    then have "round64 x = of_int k * 2 powi (e + 53)" by (simp add: r power_int_add)
    then show ?thesis using round64_exact [OF k, of "e + 53"] e by simp
  next
    case False
    then have "\<bar>n\<bar> < 2 ^ 53" using rne_significand [of x] by (simp add: n_def)
    then show ?thesis unfolding r using e by (rule round64_exact)
  qed
qed simp

section \<open>Numbers and their operations\<close>

datatype jsnum = JNaN | JPosInf | JNegInf | JFin rat

definition js_of_rat :: "rat \<Rightarrow> jsnum" where
  "js_of_rat x =
     (let y = round64 x
      in if 2 ^ 1024 \<le> y then JPosInf else if y \<le> - (2 ^ 1024) then JNegInf else JFin y)"

definition js_of_int :: "int \<Rightarrow> jsnum" where
  "js_of_int k = js_of_rat (of_int k)"

fun js_neg :: "jsnum \<Rightarrow> jsnum" where
  "js_neg JNaN = JNaN"
| "js_neg JPosInf = JNegInf"
| "js_neg JNegInf = JPosInf"
| "js_neg (JFin x) = JFin (- x)"

fun js_add :: "jsnum \<Rightarrow> jsnum \<Rightarrow> jsnum" where
  "js_add (JFin x) (JFin y) = js_of_rat (x + y)"
| "js_add JNaN y = JNaN"
| "js_add x JNaN = JNaN"
| "js_add JPosInf JNegInf = JNaN"
| "js_add JNegInf JPosInf = JNaN"
| "js_add JPosInf y = JPosInf"
| "js_add JNegInf y = JNegInf"
| "js_add x y = y"

definition js_sub :: "jsnum \<Rightarrow> jsnum \<Rightarrow> jsnum" where
  "js_sub x y = js_add x (js_neg y)"

text \<open>\<open>js_sign\<close> orders the non-NaN values by sign, for products with an infinity.\<close>

fun js_sign :: "jsnum \<Rightarrow> int" where
  "js_sign JNaN = 0"
| "js_sign JPosInf = 1"
| "js_sign JNegInf = - 1"
| "js_sign (JFin x) = (if 0 < x then 1 else if x < 0 then - 1 else 0)"

definition js_inf :: "int \<Rightarrow> jsnum" where
  "js_inf s = (if 0 < s then JPosInf else if s < 0 then JNegInf else JNaN)"

fun js_mul :: "jsnum \<Rightarrow> jsnum \<Rightarrow> jsnum" where
  "js_mul (JFin x) (JFin y) = js_of_rat (x * y)"
| "js_mul x y = (if x = JNaN \<or> y = JNaN then JNaN else js_inf (js_sign x * js_sign y))"

fun js_lt :: "jsnum \<Rightarrow> jsnum \<Rightarrow> bool" where
  "js_lt (JFin x) (JFin y) = (x < y)"
| "js_lt JNegInf (JFin y) = True"
| "js_lt JNegInf JPosInf = True"
| "js_lt (JFin x) JPosInf = True"
| "js_lt x y = False"

fun js_le :: "jsnum \<Rightarrow> jsnum \<Rightarrow> bool" where
  "js_le JNaN y = False"
| "js_le x JNaN = False"
| "js_le x y = (\<not> js_lt y x)"

text \<open>The operator \<open>===\<close> on numbers: not-a-number differs from itself.\<close>

definition js_eq :: "jsnum \<Rightarrow> jsnum \<Rightarrow> bool" where
  "js_eq x y = (x \<noteq> JNaN \<and> x = y)"

definition js_max :: "jsnum \<Rightarrow> jsnum \<Rightarrow> jsnum" where
  "js_max x y = (if x = JNaN \<or> y = JNaN then JNaN else if js_lt x y then y else x)"

definition js_min :: "jsnum \<Rightarrow> jsnum \<Rightarrow> jsnum" where
  "js_min x y = (if x = JNaN \<or> y = JNaN then JNaN else if js_lt y x then y else x)"

fun js_abs :: "jsnum \<Rightarrow> jsnum" where
  "js_abs JNegInf = JPosInf"
| "js_abs (JFin x) = JFin \<bar>x\<bar>"
| "js_abs x = x"

fun js_ceil :: "jsnum \<Rightarrow> jsnum" where
  "js_ceil (JFin x) = JFin (of_int \<lceil>x\<rceil>)"
| "js_ceil x = x"

fun is_finite :: "jsnum \<Rightarrow> bool" where
  "is_finite (JFin x) = True"
| "is_finite x = False"

fun is_integer :: "jsnum \<Rightarrow> bool" where
  "is_integer (JFin x) = (x = of_int \<lfloor>x\<rfloor>)"
| "is_integer x = False"

definition is_safe_integer :: "jsnum \<Rightarrow> bool" where
  "is_safe_integer x = (is_integer x \<and> js_le (js_abs x) (JFin (2 ^ 53 - 1)))"

section \<open>Decimal texts with four places\<close>

text \<open>
  \<open>x.toFixed(4)\<close> picks the integer \<open>n\<close> for which \<open>n / 10000\<close> is nearest to the
  exact value of \<open>x\<close>, the larger one of two, after taking the sign out.
\<close>

definition fixed4 :: "rat \<Rightarrow> int" where
  "fixed4 x = (if x < 0 then - \<lfloor>- x * 10000 + 1 / 2\<rfloor> else \<lfloor>x * 10000 + 1 / 2\<rfloor>)"

definition number_of_units :: "int \<Rightarrow> jsnum" where
  "number_of_units n = js_of_rat (of_int n / 10000)"

lemma floor_half [simp]: "\<lfloor>1 / 2 :: rat\<rfloor> = 0"
  by (simp add: floor_eq_iff)

lemma fixed4_uminus: "fixed4 (- x) = - fixed4 x"
  by (auto simp: fixed4_def)

lemma fixed4_mono: "x \<le> y \<Longrightarrow> fixed4 x \<le> fixed4 y"
proof -
  assume le: "x \<le> y"
  consider "0 \<le> x" | "x < 0" "0 \<le> y" | "y < 0" using le by linarith
  then show ?thesis
  proof cases
    case 1
    then show ?thesis using le by (auto simp: fixed4_def intro!: floor_mono)
  next
    case 2
    then have "0 \<le> \<lfloor>- x * 10000 + 1 / 2\<rfloor>" "0 \<le> \<lfloor>y * 10000 + 1 / 2\<rfloor>" by simp_all
    then show ?thesis using 2 unfolding fixed4_def by (simp only: if_True if_False not_less [symmetric])
  next
    case 3
    then have "\<lfloor>- y * 10000 + 1 / 2\<rfloor> \<le> \<lfloor>- x * 10000 + 1 / 2\<rfloor>" using le by (intro floor_mono) simp
    then show ?thesis using 3 le by (simp add: fixed4_def)
  qed
qed

lemma fixed4_near:
  assumes "\<bar>x - of_int n / 10000\<bar> < 1 / 20000"
  shows "fixed4 x = n"
proof (cases "x < 0")
  case True
  have "\<lfloor>- x * 10000 + 1 / 2\<rfloor> = - n"
    using assms unfolding abs_less_iff by (intro floor_unique; simp; linarith)
  then show ?thesis using True by (simp add: fixed4_def)
next
  case False
  have "\<lfloor>x * 10000 + 1 / 2\<rfloor> = n"
    using assms unfolding abs_less_iff by (intro floor_unique; simp; linarith)
  then show ?thesis using False by (simp add: fixed4_def)
qed

lemma fixed4_units [simp]: "fixed4 (of_int n / 10000) = n"
  by (rule fixed4_near) simp

lemma fixed4_of_int [simp]: "fixed4 (of_int n) = 10000 * n"
  using fixed4_units [of "10000 * n"] by simp

lemma fixed4_nonneg: "0 \<le> x \<Longrightarrow> 0 \<le> fixed4 x"
  using fixed4_mono [of 0 x] by (simp add: fixed4_def)

lemma fixed4_error: "\<bar>of_int (fixed4 x) / 10000 - x\<bar> \<le> 1 / 20000"
proof -
  have "of_int \<lfloor>y\<rfloor> \<le> y" "y < of_int \<lfloor>y\<rfloor> + 1" for y :: rat by linarith+
  from this [of "x * 10000 + 1 / 2"] this [of "- x * 10000 + 1 / 2"]
  show ?thesis unfolding fixed4_def abs_le_iff by (cases "x < 0") (simp_all only: if_True if_False of_int_minus, linarith+)
qed

section \<open>The bounded range in which ledger arithmetic is exact\<close>

lemma round64_error_eq:
  obtains t :: rat where "t \<le> 1 / 2 ^ 30" "\<And>x. \<bar>round64 x - x\<bar> \<le> \<bar>x\<bar> / 2 ^ 53 + t"
proof -
  have "(2::rat) powi (- 1074) \<le> 2 powi (- 30)" by (intro power_int_increasing) simp_all
  also have "\<dots> = 1 / 2 ^ 30" by (simp add: power_int_minus field_simps)
  finally have "(2::rat) powi (- 1074) \<le> 1 / 2 ^ 30" .
  with that round64_error show thesis by blast
qed

lemma round64_error_bounded:
  assumes "\<bar>x\<bar> \<le> 2 ^ 36 + 1"
  shows "\<bar>round64 x - x\<bar> \<le> 1 / 2 ^ 16"
proof -
  obtain t :: rat where t: "t \<le> 1 / 2 ^ 30" "\<And>x. \<bar>round64 x - x\<bar> \<le> \<bar>x\<bar> / 2 ^ 53 + t"
    by (rule round64_error_eq) blast
  have "\<bar>x\<bar> / 2 ^ 53 \<le> (2 ^ 36 + 1) / 2 ^ 53" using assms by (intro divide_right_mono) simp_all
  also have "(2 ^ 36 + 1) / 2 ^ 53 + 1 / 2 ^ 30 \<le> (1 / 2 ^ 16 :: rat)" by simp
  finally show ?thesis using t(1) t(2) [of x] by linarith
qed

lemma js_of_rat_finite:
  assumes "\<bar>x\<bar> \<le> 2 ^ 1000"
  shows "js_of_rat x = JFin (round64 x)"
proof -
  have e: "round64 (2 ^ 1000) = 2 ^ 1000"
    using round64_powi [of 1000] by simp
  have "round64 x \<le> 2 ^ 1000"
    using round64_mono [of x "2 ^ 1000"] assms unfolding e by linarith
  moreover have "- (2 ^ 1000) \<le> round64 x"
    using round64_mono [of "- (2 ^ 1000)" x] assms unfolding round64_uminus e by linarith
  moreover have "(2::rat) ^ 1000 < 2 ^ 1024" by (rule power_strict_increasing) simp_all
  ultimately show ?thesis by (simp add: js_of_rat_def Let_def)
qed


section \<open>Comparisons of finite numbers\<close>

lemma js_le_JFin [js_simps]: "js_le (JFin x) (JFin y) \<longleftrightarrow> x \<le> y"
  by auto

lemma js_max_JFin [js_simps]: "js_max (JFin x) (JFin y) = JFin (max x y)"
  by (simp add: js_max_def max_def)

lemma js_min_JFin [js_simps]: "js_min (JFin x) (JFin y) = JFin (min x y)"
  by (auto simp: js_min_def min_def)

lemma js_sub_JFin [js_simps]: "js_sub (JFin x) (JFin y) = js_of_rat (x - y)"
  by (simp add: js_sub_def)

lemma is_finite_iff: "is_finite x \<longleftrightarrow> (\<exists>r. x = JFin r)"
  by (cases x) auto

lemma js_of_rat_mono:
  "js_of_rat x = JFin a \<Longrightarrow> js_of_rat y = JFin b \<Longrightarrow> x \<le> y \<Longrightarrow> a \<le> b"
  using round64_mono [of x y] by (auto simp: js_of_rat_def Let_def split: if_splits)

lemma js_of_rat_JFinD: "js_of_rat x = JFin a \<Longrightarrow> a = round64 x"
  by (auto simp: js_of_rat_def Let_def split: if_splits)

lemma js_of_rat_not_NaN [simp]: "js_of_rat x \<noteq> JNaN"
  by (simp add: js_of_rat_def Let_def)

lemma js_of_int_exact: "\<bar>k\<bar> < 2 ^ 53 \<Longrightarrow> js_of_int k = JFin (of_int k)"
proof -
  assume k: "\<bar>k\<bar> < 2 ^ 53"
  then have "rat_of_int \<bar>k\<bar> < of_int (2 ^ 53)" by (simp only: of_int_less_iff)
  also have "\<dots> \<le> (2::rat) ^ 1000" by (simp add: power_increasing)
  finally have "js_of_rat (of_int k) = JFin (round64 (of_int k))"
    by (intro js_of_rat_finite) simp
  then show ?thesis using k by (simp add: js_of_int_def round64_of_int)
qed

text \<open>
  Ledger amounts are counted in ten-thousandths of a manna. Up to \<open>unit_bound\<close> units
  (some 56 billion manna) the binary64 error of a conversion or of one addition is
  below a third of half a unit, so decimal texts survive the way through Numbers.
\<close>

definition unit_bound :: int where
  "unit_bound = 2 ^ 49"

lemma unit_bound_rat: "\<bar>n\<bar> \<le> unit_bound \<Longrightarrow> \<bar>rat_of_int n / 10000\<bar> \<le> 2 ^ 36"
proof -
  assume "\<bar>n\<bar> \<le> unit_bound"
  then have "rat_of_int \<bar>n\<bar> \<le> of_int (2 ^ 49)" unfolding unit_bound_def by (simp only: of_int_le_iff)
  then show ?thesis by simp
qed

lemma number_of_units_finite:
  assumes "\<bar>n\<bar> \<le> unit_bound"
  obtains a where "number_of_units n = JFin a" "a = round64 (of_int n / 10000)"
    "\<bar>a - of_int n / 10000\<bar> \<le> 1 / 2 ^ 16"
proof -
  have b: "\<bar>rat_of_int n / 10000\<bar> \<le> 2 ^ 36" using assms by (rule unit_bound_rat)
  then have "number_of_units n = JFin (round64 (of_int n / 10000))"
    unfolding number_of_units_def by (intro js_of_rat_finite) simp
  moreover have "\<bar>round64 (rat_of_int n / 10000) - of_int n / 10000\<bar> \<le> 1 / 2 ^ 16"
    using b by (intro round64_error_bounded) linarith
  ultimately show thesis using that by blast
qed

lemma number_of_units_roundtrip:
  assumes "\<bar>n\<bar> \<le> unit_bound" "number_of_units n = JFin a"
  shows "fixed4 a = n"
proof (rule fixed4_near)
  obtain b where b: "number_of_units n = JFin b" "\<bar>b - of_int n / 10000\<bar> \<le> 1 / 2 ^ 16"
    using assms(1) by (rule number_of_units_finite)
  have "(1 / 2 ^ 16 :: rat) < 1 / 20000" by simp
  with b assms(2) show "\<bar>a - of_int n / 10000\<bar> < 1 / 20000" by auto
qed

lemma number_of_units_zero [simp]: "number_of_units 0 = JFin 0"
  by (simp add: number_of_units_def js_of_rat_def)

lemma number_of_units_mono:
  "number_of_units m = JFin a \<Longrightarrow> number_of_units n = JFin b \<Longrightarrow> m \<le> n \<Longrightarrow> a \<le> b"
  unfolding number_of_units_def by (erule (1) js_of_rat_mono) (simp add: divide_right_mono)

lemma number_of_units_nonneg:
  "number_of_units n = JFin a \<Longrightarrow> 0 \<le> n \<Longrightarrow> 0 \<le> a"
  using number_of_units_mono [of 0 0 n a] by simp

text \<open>
  The difference of two amounts, formed in binary64 and printed again, is the difference
  of the unit counts.
\<close>

lemma fixed4_near_sum:
  assumes "\<bar>x - of_int n / 10000\<bar> \<le> 2 / 2 ^ 16" "\<bar>n\<bar> \<le> unit_bound"
  shows "fixed4 (round64 x) = n"
proof (rule fixed4_near)
  have c: "(2 / 2 ^ 16 :: rat) < 1" "2 / 2 ^ 16 + 1 / 2 ^ 16 < (1 / 20000 :: rat)" by simp_all
  have "\<bar>x\<bar> \<le> 2 ^ 36 + 1" using assms(1) unit_bound_rat [OF assms(2)] c(1) by linarith
  then have "\<bar>round64 x - x\<bar> \<le> 1 / 2 ^ 16" by (rule round64_error_bounded)
  with assms(1) c(2) show "\<bar>round64 x - of_int n / 10000\<bar> < 1 / 20000" by linarith
qed

end
