(* ===== verification/Manna.thy ===== *)
theory Manna
  imports JsNumber JsText
begin

text \<open>
  The manna ledger (packages/core/src/manna.ts): accounts with a durable and a
  subscription pot, and an append-only table of transactions. The two tables are the
  state; a database transaction is a function from the state to an error or to the new
  state and a result, so a thrown error leaves the tables as they were. Amounts in the
  tables are counts of ten-thousandths (numeric(20,4)); amounts in parameters and
  results are JavaScript numbers. \<open>env\<close> arguments stand for what other transactions
  commit between the replay lookup of an operation and its writes.
\<close>

section \<open>Prices\<close>

datatype priced_action = ChatTurn | Image | Video | Music | Tts

fun PRICING :: "priced_action \<Rightarrow> int" where
  "PRICING ChatTurn = 1"
| "PRICING Image = 5"
| "PRICING Video = 25"
| "PRICING Music = 10"
| "PRICING Tts = 2"

section \<open>Tables and errors\<close>

record manna_account =
  ma_id :: nat
  ma_account_id :: string
  ma_balance :: int
  ma_subscription_balance :: int
  ma_updated_at :: int

record manna_transaction =
  tx_id :: nat
  tx_manna_account_id :: nat
  tx_amount :: int
  tx_type :: "string option"
  tx_task_external_id :: "string option"
  tx_stripe_event_id :: "string option"
  tx_stripe_event_type :: "string option"
  tx_stripe_event_data :: "string option"
  tx_voucher_external_id :: "string option"
  tx_code :: "string option"
  tx_idempotency_key :: "string option"
  tx_refunds_transaction_id :: "nat option"
  tx_created_at :: int

text \<open>\<open>next_id\<close> stands for the database's generator of fresh row ids.\<close>

record ledger =
  accounts :: "string list"
  manna_accounts :: "manna_account list"
  manna_transactions :: "manna_transaction list"
  next_id :: nat

text \<open>One constructor per throw site; the last four are the database's own errors.\<close>

datatype manna_error =
    AmountNotFinite jsnum
  | AmountNotPositive jsnum
  | AmountRoundsToZero jsnum
  | InsufficientManna string jsnum jsnum
  | DailyCapExceeded string jsnum jsnum jsnum
  | RollingSpendCapExceeded string string jsnum jsnum jsnum jsnum
  | LedgerScopeInvalid string
  | LedgerScopeIdInvalid string
  | LedgerOperationIdInvalid
  | RollingLimitInvalid
  | RollingWindowInvalid
  | RollingKeyPrefix string
  | InvalidDate
  | MannaAccountLost
  | RefundKeyOtherOriginal string
  | RefundKeyOtherAmount string jsnum jsnum
  | NotADebit nat string
  | RefundAmountInvalid jsnum
  | RefundExceedsRemainder jsnum jsnum
  | SettleChargeInvalid jsnum
  | SettleChargeExceedsReservation jsnum jsnum
  | NoReservation string
  | ReservationDisappeared string
  | PgUniqueViolation
  | PgForeignKeyViolation
  | PgNumericOverflow

fun isUniqueViolation :: "manna_error \<Rightarrow> bool" where
  "isUniqueViolation PgUniqueViolation = True"
| "isUniqueViolation _ = False"

section \<open>Numeric plumbing\<close>

definition numberToNumeric :: "jsnum \<Rightarrow> (manna_error, int) res" where
  "numberToNumeric v = (case v of JFin x \<Rightarrow> Inr (fixed4 x) | _ \<Rightarrow> Inl (AmountNotFinite v))"

definition numericToNumber :: "int \<Rightarrow> jsnum" where
  "numericToNumber n = number_of_units n"

text \<open>\<open>Number(v.toFixed(4))\<close>; a non-finite number prints as itself.\<close>

definition fix4 :: "jsnum \<Rightarrow> jsnum" where
  "fix4 v = (case v of JFin x \<Rightarrow> number_of_units (fixed4 x) | _ \<Rightarrow> v)"

definition assertValidAmount :: "jsnum \<Rightarrow> (manna_error, unit) res" where
  "assertValidAmount amount =
     (if \<not> is_finite amount \<or> js_le amount (JFin 0) then Inl (AmountNotPositive amount)
      else if js_le (fix4 amount) (JFin 0) then Inl (AmountRoundsToZero amount)
      else Inr ())"

text \<open>The range of a numeric(20,4) column.\<close>

definition pg_fits :: "int \<Rightarrow> bool" where
  "pg_fits n = (\<bar>n\<bar> < 10 ^ 20)"

section \<open>Balances\<close>

record manna_balance =
  mb_balance :: jsnum
  mb_subscriptionBalance :: jsnum
  mb_total :: jsnum

definition balanceFromRow :: "manna_account option \<Rightarrow> manna_balance" where
  "balanceFromRow row =
     (let b = (case row of Some r \<Rightarrow> numericToNumber (ma_balance r) | None \<Rightarrow> JFin 0);
          sb = (case row of Some r \<Rightarrow> numericToNumber (ma_subscription_balance r) | None \<Rightarrow> JFin 0)
      in \<lparr>mb_balance = b, mb_subscriptionBalance = sb, mb_total = js_add b sb\<rparr>)"

definition account_row :: "string \<Rightarrow> ledger \<Rightarrow> manna_account option" where
  "account_row accountId s = find (\<lambda>r. ma_account_id r = accountId) (manna_accounts s)"

definition manna_row :: "nat \<Rightarrow> ledger \<Rightarrow> manna_account option" where
  "manna_row i s = find (\<lambda>r. ma_id r = i) (manna_accounts s)"

definition getBalance :: "string \<Rightarrow> ledger \<Rightarrow> manna_balance" where
  "getBalance accountId s = balanceFromRow (account_row accountId s)"

definition balanceOfMannaAccount :: "nat \<Rightarrow> ledger \<Rightarrow> manna_balance" where
  "balanceOfMannaAccount i s = balanceFromRow (manna_row i s)"

text \<open>
  The insert is \<open>ON CONFLICT DO NOTHING\<close>: when another transaction created the row
  meanwhile, nothing is written and the row is read again.
\<close>

definition getOrCreateMannaAccount ::
  "(ledger \<Rightarrow> ledger) \<Rightarrow> string \<Rightarrow> int \<Rightarrow> ledger \<Rightarrow> (manna_error, ledger \<times> manna_account) res" where
  "getOrCreateMannaAccount env accountId now s =
     (case account_row accountId s of
        Some existing \<Rightarrow> Inr (s, existing)
      | None \<Rightarrow>
          (let s1 = env s in
           case account_row accountId s1 of
             Some raced \<Rightarrow> Inr (s1, raced)
           | None \<Rightarrow>
               if accountId \<notin> set (accounts s1) then Inl PgForeignKeyViolation
               else
                 (let inserted = \<lparr>ma_id = next_id s1, ma_account_id = accountId, ma_balance = 0,
                        ma_subscription_balance = 0, ma_updated_at = now\<rparr>
                  in Inr (s1\<lparr>manna_accounts := manna_accounts s1 @ [inserted],
                             next_id := Suc (next_id s1)\<rparr>, inserted))))"

section \<open>Ledger rows\<close>

record ledger_result =
  lr_transaction :: manna_transaction
  lr_balance :: manna_balance
  lr_alreadyApplied :: bool
  lr_subscriptionDrawn :: "jsnum option"

definition findTransactionByKey :: "string \<Rightarrow> ledger \<Rightarrow> manna_transaction option" where
  "findTransactionByKey key s =
     find (\<lambda>t. tx_idempotency_key t = Some key) (manna_transactions s)"

text \<open>\<open>UPDATE manna_accounts ... WHERE id = i\<close> and the row it returns.\<close>

definition update_account :: "nat \<Rightarrow> (manna_account \<Rightarrow> manna_account) \<Rightarrow> ledger \<Rightarrow> ledger" where
  "update_account i f s =
     s\<lparr>manna_accounts := map (\<lambda>r. if ma_id r = i then f r else r) (manna_accounts s)\<rparr>"

text \<open>
  \<open>INSERT INTO manna_transactions\<close>: the idempotency key is unique among the rows that
  have one, the pair of Stripe event and type among the rows with a Stripe event.
\<close>

definition violates_unique :: "manna_transaction \<Rightarrow> ledger \<Rightarrow> bool" where
  "violates_unique t s =
     list_ex (\<lambda>u.
        (tx_idempotency_key t \<noteq> None \<and> tx_idempotency_key u = tx_idempotency_key t) \<or>
        (tx_stripe_event_id t \<noteq> None \<and> tx_stripe_event_type t \<noteq> None \<and>
         tx_stripe_event_id u = tx_stripe_event_id t \<and>
         tx_stripe_event_type u = tx_stripe_event_type t))
       (manna_transactions s)"

definition insert_transaction ::
  "manna_transaction \<Rightarrow> ledger \<Rightarrow> (manna_error, ledger \<times> manna_transaction) res" where
  "insert_transaction t s =
     (if \<not> pg_fits (tx_amount t) then Inl PgNumericOverflow
      else if violates_unique t s then Inl PgUniqueViolation
      else
        (let row = t\<lparr>tx_id := next_id s\<rparr>
         in Inr (s\<lparr>manna_transactions := manna_transactions s @ [row],
                   next_id := Suc (next_id s)\<rparr>, row)))"

definition blank_tx :: "nat \<Rightarrow> int \<Rightarrow> int \<Rightarrow> manna_transaction" where
  "blank_tx i amount now =
     \<lparr>tx_id = 0, tx_manna_account_id = i, tx_amount = amount, tx_type = None,
      tx_task_external_id = None, tx_stripe_event_id = None, tx_stripe_event_type = None,
      tx_stripe_event_data = None, tx_voucher_external_id = None, tx_code = None,
      tx_idempotency_key = None, tx_refunds_transaction_id = None, tx_created_at = now\<rparr>"

section \<open>Scoped keys\<close>

definition scope_char :: "char \<Rightarrow> bool" where
  "scope_char c = (is_lower c \<or> is_digit c \<or> c = CHR ''-'')"

definition LEDGER_SCOPE_PART :: "string \<Rightarrow> bool" where
  "LEDGER_SCOPE_PART s =
     (case s of [] \<Rightarrow> False | c # cs \<Rightarrow> is_lower c \<and> list_all scope_char cs \<and> length cs \<le> 31)"

definition scope_id_char :: "char \<Rightarrow> bool" where
  "scope_id_char c =
     (is_lower c \<or> is_upper c \<or> is_digit c \<or> c = CHR ''.'' \<or> c = CHR ''_'' \<or> c = CHR ''-'')"

definition LEDGER_SCOPE_ID :: "string \<Rightarrow> bool" where
  "LEDGER_SCOPE_ID s = (s \<noteq> [] \<and> length s \<le> 128 \<and> list_all scope_id_char s)"

definition scopedLedgerPrefix :: "string \<Rightarrow> string \<Rightarrow> (manna_error, string) res" where
  "scopedLedgerPrefix scope scopeId =
     (if \<not> LEDGER_SCOPE_PART scope then Inl (LedgerScopeInvalid scope)
      else if \<not> LEDGER_SCOPE_ID scopeId then Inl (LedgerScopeIdInvalid scopeId)
      else Inr (''budget:'' @ scope @ '':'' @ scopeId @ '':''))"

definition scopedLedgerIdempotencyKey :: "string \<Rightarrow> string \<Rightarrow> string \<Rightarrow> (manna_error, string) res" where
  "scopedLedgerIdempotencyKey scope scopeId operationId =
     (if operationId = [] \<or> 200 < length operationId \<or>
         list_ex (\<lambda>c. c = CHR 13 \<or> c = CHR 10) operationId
      then Inl LedgerOperationIdInvalid
      else ebind (scopedLedgerPrefix scope scopeId) (\<lambda>p. Inr (p @ operationId)))"

section \<open>Net spend\<close>

text \<open>Instants are milliseconds since the epoch; a UTC day has 86400000 of them.\<close>

definition startOfUtcDay :: "int \<Rightarrow> int" where
  "startOfUtcDay now = now - now mod 86400000"

definition linked_refunds :: "(manna_transaction \<Rightarrow> bool) \<Rightarrow> nat \<Rightarrow> ledger \<Rightarrow> int" where
  "linked_refunds p i s =
     sum_list (map tx_amount
       (filter (\<lambda>t. tx_refunds_transaction_id t = Some i \<and> p t \<and> 0 < tx_amount t)
         (manna_transactions s)))"

definition type_like :: "string \<Rightarrow> manna_transaction \<Rightarrow> bool" where
  "type_like pat t = (case tx_type t of None \<Rightarrow> False | Some ty \<Rightarrow> sql_like ty pat)"

text \<open>The sums of the two queries, in units; the functions return them as Numbers.\<close>

definition spend_rows ::
  "(manna_transaction \<Rightarrow> bool) \<Rightarrow> (manna_transaction \<Rightarrow> bool) \<Rightarrow> ledger \<Rightarrow> int" where
  "spend_rows sel p s =
     sum_list (map (\<lambda>t. max (- tx_amount t - linked_refunds p (tx_id t) s) 0)
       (filter sel (manna_transactions s)))"

definition net_spend_units :: "string \<Rightarrow> int \<Rightarrow> ledger \<Rightarrow> int" where
  "net_spend_units accountId since s =
     spend_rows
       (\<lambda>t. (case manna_row (tx_manna_account_id t) s of
               None \<Rightarrow> False | Some r \<Rightarrow> ma_account_id r = accountId) \<and>
            type_like ''spend%'' t \<and> tx_amount t < 0 \<and> since \<le> tx_created_at t)
       (type_like ''refund%'') s"

definition netSpendSince :: "string \<Rightarrow> int \<Rightarrow> ledger \<Rightarrow> jsnum" where
  "netSpendSince accountId since s = js_max (JFin 0) (number_of_units (net_spend_units accountId since s))"

definition key_like :: "string \<Rightarrow> manna_transaction \<Rightarrow> bool" where
  "key_like pat t = (case tx_idempotency_key t of None \<Rightarrow> False | Some k \<Rightarrow> sql_like k pat)"

definition scoped_spend_units :: "string \<Rightarrow> int \<Rightarrow> ledger \<Rightarrow> int" where
  "scoped_spend_units pfx since s =
     spend_rows (\<lambda>t. tx_amount t < 0 \<and> key_like (pfx @ ''%'') t \<and> since \<le> tx_created_at t)
       (\<lambda>_. True) s"

definition scopedNetSpendSince :: "string \<Rightarrow> string \<Rightarrow> int \<Rightarrow> ledger \<Rightarrow> (manna_error, jsnum) res" where
  "scopedNetSpendSince scope scopeId since s =
     ebind (scopedLedgerPrefix scope scopeId) (\<lambda>pfx.
       Inr (js_max (JFin 0) (number_of_units (scoped_spend_units pfx since s))))"

section \<open>debit\<close>

record daily_cap =
  dc_limit :: jsnum
  dc_now :: "int option"

record rolling_cap =
  rc_scope :: string
  rc_scopeId :: string
  rc_limit :: jsnum
  rc_windowMs :: jsnum
  rc_now :: "int option"

record debit_params =
  dp_accountId :: string
  dp_amount :: jsnum
  dp_type :: string
  dp_idempotencyKey :: string
  dp_taskExternalId :: "string option"
  dp_dailyCap :: "daily_cap option"
  dp_rollingCap :: "rolling_cap option"

text \<open>
  \<open>new Date(now - windowMs)\<close> truncates to whole milliseconds; out of the range of a
  Date, its \<open>toISOString\<close> throws.
\<close>

definition date_before :: "int \<Rightarrow> jsnum \<Rightarrow> (manna_error, int) res" where
  "date_before now w =
     (case js_sub (js_of_int now) w of
        JFin x \<Rightarrow>
          (let t = (if 0 \<le> x then \<lfloor>x\<rfloor> else \<lceil>x\<rceil>)
           in if \<bar>t\<bar> \<le> 8640000000000000 then Inr t else Inl InvalidDate)
      | _ \<Rightarrow> Inl InvalidDate)"

definition replay_result :: "string \<Rightarrow> manna_transaction \<Rightarrow> ledger \<Rightarrow> ledger_result" where
  "replay_result accountId t s =
     \<lparr>lr_transaction = t, lr_balance = getBalance accountId s, lr_alreadyApplied = True,
      lr_subscriptionDrawn = None\<rparr>"

text \<open>The guards of a rolling cap, before its advisory lock is taken.\<close>

definition check_rolling_params :: "string \<Rightarrow> rolling_cap \<Rightarrow> (manna_error, unit) res" where
  "check_rolling_params key rc =
     ebind (scopedLedgerPrefix (rc_scope rc) (rc_scopeId rc)) (\<lambda>expectedPrefix.
       if \<not> is_finite (rc_limit rc) \<or> js_lt (rc_limit rc) (JFin 0) then Inl RollingLimitInvalid
       else if \<not> is_finite (rc_windowMs rc) \<or> js_le (rc_windowMs rc) (JFin 0) then Inl RollingWindowInvalid
       else if \<not> starts_with key expectedPrefix then Inl (RollingKeyPrefix expectedPrefix)
       else Inr ())"

definition check_daily :: "debit_params \<Rightarrow> int \<Rightarrow> ledger \<Rightarrow> (manna_error, unit) res" where
  "check_daily p now s =
     (case dp_dailyCap p of
        None \<Rightarrow> Inr ()
      | Some dc \<Rightarrow>
          (let spentToday = netSpendSince (dp_accountId p)
                 (startOfUtcDay (case dc_now dc of None \<Rightarrow> now | Some t \<Rightarrow> t)) s
           in if js_lt (dc_limit dc) (js_add spentToday (dp_amount p))
              then Inl (DailyCapExceeded (dp_accountId p) spentToday (dp_amount p) (dc_limit dc))
              else Inr ()))"

definition check_rolling :: "debit_params \<Rightarrow> int \<Rightarrow> ledger \<Rightarrow> (manna_error, unit) res" where
  "check_rolling p now s =
     (case dp_rollingCap p of
        None \<Rightarrow> Inr ()
      | Some rc \<Rightarrow>
          ebind (date_before (case rc_now rc of None \<Rightarrow> now | Some t \<Rightarrow> t) (rc_windowMs rc)) (\<lambda>since.
          ebind (scopedNetSpendSince (rc_scope rc) (rc_scopeId rc) since s) (\<lambda>spent.
            if js_lt (rc_limit rc) (js_add spent (dp_amount p))
            then Inl (RollingSpendCapExceeded (rc_scope rc) (rc_scopeId rc) spent (dp_amount p)
                        (rc_limit rc) (rc_windowMs rc))
            else Inr ())))"

text \<open>
  The guarded UPDATE and the ledger insert: the subscription pot is drained first, with
  the old column values on the right.
\<close>

definition draw_down :: "int \<Rightarrow> int \<Rightarrow> manna_account \<Rightarrow> manna_account" where
  "draw_down a now r =
     r\<lparr>ma_subscription_balance := max (ma_subscription_balance r - a) 0,
       ma_balance := ma_balance r - max (a - ma_subscription_balance r) 0,
       ma_updated_at := now\<rparr>"

definition apply_debit ::
  "debit_params \<Rightarrow> int \<Rightarrow> nat \<Rightarrow> ledger \<Rightarrow> (manna_error, ledger \<times> ledger_result) res" where
  "apply_debit p now i s =
     ebind (numberToNumeric (dp_amount p)) (\<lambda>a.
     case manna_row i s of
       None \<Rightarrow> Inl MannaAccountLost
     | Some locked \<Rightarrow>
         (let subscriptionBefore = numericToNumber (ma_subscription_balance locked) in
          if \<not> (a \<le> ma_balance locked + ma_subscription_balance locked)
          then Inl (InsufficientManna (dp_accountId p) (dp_amount p)
                     (mb_total (balanceOfMannaAccount i s)))
          else
            ebind (numberToNumeric (js_neg (dp_amount p))) (\<lambda>na.
            ebind (insert_transaction
                     ((blank_tx i na now)\<lparr>tx_type := Some (dp_type p),
                        tx_idempotency_key := Some (dp_idempotencyKey p),
                        tx_task_external_id := dp_taskExternalId p\<rparr>)
                     (update_account i (draw_down a now) s)) (\<lambda>(s', row).
              Inr (s', \<lparr>lr_transaction = row,
                        lr_balance = balanceFromRow (Some (draw_down a now locked)),
                        lr_alreadyApplied = False,
                        lr_subscriptionDrawn =
                          Some (fix4 (js_min subscriptionBefore (dp_amount p)))\<rparr>)))))"

definition debit_tx ::
  "(ledger \<Rightarrow> ledger) \<Rightarrow> debit_params \<Rightarrow> int \<Rightarrow> ledger \<Rightarrow> (manna_error, ledger \<times> ledger_result) res" where
  "debit_tx env p now s =
     (case findTransactionByKey (dp_idempotencyKey p) s of
        Some existing \<Rightarrow> Inr (env s, replay_result (dp_accountId p) existing (env s))
      | None \<Rightarrow>
          ebind (getOrCreateMannaAccount (\<lambda>x. x) (dp_accountId p) now (env s)) (\<lambda>(s1, account).
          if dp_dailyCap p \<noteq> None \<or> dp_rollingCap p \<noteq> None then
            ebind (case dp_rollingCap p of None \<Rightarrow> Inr ()
                   | Some rc \<Rightarrow> check_rolling_params (dp_idempotencyKey p) rc) (\<lambda>_.
            case findTransactionByKey (dp_idempotencyKey p) s1 of
              Some applied \<Rightarrow> Inr (s1, replay_result (dp_accountId p) applied s1)
            | None \<Rightarrow>
                ebind (check_daily p now s1) (\<lambda>_.
                ebind (check_rolling p now s1) (\<lambda>_.
                  apply_debit p now (ma_id account) s1)))
          else apply_debit p now (ma_id account) s1))"

text \<open>
  The whole call: amounts are validated before the transaction; a unique violation (the
  race on the key was lost) rolls back and returns the surviving row.
\<close>

definition debit ::
  "(ledger \<Rightarrow> ledger) \<Rightarrow> debit_params \<Rightarrow> int \<Rightarrow> ledger \<Rightarrow> ledger \<times> (manna_error, ledger_result) res" where
  "debit env p now s =
     (case assertValidAmount (dp_amount p) of
        Inl e \<Rightarrow> (s, Inl e)
      | Inr _ \<Rightarrow>
          (case debit_tx env p now s of
             Inr (s', r) \<Rightarrow> (s', Inr r)
           | Inl err \<Rightarrow>
               if isUniqueViolation err then
                 (case findTransactionByKey (dp_idempotencyKey p) (env s) of
                    Some existing \<Rightarrow> (env s, Inr (replay_result (dp_accountId p) existing (env s)))
                  | None \<Rightarrow> (env s, Inl err))
               else (env s, Inl err)))"

section \<open>credit\<close>

record credit_params =
  cp_accountId :: string
  cp_amount :: jsnum
  cp_type :: string
  cp_idempotencyKey :: "string option"
  cp_taskExternalId :: "string option"
  cp_stripeEventId :: "string option"
  cp_stripeEventType :: "string option"
  cp_stripeEventData :: "string option"
  cp_voucherExternalId :: "string option"
  cp_code :: "string option"
  cp_toSubscriptionBalance :: bool

text \<open>An absent or empty key is falsy: no replay lookup.\<close>

definition truthy_key :: "string option \<Rightarrow> string option" where
  "truthy_key k = (case k of None \<Rightarrow> None | Some s \<Rightarrow> if s = [] then None else Some s)"

definition credit_row :: "credit_params \<Rightarrow> int \<Rightarrow> int \<Rightarrow> manna_account \<Rightarrow> manna_account" where
  "credit_row p a now r =
     (if cp_toSubscriptionBalance p
      then r\<lparr>ma_subscription_balance := ma_subscription_balance r + a, ma_updated_at := now\<rparr>
      else r\<lparr>ma_balance := ma_balance r + a, ma_updated_at := now\<rparr>)"

definition row_fits :: "manna_account \<Rightarrow> bool" where
  "row_fits r = (pg_fits (ma_balance r) \<and> pg_fits (ma_subscription_balance r))"

definition credit_tx ::
  "(ledger \<Rightarrow> ledger) \<Rightarrow> credit_params \<Rightarrow> int \<Rightarrow> ledger \<Rightarrow> (manna_error, ledger \<times> ledger_result) res" where
  "credit_tx env p now s =
     (case (case truthy_key (cp_idempotencyKey p) of None \<Rightarrow> None
            | Some k \<Rightarrow> findTransactionByKey k s) of
        Some existing \<Rightarrow> Inr (env s, replay_result (cp_accountId p) existing (env s))
      | None \<Rightarrow>
          ebind (getOrCreateMannaAccount (\<lambda>x. x) (cp_accountId p) now (env s)) (\<lambda>(s1, account).
          ebind (numberToNumeric (cp_amount p)) (\<lambda>a.
          case manna_row (ma_id account) s1 of
            None \<Rightarrow> Inl MannaAccountLost
          | Some r \<Rightarrow>
              if \<not> row_fits (credit_row p a now r) then Inl PgNumericOverflow
              else
                ebind (insert_transaction
                  ((blank_tx (ma_id account) a now)\<lparr>tx_type := Some (cp_type p),
                     tx_idempotency_key := cp_idempotencyKey p,
                     tx_task_external_id := cp_taskExternalId p,
                     tx_stripe_event_id := cp_stripeEventId p,
                     tx_stripe_event_type := cp_stripeEventType p,
                     tx_stripe_event_data := cp_stripeEventData p,
                     tx_voucher_external_id := cp_voucherExternalId p,
                     tx_code := cp_code p\<rparr>)
                  (update_account (ma_id account) (credit_row p a now) s1)) (\<lambda>(s', row).
                Inr (s', \<lparr>lr_transaction = row,
                          lr_balance = balanceFromRow (Some (credit_row p a now r)),
                          lr_alreadyApplied = False, lr_subscriptionDrawn = None\<rparr>)))))"

definition credit ::
  "(ledger \<Rightarrow> ledger) \<Rightarrow> credit_params \<Rightarrow> int \<Rightarrow> ledger \<Rightarrow> ledger \<times> (manna_error, ledger_result) res" where
  "credit env p now s =
     (case assertValidAmount (cp_amount p) of
        Inl e \<Rightarrow> (s, Inl e)
      | Inr _ \<Rightarrow>
          (case credit_tx env p now s of
             Inr (s', r) \<Rightarrow> (s', Inr r)
           | Inl err \<Rightarrow>
               (case truthy_key (cp_idempotencyKey p) of
                  None \<Rightarrow> (env s, Inl err)
                | Some k \<Rightarrow>
                    if isUniqueViolation err then
                      (case findTransactionByKey k (env s) of
                         Some existing \<Rightarrow> (env s, Inr (replay_result (cp_accountId p) existing (env s)))
                       | None \<Rightarrow> (env s, Inl err))
                    else (env s, Inl err))))"

section \<open>Refund legs\<close>

definition refundIdempotencyKey :: "string \<Rightarrow> string" where
  "refundIdempotencyKey originalKey = ''refund:'' @ originalKey"

definition settleReservationIdempotencyKey :: "string \<Rightarrow> string" where
  "settleReservationIdempotencyKey reservationKey = ''refund:'' @ reservationKey @ '':authz-settle''"

record refund_leg_params =
  rl_originalIdempotencyKey :: string
  rl_amount :: "jsnum option"
  rl_key :: "string option"
  rl_type :: "string option"
  rl_toSubscription :: "jsnum option"

record refund_leg_result =
  rr_transaction :: "manna_transaction option"
  rr_balance :: manna_balance
  rr_alreadyApplied :: bool
  rr_appliedManna :: jsnum
  rr_remainingRefundable :: jsnum

definition alreadyRefundedManna :: "nat \<Rightarrow> ledger \<Rightarrow> jsnum" where
  "alreadyRefundedManna i s = number_of_units (linked_refunds (\<lambda>_. True) i s)"

text \<open>The literal \<open>1e-9\<close>.\<close>

definition EPS :: jsnum where
  "EPS = js_of_rat (1 / 1000000000)"

text \<open>Replay of a leg whose row exists: it must reverse this original, by this amount.\<close>

definition replay_leg ::
  "refund_leg_params \<Rightarrow> string \<Rightarrow> manna_transaction option \<Rightarrow> manna_transaction \<Rightarrow> ledger
     \<Rightarrow> (manna_error, refund_leg_result) res" where
  "replay_leg p legKey original existing s =
     (let appliedManna = numericToNumber (tx_amount existing) in
      if (case original of None \<Rightarrow> False
          | Some o' \<Rightarrow> tx_refunds_transaction_id existing \<noteq> Some (tx_id o'))
      then Inl (RefundKeyOtherOriginal legKey)
      else if (case rl_amount p of None \<Rightarrow> False
               | Some amt \<Rightarrow> js_lt EPS (js_abs (js_sub appliedManna (fix4 amt))))
      then Inl (RefundKeyOtherAmount legKey appliedManna (the (rl_amount p)))
      else
        (let remaining = (case original of None \<Rightarrow> JFin 0
               | Some o' \<Rightarrow> js_sub (js_neg (numericToNumber (tx_amount o')))
                                    (alreadyRefundedManna (tx_id o') s))
         in Inr \<lparr>rr_transaction = Some existing,
                 rr_balance = balanceOfMannaAccount (tx_manna_account_id existing) s,
                 rr_alreadyApplied = True, rr_appliedManna = appliedManna,
                 rr_remainingRefundable = fix4 (js_max (JFin 0) remaining)\<rparr>))"

definition refund_row :: "int \<Rightarrow> int \<Rightarrow> int \<Rightarrow> manna_account \<Rightarrow> manna_account" where
  "refund_row d sub now r =
     r\<lparr>ma_balance := ma_balance r + d,
       ma_subscription_balance := ma_subscription_balance r + sub,
       ma_updated_at := now\<rparr>"

definition apply_leg ::
  "refund_leg_params \<Rightarrow> string \<Rightarrow> manna_transaction \<Rightarrow> jsnum \<Rightarrow> jsnum \<Rightarrow> int \<Rightarrow> ledger
     \<Rightarrow> (manna_error, ledger \<times> refund_leg_result option) res" where
  "apply_leg p legKey original refundable amount now s =
     (let toSubscription = fix4 (js_min (js_max (case rl_toSubscription p of None \<Rightarrow> JFin 0 | Some t \<Rightarrow> t)
                                           (JFin 0)) amount);
          toDurable = fix4 (js_sub amount toSubscription);
          i = tx_manna_account_id original
      in
      ebind (numberToNumeric toDurable) (\<lambda>d.
      ebind (numberToNumeric toSubscription) (\<lambda>sub.
      case manna_row i s of
        None \<Rightarrow> Inl MannaAccountLost
      | Some r \<Rightarrow>
          if \<not> row_fits (refund_row d sub now r) then Inl PgNumericOverflow
          else
            ebind (numberToNumeric amount) (\<lambda>a.
            ebind (insert_transaction
              ((blank_tx i a now)\<lparr>
                 tx_type := Some (case rl_type p of None \<Rightarrow> ''refund'' | Some t \<Rightarrow> t),
                 tx_idempotency_key := Some legKey,
                 tx_refunds_transaction_id := Some (tx_id original),
                 tx_task_external_id := tx_task_external_id original\<rparr>)
              (update_account i (refund_row d sub now) s)) (\<lambda>(s', row).
            Inr (s', Some \<lparr>rr_transaction = Some row,
                       rr_balance = balanceFromRow (Some (refund_row d sub now r)),
                       rr_alreadyApplied = False, rr_appliedManna = amount,
                       rr_remainingRefundable = fix4 (js_sub refundable amount)\<rparr>))))))"

definition run_leg ::
  "(ledger \<Rightarrow> ledger) \<Rightarrow> refund_leg_params \<Rightarrow> string \<Rightarrow> int \<Rightarrow> ledger
     \<Rightarrow> (manna_error, ledger \<times> refund_leg_result option) res" where
  "run_leg env p legKey now s =
     (let original = findTransactionByKey (rl_originalIdempotencyKey p) s in
      case findTransactionByKey legKey s of
        Some existing \<Rightarrow> ebind (replay_leg p legKey original existing s) (\<lambda>r. Inr (s, Some r))
      | None \<Rightarrow>
          (let s1 = env s in
           case original of
             None \<Rightarrow> Inr (s1, None)
           | Some o' \<Rightarrow>
               (let originalAmount = js_neg (numericToNumber (tx_amount o')) in
                if \<not> js_lt (JFin 0) originalAmount
                then Inl (NotADebit (tx_id o') (rl_originalIdempotencyKey p))
                else
                  (let refunded = alreadyRefundedManna (tx_id o') s1;
                       refundable = fix4 (js_max (JFin 0) (js_sub originalAmount refunded));
                       requested = (case rl_amount p of None \<Rightarrow> refundable | Some a \<Rightarrow> a)
                   in
                   if \<not> is_finite requested \<or> js_lt requested (JFin 0)
                   then Inl (RefundAmountInvalid requested)
                   else if js_lt (js_add refundable EPS) requested
                   then Inl (RefundExceedsRemainder requested refundable)
                   else
                     (let amount = fix4 requested in
                      if js_le amount (JFin 0)
                      then Inr (s1, Some \<lparr>rr_transaction = None,
                                 rr_balance = balanceOfMannaAccount (tx_manna_account_id o') s1,
                                 rr_alreadyApplied = False, rr_appliedManna = JFin 0,
                                 rr_remainingRefundable = refundable\<rparr>)
                      else apply_leg p legKey o' refundable amount now s1)))))"

definition leg_key :: "refund_leg_params \<Rightarrow> string" where
  "leg_key p = (case rl_key p of None \<Rightarrow> refundIdempotencyKey (rl_originalIdempotencyKey p) | Some k \<Rightarrow> k)"

definition refundLeg ::
  "(ledger \<Rightarrow> ledger) \<Rightarrow> refund_leg_params \<Rightarrow> int \<Rightarrow> ledger
     \<Rightarrow> ledger \<times> (manna_error, refund_leg_result option) res" where
  "refundLeg env p now s =
     (let legKey = leg_key p in
      case run_leg env p legKey now s of
        Inr (s', r) \<Rightarrow> (s', Inr r)
      | Inl err \<Rightarrow>
          if isUniqueViolation err then
            (case findTransactionByKey legKey (env s) of
               None \<Rightarrow> (env s, Inl err)
             | Some existing \<Rightarrow>
                 (case replay_leg p legKey
                         (findTransactionByKey (rl_originalIdempotencyKey p) (env s)) existing (env s) of
                    Inl e \<Rightarrow> (env s, Inl e)
                  | Inr r \<Rightarrow> (env s, Inr (Some r))))
          else (env s, Inl err))"

text \<open>\<open>order by created_at desc limit 1\<close>: the first of the latest rows.\<close>

fun latest_tx :: "manna_transaction list \<Rightarrow> manna_transaction option" where
  "latest_tx [] = None"
| "latest_tx (t # ts) =
     (case latest_tx ts of None \<Rightarrow> Some t
      | Some u \<Rightarrow> if tx_created_at t < tx_created_at u then Some u else Some t)"

definition refund ::
  "(ledger \<Rightarrow> ledger) \<Rightarrow> string \<Rightarrow> string option \<Rightarrow> int \<Rightarrow> ledger
     \<Rightarrow> ledger \<times> (manna_error, ledger_result option) res" where
  "refund env originalKey ty now s =
     (case refundLeg env \<lparr>rl_originalIdempotencyKey = originalKey, rl_amount = None, rl_key = None,
             rl_type = ty, rl_toSubscription = None\<rparr> now s of
        (s', Inl e) \<Rightarrow> (s', Inl e)
      | (s', Inr None) \<Rightarrow> (s', Inr None)
      | (s', Inr (Some leg)) \<Rightarrow>
          (case rr_transaction leg of
             Some t \<Rightarrow> (s', Inr (Some \<lparr>lr_transaction = t, lr_balance = rr_balance leg,
                          lr_alreadyApplied = rr_alreadyApplied leg, lr_subscriptionDrawn = None\<rparr>))
           | None \<Rightarrow>
               (case findTransactionByKey originalKey s' of
                  None \<Rightarrow> (s', Inr None)
                | Some original \<Rightarrow>
                    (case latest_tx (filter (\<lambda>t. tx_refunds_transaction_id t = Some (tx_id original))
                                      (manna_transactions s')) of
                       None \<Rightarrow> (s', Inr None)
                     | Some latestLeg \<Rightarrow>
                         (s', Inr (Some \<lparr>lr_transaction = latestLeg,
                            lr_balance = balanceOfMannaAccount (tx_manna_account_id latestLeg) s',
                            lr_alreadyApplied = True, lr_subscriptionDrawn = None\<rparr>))))))"

section \<open>Reservations\<close>

definition settleReservation ::
  "string \<Rightarrow> jsnum \<Rightarrow> jsnum \<Rightarrow> string option \<Rightarrow> int \<Rightarrow> ledger
     \<Rightarrow> ledger \<times> (manna_error, refund_leg_result) res" where
  "settleReservation reservationKey chargeManna reservedSub ty now s =
     (if \<not> is_finite chargeManna \<or> js_lt chargeManna (JFin 0)
      then (s, Inl (SettleChargeInvalid chargeManna))
      else
        (case findTransactionByKey reservationKey s of
           None \<Rightarrow> (s, Inl (NoReservation reservationKey))
         | Some original \<Rightarrow>
             (let reserved = js_neg (numericToNumber (tx_amount original)) in
              if js_lt (js_add reserved EPS) chargeManna
              then (s, Inl (SettleChargeExceedsReservation chargeManna reserved))
              else
                (let chargeSubscription = js_min reservedSub chargeManna;
                     unusedSubscription = fix4 (js_max (JFin 0) (js_sub reservedSub chargeSubscription));
                     unused = fix4 (js_sub reserved chargeManna)
                 in
                 case refundLeg (\<lambda>x. x)
                        \<lparr>rl_originalIdempotencyKey = reservationKey, rl_amount = Some unused,
                         rl_key = Some (settleReservationIdempotencyKey reservationKey),
                         rl_type = Some (case ty of None \<Rightarrow> ''refund:settle'' | Some t \<Rightarrow> t),
                         rl_toSubscription = Some unusedSubscription\<rparr> now s of
                   (s', Inl e) \<Rightarrow> (s, Inl e)
                 | (s', Inr None) \<Rightarrow> (s, Inl (ReservationDisappeared reservationKey))
                 | (s', Inr (Some leg)) \<Rightarrow> (s', Inr leg)))))"

definition reverseReservation ::
  "string \<Rightarrow> jsnum option \<Rightarrow> string option \<Rightarrow> int \<Rightarrow> ledger
     \<Rightarrow> ledger \<times> (manna_error, refund_leg_result) res" where
  "reverseReservation reservationKey reservedSub ty now s =
     (case findTransactionByKey reservationKey s of
        None \<Rightarrow> (s, Inl (NoReservation reservationKey))
      | Some original \<Rightarrow>
          (let reserved = js_neg (numericToNumber (tx_amount original));
               refunded = alreadyRefundedManna (tx_id original) s;
               remainder = fix4 (js_max (JFin 0) (js_sub reserved refunded));
               toSubscription = fix4 (js_min (case reservedSub of None \<Rightarrow> JFin 0 | Some x \<Rightarrow> x) remainder)
           in
           case refundLeg (\<lambda>x. x)
                  \<lparr>rl_originalIdempotencyKey = reservationKey,
                   rl_amount = (if js_lt (JFin 0) remainder then Some remainder else None),
                   rl_key = None,
                   rl_type = Some (case ty of None \<Rightarrow> ''refund'' | Some t \<Rightarrow> t),
                   rl_toSubscription = Some toSubscription\<rparr> now s of
             (s', Inl e) \<Rightarrow> (s, Inl e)
           | (s', Inr None) \<Rightarrow> (s, Inl (ReservationDisappeared reservationKey))
           | (s', Inr (Some leg)) \<Rightarrow> (s', Inr leg)))"

end
