(* ===== verification/LedgerArith.thy ===== *)
theory LedgerArith
  imports Manna
begin

text \<open>
  The Number arithmetic of the ledger, in the range up to \<open>unit_bound\<close>: every amount
  that travels through a Number comes back as the same count of ten-thousandths, and
  sums and differences of amounts are the sums and differences of the counts.
\<close>

section \<open>The Number of an amount\<close>

definition unit_val :: "int \<Rightarrow> rat" where
  "unit_val n = round64 (of_int n / 10000)"

lemma number_of_units_val: "\<bar>n\<bar> \<le> unit_bound \<Longrightarrow> number_of_units n = JFin (unit_val n)"
  by (erule number_of_units_finite) (simp add: unit_val_def)

lemma unit_val_error: "\<bar>n\<bar> \<le> unit_bound \<Longrightarrow> \<bar>unit_val n - of_int n / 10000\<bar> \<le> 1 / 2 ^ 16"
  by (erule number_of_units_finite) (simp add: unit_val_def)

lemma fixed4_unit_val [simp]: "\<bar>n\<bar> \<le> unit_bound \<Longrightarrow> fixed4 (unit_val n) = n"
  by (rule number_of_units_roundtrip) (simp_all add: number_of_units_val)

lemma unit_val_0 [simp]: "unit_val 0 = 0"
  by (simp add: unit_val_def)

lemma unit_val_mono: "m \<le> n \<Longrightarrow> unit_val m \<le> unit_val n"
  unfolding unit_val_def by (intro round64_mono) (simp add: divide_right_mono)

lemma unit_val_nonneg: "0 \<le> n \<Longrightarrow> 0 \<le> unit_val n"
  using unit_val_mono [of 0 n] by simp

lemma unit_val_uminus: "unit_val (- n) = - unit_val n"
  by (simp add: unit_val_def round64_uminus [symmetric])

lemma unit_val_pos: "0 < n \<Longrightarrow> n \<le> unit_bound \<Longrightarrow> 0 < unit_val n"
  using fixed4_unit_val [of n] unit_val_nonneg [of n] by (cases "unit_val n = 0") (auto simp: fixed4_def)

lemma unit_val_less: "m < n \<Longrightarrow> \<bar>m\<bar> \<le> unit_bound \<Longrightarrow> \<bar>n\<bar> \<le> unit_bound \<Longrightarrow> unit_val m < unit_val n"
  using unit_val_mono [of m n] fixed4_unit_val [of m] fixed4_unit_val [of n]
  by (cases "unit_val m = unit_val n") auto

lemma unit_val_le_iff:
  "\<bar>m\<bar> \<le> unit_bound \<Longrightarrow> \<bar>n\<bar> \<le> unit_bound \<Longrightarrow> unit_val m \<le> unit_val n \<longleftrightarrow> m \<le> n"
  using unit_val_mono [of m n] unit_val_less [of n m] by fastforce

lemma fix4_unit_val: "\<bar>n\<bar> \<le> unit_bound \<Longrightarrow> fix4 (JFin (unit_val n)) = JFin (unit_val n)"
  by (simp add: fix4_def number_of_units_val)

lemma unit_val_size: "\<bar>n\<bar> \<le> unit_bound \<Longrightarrow> \<bar>unit_val n\<bar> \<le> 2 ^ 36 + 1"
proof -
  assume n: "\<bar>n\<bar> \<le> unit_bound"
  have "(1 / 2 ^ 16 :: rat) \<le> 1" by simp
  with unit_val_error [OF n] unit_bound_rat [OF n] show ?thesis by linarith
qed

lemma js_of_rat_small:
  assumes "\<bar>x\<bar> \<le> 2 ^ 40"
  shows "js_of_rat x = JFin (round64 x)"
proof (rule js_of_rat_finite)
  have "(2::rat) ^ 40 \<le> 2 ^ 1000" by (intro power_increasing) simp_all
  with assms show "\<bar>x\<bar> \<le> 2 ^ 1000" by linarith
qed

text \<open>A finite Number that is close enough to an amount prints as that amount.\<close>

lemma fix4_near:
  assumes "\<bar>x - of_int n / 10000\<bar> \<le> 2 / 2 ^ 16" "\<bar>n\<bar> \<le> unit_bound"
  shows "fix4 (js_of_rat x) = JFin (unit_val n)"
proof -
  have "(2 / 2 ^ 16 :: rat) \<le> 1" "(2::rat) ^ 36 + 1 \<le> 2 ^ 40" by simp_all
  then have "\<bar>x\<bar> \<le> 2 ^ 40" using assms(1) unit_bound_rat [OF assms(2)] by linarith
  then have "js_of_rat x = JFin (round64 x)" by (rule js_of_rat_small)
  then show ?thesis using fixed4_near_sum [OF assms] assms(2)
    by (simp add: fix4_def number_of_units_val)
qed

lemma fix4_sub_units:
  assumes "\<bar>m\<bar> \<le> unit_bound" "\<bar>n\<bar> \<le> unit_bound" "\<bar>m - n\<bar> \<le> unit_bound"
  shows "fix4 (js_sub (JFin (unit_val m)) (JFin (unit_val n))) = JFin (unit_val (m - n))"
proof -
  have "rat_of_int (m - n) / 10000 = of_int m / 10000 - of_int n / 10000"
    by (simp add: diff_divide_distrib)
  moreover have "1 / 2 ^ 16 + 1 / 2 ^ 16 = (2 / 2 ^ 16 :: rat)" by simp
  ultimately have "\<bar>unit_val m - unit_val n - of_int (m - n) / 10000\<bar> \<le> 2 / 2 ^ 16"
    using unit_val_error [OF assms(1)] unit_val_error [OF assms(2)] by linarith
  then show ?thesis unfolding js_sub_JFin by (rule fix4_near) (rule assms(3))
qed

lemma js_sub_units_nonneg:
  assumes "n \<le> m" "\<bar>m\<bar> \<le> unit_bound" "\<bar>n\<bar> \<le> unit_bound"
  obtains d where "js_sub (JFin (unit_val m)) (JFin (unit_val n)) = JFin d" "0 \<le> d"
proof -
  have "(2::rat) ^ 36 + 1 + (2 ^ 36 + 1) \<le> 2 ^ 40" by simp
  then have "\<bar>unit_val m - unit_val n\<bar> \<le> 2 ^ 40"
    using unit_val_size [OF assms(2)] unit_val_size [OF assms(3)] by linarith
  moreover have "0 \<le> round64 (unit_val m - unit_val n)"
    using assms(1) unit_val_mono [of n m] by (intro round64_nonneg) simp
  ultimately show thesis using that by (simp add: js_sub_JFin js_of_rat_small)
qed

lemma fix4_max_sub_units:
  assumes "n \<le> m" "\<bar>m\<bar> \<le> unit_bound" "\<bar>n\<bar> \<le> unit_bound" "m - n \<le> unit_bound"
  shows "fix4 (js_max (JFin 0) (js_sub (JFin (unit_val m)) (JFin (unit_val n)))) = JFin (unit_val (m - n))"
proof -
  obtain d where d: "js_sub (JFin (unit_val m)) (JFin (unit_val n)) = JFin d" "0 \<le> d"
    using assms(1-3) by (rule js_sub_units_nonneg)
  have "fix4 (JFin d) = JFin (unit_val (m - n))"
    using fix4_sub_units [of m n] assms d(1) by simp
  then show ?thesis using d by (simp add: js_max_JFin)
qed

section \<open>The tolerance\<close>

lemma EPS_val: obtains e where "EPS = JFin e" "0 \<le> e" "e \<le> 1 / 2 ^ 20"
proof -
  have "round64 (1 / 1000000000) \<le> round64 (2 powi (- 20))"
    by (intro round64_mono) (simp add: power_int_minus)
  also have "\<dots> = 1 / 2 ^ 20" by (subst round64_powi) (simp_all add: power_int_minus)
  finally have "round64 (1 / 1000000000) \<le> 1 / 2 ^ 20" .
  moreover have "EPS = JFin (round64 (1 / 1000000000))" by (simp add: EPS_def js_of_rat_small)
  ultimately show thesis using that round64_nonneg [of "1 / 1000000000"] by simp
qed

text \<open>
  A Number that does not exceed an amount by more than the tolerance prints as at most
  that amount: the tolerance is far below half a unit.
\<close>

lemma within_eps_units:
  assumes "\<not> js_lt (js_add (JFin (unit_val n)) EPS) (JFin q)" "\<bar>n\<bar> \<le> unit_bound"
  shows "fixed4 q \<le> n"
proof -
  obtain e where e: "EPS = JFin e" "0 \<le> e" "e \<le> 1 / 2 ^ 20" by (rule EPS_val)
  have c: "(2::rat) ^ 36 + 1 + 1 / 2 ^ 20 \<le> 2 ^ 40" "1 / 2 ^ 16 + 1 / 2 ^ 20 \<le> (2 / 2 ^ 16 :: rat)"
    by simp_all
  have "\<bar>unit_val n + e\<bar> \<le> 2 ^ 40" using unit_val_size [OF assms(2)] e c(1) by linarith
  then have "js_add (JFin (unit_val n)) EPS = JFin (round64 (unit_val n + e))"
    by (simp add: e js_of_rat_small)
  with assms(1) have "q \<le> round64 (unit_val n + e)" by simp
  then have "fixed4 q \<le> fixed4 (round64 (unit_val n + e))" by (rule fixed4_mono)
  also have "\<dots> = n"
    using unit_val_error [OF assms(2)] e c(2) assms(2) by (intro fixed4_near_sum) linarith+
  finally show ?thesis .
qed

lemma units_within_eps:
  assumes "m \<le> n" "\<bar>m\<bar> \<le> unit_bound" "\<bar>n\<bar> \<le> unit_bound"
  shows "\<not> js_lt (js_add (JFin (unit_val n)) EPS) (JFin (unit_val m))"
proof -
  obtain e where e: "EPS = JFin e" "0 \<le> e" "e \<le> 1 / 2 ^ 20" by (rule EPS_val)
  have c: "(2::rat) ^ 36 + 1 + 1 / 2 ^ 20 \<le> 2 ^ 40" by simp
  have "\<bar>unit_val n + e\<bar> \<le> 2 ^ 40" using unit_val_size [OF assms(3)] e c by linarith
  then have s: "js_add (JFin (unit_val n)) EPS = JFin (round64 (unit_val n + e))"
    by (simp add: e js_of_rat_small)
  have "unit_val m \<le> round64 (unit_val m)"
    unfolding unit_val_def using round64_idem by simp
  then show ?thesis unfolding s
    using round64_mono [of "unit_val m" "unit_val n + e"] unit_val_mono [OF assms(1)] e(2)
    by simp
qed

lemma eps_self:
  "\<not> js_lt EPS (js_abs (js_sub (JFin (unit_val n)) (JFin (unit_val n))))"
proof -
  obtain e where e: "EPS = JFin e" "0 \<le> e" by (rule EPS_val)
  show ?thesis unfolding e(1) using e(2) by (simp add: js_sub_JFin js_of_rat_def)
qed

end
