(* ===== verification/LedgerSafety.thy ===== *)
theory LedgerSafety
  imports LedgerArith
begin

text \<open>
  What the ledger keeps: unique row ids and idempotency keys, balances that are never
  negative, and for every debit a sum of linked refunds that never exceeds it. Every
  operation keeps this invariant, changes the total of one account by exactly the amounts
  of the rows it appends, and never changes a row of the transaction table.
\<close>

section \<open>The invariant\<close>

definition accounts_ok :: "ledger \<Rightarrow> bool" where
  "accounts_ok s \<longleftrightarrow>
     distinct (map ma_id (manna_accounts s)) \<and>
     distinct (map ma_account_id (manna_accounts s)) \<and>
     (\<forall>r \<in> set (manna_accounts s).
        ma_id r < next_id s \<and> 0 \<le> ma_balance r \<and> 0 \<le> ma_subscription_balance r)"

definition tx_keys :: "ledger \<Rightarrow> string list" where
  "tx_keys s = List.map_filter tx_idempotency_key (manna_transactions s)"

definition txs_ok :: "ledger \<Rightarrow> bool" where
  "txs_ok s \<longleftrightarrow>
     distinct (map tx_id (manna_transactions s)) \<and> distinct (tx_keys s) \<and>
     (\<forall>t \<in> set (manna_transactions s).
        tx_id t < next_id s \<and> - unit_bound \<le> tx_amount t \<and>
        (\<forall>j. tx_refunds_transaction_id t = Some j \<longrightarrow> j < next_id s))"

definition refunded_units :: "nat \<Rightarrow> ledger \<Rightarrow> int" where
  "refunded_units i s = linked_refunds (\<lambda>_. True) i s"

definition refunds_ok :: "ledger \<Rightarrow> bool" where
  "refunds_ok s \<longleftrightarrow>
     (\<forall>t \<in> set (manna_transactions s).
        tx_amount t < 0 \<longrightarrow> refunded_units (tx_id t) s \<le> - tx_amount t)"

definition ledger_inv :: "ledger \<Rightarrow> bool" where
  "ledger_inv s \<longleftrightarrow> accounts_ok s \<and> txs_ok s \<and> refunds_ok s"

text \<open>The total of the pots of one ledger account, and the sum of its rows.\<close>

definition account_total :: "nat \<Rightarrow> ledger \<Rightarrow> int" where
  "account_total i s =
     sum_list (map (\<lambda>r. ma_balance r + ma_subscription_balance r)
       (filter (\<lambda>r. ma_id r = i) (manna_accounts s)))"

definition rows_total :: "nat \<Rightarrow> ledger \<Rightarrow> int" where
  "rows_total i s =
     sum_list (map tx_amount
       (filter (\<lambda>t. tx_manna_account_id t = i) (manna_transactions s)))"

section \<open>Frame facts\<close>

lemma update_account_frame [frame_simps, simp]:
  "manna_transactions (update_account i f s) = manna_transactions s"
  "next_id (update_account i f s) = next_id s"
  "accounts (update_account i f s) = accounts s"
  "linked_refunds p j (update_account i f s) = linked_refunds p j s"
  "refunded_units j (update_account i f s) = refunded_units j s"
  "tx_keys (update_account i f s) = tx_keys s"
  "violates_unique t (update_account i f s) = violates_unique t s"
  by (simp_all add: update_account_def linked_refunds_def refunded_units_def tx_keys_def violates_unique_def)

lemma insert_transaction_InrD:
  assumes "insert_transaction t s = Inr (s', row)"
  shows "row = t\<lparr>tx_id := next_id s\<rparr>" "manna_transactions s' = manna_transactions s @ [row]"
    "next_id s' = Suc (next_id s)" "manna_accounts s' = manna_accounts s" "accounts s' = accounts s"
    "\<not> violates_unique t s"
  using assms by (auto simp: insert_transaction_def Let_def split: if_splits)

lemma linked_refunds_append:
  "manna_transactions s' = manna_transactions s @ [row] \<Longrightarrow>
   linked_refunds p j s' = linked_refunds p j s +
     (if tx_refunds_transaction_id row = Some j \<and> p row \<and> 0 < tx_amount row then tx_amount row else 0)"
  by (simp add: linked_refunds_def)

lemma linked_refunds_nonneg: "0 \<le> linked_refunds p j s"
  unfolding linked_refunds_def by (intro sum_list_nonneg) auto

lemma linked_refunds_none:
  "(\<forall>t \<in> set (manna_transactions s). tx_refunds_transaction_id t \<noteq> Some j) \<Longrightarrow> linked_refunds p j s = 0"
  by (simp add: linked_refunds_def filter_False)

lemma tx_keys_append:
  "manna_transactions s' = manna_transactions s @ [row] \<Longrightarrow>
   tx_keys s' = tx_keys s @ (case tx_idempotency_key row of None \<Rightarrow> [] | Some k \<Rightarrow> [k])"
  by (simp add: tx_keys_def map_filter_def split: option.splits)

lemma set_tx_keys: "k \<in> set (tx_keys s) \<longleftrightarrow> (\<exists>t \<in> set (manna_transactions s). tx_idempotency_key t = Some k)"
  by (force simp: tx_keys_def map_filter_def)

lemma findTransactionByKey_None: "findTransactionByKey k s = None \<longleftrightarrow> k \<notin> set (tx_keys s)"
  by (auto simp: findTransactionByKey_def find_None_iff set_tx_keys)

lemma findTransactionByKey_SomeD:
  "findTransactionByKey k s = Some t \<Longrightarrow>
   t \<in> set (manna_transactions s) \<and> tx_idempotency_key t = Some k"
  unfolding findTransactionByKey_def by (drule find_SomeD) simp

lemma findTransactionByKey_append:
  "manna_transactions s' = manna_transactions s @ [row] \<Longrightarrow>
   findTransactionByKey k s' =
     (case findTransactionByKey k s of Some t \<Rightarrow> Some t
      | None \<Rightarrow> if tx_idempotency_key row = Some k then Some row else None)"
  by (simp add: findTransactionByKey_def find_append split: option.splits)

lemma manna_row_SomeD: "manna_row i s = Some r \<Longrightarrow> r \<in> set (manna_accounts s) \<and> ma_id r = i"
  unfolding manna_row_def by (drule find_SomeD) simp

lemma violates_unique_key:
  "\<not> violates_unique t s \<Longrightarrow> tx_idempotency_key t = Some k \<Longrightarrow> k \<notin> set (tx_keys s)"
  by (force simp: violates_unique_def set_tx_keys list_ex_iff)

section \<open>One write keeps the invariant\<close>

definition keeps_ids :: "(manna_account \<Rightarrow> manna_account) \<Rightarrow> bool" where
  "keeps_ids f \<longleftrightarrow> (\<forall>r. ma_id (f r) = ma_id r \<and> ma_account_id (f r) = ma_account_id r)"

lemma keeps_ids_rows [simp]:
  "keeps_ids (draw_down a now)" "keeps_ids (credit_row p a now)" "keeps_ids (refund_row d sub now)"
  by (simp_all add: keeps_ids_def draw_down_def credit_row_def refund_row_def)

lemma update_account_maps:
  "keeps_ids f \<Longrightarrow> map ma_id (manna_accounts (update_account i f s)) = map ma_id (manna_accounts s)"
  "keeps_ids f \<Longrightarrow>
     map ma_account_id (manna_accounts (update_account i f s)) = map ma_account_id (manna_accounts s)"
  by (simp_all add: update_account_def keeps_ids_def)

lemma accounts_ok_update:
  assumes "accounts_ok s" "keeps_ids f"
    "\<And>r. r \<in> set (manna_accounts s) \<Longrightarrow> ma_id r = i \<Longrightarrow>
       0 \<le> ma_balance (f r) \<and> 0 \<le> ma_subscription_balance (f r)"
  shows "accounts_ok (update_account i f s)"
proof -
  have ids: "ma_id (f r) = ma_id r" for r using assms(2) by (simp add: keeps_ids_def)
  show ?thesis
    using assms(1,3) unfolding accounts_ok_def update_account_maps [OF assms(2)]
    by (auto simp: update_account_def ids)
qed

lemma ledger_inv_write:
  assumes inv: "ledger_inv s" and ins: "insert_transaction t (update_account i f s) = Inr (s', row)"
    and f: "keeps_ids f"
      "\<And>r. r \<in> set (manna_accounts s) \<Longrightarrow> ma_id r = i \<Longrightarrow>
         0 \<le> ma_balance (f r) \<and> 0 \<le> ma_subscription_balance (f r)"
    and amt: "- unit_bound \<le> tx_amount t"
    and ref: "\<And>j. tx_refunds_transaction_id t = Some j \<Longrightarrow> j < next_id s \<and>
         (\<forall>u \<in> set (manna_transactions s). tx_id u = j \<and> tx_amount u < 0 \<longrightarrow>
            refunded_units j s + max 0 (tx_amount t) \<le> - tx_amount u)"
  shows "ledger_inv s'"
proof -
  note d = insert_transaction_InrD [OF ins, simplified]
  have A: "accounts_ok (update_account i f s)"
    using inv f by (intro accounts_ok_update) (simp_all add: ledger_inv_def)
  then have acc: "accounts_ok s'"
    using d(3,4) by (auto simp: accounts_ok_def)
  have T: "txs_ok s" and R: "refunds_ok s" using inv by (simp_all add: ledger_inv_def)
  have key: "distinct (tx_keys s')"
    using T violates_unique_key [OF d(6)] unfolding tx_keys_append [OF d(2)]
    by (auto simp: txs_ok_def d(1) split: option.splits)
  have txs: "txs_ok s'"
    using T key amt ref unfolding txs_ok_def
    by (auto simp: d(1-3) less_Suc_eq dest: less_imp_neq)
  have fresh: "refunded_units (next_id s) s = 0"
    unfolding refunded_units_def using T by (intro linked_refunds_none) (auto simp: txs_ok_def)
  have ref': "refunded_units j s' = refunded_units j s +
      (if tx_refunds_transaction_id t = Some j \<and> 0 < tx_amount t then tx_amount t else 0)" for j
    unfolding refunded_units_def by (subst linked_refunds_append [OF d(2)]) (simp add: d(1))
  have "refunds_ok s'"
    unfolding refunds_ok_def
  proof (intro ballI impI)
    fix u assume u: "u \<in> set (manna_transactions s')" and neg: "tx_amount u < 0"
    show "refunded_units (tx_id u) s' \<le> - tx_amount u"
    proof (cases "u \<in> set (manna_transactions s)")
      case True
      then have "refunded_units (tx_id u) s \<le> - tx_amount u" using R neg by (simp add: refunds_ok_def)
      then show ?thesis using ref [of "tx_id u"] True neg by (auto simp: ref')
    next
      case False
      then have "u = row" using u d(2) by simp
      then show ?thesis using neg ref [of "next_id s"] fresh by (auto simp: ref' d(1))
    qed
  qed
  with acc txs show ?thesis by (simp add: ledger_inv_def)
qed

section \<open>Append-only tables\<close>

text \<open>
  \<open>extends s s'\<close>: every transaction row of \<open>s\<close> is still there, unchanged and in
  the same order, and new rows follow.
\<close>

definition extends :: "ledger \<Rightarrow> ledger \<Rightarrow> bool" where
  "extends s s' \<longleftrightarrow> (\<exists>ts. manna_transactions s' = manna_transactions s @ ts)"

lemma extends_refl [simp, intro]: "extends s s"
  by (simp add: extends_def)

lemma extends_trans: "extends s t \<Longrightarrow> extends t u \<Longrightarrow> extends s u"
  by (auto simp: extends_def)

lemma extends_rows: "extends s s' \<Longrightarrow> t \<in> set (manna_transactions s) \<Longrightarrow> t \<in> set (manna_transactions s')"
  by (auto simp: extends_def)

lemma extends_keys: "extends s s' \<Longrightarrow> k \<in> set (tx_keys s) \<Longrightarrow> k \<in> set (tx_keys s')"
  by (auto simp: set_tx_keys dest: extends_rows)

lemma extends_find:
  "extends s s' \<Longrightarrow> findTransactionByKey k s = Some t \<Longrightarrow> findTransactionByKey k s' = Some t"
  by (auto simp: extends_def findTransactionByKey_def find_append)

text \<open>
  \<open>drift i s\<close> is the money of account \<open>i\<close> that its rows do not explain (a migrated
  opening balance). No operation changes it: the pots change by the sum of the rows.
\<close>

definition drift :: "nat \<Rightarrow> ledger \<Rightarrow> int" where
  "drift i s = account_total i s - rows_total i s"

definition evolves :: "ledger \<Rightarrow> ledger \<Rightarrow> bool" where
  "evolves s s' \<longleftrightarrow> extends s s' \<and> (\<forall>i. drift i s' = drift i s)"

lemma evolves_refl [simp, intro]: "evolves s s"
  by (simp add: evolves_def)

lemma evolves_trans [trans]: "evolves s t \<Longrightarrow> evolves t u \<Longrightarrow> evolves s u"
  by (auto simp: evolves_def intro: extends_trans)

lemma evolves_extends: "evolves s s' \<Longrightarrow> extends s s'"
  by (simp add: evolves_def)

lemma the_row:
  assumes "accounts_ok s" "manna_row i s = Some r"
  shows "filter (\<lambda>q. ma_id q = i) (manna_accounts s) = [r]"
proof -
  have "distinct (map ma_id xs) \<Longrightarrow> find (\<lambda>q. ma_id q = i) xs = Some r \<Longrightarrow>
      filter (\<lambda>q. ma_id q = i) xs = [r]" for xs
    by (induction xs) (auto simp: filter_empty_conv split: if_splits, metis imageI)
  then show ?thesis using assms by (simp add: accounts_ok_def manna_row_def)
qed

lemma account_total_update:
  assumes "accounts_ok s" "manna_row i s = Some r" "keeps_ids f"
  shows "account_total j (update_account i f s) = account_total j s +
    (if j = i then ma_balance (f r) + ma_subscription_balance (f r)
                   - ma_balance r - ma_subscription_balance r else 0)"
proof -
  have ids: "ma_id (f q) = ma_id q" for q using assms(3) by (simp add: keeps_ids_def)
  have fm: "filter (\<lambda>q. ma_id q = j) (map (\<lambda>q. if ma_id q = i then f q else q) xs) =
      map (\<lambda>q. if ma_id q = i then f q else q) (filter (\<lambda>q. ma_id q = j) xs)" for xs j
    by (induction xs) (auto simp: ids)
  show ?thesis
  proof (cases "j = i")
    case True
    then show ?thesis using the_row [OF assms(1,2)] manna_row_SomeD [OF assms(2)]
      by (simp add: account_total_def update_account_def fm del: filter_map)
  next
    case False
    have "map (\<lambda>q. if ma_id q = i then f q else q) (filter (\<lambda>q. ma_id q = j) xs) =
        filter (\<lambda>q. ma_id q = j) xs" for xs
      using False by (intro map_idI) auto
    then show ?thesis using False by (simp add: account_total_def update_account_def fm del: filter_map)
  qed
qed

lemma evolves_write:
  assumes "accounts_ok s" "manna_row i s = Some r" "keeps_ids f"
    and ins: "insert_transaction t (update_account i f s) = Inr (s', row)"
    and t: "tx_manna_account_id t = i"
      "ma_balance (f r) + ma_subscription_balance (f r) = ma_balance r + ma_subscription_balance r + tx_amount t"
  shows "evolves s s'"
proof -
  note d = insert_transaction_InrD [OF ins, simplified]
  have "account_total j s' = account_total j (update_account i f s)" for j
    using d(4) by (simp add: account_total_def)
  moreover have "rows_total j s' = rows_total j s + (if j = i then tx_amount t else 0)" for j
    using d(1,2) t(1) by (auto simp: rows_total_def)
  ultimately show ?thesis
    using d(2) t(2) by (auto simp: evolves_def drift_def extends_def account_total_update [OF assms(1-3)])
qed

text \<open>What other transactions may commit meanwhile: anything that keeps the invariant.\<close>

definition ok_env :: "(ledger \<Rightarrow> ledger) \<Rightarrow> bool" where
  "ok_env env \<longleftrightarrow> (\<forall>s. ledger_inv s \<longrightarrow> ledger_inv (env s) \<and> evolves s (env s))"

lemma ok_env_id [simp]: "ok_env (\<lambda>x. x)"
  by (simp add: ok_env_def)

lemma ok_envD: "ok_env env \<Longrightarrow> ledger_inv s \<Longrightarrow> ledger_inv (env s)"
  "ok_env env \<Longrightarrow> ledger_inv s \<Longrightarrow> evolves s (env s)"
  by (auto simp: ok_env_def)

section \<open>Debits\<close>

lemma account_row_SomeD:
  "account_row a s = Some r \<Longrightarrow> r \<in> set (manna_accounts s) \<and> ma_account_id r = a"
  unfolding account_row_def by (drule find_SomeD) simp

lemma account_row_NoneD: "account_row a s = None \<Longrightarrow> a \<notin> ma_account_id ` set (manna_accounts s)"
  by (auto simp: account_row_def find_None_iff)

lemma getOrCreate_id_cases:
  assumes "getOrCreateMannaAccount (\<lambda>x. x) a now s = Inr (s', r)"
  obtains "s' = s" "account_row a s = Some r"
  | "account_row a s = None" "manna_accounts s' = manna_accounts s @ [r]"
    "ma_id r = next_id s" "ma_account_id r = a" "ma_balance r = 0" "ma_subscription_balance r = 0"
    "manna_transactions s' = manna_transactions s" "next_id s' = Suc (next_id s)" "a \<in> set (accounts s)"
  using assms by (auto simp: getOrCreateMannaAccount_def Let_def split: option.splits if_splits)

lemma getOrCreate_inv:
  assumes "getOrCreateMannaAccount (\<lambda>x. x) a now s = Inr (s', r)" "ledger_inv s"
  shows "ledger_inv s'" "evolves s s'" "r \<in> set (manna_accounts s')"
    "manna_transactions s' = manna_transactions s"
proof -
  have lr: "refunded_units i s' = refunded_units i s"
    if "manna_transactions s' = manna_transactions s" for i
    using that by (simp add: refunded_units_def linked_refunds_def)
  from assms(1) show "ledger_inv s'"
  proof (cases rule: getOrCreate_id_cases)
    case 1
    then show ?thesis using assms(2) by simp
  next
    case 2
    have "accounts_ok s'"
      using assms(2) 2 account_row_NoneD [OF 2(1)] unfolding ledger_inv_def accounts_ok_def
      by (auto simp: less_Suc_eq)
    moreover have "txs_ok s'"
      using assms(2) 2 unfolding ledger_inv_def txs_ok_def tx_keys_def by (auto simp: less_Suc_eq)
    moreover have "refunds_ok s'"
      using assms(2) 2 lr unfolding ledger_inv_def refunds_ok_def by auto
    ultimately show ?thesis by (simp add: ledger_inv_def)
  qed
  from assms(1) show "evolves s s'" "r \<in> set (manna_accounts s')"
    "manna_transactions s' = manna_transactions s"
    by (cases rule: getOrCreate_id_cases;
        auto simp: evolves_def extends_def drift_def account_total_def rows_total_def
          dest: account_row_SomeD)+
qed

text \<open>The amount of a debit in units, and the range the theorems are about.\<close>

definition debit_units :: "debit_params \<Rightarrow> int" where
  "debit_units p = (case dp_amount p of JFin x \<Rightarrow> fixed4 x | _ \<Rightarrow> 0)"

lemma assertValidAmount_InrD:
  "assertValidAmount v = Inr u \<Longrightarrow> \<exists>x. v = JFin x \<and> 0 < x \<and> 0 < fixed4 x"
proof (cases v)
  case (JFin x)
  moreover assume ok: "assertValidAmount v = Inr u"
  ultimately have x: "0 < x" by (auto simp: assertValidAmount_def split: if_splits)
  have "fixed4 x \<noteq> 0"
  proof
    assume "fixed4 x = 0"
    then show False using ok JFin by (auto simp: assertValidAmount_def fix4_def split: if_splits)
  qed
  with fixed4_nonneg [of x] x JFin show ?thesis by simp
qed (auto simp: assertValidAmount_def)

lemma distinct_row:
  "accounts_ok s \<Longrightarrow> manna_row i s = Some r \<Longrightarrow> q \<in> set (manna_accounts s) \<Longrightarrow> ma_id q = i \<Longrightarrow> q = r"
  using manna_row_SomeD [of i s r] by (auto simp: accounts_ok_def distinct_map inj_on_def)

lemma apply_debit_InrD:
  assumes "apply_debit p now i s = Inr (s', r)" "dp_amount p = JFin x"
  obtains locked row where
    "manna_row i s = Some locked"
    "fixed4 x \<le> ma_balance locked + ma_subscription_balance locked"
    "insert_transaction
       ((blank_tx i (- fixed4 x) now)\<lparr>tx_type := Some (dp_type p),
          tx_idempotency_key := Some (dp_idempotencyKey p),
          tx_task_external_id := dp_taskExternalId p\<rparr>)
       (update_account i (draw_down (fixed4 x) now) s) = Inr (s', row)"
    "r = \<lparr>lr_transaction = row, lr_balance = balanceFromRow (Some (draw_down (fixed4 x) now locked)),
          lr_alreadyApplied = False,
          lr_subscriptionDrawn =
            Some (fix4 (js_min (numericToNumber (ma_subscription_balance locked)) (JFin x)))\<rparr>"
  using assms
  by (auto simp: apply_debit_def numberToNumeric_def fixed4_uminus Let_def ebind_Inr_iff
      split: option.splits if_splits)

lemma apply_debit_inv:
  assumes "apply_debit p now i s = Inr (s', r)" "dp_amount p = JFin x" "0 < fixed4 x"
    "fixed4 x \<le> unit_bound" "ledger_inv s"
  shows "ledger_inv s'" "evolves s s'"
proof -
  from assms(1,2) obtain locked row where
    l: "manna_row i s = Some locked" "fixed4 x \<le> ma_balance locked + ma_subscription_balance locked"
    and ins: "insert_transaction
       ((blank_tx i (- fixed4 x) now)\<lparr>tx_type := Some (dp_type p),
          tx_idempotency_key := Some (dp_idempotencyKey p),
          tx_task_external_id := dp_taskExternalId p\<rparr>)
       (update_account i (draw_down (fixed4 x) now) s) = Inr (s', row)"
    by (rule apply_debit_InrD)
  have A: "accounts_ok s" using assms(5) by (simp add: ledger_inv_def)
  from ins show "ledger_inv s'"
  proof (rule ledger_inv_write [OF assms(5)])
    fix q assume "q \<in> set (manna_accounts s)" "ma_id q = i"
    then have "q = locked" by (rule distinct_row [OF A l(1)])
    moreover have "0 \<le> ma_balance locked" "0 \<le> ma_subscription_balance locked"
      using A manna_row_SomeD [OF l(1)] by (auto simp: accounts_ok_def)
    ultimately show "0 \<le> ma_balance (draw_down (fixed4 x) now q) \<and>
        0 \<le> ma_subscription_balance (draw_down (fixed4 x) now q)"
      using l(2) by (simp add: draw_down_def)
  qed (use assms(4) in \<open>simp_all add: blank_tx_def\<close>)
  show "evolves s s'"
    by (rule evolves_write [OF A l(1) _ ins]) (use l(2) assms(3) in \<open>auto simp: blank_tx_def draw_down_def\<close>)
qed

text \<open>A debit call either only lets the other transactions commit, or appends its row.\<close>

lemma debit_tx_cases:
  assumes "debit_tx env p now s = Inr (s', r)"
  obtains (replay) t where "findTransactionByKey (dp_idempotencyKey p) s = Some t" "s' = env s"
      "r = replay_result (dp_accountId p) t s'"
  | (locked_replay) acc t where
      "getOrCreateMannaAccount (\<lambda>x. x) (dp_accountId p) now (env s) = Inr (s', acc)"
      "findTransactionByKey (dp_idempotencyKey p) s' = Some t" "r = replay_result (dp_accountId p) t s'"
  | (charge) s1 acc where "findTransactionByKey (dp_idempotencyKey p) s = None"
      "getOrCreateMannaAccount (\<lambda>x. x) (dp_accountId p) now (env s) = Inr (s1, acc)"
      "check_daily p now s1 = Inr ()" "check_rolling p now s1 = Inr ()"
      "case dp_rollingCap p of None \<Rightarrow> True | Some rc \<Rightarrow> check_rolling_params (dp_idempotencyKey p) rc = Inr ()"
      "apply_debit p now (ma_id acc) s1 = Inr (s', r)"
proof (cases "findTransactionByKey (dp_idempotencyKey p) s")
  case (Some t)
  then show thesis using assms by (intro replay) (auto simp: debit_tx_def)
next
  case None
  then obtain s1 acc where g: "getOrCreateMannaAccount (\<lambda>x. x) (dp_accountId p) now (env s) = Inr (s1, acc)"
    using assms by (auto simp: debit_tx_def ebind_Inr_iff)
  show thesis
  proof (cases "dp_dailyCap p \<noteq> None \<or> dp_rollingCap p \<noteq> None")
    case True
    show thesis
    proof (cases "findTransactionByKey (dp_idempotencyKey p) s1")
      case (Some t)
      then show thesis using assms None g True
        by (intro locked_replay [of acc t]) (auto simp: debit_tx_def ebind_Inr_iff)
    next
      case none: None
      have "check_daily p now s1 = Inr ()" "check_rolling p now s1 = Inr ()"
        "case dp_rollingCap p of None \<Rightarrow> True | Some rc \<Rightarrow> check_rolling_params (dp_idempotencyKey p) rc = Inr ()"
        "apply_debit p now (ma_id acc) s1 = Inr (s', r)"
        using assms None g True none
        by (auto simp: debit_tx_def ebind_Inr_iff split: option.splits)
      with None g show thesis by (rule charge)
    qed
  next
    case False
    have "apply_debit p now (ma_id acc) s1 = Inr (s', r)"
      using assms None g False by (auto simp: debit_tx_def)
    moreover have "check_daily p now s1 = Inr ()" "check_rolling p now s1 = Inr ()"
      using False by (auto simp: check_daily_def check_rolling_def)
    ultimately show thesis using None g False by (intro charge) auto
  qed
qed

lemma debit_tx_inv:
  assumes "debit_tx env p now s = Inr (s', r)" "ledger_inv s" "ok_env env"
    "assertValidAmount (dp_amount p) = Inr ()" "debit_units p \<le> unit_bound"
  shows "ledger_inv s' \<and> evolves s s'"
proof -
  obtain x where x: "dp_amount p = JFin x" "0 < fixed4 x"
    using assertValidAmount_InrD [OF assms(4)] by blast
  have e: "ledger_inv (env s)" "evolves s (env s)" using ok_envD assms(2,3) by blast+
  from assms(1) show ?thesis
  proof (cases rule: debit_tx_cases)
    case (replay t)
    then show ?thesis using e by simp
  next
    case (locked_replay acc t)
    then show ?thesis using getOrCreate_inv [OF locked_replay(1) e(1)] e(2) by (blast intro: evolves_trans)
  next
    case (charge s1 acc)
    note g = getOrCreate_inv [OF charge(2) e(1)]
    have "fixed4 x \<le> unit_bound" using assms(5) x(1) by (simp add: debit_units_def)
    then show ?thesis
      using apply_debit_inv [OF charge(6) x _ g(1)] g(2) e(2) by (blast intro: evolves_trans)
  qed
qed

lemma debit_inv [inv_intros]:
  assumes "ledger_inv s" "ok_env env" "debit_units p \<le> unit_bound"
  shows "ledger_inv (fst (debit env p now s)) \<and> evolves s (fst (debit env p now s))"
proof (cases "assertValidAmount (dp_amount p)")
  case (Inr u)
  then show ?thesis
    using debit_tx_inv [OF _ assms(1,2) _ assms(3)] ok_envD [OF assms(2,1)]
    by (auto simp: debit_def split: sum.splits option.splits)
qed (use assms in \<open>simp add: debit_def\<close>)

section \<open>Credits\<close>

lemma credit_tx_inv:
  assumes "credit_tx env p now s = Inr (s', r)" "ledger_inv s" "ok_env env"
    "assertValidAmount (cp_amount p) = Inr ()"
  shows "ledger_inv s' \<and> evolves s s'"
proof -
  obtain x where x: "cp_amount p = JFin x" "0 < fixed4 x"
    using assertValidAmount_InrD [OF assms(4)] by blast
  have e: "ledger_inv (env s)" "evolves s (env s)" using ok_envD assms(2,3) by blast+
  show ?thesis
  proof (cases "case truthy_key (cp_idempotencyKey p) of None \<Rightarrow> None
            | Some k \<Rightarrow> findTransactionByKey k s")
    case (Some t)
    then show ?thesis using assms(1) e by (simp add: credit_tx_def)
  next
    case None
    then obtain s1 acc q row t where
      g: "getOrCreateMannaAccount (\<lambda>x. x) (cp_accountId p) now (env s) = Inr (s1, acc)"
      and q: "manna_row (ma_id acc) s1 = Some q"
      and ins: "insert_transaction t (update_account (ma_id acc) (credit_row p (fixed4 x) now) s1) = Inr (s', row)"
      and t: "tx_amount t = fixed4 x" "tx_refunds_transaction_id t = None"
        "tx_manna_account_id t = ma_id acc"
      using assms(1) x(1)
      by (auto simp: credit_tx_def numberToNumeric_def ebind_Inr_iff blank_tx_def
          split: option.splits if_splits)
    note gi = getOrCreate_inv [OF g e(1)]
    have A: "accounts_ok s1" using gi(1) by (simp add: ledger_inv_def)
    have "ledger_inv s'"
    proof (rule ledger_inv_write [OF gi(1) ins])
      fix u assume "u \<in> set (manna_accounts s1)"
      then show "0 \<le> ma_balance (credit_row p (fixed4 x) now u) \<and>
          0 \<le> ma_subscription_balance (credit_row p (fixed4 x) now u)"
        using A x(2) by (auto simp: accounts_ok_def credit_row_def)
    qed (use x(2) t in \<open>simp_all add: unit_bound_def\<close>)
    moreover have "evolves s1 s'"
      by (rule evolves_write [OF A q _ ins]) (use t in \<open>auto simp: credit_row_def\<close>)
    ultimately show ?thesis using gi(2) e(2) by (blast intro: evolves_trans)
  qed
qed

lemma credit_inv [inv_intros]:
  assumes "ledger_inv s" "ok_env env"
  shows "ledger_inv (fst (credit env p now s)) \<and> evolves s (fst (credit env p now s))"
proof (cases "assertValidAmount (cp_amount p)")
  case (Inr u)
  then show ?thesis
    using credit_tx_inv [OF _ assms] ok_envD [OF assms(2,1)]
    by (auto simp: credit_def split: sum.splits option.splits)
qed (use assms in \<open>simp add: credit_def\<close>)

section \<open>Refund legs\<close>

lemma js_of_rat_pos_not_ninf: "0 \<le> n \<Longrightarrow> number_of_units n \<noteq> JNegInf"
  using round64_nonneg [of "of_int n / 10000"]
  by (auto simp: number_of_units_def js_of_rat_def Let_def not_le)

text \<open>
  The share of a leg that goes back to the subscription pot, in units: the requested
  share, between nothing and the whole leg.
\<close>

definition leg_share :: "jsnum option \<Rightarrow> int \<Rightarrow> int" where
  "leg_share ts k =
     (case ts of Some (JFin t) \<Rightarrow> min (max (fixed4 t) 0) k
      | Some JPosInf \<Rightarrow> k | _ \<Rightarrow> 0)"

lemma fixed4_max0: "fixed4 (max t 0) = max (fixed4 t) 0"
proof -
  have "fixed4 0 = 0" by (simp add: fixed4_def)
  then show ?thesis using fixed4_mono [of t 0] fixed4_mono [of 0 t] by (cases "t \<le> 0") (auto simp: max_def)
qed

lemma fixed4_min: "fixed4 (min a b) = min (fixed4 a) (fixed4 b)"
  using fixed4_mono [of a b] fixed4_mono [of b a] by (cases "a \<le> b") (auto simp: min_def)

lemma leg_share_bounds: "0 \<le> k \<Longrightarrow> 0 \<le> leg_share ts k \<and> leg_share ts k \<le> k"
  by (auto simp: leg_share_def split: option.splits jsnum.splits)

lemma fix4_leg_share:
  assumes "0 \<le> k" "k \<le> unit_bound" "ts \<noteq> Some JNaN"
  shows "fix4 (js_min (js_max (case ts of None \<Rightarrow> JFin 0 | Some t \<Rightarrow> t) (JFin 0)) (JFin (unit_val k)))
    = JFin (unit_val (leg_share ts k))"
proof -
  have u: "fixed4 (unit_val k) = k" "0 \<le> unit_val k" using assms by (simp_all add: unit_val_nonneg)
  have fin: "fix4 (JFin (min (max t 0) (unit_val k))) = JFin (unit_val (min (max (fixed4 t) 0) k))" for t
    using assms(1,2) u(1)
    by (simp add: fix4_def fixed4_min fixed4_max0 number_of_units_val)
  consider (none) "ts = None" | (inf) "ts = Some JPosInf" | (ninf) "ts = Some JNegInf"
    | (fin) t where "ts = Some (JFin t)"
    using assms(3) by (metis jsnum.exhaust option.exhaust)
  then show ?thesis
  proof cases
    case none
    then show ?thesis using fin [of 0] u(2) assms(1)
      by (simp add: leg_share_def js_max_JFin js_min_JFin fixed4_def)
  next
    case inf
    have "js_min (js_max JPosInf (JFin 0)) (JFin (unit_val k)) = JFin (unit_val k)"
      by (simp add: js_min_def js_max_def)
    then show ?thesis using inf assms by (simp add: leg_share_def fix4_unit_val)
  next
    case ninf
    have "js_min (js_max JNegInf (JFin 0)) (JFin (unit_val k)) = JFin (min (max 0 0) (unit_val k))"
      using u(2) by (simp add: js_min_def js_max_def)
    then show ?thesis using fin [of 0] ninf assms(1) by (simp add: leg_share_def fixed4_def)
  next
    case (fin t)
    then show ?thesis using \<open>fix4 (JFin (min (max t 0) (unit_val k))) = _\<close>
      by (simp add: leg_share_def js_max_JFin js_min_JFin)
  qed
qed

text \<open>The row a leg inserts, and what a leg that is applied writes.\<close>

definition leg_tx :: "refund_leg_params \<Rightarrow> string \<Rightarrow> manna_transaction \<Rightarrow> int \<Rightarrow> int \<Rightarrow> manna_transaction" where
  "leg_tx p legKey original k now =
     (blank_tx (tx_manna_account_id original) k now)\<lparr>
        tx_type := Some (case rl_type p of None \<Rightarrow> ''refund'' | Some t \<Rightarrow> t),
        tx_idempotency_key := Some legKey,
        tx_refunds_transaction_id := Some (tx_id original),
        tx_task_external_id := tx_task_external_id original\<rparr>"

lemma apply_leg_eq:
  assumes "0 \<le> k" "k \<le> unit_bound" "rl_toSubscription p \<noteq> Some JNaN"
    and j: "j = leg_share (rl_toSubscription p) k"
  shows "apply_leg p legKey original refundable (JFin (unit_val k)) now s =
     (case manna_row (tx_manna_account_id original) s of
        None \<Rightarrow> Inl MannaAccountLost
      | Some r \<Rightarrow>
          if \<not> row_fits (refund_row (k - j) j now r) then Inl PgNumericOverflow
          else ebind (insert_transaction (leg_tx p legKey original k now)
              (update_account (tx_manna_account_id original) (refund_row (k - j) j now) s)) (\<lambda>(s', row).
            Inr (s', Some \<lparr>rr_transaction = Some row,
                       rr_balance = balanceFromRow (Some (refund_row (k - j) j now r)),
                       rr_alreadyApplied = False, rr_appliedManna = JFin (unit_val k),
                       rr_remainingRefundable = fix4 (js_sub refundable (JFin (unit_val k)))\<rparr>)))"
proof -
  have jb: "0 \<le> j" "j \<le> k" using leg_share_bounds [OF assms(1)] by (simp_all add: j)
  have sub: "fix4 (js_min (js_max (case rl_toSubscription p of None \<Rightarrow> JFin 0 | Some t \<Rightarrow> t) (JFin 0))
      (JFin (unit_val k))) = JFin (unit_val j)"
    using fix4_leg_share [OF assms(1-3)] by (simp add: j)
  have dur: "fix4 (js_sub (JFin (unit_val k)) (JFin (unit_val j))) = JFin (unit_val (k - j))"
    using assms(1,2) jb by (intro fix4_sub_units) simp_all
  have "\<bar>k\<bar> \<le> unit_bound" "\<bar>j\<bar> \<le> unit_bound" "\<bar>k - j\<bar> \<le> unit_bound" using assms(1,2) jb by simp_all
  note u = this [THEN fixed4_unit_val]
  show ?thesis
    unfolding apply_leg_def Let_def sub dur
    by (cases "manna_row (tx_manna_account_id original) s") (simp_all add: numberToNumeric_def u leg_tx_def)
qed

lemma apply_leg_InrD:
  assumes "apply_leg p legKey original refundable (JFin (unit_val k)) now s = Inr (s', res)"
    "0 \<le> k" "k \<le> unit_bound"
  obtains r row j where "manna_row (tx_manna_account_id original) s = Some r"
    "j = leg_share (rl_toSubscription p) k" "rl_toSubscription p \<noteq> Some JNaN"
    "insert_transaction (leg_tx p legKey original k now)
       (update_account (tx_manna_account_id original) (refund_row (k - j) j now) s) = Inr (s', row)"
    "res = Some \<lparr>rr_transaction = Some row,
        rr_balance = balanceFromRow (Some (refund_row (k - j) j now r)),
        rr_alreadyApplied = False, rr_appliedManna = JFin (unit_val k),
        rr_remainingRefundable = fix4 (js_sub refundable (JFin (unit_val k)))\<rparr>"
proof -
  have nan: "rl_toSubscription p \<noteq> Some JNaN"
    using assms(1) by (auto simp: apply_leg_def numberToNumeric_def Let_def js_max_def js_min_def
        fix4_def js_sub_def ebind_Inr_iff)
  show thesis
    using assms(1) that [OF _ refl nan] unfolding apply_leg_eq [OF assms(2,3) nan refl]
    by (auto simp: ebind_Inr_iff split: option.splits if_splits)
qed

text \<open>
  The remainder of a debit, computed through Numbers, is the difference of the unit
  counts; a leg that is applied has between one unit and the remainder.
\<close>

lemma debit_row_bounds:
  assumes "ledger_inv s" "o' \<in> set (manna_transactions s)" "tx_amount o' < 0"
  shows "0 < - tx_amount o'" "- tx_amount o' \<le> unit_bound"
    "0 \<le> refunded_units (tx_id o') s" "refunded_units (tx_id o') s \<le> - tx_amount o'"
  using assms linked_refunds_nonneg [of "\<lambda>_. True" "tx_id o'" s]
  by (force simp: ledger_inv_def txs_ok_def refunds_ok_def refunded_units_def)+

lemma refundable_units:
  assumes "ledger_inv s" "o' \<in> set (manna_transactions s)" "tx_amount o' < 0"
  shows "fix4 (js_max (JFin 0) (js_sub (js_neg (numericToNumber (tx_amount o')))
            (alreadyRefundedManna (tx_id o') s)))
    = JFin (unit_val (- tx_amount o' - refunded_units (tx_id o') s))"
proof -
  note b = debit_row_bounds [OF assms]
  have "js_neg (numericToNumber (tx_amount o')) = JFin (unit_val (- tx_amount o'))"
    using b by (simp add: numericToNumber_def number_of_units_val unit_val_uminus)
  moreover have "alreadyRefundedManna (tx_id o') s = JFin (unit_val (refunded_units (tx_id o') s))"
    using b by (simp add: alreadyRefundedManna_def refunded_units_def [symmetric] number_of_units_val)
  ultimately show ?thesis using b by (simp add: fix4_max_sub_units)
qed

lemma run_leg_eq:
  assumes "findTransactionByKey legKey s = None" "findTransactionByKey (rl_originalIdempotencyKey p) s = Some o'"
    and "ledger_inv (env s)" "o' \<in> set (manna_transactions (env s))" "tx_amount o' < 0"
    and m: "m = - tx_amount o' - refunded_units (tx_id o') (env s)"
    and req: "req = (case rl_amount p of None \<Rightarrow> JFin (unit_val m) | Some a \<Rightarrow> a)"
  shows "run_leg env p legKey now s =
       (if \<not> is_finite req \<or> js_lt req (JFin 0) then Inl (RefundAmountInvalid req)
        else if js_lt (js_add (JFin (unit_val m)) EPS) req
        then Inl (RefundExceedsRemainder req (JFin (unit_val m)))
        else if js_le (fix4 req) (JFin 0)
        then Inr (env s, Some \<lparr>rr_transaction = None,
               rr_balance = balanceOfMannaAccount (tx_manna_account_id o') (env s),
               rr_alreadyApplied = False, rr_appliedManna = JFin 0,
               rr_remainingRefundable = JFin (unit_val m)\<rparr>)
        else apply_leg p legKey o' (JFin (unit_val m)) (fix4 req) now (env s))"
proof -
  note b = debit_row_bounds [OF assms(3-5)]
  have "0 < unit_val (- tx_amount o')" using b by (intro unit_val_pos) simp_all
  then have "js_lt (JFin 0) (js_neg (numericToNumber (tx_amount o')))"
    using b by (simp add: numericToNumber_def number_of_units_val unit_val_uminus)
  then show ?thesis
    using assms(1,2) refundable_units [OF assms(3-5), folded m]
    by (cases "rl_amount p") (simp_all add: run_leg_def Let_def req)
qed

lemma run_leg_cases:
  assumes "run_leg env p legKey now s = Inr (s', res)" "ledger_inv (env s)" "extends s (env s)"
  obtains (replay) existing r where "findTransactionByKey legKey s = Some existing" "s' = s" "res = Some r"
      "replay_leg p legKey (findTransactionByKey (rl_originalIdempotencyKey p) s) existing s = Inr r"
  | (absent) "findTransactionByKey legKey s = None" "s' = env s" "res = None"
      "findTransactionByKey (rl_originalIdempotencyKey p) s = None"
  | (zero) o' r where "findTransactionByKey legKey s = None" "s' = env s" "res = Some r"
      "findTransactionByKey (rl_originalIdempotencyKey p) s = Some o'"
      "rr_transaction r = None" "rr_appliedManna r = JFin 0"
      "\<And>q. rl_amount p = Some (JFin q) \<Longrightarrow> fixed4 q = 0"
      "rl_amount p = None \<Longrightarrow> refunded_units (tx_id o') (env s) = - tx_amount o'"
  | (applied) o' k where "findTransactionByKey legKey s = None"
      "findTransactionByKey (rl_originalIdempotencyKey p) s = Some o'" "tx_amount o' < 0"
      "0 < k" "k \<le> - tx_amount o' - refunded_units (tx_id o') (env s)"
      "case rl_amount p of None \<Rightarrow> k = - tx_amount o' - refunded_units (tx_id o') (env s)
       | Some q \<Rightarrow> \<exists>x. q = JFin x \<and> k = fixed4 x"
      "apply_leg p legKey o' (JFin (unit_val (- tx_amount o' - refunded_units (tx_id o') (env s))))
         (JFin (unit_val k)) now (env s) = Inr (s', res)"
proof (cases "findTransactionByKey legKey s")
  case (Some existing)
  then show thesis using assms(1) replay by (auto simp: run_leg_def ebind_Inr_iff)
next
  case fresh: None
  show thesis
  proof (cases "findTransactionByKey (rl_originalIdempotencyKey p) s")
    case None
    then show thesis using assms(1) fresh absent by (simp add: run_leg_def)
  next
    case (Some o')
    have mem: "o' \<in> set (manna_transactions (env s))"
      using findTransactionByKey_SomeD [OF Some] extends_rows [OF assms(3)] by blast
    have lb: "- unit_bound \<le> tx_amount o'" using assms(2) mem by (simp add: ledger_inv_def txs_ok_def)
    have neg: "tx_amount o' < 0"
    proof (rule ccontr)
      assume "\<not> tx_amount o' < 0"
      then have "\<not> js_lt (JFin 0) (js_neg (numericToNumber (tx_amount o')))"
        using number_of_units_nonneg [of "tx_amount o'"]
        by (cases "numericToNumber (tx_amount o')") (auto simp: numericToNumber_def js_of_rat_pos_not_ninf)
      with assms(1) fresh Some show False by (simp add: run_leg_def)
    qed
    define m where "m = - tx_amount o' - refunded_units (tx_id o') (env s)"
    note b = debit_row_bounds [OF assms(2) mem neg]
    have m: "0 \<le> m" "m \<le> unit_bound" using b by (simp_all add: m_def)
    define req where "req = (case rl_amount p of None \<Rightarrow> JFin (unit_val m) | Some a \<Rightarrow> a)"
    define empty_leg where "empty_leg = \<lparr>rr_transaction = None,
        rr_balance = balanceOfMannaAccount (tx_manna_account_id o') (env s),
        rr_alreadyApplied = False, rr_appliedManna = JFin 0,
        rr_remainingRefundable = JFin (unit_val m)\<rparr>"
    note eq = run_leg_eq [where env = env, OF fresh Some assms(2) mem neg m_def req_def, folded empty_leg_def]
    obtain q where q: "req = JFin q" "0 \<le> q" "\<not> js_lt (js_add (JFin (unit_val m)) EPS) (JFin q)"
      using assms(1) unfolding eq by (cases req) (auto split: if_splits)
    define k where "k = fixed4 q"
    have k: "0 \<le> k" "k \<le> m"
      using fixed4_nonneg [OF q(2)] within_eps_units [OF q(3)] m by (simp_all add: k_def)
    have amt: "fix4 req = JFin (unit_val k)"
      using k m by (simp add: q(1) fix4_def k_def [symmetric] number_of_units_val)
    have kreq: "case rl_amount p of None \<Rightarrow> k = m | Some q \<Rightarrow> \<exists>x. q = JFin x \<and> k = fixed4 x"
      using q(1) m by (auto simp: req_def k_def split: option.splits)
    show thesis
    proof (cases "k = 0")
      case True
      have none: "fixed4 x = 0" if "rl_amount p = Some (JFin x)" for x
        using kreq True that by simp
      have all: "refunded_units (tx_id o') (env s) = - tx_amount o'" if "rl_amount p = None"
        using kreq True that by (simp add: m_def)
      have st: "s' = env s" and rs: "res = Some empty_leg"
        using assms(1) unfolding eq by (auto simp: amt True split: if_splits)
      have "rr_transaction empty_leg = None" "rr_appliedManna empty_leg = JFin 0"
        by (simp_all add: empty_leg_def)
      from zero [OF fresh st rs Some this] none all show thesis by blast
    next
      case False
      have pos: "0 < unit_val k" using False k m by (intro unit_val_pos) simp_all
      have "apply_leg p legKey o' (JFin (unit_val m)) (JFin (unit_val k)) now (env s) = Inr (s', res)"
        using assms(1) pos unfolding eq by (auto simp: amt split: if_splits)
      then show thesis using fresh Some neg False k kreq unfolding m_def by (intro applied) simp_all
    qed
  qed
qed

lemma run_leg_inv:
  assumes "run_leg env p legKey now s = Inr (s', res)" "ledger_inv s" "ok_env env"
  shows "ledger_inv s' \<and> evolves s s'"
proof -
  have e: "ledger_inv (env s)" "evolves s (env s)" using ok_envD assms(2,3) by blast+
  from assms(1) e(1) evolves_extends [OF e(2)] show ?thesis
  proof (cases rule: run_leg_cases)
    case (applied o' k)
    have mem: "o' \<in> set (manna_transactions (env s))"
      using findTransactionByKey_SomeD [OF applied(2)] extends_rows [OF evolves_extends [OF e(2)]] by blast
    note b = debit_row_bounds [OF e(1) mem applied(3)]
    have k: "0 \<le> k" "k \<le> unit_bound" using applied(4,5) b by simp_all
    from applied(7) k obtain r row j where
      r: "manna_row (tx_manna_account_id o') (env s) = Some r" and j: "j = leg_share (rl_toSubscription p) k"
      and ins: "insert_transaction (leg_tx p legKey o' k now)
         (update_account (tx_manna_account_id o') (refund_row (k - j) j now) (env s)) = Inr (s', row)"
      by (rule apply_leg_InrD)
    have jb: "0 \<le> j" "j \<le> k" using leg_share_bounds [OF k(1)] by (simp_all add: j)
    have A: "accounts_ok (env s)" using e(1) by (simp add: ledger_inv_def)
    have T: "\<forall>u \<in> set (manna_transactions (env s)). tx_id u < next_id (env s)"
      "distinct (map tx_id (manna_transactions (env s)))"
      using e(1) by (auto simp: ledger_inv_def txs_ok_def)
    have "ledger_inv s'"
    proof (rule ledger_inv_write [OF e(1) ins])
      fix u assume "u \<in> set (manna_accounts (env s))"
      then show "0 \<le> ma_balance (refund_row (k - j) j now u) \<and>
          0 \<le> ma_subscription_balance (refund_row (k - j) j now u)"
        using A jb by (auto simp: accounts_ok_def refund_row_def)
    next
      fix i assume "tx_refunds_transaction_id (leg_tx p legKey o' k now) = Some i"
      then have i: "i = tx_id o'" by (simp add: leg_tx_def)
      have uniq: "u = o'" if "u \<in> set (manna_transactions (env s))" "tx_id u = i" for u
        using T(2) mem i that by (auto simp: distinct_map inj_on_def)
      have "tx_amount (leg_tx p legKey o' k now) = k" by (simp add: leg_tx_def blank_tx_def)
      with T(1) mem applied(4,5) i uniq show "i < next_id (env s) \<and>
          (\<forall>u \<in> set (manna_transactions (env s)). tx_id u = i \<and> tx_amount u < 0 \<longrightarrow>
             refunded_units i (env s) + max 0 (tx_amount (leg_tx p legKey o' k now)) \<le> - tx_amount u)"
        by fastforce
    qed (use k in \<open>simp_all add: leg_tx_def blank_tx_def unit_bound_def\<close>)
    moreover have "evolves (env s) s'"
      by (rule evolves_write [OF A r _ ins]) (simp_all add: leg_tx_def blank_tx_def refund_row_def)
    ultimately show ?thesis using e(2) by (blast intro: evolves_trans)
  qed (use assms(2) e in auto)
qed

lemma refundLeg_inv [inv_intros]:
  assumes "ledger_inv s" "ok_env env"
  shows "ledger_inv (fst (refundLeg env p now s)) \<and> evolves s (fst (refundLeg env p now s))"
  using run_leg_inv [OF _ assms] ok_envD [OF assms(2,1)]
  by (auto simp: refundLeg_def Let_def split: sum.splits option.splits)

lemma refund_inv [inv_intros]:
  assumes "ledger_inv s" "ok_env env"
  shows "ledger_inv (fst (refund env k ty now s)) \<and> evolves s (fst (refund env k ty now s))"
proof -
  have "fst (refund env k ty now s) = fst (refundLeg env \<lparr>rl_originalIdempotencyKey = k,
      rl_amount = None, rl_key = None, rl_type = ty, rl_toSubscription = None\<rparr> now s)"
    by (auto simp: refund_def split: prod.splits sum.splits option.splits)
  then show ?thesis using refundLeg_inv [OF assms] by simp
qed

lemma settleReservation_inv [inv_intros]:
  assumes "ledger_inv s"
  shows "ledger_inv (fst (settleReservation k c rs ty now s)) \<and> evolves s (fst (settleReservation k c rs ty now s))"
proof -
  have "fst (settleReservation k c rs ty now s) = s \<or>
      (\<exists>p. fst (settleReservation k c rs ty now s) = fst (refundLeg (\<lambda>x. x) p now s))"
    by (auto simp: settleReservation_def Let_def split: prod.split sum.split option.split) (metis fst_conv)+
  then show ?thesis using refundLeg_inv [OF assms ok_env_id] assms by auto
qed

lemma reverseReservation_inv [inv_intros]:
  assumes "ledger_inv s"
  shows "ledger_inv (fst (reverseReservation k rs ty now s)) \<and> evolves s (fst (reverseReservation k rs ty now s))"
proof -
  have "fst (reverseReservation k rs ty now s) = s \<or>
      (\<exists>p. fst (reverseReservation k rs ty now s) = fst (refundLeg (\<lambda>x. x) p now s))"
    by (auto simp: reverseReservation_def Let_def split: prod.split sum.split option.split) (metis fst_conv)+
  then show ?thesis using refundLeg_inv [OF assms ok_env_id] assms by auto
qed

end
