(* ===== verification/LedgerContracts.thy ===== *)
theory LedgerContracts
  imports LedgerSafety
begin

text \<open>
  The contracts of the manna ledger: safety of any sequence of operations, the exact
  effect of a debit, idempotency under replay and under a lost race, the daily cap in
  ledger units, the attribution of rolling-cap spend by key prefix, and the pots after a
  settlement and a reversal of a reservation.
\<close>

section \<open>Sequences of operations\<close>

datatype ledger_op =
    DebitOp debit_params int
  | CreditOp credit_params int
  | RefundOp string "string option" int
  | SettleOp string jsnum jsnum "string option" int
  | ReverseOp string "jsnum option" "string option" int

fun ledger_step :: "ledger \<Rightarrow> ledger_op \<Rightarrow> ledger" where
  "ledger_step s (DebitOp p now) = fst (debit (\<lambda>x. x) p now s)"
| "ledger_step s (CreditOp p now) = fst (credit (\<lambda>x. x) p now s)"
| "ledger_step s (RefundOp k ty now) = fst (refund (\<lambda>x. x) k ty now s)"
| "ledger_step s (SettleOp k c rs ty now) = fst (settleReservation k c rs ty now s)"
| "ledger_step s (ReverseOp k rs ty now) = fst (reverseReservation k rs ty now s)"

text \<open>Debits above \<open>unit_bound\<close> (56 billion manna) are outside the theorems.\<close>

fun bounded_op :: "ledger_op \<Rightarrow> bool" where
  "bounded_op (DebitOp p now) = (debit_units p \<le> unit_bound)"
| "bounded_op op = True"

lemma ledger_step_ok:
  "ledger_inv s \<Longrightarrow> bounded_op op \<Longrightarrow> ledger_inv (ledger_step s op) \<and> evolves s (ledger_step s op)"
  by (cases op) (simp_all add: debit_inv credit_inv refund_inv settleReservation_inv reverseReservation_inv)

interpretation lm: progressing_machine ledger_step bounded_op ledger_inv evolves
  by unfold_locales (auto simp: ledger_step_ok intro: evolves_trans)

definition empty_ledger :: "string list \<Rightarrow> ledger" where
  "empty_ledger accts =
     \<lparr>accounts = accts, manna_accounts = [], manna_transactions = [], next_id = 0\<rparr>"

lemma empty_ledger_inv [simp]: "ledger_inv (empty_ledger accts)"
  by (simp add: empty_ledger_def ledger_inv_def accounts_ok_def txs_ok_def refunds_ok_def tx_keys_def
      map_filter_def)

lemma empty_ledger_drift [simp]: "drift i (empty_ledger accts) = 0"
  by (simp add: empty_ledger_def drift_def account_total_def rows_total_def)

section \<open>The state of one account\<close>

definition pots :: "nat \<Rightarrow> ledger \<Rightarrow> (int \<times> int) option" where
  "pots i s = map_option (\<lambda>r. (ma_balance r, ma_subscription_balance r)) (manna_row i s)"

lemma manna_row_update:
  "keeps_ids f \<Longrightarrow>
   manna_row j (update_account i f s) = map_option (\<lambda>r. if j = i then f r else r) (manna_row j s)"
proof -
  assume f: "keeps_ids f"
  have "find (\<lambda>r. ma_id r = j) (map (\<lambda>r. if ma_id r = i then f r else r) xs) =
     map_option (\<lambda>r. if j = i then f r else r) (find (\<lambda>r. ma_id r = j) xs)" for xs
    using f by (induction xs) (auto simp: keeps_ids_def)
  then show ?thesis by (simp add: manna_row_def update_account_def)
qed

lemma manna_row_insert:
  "insert_transaction t s = Inr (s', row) \<Longrightarrow> manna_row j s' = manna_row j s"
  by (simp add: manna_row_def insert_transaction_InrD)

lemma pots_write:
  assumes "insert_transaction t (update_account i f s) = Inr (s', row)" "keeps_ids f"
  shows "pots j s' = map_option (\<lambda>r. if j = i then (ma_balance (f r), ma_subscription_balance (f r))
           else (ma_balance r, ma_subscription_balance r)) (manna_row j s)"
  unfolding pots_def manna_row_insert [OF assms(1)] manna_row_update [OF assms(2)]
  by (cases "manna_row j s") simp_all

section \<open>Debits\<close>

lemma debit_new_charge:
  assumes "debit env p now s = (s', Inr r)" "\<not> lr_alreadyApplied r"
  obtains s1 acc x where "dp_amount p = JFin x" "0 < fixed4 x"
    "findTransactionByKey (dp_idempotencyKey p) s = None"
    "getOrCreateMannaAccount (\<lambda>x. x) (dp_accountId p) now (env s) = Inr (s1, acc)"
    "check_daily p now s1 = Inr ()" "check_rolling p now s1 = Inr ()"
    "case dp_rollingCap p of None \<Rightarrow> True | Some rc \<Rightarrow> check_rolling_params (dp_idempotencyKey p) rc = Inr ()"
    "apply_debit p now (ma_id acc) s1 = Inr (s', r)"
proof -
  obtain u where v: "assertValidAmount (dp_amount p) = Inr u"
    using assms(1) by (cases "assertValidAmount (dp_amount p)") (auto simp: debit_def)
  then obtain x where x: "dp_amount p = JFin x" "0 < fixed4 x"
    using assertValidAmount_InrD by blast
  have "debit_tx env p now s = Inr (s', r)"
    using assms v by (auto simp: debit_def replay_result_def split: sum.splits option.splits if_splits)
  then show thesis
  proof (cases rule: debit_tx_cases)
    case (charge s1 acc)
    then show ?thesis using x that by blast
  qed (use assms(2) in \<open>simp_all add: replay_result_def\<close>)
qed

lemma debit_used_key:
  assumes "findTransactionByKey (dp_idempotencyKey p) s = Some t"
    "assertValidAmount (dp_amount p) = Inr ()"
  shows "debit env p now s = (env s, Inr (replay_result (dp_accountId p) t (env s)))"
  using assms by (simp add: debit_def debit_tx_def)

lemma debit_found:
  assumes "debit env p now s = (s', Inr r)"
  shows "findTransactionByKey (dp_idempotencyKey p) s' = Some (lr_transaction r) \<or> lr_alreadyApplied r"
proof (cases "lr_alreadyApplied r")
  case False
  obtain s1 x and acc :: manna_account where x: "dp_amount p = JFin x"
    and a: "apply_debit p now (ma_id acc) s1 = Inr (s', r)"
    by (rule debit_new_charge [OF assms False]) (rule that, assumption+)
  from a x obtain row where
    ins: "insert_transaction
       ((blank_tx (ma_id acc) (- fixed4 x) now)\<lparr>tx_type := Some (dp_type p),
          tx_idempotency_key := Some (dp_idempotencyKey p),
          tx_task_external_id := dp_taskExternalId p\<rparr>)
       (update_account (ma_id acc) (draw_down (fixed4 x) now) s1) = Inr (s', row)"
    and r: "lr_transaction r = row"
    by (rule apply_debit_InrD) auto
  note d = insert_transaction_InrD [OF ins, simplified]
  have "findTransactionByKey (dp_idempotencyKey p) s1 = None"
    using violates_unique_key [OF d(6)] by (simp add: findTransactionByKey_None)
  then show ?thesis using findTransactionByKey_append [OF d(2)] d(1) r by simp
qed simp

section \<open>The daily cap\<close>

text \<open>
  The check is made on Numbers; in the range of the ledger it is the exact comparison of
  unit counts, whatever the rounding of the sum.
\<close>

lemma cap_check_units:
  assumes "\<not> js_lt (JFin (unit_val L)) (js_add (js_max (JFin 0) (number_of_units S)) (JFin x))"
    "0 \<le> S" "0 < x" "0 \<le> L" "L < unit_bound"
  shows "S + fixed4 x \<le> L"
proof (rule ccontr)
  assume neg: "\<not> S + fixed4 x \<le> L"
  have ub: "\<bar>unit_bound\<bar> \<le> unit_bound" by (simp add: unit_bound_def)
  have Lb: "unit_val L < unit_val unit_bound" using assms(4,5) ub by (intro unit_val_less) simp_all
  have "unit_val unit_bound \<le> round64 (2 ^ 36)"
    unfolding unit_val_def using unit_bound_rat [OF ub] by (intro round64_mono) linarith
  also have "round64 (2 ^ 36) = 2 ^ 36" using round64_powi [of 36] by simp
  finally have ubv: "unit_val unit_bound \<le> 2 ^ 36" .
  have small: "js_of_rat y = JFin (round64 y) \<and> round64 y \<le> unit_val L"
    if "\<not> js_lt (JFin (unit_val L)) (js_of_rat y)" "0 \<le> y" for y
  proof -
    have "0 \<le> round64 y" using that(2) by (rule round64_nonneg)
    then show ?thesis using that(1) by (auto simp: js_of_rat_def Let_def split: if_splits)
  qed
  show False
  proof (cases "S \<le> unit_bound")
    case True
    then have S: "number_of_units S = JFin (unit_val S)" "0 \<le> unit_val S"
      using assms(2) by (simp_all add: number_of_units_val unit_val_nonneg)
    define y where "y = unit_val S + x"
    have y0: "0 \<le> y" using S assms(3) by (simp add: y_def)
    have r: "round64 y \<le> unit_val L"
      using small [of y] assms(1) S y0 by (simp add: js_max_JFin y_def max_def split: if_splits)
    have "y \<le> 2 ^ 36 + 1"
    proof (rule ccontr)
      assume "\<not> y \<le> 2 ^ 36 + 1"
      then have "round64 (2 ^ 36) \<le> round64 y" by (intro round64_mono) simp
      with r Lb ubv \<open>round64 (2 ^ 36) = 2 ^ 36\<close> show False by simp
    qed
    then have "\<bar>round64 y - y\<bar> \<le> 1 / 2 ^ 16" using y0 by (intro round64_error_bounded) simp
    moreover have "\<bar>S\<bar> \<le> unit_bound" "\<bar>L\<bar> \<le> unit_bound" using assms(2,4,5) True by simp_all
    note this [THEN unit_val_error]
    moreover note fixed4_error [of x]
    moreover have "of_int (L + 1) / 10000 \<le> rat_of_int (S + fixed4 x) / 10000"
      using neg by (intro divide_right_mono) simp_all
    moreover have "rat_of_int (L + 1) / 10000 = of_int L / 10000 + 1 / 10000"
      "rat_of_int (S + fixed4 x) / 10000 = of_int S / 10000 + of_int (fixed4 x) / 10000"
      by (simp_all add: add_divide_distrib)
    moreover have "1 / 2 ^ 16 + 1 / 2 ^ 16 + 1 / 2 ^ 16 < (1 / 20000 :: rat)" by simp
    ultimately show False using r y_def by linarith
  next
    case False
    then have "unit_val unit_bound \<le> unit_val S" by (intro unit_val_mono) simp
    then have v: "unit_val L < unit_val S" "0 \<le> unit_val S" using Lb assms(2) by (simp_all add: unit_val_nonneg)
    then have c: "number_of_units S = JFin (unit_val S) \<or> number_of_units S = JPosInf"
      by (auto simp: number_of_units_def unit_val_def js_of_rat_def Let_def)
    then show False
    proof
      assume f: "number_of_units S = JFin (unit_val S)"
      then have "round64 (unit_val S + x) \<le> unit_val L"
        using small [of "unit_val S + x"] assms(1,3) v(2) by (simp add: js_max_JFin max_def split: if_splits)
      moreover have "unit_val S \<le> round64 (unit_val S + x)"
        using round64_mono [of "unit_val S" "unit_val S + x"] assms(3) by (simp add: unit_val_def)
      ultimately show False using v(1) by simp
    next
      assume "number_of_units S = JPosInf"
      then show False using assms(1) by (simp add: js_max_def)
    qed
  qed
qed

lemma spend_rows_charge:
  assumes d: "manna_transactions s' = manna_transactions s @ [row]"
    and "tx_refunds_transaction_id row = None" "tx_amount row = - a" "0 \<le> a"
    and sel: "\<And>t. t \<in> set (manna_transactions s) \<Longrightarrow> sel' t = sel t"
  shows "spend_rows sel' p s' \<le> spend_rows sel p s + a"
proof -
  have l: "linked_refunds p i s' = linked_refunds p i s" for i
    using assms(2) by (simp add: linked_refunds_append [OF d])
  have "filter sel' (manna_transactions s) = filter sel (manna_transactions s)"
    using sel by (rule filter_cong [OF refl])
  moreover have "max (a - linked_refunds p (tx_id row) s) 0 \<le> a"
    using linked_refunds_nonneg [of p "tx_id row" s] assms(4) by simp
  ultimately show ?thesis using assms(3,4) by (auto simp: spend_rows_def d l)
qed

lemma spend_rows_nonneg: "0 \<le> spend_rows sel p s"
  unfolding spend_rows_def by (intro sum_list_nonneg) auto

lemma apply_debit_spend:
  assumes a: "apply_debit p now i s = Inr (s', r)" and x: "dp_amount p = JFin x" "0 < fixed4 x"
  shows "net_spend_units acct since s' \<le> net_spend_units acct since s + fixed4 x"
    "scoped_spend_units pfx since s' \<le> scoped_spend_units pfx since s + fixed4 x"
proof -
  from a x(1) obtain row where
    ins: "insert_transaction
       ((blank_tx i (- fixed4 x) now)\<lparr>tx_type := Some (dp_type p),
          tx_idempotency_key := Some (dp_idempotencyKey p),
          tx_task_external_id := dp_taskExternalId p\<rparr>)
       (update_account i (draw_down (fixed4 x) now) s) = Inr (s', row)"
    by (rule apply_debit_InrD) blast
  note d = insert_transaction_InrD [OF ins, simplified]
  have row: "tx_refunds_transaction_id row = None" "tx_amount row = - fixed4 x"
    by (simp_all add: d(1) blank_tx_def)
  have acc: "(case manna_row j s' of None \<Rightarrow> False | Some r \<Rightarrow> ma_account_id r = acct) =
      (case manna_row j s of None \<Rightarrow> False | Some r \<Rightarrow> ma_account_id r = acct)" for j
    unfolding manna_row_insert [OF ins] manna_row_update [OF keeps_ids_rows(1)]
    by (auto simp: draw_down_def split: option.split)
  show "net_spend_units acct since s' \<le> net_spend_units acct since s + fixed4 x"
    unfolding net_spend_units_def using x(2) row by (intro spend_rows_charge [OF d(2)]) (simp_all add: acc)
  show "scoped_spend_units pfx since s' \<le> scoped_spend_units pfx since s + fixed4 x"
    unfolding scoped_spend_units_def using x(2) row by (intro spend_rows_charge [OF d(2)]) simp_all
qed

section \<open>Refund legs of a reservation\<close>

definition moves_pots :: "nat \<Rightarrow> int \<Rightarrow> int \<Rightarrow> ledger \<Rightarrow> ledger \<Rightarrow> bool" where
  "moves_pots i d e s s' \<longleftrightarrow>
     (\<forall>j. pots j s' = map_option (\<lambda>(b, sb). if j = i then (b + d, sb + e) else (b, sb)) (pots j s))"

lemma moves_pots_0: "moves_pots i 0 0 s s"
proof -
  have "map_option (\<lambda>(b, sb). if j = i then (b + 0, sb + 0) else (b, sb)) x = x" for x :: "(int \<times> int) option" and j
    by (cases x) auto
  then show ?thesis by (simp add: moves_pots_def)
qed

lemma moves_pots_trans: "moves_pots i d e s t \<Longrightarrow> moves_pots i d' e' t u \<Longrightarrow> moves_pots i (d + d') (e + e') s u"
  by (auto simp: moves_pots_def option.map_comp o_def split_def add.assoc intro!: option.map_cong)

lemma leg_effect:
  assumes leg: "refundLeg (\<lambda>x. x) p now s = (s', Inr (Some leg))"
    and inv: "ledger_inv s" and fresh: "findTransactionByKey (leg_key p) s = None"
    and orig: "findTransactionByKey (rl_originalIdempotencyKey p) s = Some o'"
    and amt: "rl_amount p = Some (JFin (unit_val k))" "0 \<le> k" "k \<le> unit_bound"
  shows "moves_pots (tx_manna_account_id o') (k - leg_share (rl_toSubscription p) k)
           (leg_share (rl_toSubscription p) k) s s'"
    and "refunded_units (tx_id o') s' = refunded_units (tx_id o') s + k"
    and "rr_appliedManna leg = JFin (unit_val k)"
    and "\<forall>key. key \<noteq> leg_key p \<longrightarrow> findTransactionByKey key s' = findTransactionByKey key s"
proof -
  have r: "run_leg (\<lambda>x. x) p (leg_key p) now s = Inr (s', Some leg)"
    using leg fresh by (auto simp: refundLeg_def Let_def split: sum.splits option.splits if_splits)
  have fk: "fixed4 (unit_val k) = k" using amt by simp
  from r inv extends_refl [of s]
  have "moves_pots (tx_manna_account_id o') (k - leg_share (rl_toSubscription p) k)
           (leg_share (rl_toSubscription p) k) s s' \<and>
      refunded_units (tx_id o') s' = refunded_units (tx_id o') s + k \<and>
      rr_appliedManna leg = JFin (unit_val k) \<and>
      (\<forall>key. key \<noteq> leg_key p \<longrightarrow> findTransactionByKey key s' = findTransactionByKey key s)"
  proof (cases rule: run_leg_cases)
    case (zero o2 r)
    then have "k = 0" using amt(1) fk by simp
    then have "leg_share (rl_toSubscription p) k = 0" using leg_share_bounds [of k "rl_toSubscription p"] by simp
    then show ?thesis using zero \<open>k = 0\<close> moves_pots_0 by simp
  next
    case (applied o2 k2)
    have k2: "k2 = k" "o2 = o'" using applied(2,6) amt(1) fk orig by auto
    from applied(7) amt(2,3) obtain q row j where
      q: "manna_row (tx_manna_account_id o') s = Some q" and j: "j = leg_share (rl_toSubscription p) k"
      and ins: "insert_transaction (leg_tx p (leg_key p) o' k now)
         (update_account (tx_manna_account_id o') (refund_row (k - j) j now) s) = Inr (s', row)"
      and leg: "rr_appliedManna leg = JFin (unit_val k)"
      unfolding k2 by (rule apply_leg_InrD) auto
    note d = insert_transaction_InrD [OF ins, simplified]
    have "moves_pots (tx_manna_account_id o') (k - j) j s s'"
      unfolding moves_pots_def pots_write [OF ins keeps_ids_rows(3)]
      by (auto simp: pots_def option.map_comp o_def refund_row_def intro!: option.map_cong)
    moreover have "refunded_units (tx_id o') s' = refunded_units (tx_id o') s + k"
      using applied(4) k2 unfolding refunded_units_def
      by (subst linked_refunds_append [OF d(2)]) (simp add: d(1) leg_tx_def blank_tx_def)
    moreover have "findTransactionByKey key s' = findTransactionByKey key s" if "key \<noteq> leg_key p" for key
      using that by (simp add: findTransactionByKey_append [OF d(2)] d(1) leg_tx_def split: option.split)
    ultimately show ?thesis using leg j by simp
  qed (use fresh orig in simp_all)
  then show "moves_pots (tx_manna_account_id o') (k - leg_share (rl_toSubscription p) k)
           (leg_share (rl_toSubscription p) k) s s'"
    "refunded_units (tx_id o') s' = refunded_units (tx_id o') s + k"
    "rr_appliedManna leg = JFin (unit_val k)"
    "\<forall>key. key \<noteq> leg_key p \<longrightarrow> findTransactionByKey key s' = findTransactionByKey key s"
    by blast+
qed

text \<open>A leg under a new key is applied when it asks for at most the remainder.\<close>

lemma leg_succeeds:
  assumes inv: "ledger_inv s" and fresh: "findTransactionByKey (leg_key p) s = None"
    and orig: "findTransactionByKey (rl_originalIdempotencyKey p) s = Some o'" and neg: "tx_amount o' < 0"
    and k: "0 \<le> k" "k \<le> - tx_amount o' - refunded_units (tx_id o') s"
    and amt: "rl_amount p = Some (JFin (unit_val k)) \<or>
      rl_amount p = None \<and> k = - tx_amount o' - refunded_units (tx_id o') s"
    and row: "manna_row (tx_manna_account_id o') s = Some r" "rl_toSubscription p \<noteq> Some JNaN"
    and fits: "pg_fits (ma_balance r + (k - leg_share (rl_toSubscription p) k))"
      "pg_fits (ma_subscription_balance r + leg_share (rl_toSubscription p) k)"
  shows "\<exists>s' leg. refundLeg (\<lambda>x. x) p now s = (s', Inr (Some leg))"
proof -
  have mem: "o' \<in> set (manna_transactions s)" using findTransactionByKey_SomeD [OF orig] by simp
  note b = debit_row_bounds [OF inv mem neg]
  have kb: "0 \<le> k" "k \<le> unit_bound" "\<bar>k\<bar> \<le> unit_bound" using k b by simp_all
  define m where "m = - tx_amount o' - refunded_units (tx_id o') s"
  have mb: "k \<le> m" "\<bar>m\<bar> \<le> unit_bound" using k b by (simp_all add: m_def)
  have req: "JFin (unit_val k) = (case rl_amount p of None \<Rightarrow> JFin (unit_val m) | Some a \<Rightarrow> a)"
    using amt by (auto simp: m_def)
  note eq = run_leg_eq [where env = "\<lambda>x. x", OF fresh orig inv mem neg m_def req]
  have "\<exists>s' leg. run_leg (\<lambda>x. x) p (leg_key p) now s = Inr (s', Some leg)"
  proof (cases "k = 0")
    case True
    then show ?thesis using units_within_eps [OF mb(1) kb(3) mb(2)] fix4_unit_val [OF kb(3)]
      unfolding eq by simp
  next
    case False
    then have pos: "0 < unit_val k" using kb by (intro unit_val_pos) simp_all
    have "pg_fits k" using kb by (simp add: pg_fits_def unit_bound_def)
    moreover have "\<not> violates_unique (leg_tx p (leg_key p) o' k now) s"
      using fresh by (auto simp: violates_unique_def findTransactionByKey_def find_None_iff list_ex_iff
          leg_tx_def blank_tx_def)
    ultimately obtain s' row where ins: "insert_transaction (leg_tx p (leg_key p) o' k now)
        (update_account (tx_manna_account_id o')
          (refund_row (k - leg_share (rl_toSubscription p) k) (leg_share (rl_toSubscription p) k) now) s) = Inr (s', row)"
      by (auto simp: insert_transaction_def leg_tx_def blank_tx_def Let_def)
    show ?thesis
      using units_within_eps [OF mb(1) kb(3) mb(2)] pos fix4_unit_val [OF kb(3)] fits row ins
      unfolding eq by (simp add: apply_leg_eq [OF kb(1,2) row(2) refl] row_fits_def refund_row_def)
  qed
  then show ?thesis by (auto simp: refundLeg_def)
qed

text \<open>The leg that \<open>settleReservation\<close> and \<open>reverseReservation\<close> run, in units.\<close>

definition settle_leg :: "string \<Rightarrow> string option \<Rightarrow> int \<Rightarrow> int \<Rightarrow> refund_leg_params" where
  "settle_leg key ty unused unusedSub =
     \<lparr>rl_originalIdempotencyKey = key, rl_amount = Some (JFin (unit_val unused)),
      rl_key = Some (settleReservationIdempotencyKey key),
      rl_type = Some (case ty of None \<Rightarrow> ''refund:settle'' | Some t \<Rightarrow> t),
      rl_toSubscription = Some (JFin (unit_val unusedSub))\<rparr>"

definition reverse_leg :: "string \<Rightarrow> string option \<Rightarrow> int \<Rightarrow> int \<Rightarrow> refund_leg_params" where
  "reverse_leg key ty rest restSub =
     \<lparr>rl_originalIdempotencyKey = key,
      rl_amount = (if js_lt (JFin 0) (JFin (unit_val rest)) then Some (JFin (unit_val rest)) else None),
      rl_key = None, rl_type = Some (case ty of None \<Rightarrow> ''refund'' | Some t \<Rightarrow> t),
      rl_toSubscription = Some (JFin (unit_val restSub))\<rparr>"

definition leg_or_abort ::
  "string \<Rightarrow> ledger \<Rightarrow> ledger \<times> (manna_error, refund_leg_result option) res
     \<Rightarrow> ledger \<times> (manna_error, refund_leg_result) res" where
  "leg_or_abort key s x =
     (case x of
        (s', Inl e) \<Rightarrow> (s, Inl e)
      | (s', Inr None) \<Rightarrow> (s, Inl (ReservationDisappeared key))
      | (s', Inr (Some leg)) \<Rightarrow> (s', Inr leg))"

lemma leg_or_abort_Inr: "leg_or_abort key s x = (s', Inr leg) \<longleftrightarrow> x = (s', Inr (Some leg))"
  by (auto simp: leg_or_abort_def split: prod.splits sum.splits option.splits)

lemma settle_eq:
  assumes inv: "ledger_inv s" and orig: "findTransactionByKey key s = Some o'"
    and c: "0 \<le> c" "c \<le> - tx_amount o'" and rs: "0 \<le> rs" "rs \<le> - tx_amount o'"
  shows "settleReservation key (JFin (unit_val c)) (JFin (unit_val rs)) ty now s =
    leg_or_abort key s (refundLeg (\<lambda>x. x) (settle_leg key ty (- tx_amount o' - c) (rs - min rs c)) now s)"
proof -
  define n where "n = - tx_amount o'"
  have mem: "o' \<in> set (manna_transactions s)" using findTransactionByKey_SomeD [OF orig] by simp
  have "- unit_bound \<le> tx_amount o'" using inv mem by (simp add: ledger_inv_def txs_ok_def)
  then have nb: "n \<le> unit_bound" "0 \<le> n" using c by (simp_all add: n_def)
  have res: "js_neg (numericToNumber (tx_amount o')) = JFin (unit_val n)"
    using nb c(2) by (simp add: n_def numericToNumber_def number_of_units_val unit_val_uminus)
  have mn: "js_min (JFin (unit_val rs)) (JFin (unit_val c)) = JFin (unit_val (min rs c))"
    using unit_val_mono [of rs c] unit_val_mono [of c rs] by (auto simp: js_min_JFin min_def)
  have us: "fix4 (js_max (JFin 0) (js_sub (JFin (unit_val rs)) (JFin (unit_val (min rs c))))) =
      JFin (unit_val (rs - min rs c))"
    using c rs nb by (intro fix4_max_sub_units) (simp_all add: n_def)
  have un: "fix4 (js_sub (JFin (unit_val n)) (JFin (unit_val c))) = JFin (unit_val (n - c))"
    using c nb by (intro fix4_sub_units) (simp_all add: n_def)
  have charge: "\<not> js_lt (js_add (JFin (unit_val n)) EPS) (JFin (unit_val c))" "0 \<le> unit_val c"
    using c nb by (simp_all add: units_within_eps unit_val_nonneg n_def)
  show ?thesis
    unfolding settleReservation_def leg_or_abort_def settle_leg_def n_def [symmetric] using charge
    by (simp add: orig res mn us un)
qed

lemma reverse_eq:
  assumes inv: "ledger_inv s" and orig: "findTransactionByKey key s = Some o'" and neg: "tx_amount o' < 0"
    and rs: "0 \<le> rs" "rs \<le> unit_bound" and m: "m = - tx_amount o' - refunded_units (tx_id o') s"
  shows "reverseReservation key (Some (JFin (unit_val rs))) ty now s =
    leg_or_abort key s (refundLeg (\<lambda>x. x) (reverse_leg key ty m (min rs m)) now s)"
proof -
  have mem: "o' \<in> set (manna_transactions s)" using findTransactionByKey_SomeD [OF orig] by simp
  note b = debit_row_bounds [OF inv mem neg]
  have mb: "0 \<le> m" "m \<le> unit_bound" using b by (simp_all add: m)
  have sub: "fix4 (js_min (JFin (unit_val rs)) (JFin (unit_val m))) = JFin (unit_val (min rs m))"
    using unit_val_mono [of rs m] unit_val_mono [of m rs] rs mb
    by (auto simp: js_min_JFin min_def fix4_unit_val)
  show ?thesis
    by (simp add: reverseReservation_def orig refundable_units [OF inv mem neg, folded m] sub
        leg_or_abort_def reverse_leg_def)
qed

text \<open>Settling a reservation, \<open>rs\<close> of it from the subscription pot, at \<open>c\<close> units.\<close>

lemma settle_effect:
  assumes st: "settleReservation key (JFin (unit_val c)) (JFin (unit_val rs)) ty now s = (s', Inr leg)"
    and inv: "ledger_inv s" and orig: "findTransactionByKey key s = Some o'"
    and fresh: "findTransactionByKey (settleReservationIdempotencyKey key) s = None"
    and c: "0 \<le> c" "c \<le> - tx_amount o'" and rs: "0 \<le> rs" "rs \<le> - tx_amount o'"
  shows "moves_pots (tx_manna_account_id o') (- tx_amount o' - c - (rs - min rs c)) (rs - min rs c) s s'"
    and "refunded_units (tx_id o') s' = refunded_units (tx_id o') s + (- tx_amount o' - c)"
    and "findTransactionByKey key s' = Some o'"
    and "rr_appliedManna leg = JFin (unit_val (- tx_amount o' - c))"
proof -
  define p where "p = settle_leg key ty (- tx_amount o' - c) (rs - min rs c)"
  have "o' \<in> set (manna_transactions s)" using findTransactionByKey_SomeD [OF orig] by simp
  then have "- unit_bound \<le> tx_amount o'" using inv by (simp add: ledger_inv_def txs_ok_def)
  then have k: "0 \<le> - tx_amount o' - c" "- tx_amount o' - c \<le> unit_bound" "\<bar>rs - min rs c\<bar> \<le> unit_bound"
    using c rs by auto
  have leg: "refundLeg (\<lambda>x. x) p now s = (s', Inr (Some leg))"
    using st unfolding settle_eq [OF inv orig c rs] leg_or_abort_Inr p_def .
  have lk: "leg_key p = settleReservationIdempotencyKey key" by (simp add: leg_key_def p_def settle_leg_def)
  have share: "leg_share (rl_toSubscription p) (- tx_amount o' - c) = rs - min rs c"
    using rs c fixed4_unit_val [OF k(3)] by (simp add: leg_share_def p_def settle_leg_def)
  have pa: "rl_amount p = Some (JFin (unit_val (- tx_amount o' - c)))" by (simp add: p_def settle_leg_def)
  have po: "findTransactionByKey (rl_originalIdempotencyKey p) s = Some o'" using orig by (simp add: p_def settle_leg_def)
  note e = leg_effect [OF leg inv fresh [folded lk] po pa k(1,2), unfolded share]
  show "moves_pots (tx_manna_account_id o') (- tx_amount o' - c - (rs - min rs c)) (rs - min rs c) s s'"
    "refunded_units (tx_id o') s' = refunded_units (tx_id o') s + (- tx_amount o' - c)"
    "rr_appliedManna leg = JFin (unit_val (- tx_amount o' - c))"
    using e by simp_all
  have "key \<noteq> leg_key p" unfolding lk by (auto simp: settleReservationIdempotencyKey_def dest: arg_cong [of _ _ length])
  then show "findTransactionByKey key s' = Some o'" using e(4) orig by simp
qed

text \<open>Reversing what is left of a reservation, \<open>rs\<close> of it to the subscription pot.\<close>

lemma reverse_effect:
  assumes rv: "reverseReservation key (Some (JFin (unit_val rs))) ty now s = (s', Inr leg)"
    and inv: "ledger_inv s" and orig: "findTransactionByKey key s = Some o'" and neg: "tx_amount o' < 0"
    and fresh: "findTransactionByKey (refundIdempotencyKey key) s = None"
    and rs: "0 \<le> rs" "rs \<le> unit_bound"
    and m: "m = - tx_amount o' - refunded_units (tx_id o') s"
  shows "moves_pots (tx_manna_account_id o') (m - min rs m) (min rs m) s s'"
    and "refunded_units (tx_id o') s' = - tx_amount o'"
proof -
  have mem: "o' \<in> set (manna_transactions s)" using findTransactionByKey_SomeD [OF orig] by simp
  note b = debit_row_bounds [OF inv mem neg]
  have mb: "0 \<le> m" "m \<le> unit_bound" using b by (simp_all add: m)
  define p where "p = reverse_leg key ty m (min rs m)"
  have leg: "refundLeg (\<lambda>x. x) p now s = (s', Inr (Some leg))"
    using rv unfolding reverse_eq [OF inv orig neg rs m] leg_or_abort_Inr p_def .
  have lk: "leg_key p = refundIdempotencyKey key" by (simp add: leg_key_def p_def reverse_leg_def)
  have po: "findTransactionByKey (rl_originalIdempotencyKey p) s = Some o'" using orig by (simp add: p_def reverse_leg_def)
  have share: "leg_share (rl_toSubscription p) m = min rs m"
    using rs mb by (simp add: leg_share_def p_def reverse_leg_def)
  have "moves_pots (tx_manna_account_id o') (m - min rs m) (min rs m) s s' \<and>
      refunded_units (tx_id o') s' = refunded_units (tx_id o') s + m"
  proof (cases "m = 0")
    case False
    then have "rl_amount p = Some (JFin (unit_val m))" using unit_val_pos [of m] mb by (simp add: p_def reverse_leg_def)
    from leg_effect [OF leg inv fresh [folded lk] po this mb, unfolded share] show ?thesis by simp
  next
    case True
    have r: "run_leg (\<lambda>x. x) p (leg_key p) now s = Inr (s', Some leg)"
      using leg fresh lk by (auto simp: refundLeg_def Let_def split: sum.splits option.splits if_splits)
    from r inv extends_refl [of s] have "s' = s"
      by (cases rule: run_leg_cases) (use fresh lk po m True in auto)
    then show ?thesis using True rs moves_pots_0 by simp
  qed
  then show "moves_pots (tx_manna_account_id o') (m - min rs m) (min rs m) s s'"
    "refunded_units (tx_id o') s' = - tx_amount o'"
    by (simp_all add: m)
qed

section \<open>A reservation on an existing account\<close>

lemma drawn_units:
  assumes "0 \<le> sb" "0 \<le> fixed4 x" "fixed4 x \<le> unit_bound"
  shows "fix4 (js_min (numericToNumber sb) (JFin x)) = JFin (unit_val (min sb (fixed4 x)))"
proof -
  have ub: "\<bar>unit_bound\<bar> \<le> unit_bound" by (simp add: unit_bound_def)
  consider (fin) "sb \<le> unit_bound" | (big) y where "unit_bound < sb" "numericToNumber sb = JFin y" "unit_val unit_bound \<le> y"
    | (inf) "unit_bound < sb" "numericToNumber sb = JPosInf"
  proof (cases "sb \<le> unit_bound")
    case False
    then have "unit_val unit_bound \<le> unit_val sb" by (intro unit_val_mono) simp
    moreover have "0 \<le> unit_val sb" using assms(1) by (rule unit_val_nonneg)
    ultimately show thesis using False that(2,3)
      by (cases "numericToNumber sb")
        (auto simp: numericToNumber_def number_of_units_def js_of_rat_def Let_def unit_val_def split: if_splits)
  qed (use that(1) in auto)
  then show ?thesis
  proof cases
    case fin
    then show ?thesis using assms
      by (simp add: numericToNumber_def number_of_units_val js_min_JFin fix4_def fixed4_min)
  next
    case big
    then have "unit_bound \<le> fixed4 y" using fixed4_mono [OF big(3)] fixed4_unit_val [OF ub] by simp
    then show ?thesis using big assms
      by (simp add: js_min_JFin fix4_def fixed4_min number_of_units_val)
  next
    case inf
    then show ?thesis using assms by (simp add: js_min_def fix4_def number_of_units_val)
  qed
qed

lemma reserve_effect:
  assumes db: "debit (\<lambda>x. x) p now s = (s', Inr r)" "\<not> lr_alreadyApplied r"
    and inv: "ledger_inv s" and acc: "account_row (dp_accountId p) s = Some acc"
    and ub: "debit_units p \<le> unit_bound"
    and a: "a = debit_units p" and rs: "rs = min (ma_subscription_balance acc) a"
  shows "0 < a" "a \<le> ma_balance acc + ma_subscription_balance acc" "0 \<le> rs"
    "moves_pots (ma_id acc) (rs - a) (- rs) s s'"
    "lr_subscriptionDrawn r = Some (JFin (unit_val rs))"
    "findTransactionByKey (dp_idempotencyKey p) s' = Some (lr_transaction r)"
    "tx_amount (lr_transaction r) = - a" "tx_manna_account_id (lr_transaction r) = ma_id acc"
    "refunded_units (tx_id (lr_transaction r)) s' = 0"
    "\<And>key. key \<noteq> dp_idempotencyKey p \<Longrightarrow> findTransactionByKey key s' = findTransactionByKey key s"
proof -
  obtain x where x: "dp_amount p = JFin x" "0 < fixed4 x"
    and ap: "apply_debit p now (ma_id acc) s = Inr (s', r)"
  proof (rule debit_new_charge [OF db])
    fix s1 acc' x
    assume h: "dp_amount p = JFin x" "0 < fixed4 x"
      "getOrCreateMannaAccount (\<lambda>x. x) (dp_accountId p) now s = Inr (s1, acc')"
      "apply_debit p now (ma_id acc') s1 = Inr (s', r)"
    from h(3) acc have "acc' = acc" "s1 = s" by (simp_all add: getOrCreateMannaAccount_def)
    with h show thesis by (intro that) simp_all
  qed
  have ax: "fixed4 x = a" using x(1) a by (simp add: debit_units_def)
  from ap x(1) obtain locked row where
    l: "manna_row (ma_id acc) s = Some locked" "fixed4 x \<le> ma_balance locked + ma_subscription_balance locked"
    and ins: "insert_transaction
       ((blank_tx (ma_id acc) (- fixed4 x) now)\<lparr>tx_type := Some (dp_type p),
          tx_idempotency_key := Some (dp_idempotencyKey p),
          tx_task_external_id := dp_taskExternalId p\<rparr>)
       (update_account (ma_id acc) (draw_down (fixed4 x) now) s) = Inr (s', row)"
    and r: "lr_transaction r = row"
      "lr_subscriptionDrawn r = Some (fix4 (js_min (numericToNumber (ma_subscription_balance locked)) (JFin x)))"
    by (rule apply_debit_InrD) auto
  have A: "accounts_ok s" using inv by (simp add: ledger_inv_def)
  have "acc \<in> set (manna_accounts s)" using account_row_SomeD [OF acc] by simp
  then have la: "locked = acc" using distinct_row [OF A l(1)] by simp
  have nn: "0 \<le> ma_balance acc" "0 \<le> ma_subscription_balance acc"
    using A \<open>acc \<in> set _\<close> by (auto simp: accounts_ok_def)
  note d = insert_transaction_InrD [OF ins, simplified]
  show "0 < a" "a \<le> ma_balance acc + ma_subscription_balance acc" "0 \<le> rs"
    using x l(2) la ax nn by (simp_all add: rs)
  show "moves_pots (ma_id acc) (rs - a) (- rs) s s'"
    unfolding moves_pots_def pots_write [OF ins keeps_ids_rows(1)]
    using l(1) la ax by (auto simp: pots_def option.map_comp o_def draw_down_def rs
        intro!: option.map_cong)
  show "lr_subscriptionDrawn r = Some (JFin (unit_val rs))"
    using drawn_units [OF nn(2), of x] x(2) ub r(2) la ax a by (simp add: rs)
  have "findTransactionByKey (dp_idempotencyKey p) s = None"
    using violates_unique_key [OF d(6)] by (simp add: findTransactionByKey_None)
  then show "findTransactionByKey (dp_idempotencyKey p) s' = Some (lr_transaction r)"
    using findTransactionByKey_append [OF d(2)] d(1) r by simp
  show "tx_amount (lr_transaction r) = - a" "tx_manna_account_id (lr_transaction r) = ma_id acc"
    using d(1) r(1) ax by (simp_all add: blank_tx_def)
  have "linked_refunds (\<lambda>_. True) (next_id s) s = 0"
    using inv by (intro linked_refunds_none) (auto simp: ledger_inv_def txs_ok_def)
  then show "refunded_units (tx_id (lr_transaction r)) s' = 0"
    unfolding refunded_units_def linked_refunds_append [OF d(2)] using d(1) r(1) by (simp add: blank_tx_def)
  show "findTransactionByKey key s' = findTransactionByKey key s" if "key \<noteq> dp_idempotencyKey p" for key
    using that by (simp add: findTransactionByKey_append [OF d(2)] d(1) split: option.split)
qed

text \<open>When a debit under a new key is charged.\<close>

lemma manna_row_of_account:
  assumes "account_row a s = Some acc" "accounts_ok s"
  shows "manna_row (ma_id acc) s = Some acc"
proof -
  have m: "acc \<in> set (manna_accounts s)" using account_row_SomeD [OF assms(1)] by simp
  then obtain q where q: "manna_row (ma_id acc) s = Some q"
    by (cases "manna_row (ma_id acc) s") (auto simp: manna_row_def find_None_iff)
  with distinct_row [OF assms(2) q m] show ?thesis by simp
qed

lemma valid_units:
  assumes "0 < fixed4 x" "fixed4 x \<le> unit_bound"
  shows "assertValidAmount (JFin x) = Inr ()"
proof -
  have "0 < x" using assms fixed4_mono [of x 0] by (cases "0 < x") (auto simp: fixed4_def)
  moreover have "0 < unit_val (fixed4 x)" using assms by (rule unit_val_pos)
  ultimately show ?thesis using assms by (simp add: assertValidAmount_def fix4_def number_of_units_val)
qed

lemma apply_debit_outcome:
  assumes "manna_row i s = Some acc" "findTransactionByKey (dp_idempotencyKey p) s = None"
    "dp_amount p = JFin x" "0 < fixed4 x" "fixed4 x \<le> unit_bound"
  shows "if fixed4 x \<le> ma_balance acc + ma_subscription_balance acc
    then \<exists>s' r. apply_debit p now i s = Inr (s', r) \<and> \<not> lr_alreadyApplied r
    else apply_debit p now i s =
      Inl (InsufficientManna (dp_accountId p) (dp_amount p) (mb_total (balanceOfMannaAccount i s)))"
proof -
  have "\<not> violates_unique ((blank_tx i (- fixed4 x) now)\<lparr>tx_type := Some (dp_type p),
        tx_idempotency_key := Some (dp_idempotencyKey p),
        tx_task_external_id := dp_taskExternalId p\<rparr>) s"
    using assms(2) by (auto simp: violates_unique_def findTransactionByKey_def find_None_iff list_ex_iff blank_tx_def)
  then show ?thesis using assms
    by (auto simp: apply_debit_def numberToNumeric_def fixed4_uminus insert_transaction_def
        pg_fits_def unit_bound_def blank_tx_def Let_def)
qed

lemma debit_outcome:
  assumes "account_row (dp_accountId p) s = Some acc" "accounts_ok s"
    "findTransactionByKey (dp_idempotencyKey p) s = None"
    "dp_amount p = JFin x" "0 < fixed4 x" "fixed4 x \<le> unit_bound"
    "check_daily p now s = Inr ()" "check_rolling p now s = Inr ()"
    "case dp_rollingCap p of None \<Rightarrow> True | Some rc \<Rightarrow> check_rolling_params (dp_idempotencyKey p) rc = Inr ()"
  shows "if fixed4 x \<le> ma_balance acc + ma_subscription_balance acc
    then \<exists>s' r. debit (\<lambda>x. x) p now s = (s', Inr r) \<and> \<not> lr_alreadyApplied r
    else \<exists>total. debit (\<lambda>x. x) p now s = (s, Inl (InsufficientManna (dp_accountId p) (dp_amount p) total))"
proof -
  have "debit (\<lambda>x. x) p now s = (case apply_debit p now (ma_id acc) s of Inr (s', r) \<Rightarrow> (s', Inr r)
      | Inl err \<Rightarrow> (s, Inl err))"
    using assms(1,3,4,7-9) valid_units [OF assms(5,6)]
    by (auto simp: debit_def debit_tx_def getOrCreateMannaAccount_def split: sum.split option.splits)
  then show ?thesis
    using apply_debit_outcome [OF manna_row_of_account [OF assms(1,2)] assms(3-6), of now] by auto
qed

end
