(* ===== verification/LedgerProperties.thy ===== *)
theory LedgerProperties
  imports LedgerContracts
begin

text \<open>
  The properties of the manna ledger, each with the concrete run that shows its
  hypotheses can hold. Amounts are in ledger units (ten-thousandths of a manna).
\<close>

section \<open>Sample states\<close>

definition sample_debit :: "string \<Rightarrow> jsnum \<Rightarrow> string \<Rightarrow> debit_params" where
  "sample_debit acct amount key =
     \<lparr>dp_accountId = acct, dp_amount = amount, dp_type = ''spend:chat'', dp_idempotencyKey = key,
      dp_taskExternalId = None, dp_dailyCap = None, dp_rollingCap = None\<rparr>"

definition sample_credit :: "string \<Rightarrow> jsnum \<Rightarrow> string \<Rightarrow> bool \<Rightarrow> credit_params" where
  "sample_credit acct amount key sub =
     \<lparr>cp_accountId = acct, cp_amount = amount, cp_type = ''grant'', cp_idempotencyKey = Some key,
      cp_taskExternalId = None, cp_stripeEventId = None, cp_stripeEventType = None,
      cp_stripeEventData = None, cp_voucherExternalId = None, cp_code = None,
      cp_toSubscriptionBalance = sub\<rparr>"

text \<open>An account with 100 durable and 30 subscription manna.\<close>

definition sample_ops :: "ledger_op list" where
  "sample_ops =
     [CreditOp (sample_credit ''u'' (JFin 100) ''c1'' False) 1000,
      CreditOp (sample_credit ''u'' (JFin 30) ''c2'' True) 1001]"

definition sample_account :: manna_account where
  "sample_account = \<lparr>ma_id = 0, ma_account_id = ''u'', ma_balance = 1000000,
     ma_subscription_balance = 300000, ma_updated_at = 1001\<rparr>"

definition sample_ledger :: ledger where
  "sample_ledger = \<lparr>accounts = [''u''], manna_accounts = [sample_account],
     manna_transactions = [], next_id = 1\<rparr>"

lemma sample_ops_bounded: "list_all bounded_op sample_ops"
  by (simp add: sample_ops_def)

lemma sample_ledger_simps [simp]:
  "account_row ''u'' sample_ledger = Some sample_account"
  "findTransactionByKey k sample_ledger = None"
  "ma_balance sample_account = 1000000" "ma_subscription_balance sample_account = 300000"
  "ma_id sample_account = 0" "ma_account_id sample_account = ''u''"
  "manna_transactions sample_ledger = []"
  by (simp_all add: sample_ledger_def sample_account_def account_row_def findTransactionByKey_def)

lemma sample_ledger_inv [simp]: "ledger_inv sample_ledger" "accounts_ok sample_ledger"
  by (simp_all add: sample_ledger_def sample_account_def ledger_inv_def accounts_ok_def txs_ok_def
      refunds_ok_def tx_keys_def map_filter_def)

lemma fixed4_numeral [simp]: "fixed4 (numeral n) = 10000 * numeral n"
  using fixed4_of_int [of "numeral n"] by simp

section \<open>Runs\<close>

text \<open>C17: From an empty ledger, after any sequence of debits, credits, refunds, settlements and
  reversals, no pot is negative, idempotency keys and row ids are unique, and no debit has been
  refunded by more than it took.\<close>
theorem ledger_run_safe:
  assumes "list_all bounded_op ops" and "s = foldl ledger_step (empty_ledger accts) ops"
  shows "(\<forall>r \<in> set (manna_accounts s). 0 \<le> ma_balance r \<and> 0 \<le> ma_subscription_balance r) \<and>
    distinct (map ma_account_id (manna_accounts s)) \<and>
    distinct (map tx_id (manna_transactions s)) \<and> distinct (tx_keys s) \<and>
    (\<forall>t \<in> set (manna_transactions s). tx_amount t < 0 \<longrightarrow> refunded_units (tx_id t) s \<le> - tx_amount t)"
proof -
  have "ledger_inv s" unfolding assms(2) using assms(1) by (intro lm.run_inv) simp_all
  then show ?thesis by (simp add: ledger_inv_def accounts_ok_def txs_ok_def refunds_ok_def)
qed

lemma ledger_run_safe_witness:
  "distinct (tx_keys (foldl ledger_step (empty_ledger [''u'']) sample_ops))"
  using ledger_run_safe [OF sample_ops_bounded refl, of "[''u'']"] by simp

text \<open>C18: The ledger balances: the two pots of every account add up to the sum of its transaction
  rows, after any sequence of operations from an empty ledger.\<close>
theorem ledger_run_conserves:
  assumes "list_all bounded_op ops" and "s = foldl ledger_step (empty_ledger accts) ops"
  shows "account_total i s = rows_total i s"
proof -
  have "evolves (empty_ledger accts) s" unfolding assms(2) using assms(1) by (intro lm.run_le) simp_all
  then have "drift i s = drift i (empty_ledger accts)" by (simp add: evolves_def)
  then show ?thesis by (simp add: drift_def [of i s])
qed

lemma ledger_run_conserves_witness:
  "account_total 0 (foldl ledger_step (empty_ledger [''u'']) sample_ops) =
   rows_total 0 (foldl ledger_step (empty_ledger [''u'']) sample_ops)"
  by (rule ledger_run_conserves [OF sample_ops_bounded refl])

section \<open>One debit\<close>

text \<open>C23: On an existing account an uncapped debit under a new key is decided by the exact unit count:
  it is charged when the two pots together hold the rounded amount, and otherwise it fails with
  InsufficientManna and writes nothing.\<close>
theorem debit_decides:
  assumes "account_row (dp_accountId p) s = Some acc" "accounts_ok s"
    and "dp_dailyCap p = None" "dp_rollingCap p = None"
    and "findTransactionByKey (dp_idempotencyKey p) s = None"
    and "dp_amount p = JFin x" "0 < fixed4 x" "fixed4 x \<le> unit_bound"
  shows "if fixed4 x \<le> ma_balance acc + ma_subscription_balance acc
    then \<exists>s' r. debit (\<lambda>x. x) p now s = (s', Inr r) \<and> \<not> lr_alreadyApplied r
    else \<exists>total. debit (\<lambda>x. x) p now s = (s, Inl (InsufficientManna (dp_accountId p) (dp_amount p) total))"
  using assms by (intro debit_outcome) (simp_all add: check_daily_def check_rolling_def)

lemma debit_decides_witness:
  "\<exists>total. debit (\<lambda>x. x) (sample_debit ''u'' (JFin 131) ''k'') 2000 sample_ledger =
     (sample_ledger, Inl (InsufficientManna ''u'' (JFin 131) total))"
  using debit_decides [of "sample_debit ''u'' (JFin 131) ''k''" sample_ledger sample_account 131 2000]
  by (simp add: sample_debit_def unit_bound_def)

section \<open>Reservations\<close>

text \<open>The reservation of a turn: a debit, its settlement at the charge, or its reversal.\<close>

lemma reservation_state:
  assumes db: "debit (\<lambda>x. x) p now s = (s1, Inr r)" "\<not> lr_alreadyApplied r"
    and inv: "ledger_inv s" and acc: "account_row (dp_accountId p) s = Some acc"
    and ub: "debit_units p \<le> unit_bound"
  obtains q where "ledger_inv s1" "manna_row (ma_id acc) s1 = Some q"
    "ma_balance q = ma_balance acc - (debit_units p - min (ma_subscription_balance acc) (debit_units p))"
    "ma_subscription_balance q = ma_subscription_balance acc - min (ma_subscription_balance acc) (debit_units p)"
    "pots (ma_id acc) s = Some (ma_balance acc, ma_subscription_balance acc)"
proof -
  have "accounts_ok s" using inv by (simp add: ledger_inv_def)
  note row = manna_row_of_account [OF acc this]
  have "ledger_inv s1" using debit_inv [OF inv ok_env_id ub, of now] db by simp
  moreover have p0: "pots (ma_id acc) s = Some (ma_balance acc, ma_subscription_balance acc)"
    using row by (simp add: pots_def)
  moreover define rs where "rs = min (ma_subscription_balance acc) (debit_units p)"
  have "pots (ma_id acc) s1 = Some (ma_balance acc + (rs - debit_units p), ma_subscription_balance acc - rs)"
    using reserve_effect(4) [OF db inv acc ub refl refl] p0 by (simp add: moves_pots_def rs_def)
  then obtain q where "manna_row (ma_id acc) s1 = Some q" "ma_balance q = ma_balance acc + (rs - debit_units p)"
    "ma_subscription_balance q = ma_subscription_balance acc - rs"
    by (cases "manna_row (ma_id acc) s1") (simp_all add: pots_def)
  ultimately show thesis by (intro that [of q]) (simp_all add: rs_def)
qed

text \<open>C16: Reserve and settle is the same as charging: after a reservation of the worst case is
  settled at a charge of c units, the pots are exactly those of an account debited c units,
  subscription pot first, whatever part of the reservation each pot had paid. The settlement
  cannot fail.\<close>
theorem reserve_settle_exact:
  assumes "debit (\<lambda>x. x) p now s = (s1, Inr r)" "\<not> lr_alreadyApplied r"
    and "ledger_inv s" "account_row (dp_accountId p) s = Some acc" "debit_units p \<le> unit_bound"
    and "row_fits acc" "findTransactionByKey (settleReservationIdempotencyKey (dp_idempotencyKey p)) s = None"
    and "0 \<le> c" "c \<le> debit_units p"
  shows "\<exists>s2 leg. settleReservation (dp_idempotencyKey p) (JFin (unit_val c)) (the (lr_subscriptionDrawn r)) ty now' s1
      = (s2, Inr leg) \<and>
    pots (ma_id acc) s2 = Some (ma_balance acc - (c - min (ma_subscription_balance acc) c),
      ma_subscription_balance acc - min (ma_subscription_balance acc) c)"
proof -
  define key where "key = dp_idempotencyKey p"
  define a where "a = debit_units p"
  define rs where "rs = min (ma_subscription_balance acc) a"
  note e = reserve_effect [OF assms(1-5) a_def rs_def, folded key_def]
  from assms(1-5) obtain q where q: "ledger_inv s1" "manna_row (ma_id acc) s1 = Some q"
    "ma_balance q = ma_balance acc - (a - rs)" "ma_subscription_balance q = ma_subscription_balance acc - rs"
    and p0: "pots (ma_id acc) s = Some (ma_balance acc, ma_subscription_balance acc)"
    unfolding a_def rs_def by (rule reservation_state)
  have c: "0 \<le> c" "c \<le> - tx_amount (lr_transaction r)" and r: "0 \<le> rs" "rs \<le> - tx_amount (lr_transaction r)"
    using assms(8,9) e(1,3,7) by (simp_all add: a_def rs_def)
  have ne: "settleReservationIdempotencyKey key \<noteq> key"
    by (auto simp: settleReservationIdempotencyKey_def dest: arg_cong [of _ _ length])
  then have fresh: "findTransactionByKey (settleReservationIdempotencyKey key) s1 = None"
    using e(10) assms(7) by (simp add: key_def)
  let ?p = "settle_leg key ty (- tx_amount (lr_transaction r) - c) (rs - min rs c)"
  have leg: "leg_key ?p = settleReservationIdempotencyKey key" "rl_originalIdempotencyKey ?p = key"
    "rl_amount ?p = Some (JFin (unit_val (a - c)))" "rl_toSubscription ?p \<noteq> Some JNaN"
    using e(7) by (simp_all add: settle_leg_def leg_key_def)
  have "\<bar>rs - min rs c\<bar> \<le> unit_bound" using r assms(5,8) e(7) by (simp add: a_def)
  then have share: "leg_share (rl_toSubscription ?p) (a - c) = rs - min rs c"
    using r c e(7) by (simp add: leg_share_def settle_leg_def)
  have nn: "0 \<le> ma_balance q" "0 \<le> ma_subscription_balance q"
    using q(1) manna_row_SomeD [OF q(2)] by (auto simp: ledger_inv_def accounts_ok_def)
  have fits: "pg_fits (ma_balance q + (a - c - leg_share (rl_toSubscription ?p) (a - c)))"
    "pg_fits (ma_subscription_balance q + leg_share (rl_toSubscription ?p) (a - c))"
    unfolding share using assms(6) nn q(3,4) c r e(7) by (auto simp: row_fits_def pg_fits_def)
  have "\<exists>s2 leg. refundLeg (\<lambda>x. x) ?p now' s1 = (s2, Inr (Some leg))"
    by (rule leg_succeeds [OF q(1), where k = "a - c" and r = q and o' = "lr_transaction r"])
      (use leg fresh e c q(2) fits in simp_all)
  then obtain s2 leg where st: "settleReservation key (JFin (unit_val c)) (JFin (unit_val rs)) ty now' s1 = (s2, Inr leg)"
    unfolding settle_eq [OF q(1) e(6) c r] by (auto simp: leg_or_abort_def)
  note m = settle_effect(1) [OF st q(1) e(6) fresh c r]
  have "pots (ma_id acc) s1 = Some (ma_balance acc + (rs - a), ma_subscription_balance acc - rs)"
    using q by (simp add: pots_def)
  then have "pots (ma_id acc) s2 = Some (ma_balance acc - (c - min rs c), ma_subscription_balance acc - min rs c)"
    using m e(7,8) by (auto simp: moves_pots_def)
  moreover have "min rs c = min (ma_subscription_balance acc) c" using c e(7) by (simp add: rs_def)
  ultimately show ?thesis using st e(5) by (auto simp: key_def)
qed

text \<open>C21: A reversed reservation leaves both pots exactly as they were before the reservation.\<close>
theorem reserve_reverse_exact:
  assumes "debit (\<lambda>x. x) p now s = (s1, Inr r)" "\<not> lr_alreadyApplied r"
    and "ledger_inv s" "account_row (dp_accountId p) s = Some acc" "debit_units p \<le> unit_bound"
    and "row_fits acc" "findTransactionByKey (refundIdempotencyKey (dp_idempotencyKey p)) s = None"
  shows "\<exists>s2 leg. reverseReservation (dp_idempotencyKey p) (lr_subscriptionDrawn r) ty now' s1 = (s2, Inr leg) \<and>
    pots (ma_id acc) s2 = pots (ma_id acc) s"
proof -
  define key where "key = dp_idempotencyKey p"
  define a where "a = debit_units p"
  define rs where "rs = min (ma_subscription_balance acc) a"
  note e = reserve_effect [OF assms(1-5) a_def rs_def, folded key_def]
  from assms(1-5) obtain q where q: "ledger_inv s1" "manna_row (ma_id acc) s1 = Some q"
    "ma_balance q = ma_balance acc - (a - rs)" "ma_subscription_balance q = ma_subscription_balance acc - rs"
    and p0: "pots (ma_id acc) s = Some (ma_balance acc, ma_subscription_balance acc)"
    unfolding a_def rs_def by (rule reservation_state)
  have neg: "tx_amount (lr_transaction r) < 0" and r: "0 \<le> rs" "rs \<le> a" "rs \<le> unit_bound" "a \<le> unit_bound"
    using assms(5) e(1,3,7) by (simp_all add: a_def rs_def)
  have "refundIdempotencyKey key \<noteq> key" by (simp add: refundIdempotencyKey_def)
  then have fresh: "findTransactionByKey (refundIdempotencyKey key) s1 = None"
    using e(10) assms(7) by (simp add: key_def)
  have m: "a = - tx_amount (lr_transaction r) - refunded_units (tx_id (lr_transaction r)) s1"
    using e(7,9) by simp
  let ?p = "reverse_leg key ty a (min rs a)"
  have leg: "leg_key ?p = refundIdempotencyKey key" "rl_originalIdempotencyKey ?p = key"
    "rl_amount ?p = Some (JFin (unit_val a))" "rl_toSubscription ?p \<noteq> Some JNaN"
    using unit_val_pos [OF e(1) r(4)] by (simp_all add: reverse_leg_def leg_key_def)
  have share: "leg_share (rl_toSubscription ?p) a = rs"
    using r by (simp add: leg_share_def reverse_leg_def min_absorb1)
  have fits: "pg_fits (ma_balance q + (a - leg_share (rl_toSubscription ?p) a))"
    "pg_fits (ma_subscription_balance q + leg_share (rl_toSubscription ?p) a)"
    unfolding share using assms(6) q(3,4) by (simp_all add: row_fits_def)
  have "\<exists>s2 leg. refundLeg (\<lambda>x. x) ?p now' s1 = (s2, Inr (Some leg))"
    by (rule leg_succeeds [OF q(1), where k = a and r = q and o' = "lr_transaction r"])
      (use leg fresh e q(2) fits in simp_all)
  then obtain s2 leg where rv: "reverseReservation key (Some (JFin (unit_val rs))) ty now' s1 = (s2, Inr leg)"
    unfolding reverse_eq [OF q(1) e(6) neg r(1,3) m] by (auto simp: leg_or_abort_def)
  note mv = reverse_effect(1) [OF rv q(1) e(6) neg fresh r(1,3) m]
  have "pots (ma_id acc) s1 = Some (ma_balance acc + (rs - a), ma_subscription_balance acc - rs)"
    using q by (simp add: pots_def)
  then have "pots (ma_id acc) s2 = pots (ma_id acc) s"
    using mv e(8) r(2) p0 by (auto simp: moves_pots_def)
  then show ?thesis using rv e(5) by (auto simp: key_def)
qed

text \<open>The sample account reserves 40 manna, 30 of them from the subscription pot.\<close>

lemma sample_reservation:
  obtains s1 r where "debit (\<lambda>x. x) (sample_debit ''u'' (JFin 40) ''k'') 2000 sample_ledger = (s1, Inr r)"
    "\<not> lr_alreadyApplied r"
  using debit_outcome [of "sample_debit ''u'' (JFin 40) ''k''" sample_ledger sample_account 40 2000]
  by (simp add: sample_debit_def unit_bound_def check_daily_def check_rolling_def) blast

lemma sample_debit_simps [simp]:
  "dp_accountId (sample_debit a x k) = a" "dp_idempotencyKey (sample_debit a x k) = k"
  "dp_amount (sample_debit a x k) = x" "dp_dailyCap (sample_debit a x k) = None"
  "dp_rollingCap (sample_debit a x k) = None" "debit_units (sample_debit a (JFin y) k) = fixed4 y"
  by (simp_all add: sample_debit_def debit_units_def)

lemma reserve_settle_exact_witness:
  "\<exists>s1 r s2 leg. debit (\<lambda>x. x) (sample_debit ''u'' (JFin 40) ''k'') 2000 sample_ledger = (s1, Inr r) \<and>
     settleReservation ''k'' (JFin (unit_val 350000)) (the (lr_subscriptionDrawn r)) None 2001 s1 = (s2, Inr leg) \<and>
     pots 0 s2 = Some (950000, 0)"
proof -
  obtain s1 r where d: "debit (\<lambda>x. x) (sample_debit ''u'' (JFin 40) ''k'') 2000 sample_ledger = (s1, Inr r)"
    "\<not> lr_alreadyApplied r" by (rule sample_reservation)
  show ?thesis
    using reserve_settle_exact [OF d, of sample_account 350000 None 2001] d(1)
    by (simp add: unit_bound_def row_fits_def pg_fits_def)
qed

lemma reserve_reverse_exact_witness:
  "\<exists>s1 r s2 leg. debit (\<lambda>x. x) (sample_debit ''u'' (JFin 40) ''k'') 2000 sample_ledger = (s1, Inr r) \<and>
     reverseReservation ''k'' (lr_subscriptionDrawn r) None 2001 s1 = (s2, Inr leg) \<and>
     pots 0 s2 = pots 0 sample_ledger"
proof -
  obtain s1 r where d: "debit (\<lambda>x. x) (sample_debit ''u'' (JFin 40) ''k'') 2000 sample_ledger = (s1, Inr r)"
    "\<not> lr_alreadyApplied r" by (rule sample_reservation)
  show ?thesis
    using reserve_reverse_exact [OF d, of sample_account None 2001] d(1)
    by (simp add: unit_bound_def row_fits_def pg_fits_def)
qed

section \<open>Idempotency\<close>

text \<open>C20: A debit charges a key once: after a charged debit and any later operations, a debit under
  the same key writes nothing at all and returns the row of the first one.\<close>
theorem debit_once_per_key:
  assumes "debit env p now s = (s1, Inr r)" "\<not> lr_alreadyApplied r" "ledger_inv s1"
    and "list_all bounded_op ops" "s2 = foldl ledger_step s1 ops"
    and "dp_idempotencyKey p' = dp_idempotencyKey p" "assertValidAmount (dp_amount p') = Inr ()"
  shows "\<exists>r'. debit (\<lambda>x. x) p' now' s2 = (s2, Inr r') \<and> lr_alreadyApplied r' \<and>
    lr_transaction r' = lr_transaction r"
proof -
  have "findTransactionByKey (dp_idempotencyKey p) s1 = Some (lr_transaction r)"
    using debit_found [OF assms(1)] assms(2) by simp
  moreover have "extends s1 s2"
    unfolding assms(5) using lm.run_le [OF assms(3,4)] by (rule evolves_extends)
  ultimately have "findTransactionByKey (dp_idempotencyKey p') s2 = Some (lr_transaction r)"
    using extends_find assms(6) by simp
  from debit_used_key [OF this assms(7), of "\<lambda>x. x" now'] show ?thesis by (simp add: replay_result_def)
qed

lemma debit_once_per_key_witness:
  "\<exists>s1 r r'. debit (\<lambda>x. x) (sample_debit ''u'' (JFin 40) ''k'') 2000 sample_ledger = (s1, Inr r) \<and>
     debit (\<lambda>x. x) (sample_debit ''u'' (JFin 7) ''k'') 2001 (foldl ledger_step s1 sample_ops) =
       (foldl ledger_step s1 sample_ops, Inr r') \<and> lr_transaction r' = lr_transaction r"
proof -
  obtain s1 r where d: "debit (\<lambda>x. x) (sample_debit ''u'' (JFin 40) ''k'') 2000 sample_ledger = (s1, Inr r)"
    "\<not> lr_alreadyApplied r" by (rule sample_reservation)
  have "ledger_inv s1"
    using debit_inv [OF sample_ledger_inv(1) ok_env_id, of "sample_debit ''u'' (JFin 40) ''k''" 2000] d(1)
    by (simp add: unit_bound_def)
  then show ?thesis
    using debit_once_per_key [OF d _ sample_ops_bounded refl, of "sample_debit ''u'' (JFin 7) ''k''" 2001] d(1)
    by (simp add: valid_units unit_bound_def) blast
qed

text \<open>A debit that loses the race on its key charges nothing: when another transaction commits a
  row under the key between the replay lookup and the writes, no row is added, no pot changes
  (an account row may be created, empty), and a successful result is the replay of that row.\<close>
theorem debit_race_lost:
  assumes "findTransactionByKey (dp_idempotencyKey p) s = None"
    and "findTransactionByKey (dp_idempotencyKey p) (env s) = Some t"
    and "debit env p now s = (s', res)" "assertValidAmount (dp_amount p) = Inr ()"
  shows "manna_transactions s' = manna_transactions (env s) \<and>
    (\<forall>i. pots i s' = pots i (env s) \<or> pots i (env s) = None \<and> pots i s' = Some (0, 0)) \<and>
    (\<forall>r. res = Inr r \<longrightarrow> lr_alreadyApplied r \<and> lr_transaction r = t)"
proof -
  obtain x where x: "dp_amount p = JFin x" "0 < fixed4 x" using assertValidAmount_InrD [OF assms(4)] by blast
  have no_row: False if "getOrCreateMannaAccount (\<lambda>x. x) (dp_accountId p) now (env s) = Inr (s1, acc)"
      "apply_debit p now (ma_id acc) s1 = Inr (s2, r)" for s1 acc s2 r
  proof -
    from that(1) have "manna_transactions s1 = manna_transactions (env s)"
      by (cases rule: getOrCreate_id_cases) simp_all
    then have "findTransactionByKey (dp_idempotencyKey p) s1 = Some t"
      using assms(2) by (simp add: findTransactionByKey_def)
    moreover from that(2) x(1) obtain u where "\<not> violates_unique u s1"
      "tx_idempotency_key u = Some (dp_idempotencyKey p)"
      by (rule apply_debit_InrD) (auto dest: insert_transaction_InrD(6))
    then have "findTransactionByKey (dp_idempotencyKey p) s1 = None"
      using violates_unique_key by (simp add: findTransactionByKey_None)
    ultimately show False by simp
  qed
  show ?thesis
  proof (cases "debit_tx env p now s")
    case (Inl e)
    then show ?thesis using assms by (auto simp: debit_def replay_result_def split: if_splits)
  next
    case (Inr z)
    then obtain r where tx: "debit_tx env p now s = Inr (s', r)" and res: "res = Inr r"
      using assms(3,4) by (cases z) (auto simp: debit_def)
    from tx show ?thesis
    proof (cases rule: debit_tx_cases)
      case (locked_replay acc t')
      from locked_replay(1) have "manna_transactions s' = manna_transactions (env s) \<and>
          (\<forall>i. pots i s' = pots i (env s) \<or> pots i (env s) = None \<and> pots i s' = Some (0, 0))"
        by (cases rule: getOrCreate_id_cases)
          (auto simp: pots_def manna_row_def find_append split: option.splits)
      moreover have "t' = t" using calculation locked_replay(2) assms(2) by (simp add: findTransactionByKey_def)
      ultimately show ?thesis using locked_replay(3) res by (simp add: replay_result_def)
    qed (use assms(1) no_row in auto)
  qed
qed

lemma debit_race_lost_witness:
  "\<exists>env s' r. debit env (sample_debit ''u'' (JFin 40) ''k'') 2000 sample_ledger = (s', r) \<and>
     manna_transactions s' = manna_transactions (env sample_ledger) \<and> manna_transactions s' \<noteq> []"
proof -
  obtain s1 r where d: "debit (\<lambda>x. x) (sample_debit ''u'' (JFin 40) ''k'') 2000 sample_ledger = (s1, Inr r)"
    "\<not> lr_alreadyApplied r" by (rule sample_reservation)
  have f: "findTransactionByKey ''k'' s1 = Some (lr_transaction r)" using debit_found [OF d(1)] d(2) by simp
  obtain s' res where e: "debit (\<lambda>_. s1) (sample_debit ''u'' (JFin 40) ''k'') 2000 sample_ledger = (s', res)"
    by fastforce
  have "manna_transactions s' = manna_transactions s1"
    using debit_race_lost [OF _ _ e, of "lr_transaction r"] f by (simp add: valid_units unit_bound_def)
  moreover have "manna_transactions s1 \<noteq> []" using f by (auto simp: findTransactionByKey_def)
  ultimately show ?thesis using e by (intro exI [of _ "\<lambda>_. s1"]) auto
qed

section \<open>Spending caps\<close>

text \<open>C19: The daily cap is exact in ledger units despite the floating-point check: after any newly
  charged capped debit, the account's net spend since the start of the UTC day is at most the
  limit, with no tolerance.\<close>
theorem daily_cap_exact:
  assumes "debit env p now s = (s', Inr r)" "\<not> lr_alreadyApplied r"
    and "dp_dailyCap p = Some dc" "dc_limit dc = JFin (unit_val L)" "0 \<le> L" "L < unit_bound"
  shows "net_spend_units (dp_accountId p)
    (startOfUtcDay (case dc_now dc of None \<Rightarrow> now | Some t \<Rightarrow> t)) s' \<le> L"
proof -
  define since where "since = startOfUtcDay (case dc_now dc of None \<Rightarrow> now | Some t \<Rightarrow> t)"
  obtain s1 x and acc :: manna_account where x: "dp_amount p = JFin x" "0 < fixed4 x"
    and cap: "check_daily p now s1 = Inr ()" and a: "apply_debit p now (ma_id acc) s1 = Inr (s', r)"
    by (rule debit_new_charge [OF assms(1,2)]) (rule that, assumption+)
  have x0: "0 < x" using x(2) fixed4_mono [of x 0] by (cases "0 < x") (auto simp: fixed4_def)
  have "net_spend_units (dp_accountId p) since s1 + fixed4 x \<le> L"
  proof (rule cap_check_units [OF _ _ x0 assms(5,6)])
    show "\<not> js_lt (JFin (unit_val L))
        (js_add (js_max (JFin 0) (number_of_units (net_spend_units (dp_accountId p) since s1))) (JFin x))"
      using cap assms(3,4) x(1) by (auto simp: check_daily_def netSpendSince_def since_def Let_def split: if_splits)
    show "0 \<le> net_spend_units (dp_accountId p) since s1"
      unfolding net_spend_units_def by (rule spend_rows_nonneg)
  qed
  then show ?thesis using apply_debit_spend(1) [OF a x, of "dp_accountId p" since] by (simp add: since_def)
qed

text \<open>C22: The rolling cap of a scope is exact in ledger units in the same way, over the rows its
  query attributes to the scope since the start of the window.\<close>
theorem rolling_cap_exact:
  assumes "debit env p now s = (s', Inr r)" "\<not> lr_alreadyApplied r"
    and "dp_rollingCap p = Some rc" "rc_limit rc = JFin (unit_val L)" "0 \<le> L" "L < unit_bound"
  shows "\<exists>pfx since. scopedLedgerPrefix (rc_scope rc) (rc_scopeId rc) = Inr pfx \<and>
    starts_with (dp_idempotencyKey p) pfx \<and>
    date_before (case rc_now rc of None \<Rightarrow> now | Some t \<Rightarrow> t) (rc_windowMs rc) = Inr since \<and>
    scoped_spend_units pfx since s' \<le> L"
proof -
  obtain s1 x and acc :: manna_account where x: "dp_amount p = JFin x" "0 < fixed4 x"
    and cap: "check_rolling p now s1 = Inr ()" "check_rolling_params (dp_idempotencyKey p) rc = Inr ()"
    and a: "apply_debit p now (ma_id acc) s1 = Inr (s', r)"
    by (rule debit_new_charge [OF assms(1,2)]) (rule that, assumption+, simp_all add: assms(3))
  have x0: "0 < x" using x(2) fixed4_mono [of x 0] by (cases "0 < x") (auto simp: fixed4_def)
  obtain pfx where pfx: "scopedLedgerPrefix (rc_scope rc) (rc_scopeId rc) = Inr pfx"
    "starts_with (dp_idempotencyKey p) pfx"
    using cap(2) by (auto simp: check_rolling_params_def ebind_Inr_iff split: if_splits)
  obtain since where since: "date_before (case rc_now rc of None \<Rightarrow> now | Some t \<Rightarrow> t) (rc_windowMs rc) = Inr since"
    and ok: "\<not> js_lt (rc_limit rc) (js_add (js_max (JFin 0) (number_of_units (scoped_spend_units pfx since s1))) (dp_amount p))"
    using cap(1) assms(3) pfx(1) by (auto simp: check_rolling_def scopedNetSpendSince_def ebind_Inr_iff split: if_splits)
  have "scoped_spend_units pfx since s1 + fixed4 x \<le> L"
    by (rule cap_check_units [OF _ _ x0 assms(5,6)])
      (use ok x(1) assms(4) in \<open>simp_all add: scoped_spend_units_def spend_rows_nonneg\<close>)
  then show ?thesis using apply_debit_spend(2) [OF a x, of pfx since] pfx since by auto
qed

text \<open>The sample account spends 40 manna of a cap of exactly 40.\<close>

definition capped_debit :: debit_params where
  "capped_debit = (sample_debit ''u'' (JFin 40) ''budget:automation:a:1'')\<lparr>
     dp_dailyCap := Some \<lparr>dc_limit = JFin (unit_val 400000), dc_now = None\<rparr>,
     dp_rollingCap := Some \<lparr>rc_scope = ''automation'', rc_scopeId = ''a'',
       rc_limit = JFin (unit_val 400000), rc_windowMs = JFin 1000, rc_now = None\<rparr>\<rparr>"

lemma small_numbers:
  "round64 40 = 40" "js_of_rat 40 = JFin 40" "js_of_rat 1000 = JFin 1000" "js_of_int 2000 = JFin 2000"
  using round64_of_int [of 40] round64_of_int [of 1000] js_of_rat_small [of 40] js_of_rat_small [of 1000]
    js_of_int_exact [of 2000]
  by simp_all

lemma sample_window: "date_before 2000 (JFin 1000) = Inr 1000"
  by (simp add: date_before_def small_numbers js_sub_JFin)

lemma capped_debit_charged:
  obtains s1 r where "debit (\<lambda>x. x) capped_debit 2000 sample_ledger = (s1, Inr r)" "\<not> lr_alreadyApplied r"
proof -
  have u: "unit_val 400000 = 40" by (simp add: unit_val_def small_numbers)
  have sp: "spend_rows sel p sample_ledger = 0" for sel p by (simp add: spend_rows_def)
  have pfx: "scopedLedgerPrefix ''automation'' ''a'' = Inr ''budget:automation:a:''" by code_simp
  have "check_daily capped_debit 2000 sample_ledger = Inr ()"
    by (simp add: check_daily_def capped_debit_def netSpendSince_def net_spend_units_def sp u js_max_JFin
        small_numbers)
  moreover have "check_rolling capped_debit 2000 sample_ledger = Inr ()"
    by (simp add: check_rolling_def capped_debit_def scopedNetSpendSince_def pfx
        scoped_spend_units_def sample_window sp u js_max_JFin small_numbers)
  moreover have "check_rolling_params (dp_idempotencyKey capped_debit)
      \<lparr>rc_scope = ''automation'', rc_scopeId = ''a'',
       rc_limit = JFin (unit_val 400000), rc_windowMs = JFin 1000, rc_now = None\<rparr> = Inr ()"
    by (simp add: check_rolling_params_def capped_debit_def pfx u starts_with_def)
  ultimately show thesis
    using debit_outcome [of capped_debit sample_ledger sample_account 40 2000] that
    by (simp add: capped_debit_def unit_bound_def) blast
qed

lemma daily_cap_exact_witness:
  "\<exists>s1 r. debit (\<lambda>x. x) capped_debit 2000 sample_ledger = (s1, Inr r) \<and> net_spend_units ''u'' 0 s1 \<le> 400000"
proof -
  obtain s1 r where d: "debit (\<lambda>x. x) capped_debit 2000 sample_ledger = (s1, Inr r)" "\<not> lr_alreadyApplied r"
    by (rule capped_debit_charged)
  then show ?thesis using daily_cap_exact [OF d, of _ 400000]
    by (simp add: capped_debit_def unit_bound_def startOfUtcDay_def)
qed

lemma rolling_cap_exact_witness:
  "\<exists>s1 r. debit (\<lambda>x. x) capped_debit 2000 sample_ledger = (s1, Inr r) \<and>
     scoped_spend_units ''budget:automation:a:'' 1000 s1 \<le> 400000"
proof -
  obtain s1 r where d: "debit (\<lambda>x. x) capped_debit 2000 sample_ledger = (s1, Inr r)" "\<not> lr_alreadyApplied r"
    by (rule capped_debit_charged)
  have "scopedLedgerPrefix ''automation'' ''a'' = Inr ''budget:automation:a:''" by code_simp
  moreover note sample_window
  ultimately show ?thesis using rolling_cap_exact [OF d, of _ 400000] d(1)
    by (simp add: capped_debit_def unit_bound_def)
qed

section \<open>Attribution of spend to scopes\<close>

lemma sep_unique: "c \<notin> set a \<Longrightarrow> c \<notin> set b \<Longrightarrow> a @ c # x = b @ c # y \<longleftrightarrow> a = b \<and> x = y"
proof (induction a arbitrary: b)
  case Nil
  then show ?case by (cases b) auto
next
  case (Cons z a)
  then show ?case by (cases b) auto
qed

lemma scope_text:
  assumes "scopedLedgerPrefix scope i = Inr pfx"
  shows "pfx = ''budget:'' @ scope @ '':'' @ i @ '':''" "CHR '':'' \<notin> set scope" "CHR '':'' \<notin> set i"
    "list_all (\<lambda>c. c \<noteq> CHR ''%'' \<and> c \<noteq> CHR 0x5C) pfx" "CHR ''_'' \<notin> set i \<Longrightarrow> list_all like_plain pfx"
proof -
  have s: "LEDGER_SCOPE_PART scope" "LEDGER_SCOPE_ID i" and p: "pfx = ''budget:'' @ scope @ '':'' @ i @ '':''"
    using assms by (auto simp: scopedLedgerPrefix_def split: if_splits)
  have sc: "list_all scope_char scope"
    using s(1) by (cases scope) (auto simp: LEDGER_SCOPE_PART_def scope_char_def)
  have ic: "list_all scope_id_char i" using s(2) by (simp add: LEDGER_SCOPE_ID_def)
  have bad: "\<not> scope_char (CHR '':'')" "\<not> scope_char (CHR ''%'')" "\<not> scope_char (CHR 0x5C)" "\<not> scope_char (CHR ''_'')"
    "\<not> scope_id_char (CHR '':'')" "\<not> scope_id_char (CHR ''%'')" "\<not> scope_id_char (CHR 0x5C)"
    by code_simp+
  show "pfx = ''budget:'' @ scope @ '':'' @ i @ '':''" by (rule p)
  show "CHR '':'' \<notin> set scope" "CHR '':'' \<notin> set i" using sc ic bad by (auto simp: list_all_iff)
  show "list_all (\<lambda>c. c \<noteq> CHR ''%'' \<and> c \<noteq> CHR 0x5C) pfx"
    using sc ic bad by (auto simp: p list_all_iff)
  show "list_all like_plain pfx" if "CHR ''_'' \<notin> set i"
    using sc ic bad that by (auto simp: p list_all_iff like_plain_def)
qed

text \<open>Scopes whose id has no underscore are isolated: the query of one counts exactly the keys
  minted for it, never a key minted for another scope or another id.\<close>
theorem plain_scopes_isolated:
  assumes "scopedLedgerPrefix scope i = Inr pfx" "CHR ''_'' \<notin> set i"
    and "scopedLedgerIdempotencyKey scope' i' opId = Inr key" "tx_idempotency_key t = Some key"
  shows "key_like (pfx @ ''%'') t \<longleftrightarrow> scope = scope' \<and> i = i'"
proof -
  obtain pfx' where p': "scopedLedgerPrefix scope' i' = Inr pfx'" "key = pfx' @ opId"
    using assms(3) by (auto simp: scopedLedgerIdempotencyKey_def ebind_Inr_iff split: if_splits)
  note a = scope_text [OF assms(1)] and b = scope_text [OF p'(1)]
  have "key_like (pfx @ ''%'') t \<longleftrightarrow> prefix pfx key"
    using sql_like_prefix [OF a(5) [OF assms(2)]] assms(4) by (simp add: key_like_def)
  also have "\<dots> \<longleftrightarrow> scope = scope' \<and> i = i'"
    using sep_unique [OF b(2) a(2)] sep_unique [OF b(3) a(3)]
    by (auto simp: p'(2) a(1) b(1) prefix_def)
  finally show ?thesis .
qed

lemma plain_scopes_isolated_witness:
  "\<not> key_like ''budget:automation:a:%'' ((blank_tx 0 (- 1) 0)\<lparr>tx_idempotency_key := Some ''budget:automation:b:1''\<rparr>)"
proof -
  have "scopedLedgerPrefix ''automation'' ''a'' = Inr ''budget:automation:a:''"
    "scopedLedgerIdempotencyKey ''automation'' ''b'' ''1'' = Inr ''budget:automation:b:1''" by code_simp+
  from plain_scopes_isolated [OF this(1) _ this(2), of "(blank_tx 0 (- 1) 0)\<lparr>tx_idempotency_key := Some ''budget:automation:b:1''\<rparr>"]
  show ?thesis by simp
qed

lemma sql_like_wildcard:
  "list_all2 (\<lambda>p c. p \<noteq> CHR ''%'' \<and> p \<noteq> CHR 0x5C \<and> (p = CHR ''_'' \<or> p = c)) ps cs \<Longrightarrow>
   sql_like (cs @ rest) (ps @ ''%'')"
proof (induction ps cs rule: list_all2_induct)
  case Nil
  then show ?case by (simp only: append_Nil sql_like_percent)
qed auto

text \<open>A row that the selection of a query holds is in its sum with the net amount of it.\<close>

lemma spend_rows_member:
  assumes "t \<in> set (manna_transactions s)" "sel t"
  shows "- tx_amount t - linked_refunds p (tx_id t) s \<le> spend_rows sel p s"
proof -
  have "f t \<le> sum_list (map f ts)" if "t \<in> set ts" "\<And>u. 0 \<le> f u" for f :: "manna_transaction \<Rightarrow> int" and ts
    using that(1)
  proof (induction ts)
    case (Cons u ts)
    have "0 \<le> sum_list (map f ts)" using that(2) by (intro sum_list_nonneg) auto
    then show ?case using Cons that(2) [of u] by fastforce
  qed simp
  from this [of "filter sel (manna_transactions s)" "\<lambda>t. max (- tx_amount t - linked_refunds p (tx_id t) s) 0"]
  show ?thesis using assms by (simp add: spend_rows_def)
qed

lemma number_of_units_le: "m \<le> n \<Longrightarrow> js_le (number_of_units m) (number_of_units n)"
  using round64_mono [of "of_int m / 10000" "of_int n / 10000"]
  by (simp add: number_of_units_def js_of_rat_def Let_def divide_right_mono)

text \<open>The underscore of a scope's id matches any character in its place.\<close>

lemma underscore_matches:
  assumes "scopedLedgerPrefix scope (a @ CHR ''_'' # b) = Inr pfx"
    and "scopedLedgerIdempotencyKey scope (a @ c # b) opId = Inr key" "tx_idempotency_key t = Some key"
  shows "key_like (pfx @ ''%'') t"
proof -
  let ?R = "\<lambda>p c. p \<noteq> CHR ''%'' \<and> p \<noteq> CHR 0x5C \<and> (p = CHR ''_'' \<or> p = c)"
  obtain pfx' where p': "scopedLedgerPrefix scope (a @ c # b) = Inr pfx'" "key = pfx' @ opId"
    using assms(2) by (auto simp: scopedLedgerIdempotencyKey_def ebind_Inr_iff split: if_splits)
  note t = scope_text [OF assms(1)] and t' = scope_text [OF p'(1)]
  have same: "list_all2 ?R xs xs" if "list_all (\<lambda>c. c \<noteq> CHR ''%'' \<and> c \<noteq> CHR 0x5C) xs" for xs
    using that by (auto simp: list_all_iff intro: list.rel_refl_strong)
  have "list_all2 ?R pfx pfx'"
    using t(4) t'(4) unfolding t(1) t'(1)
    by (auto simp del: append_Cons simp: list_all_append intro!: list_all2_appendI same)
  from sql_like_wildcard [OF this, of opId] show ?thesis using assms(3) p'(2) by (simp add: key_like_def)
qed

text \<open>C24: Scope ids may hold an underscore, which LIKE reads as a wildcard: the rolling-cap query of the
  id \<open>a_b\<close> counts, in full, a debit whose key was minted for an id that has any other
  character in its place, so another scope's spend uses up its cap: a debit of the scope
  \<open>a_b\<close> that the other scope's spend alone brings over the limit is refused, with that spend
  reported as its own.\<close>
theorem underscore_scope_counts_others:
  assumes "scopedLedgerPrefix scope (a @ CHR ''_'' # b) = Inr pfx"
    and "scopedLedgerIdempotencyKey scope (a @ c # b) opId = Inr key" "tx_idempotency_key t = Some key"
    and "t \<in> set (manna_transactions s)" "tx_amount t < 0" "since \<le> tx_created_at t"
    and "dp_rollingCap p = Some rc" "rc_scope rc = scope" "rc_scopeId rc = a @ CHR ''_'' # b"
    and "date_before (case rc_now rc of None \<Rightarrow> now | Some i \<Rightarrow> i) (rc_windowMs rc) = Inr since"
    and "rc_limit rc = JFin (unit_val L)" "0 \<le> L" "L < unit_bound" "dp_amount p = JFin x" "0 < x"
    and "L < - tx_amount t - refunded_units (tx_id t) s + fixed4 x"
  shows "\<exists>spent. scopedNetSpendSince scope (a @ CHR ''_'' # b) since s = Inr spent \<and>
    js_le (number_of_units (- tx_amount t - refunded_units (tx_id t) s)) spent \<and>
    check_rolling p now s =
      Inl (RollingSpendCapExceeded scope (a @ CHR ''_'' # b) spent (JFin x) (JFin (unit_val L)) (rc_windowMs rc))"
proof -
  define u where "u = scoped_spend_units pfx since s"
  have u: "- tx_amount t - refunded_units (tx_id t) s \<le> u" "0 \<le> u"
    unfolding u_def scoped_spend_units_def refunded_units_def
    using spend_rows_member [OF assms(4)] underscore_matches [OF assms(1-3)] assms(5,6) by (simp_all add: spend_rows_nonneg)
  define spent where "spent = js_max (JFin 0) (number_of_units u)"
  have q: "scopedNetSpendSince scope (a @ CHR ''_'' # b) since s = Inr spent"
    by (simp add: scopedNetSpendSince_def assms(1) spent_def u_def)
  have "js_le (JFin 0) (number_of_units u)" using number_of_units_le [OF u(2)] by simp
  then have "spent = number_of_units u"
    by (cases "number_of_units u") (auto simp: spent_def js_max_def js_simps)
  then have counted: "js_le (number_of_units (- tx_amount t - refunded_units (tx_id t) s)) spent"
    using number_of_units_le [OF u(1)] by simp
  have "js_lt (JFin (unit_val L)) (js_add spent (JFin x))"
    using cap_check_units [of L u x] u assms(12,13,15,16) unfolding spent_def by force
  then show ?thesis using q counted assms(7-11,14) by (simp add: check_rolling_def)
qed

text \<open>40 manna that the id \<open>axb\<close> has spent leave nothing of a cap of 40 to the id \<open>a_b\<close>.\<close>

definition other_spend :: manna_transaction where
  "other_spend = (blank_tx 0 (- 400000) 1500)\<lparr>tx_idempotency_key := Some ''budget:automation:axb:1''\<rparr>"

definition underscore_debit :: debit_params where
  "underscore_debit = (sample_debit ''u'' (JFin 40) ''budget:automation:a_b:1'')\<lparr>
     dp_rollingCap := Some \<lparr>rc_scope = ''automation'', rc_scopeId = ''a_b'',
       rc_limit = JFin (unit_val 400000), rc_windowMs = JFin 1000, rc_now = None\<rparr>\<rparr>"

lemma underscore_scope_counts_others_witness:
  "\<exists>spent. js_le (number_of_units 400000) spent \<and>
     check_rolling underscore_debit 2000 (sample_ledger\<lparr>manna_transactions := [other_spend]\<rparr>) =
       Inl (RollingSpendCapExceeded ''automation'' ''a_b'' spent (JFin 40) (JFin (unit_val 400000)) (JFin 1000))"
proof -
  have p: "scopedLedgerPrefix ''automation'' (''a'' @ CHR ''_'' # ''b'') = Inr ''budget:automation:a_b:''"
    and k: "scopedLedgerIdempotencyKey ''automation'' (''a'' @ CHR ''x'' # ''b'') ''1'' = Inr ''budget:automation:axb:1''"
    by code_simp+
  define s where "s = sample_ledger\<lparr>manna_transactions := [other_spend]\<rparr>"
  define rc where "rc = \<lparr>rc_scope = ''automation'', rc_scopeId = ''a'' @ CHR ''_'' # ''b'',
    rc_limit = JFin (unit_val 400000), rc_windowMs = JFin 1000, rc_now = None\<rparr>"
  have t: "tx_idempotency_key other_spend = Some ''budget:automation:axb:1''" "other_spend \<in> set (manna_transactions s)"
    "tx_amount other_spend < 0" "1000 \<le> tx_created_at other_spend" "refunded_units (tx_id other_spend) s = 0"
    "tx_amount other_spend = - 400000"
    by (simp_all add: other_spend_def s_def blank_tx_def refunded_units_def linked_refunds_def)
  have d: "dp_rollingCap underscore_debit = Some rc" "dp_amount underscore_debit = JFin 40"
    by (simp_all add: underscore_debit_def sample_debit_def rc_def)
  have w: "date_before (case rc_now rc of None \<Rightarrow> 2000 | Some i \<Rightarrow> i) (rc_windowMs rc) = Inr 1000"
    using sample_window by (simp add: rc_def)
  have "(400000 :: int) < - tx_amount other_spend - refunded_units (tx_id other_spend) s + fixed4 40"
    using t(5,6) fixed4_of_int [of 40] by simp
  from underscore_scope_counts_others [OF p k t(1-4) d(1) _ _ w _ _ _ d(2) _ this]
  show ?thesis using t(5,6) by (simp add: rc_def unit_bound_def s_def) blast
qed

end
