(* ===== verification/Json.thy ===== *)
theory Json
  imports JsNumber JsText
begin

text \<open>
  JSON values as the code reads them from unvalidated input: an object is the list of its
  members. A missing member is \<open>undefined\<close>, here no value.
\<close>

datatype json =
    JNull
  | JBool bool
  | JNum jsnum
  | JStr string
  | JArr "json list"
  | JObj "(string \<times> json) list"

type_synonym json_object = "(string \<times> json) list"

definition member :: "json_object \<Rightarrow> string \<Rightarrow> json option" where
  "member obj k = map_of obj k"

fun as_object :: "json \<Rightarrow> json_object option" where
  "as_object (JObj ms) = Some ms"
| "as_object _ = None"

fun as_string :: "json \<Rightarrow> string option" where
  "as_string (JStr s) = Some s"
| "as_string _ = None"

text \<open>Whether an integer rounds to an infinity; the first test only spares the big powers.\<close>

definition overflows :: "int \<Rightarrow> bool" where
  "overflows n = (if \<bar>n\<bar> < 1000000 then False else 2 ^ 1024 - 2 ^ 970 \<le> \<bar>n\<bar>)"

text \<open>
  \<open>Number(s)\<close> of a text over digits, \<open>*\<close>, \<open>/\<close>, comma and hyphen, as an integer: no value
  when it is not a number or overflows. An empty text counts as zero.
\<close>

definition number_of_text :: "string \<Rightarrow> int option" where
  "number_of_text s =
     (let v = (if s = [] then Some 0
               else if all_digits s then Some (int (digits_val s))
               else if hd s = CHR ''-'' \<and> all_digits (tl s) then Some (- int (digits_val (tl s)))
               else None)
      in case v of None \<Rightarrow> None | Some n \<Rightarrow> if overflows n then None else Some n)"

text \<open>\<open>s.split(/[...]/)\<close> for a class of single characters.\<close>

fun split_class :: "char list \<Rightarrow> string \<Rightarrow> string list" where
  "split_class seps [] = [[]]"
| "split_class seps (c # s) =
     (if c \<in> set seps then [] # split_class seps s
      else (case split_class seps s of [] \<Rightarrow> [[c]] | w # ws \<Rightarrow> (c # w) # ws))"

text \<open>Whether a text contains another.\<close>

fun contains :: "string \<Rightarrow> string \<Rightarrow> bool" where
  "contains [] p = (p = [])"
| "contains (c # s) p = (starts_with (c # s) p \<or> contains s p)"

text \<open>The integer in a number, when it is one.\<close>

fun int_of_num :: "jsnum \<Rightarrow> int option" where
  "int_of_num (JFin q) = (if q = of_int \<lfloor>q\<rfloor> then Some \<lfloor>q\<rfloor> else None)"
| "int_of_num _ = None"

definition show_int :: "int \<Rightarrow> string" where
  "show_int n = (if n < 0 then CHR ''-'' # show_nat (nat (- n)) else show_nat (nat n))"

end
