(* ===== verification/TurnAuth.thy ===== *)
theory TurnAuth
  imports Manna Json
begin

text \<open>
  Turn authorizations (apps/api/src/services/turn-authorization.ts) over the ledger and the
  tables the transactions read and write. A transaction is a function on the whole state
  that fails without effect; row locks make the transactions on one turn take place one
  after the other. \<open>fence\<close> is the caller's own check, \<open>now\<close> the database clock. The usage
  columns that only describe a run (token counts, latency, metadata) are left out, and the
  functions of the database that record the end of a run for account erasure are not
  modelled.
\<close>

section \<open>Tables\<close>

datatype auth_state = Reserved | Settled | Reversed | Reaped

text \<open>The two ends of a reversal.\<close>

datatype reverse_state = ToReversed | ToReaped

record turn_authorization =
  au_turnId :: string
  au_accountId :: string
  au_agentAccountId :: "string option"
  au_sessionId :: "string option"
  au_provider :: string
  au_model :: string
  au_pricingBasis :: string
  au_ceilingTableVersion :: string
  au_authorizedMaxManna :: int
  au_reservedSubscriptionManna :: int
  au_reservationTxId :: nat
  au_state :: auth_state
  au_chargedManna :: "int option"
  au_overrun :: bool
  au_createdAt :: int
  au_updatedAt :: int

record provider_run =
  pr_turnId :: string
  pr_providerStartedAt :: int
  pr_usableOutputAt :: "int option"

record usage_event =
  ue_eventType :: string
  ue_status :: string
  ue_userId :: "string option"
  ue_agentId :: "string option"
  ue_sessionId :: "string option"
  ue_messageId :: "string option"
  ue_turnId :: "string option"
  ue_provider :: "string option"
  ue_model :: "string option"
  ue_pricingBasis :: string
  ue_tableVersion :: "string option"
  ue_manna :: "int option"
  ue_errorCode :: "string option"
  ue_errorMessage :: "string option"

record message_row =
  mr_id :: string
  mr_sessionId :: string
  mr_senderId :: "string option"
  mr_role :: string
  mr_content :: string

text \<open>
  Besides the tables written here: the accounts that are not deleted, the accounts with an
  erasure job that has not succeeded, and the channel turns in status \<open>reserved\<close>.
\<close>

record turn_db =
  td_ledger :: ledger
  td_authorizations :: "turn_authorization list"
  td_runs :: "provider_run list"
  td_usage :: "usage_event list"
  td_messages :: "message_row list"
  td_liveAccounts :: "string list"
  td_erasing :: "string list"
  td_channelReserved :: "string list"

section \<open>Errors and transactions\<close>

datatype turn_error =
    LedgerFailed manna_error
  | FenceLost string
  | UsageConflict string
  | NoProviderLease string
  | ReservationWithoutKey string
  | ReservationTypeInvalid string
  | PricingBasisInvalid string
  | ChargeNotPositiveInteger string
  | NoLongerReserved string
  | TurnReservationConflict string
  | ModelNotAuthorizable string string
  | MeteringFailed
  | PgConstraint string
  | PgInvalidInteger

type_synonym fence = "turn_db \<Rightarrow> (turn_error, unit) res"

definition no_fence :: fence where
  "no_fence db = Inr ()"

text \<open>The state after a transaction: unchanged when it throws.\<close>

definition transaction ::
  "(turn_db \<Rightarrow> (turn_error, turn_db \<times> 'a) res) \<Rightarrow> turn_db \<Rightarrow> turn_db \<times> (turn_error, 'a) res" where
  "transaction body db = (case body db of Inl e \<Rightarrow> (db, Inl e) | Inr (db', a) \<Rightarrow> (db', Inr a))"

text \<open>A ledger operation inside the transaction.\<close>

definition on_ledger ::
  "(ledger \<Rightarrow> ledger \<times> (manna_error, 'a) res) \<Rightarrow> turn_db \<Rightarrow> (turn_error, turn_db \<times> 'a) res" where
  "on_ledger f db =
     (case f (td_ledger db) of
        (s, Inl e) \<Rightarrow> Inl (LedgerFailed e)
      | (s, Inr a) \<Rightarrow> Inr (db\<lparr>td_ledger := s\<rparr>, a))"

definition authorization_of :: "string \<Rightarrow> turn_db \<Rightarrow> turn_authorization option" where
  "authorization_of turnId db = find (\<lambda>a. au_turnId a = turnId) (td_authorizations db)"

definition run_of :: "string \<Rightarrow> turn_db \<Rightarrow> provider_run option" where
  "run_of turnId db = find (\<lambda>r. pr_turnId r = turnId) (td_runs db)"

definition transaction_of :: "nat \<Rightarrow> turn_db \<Rightarrow> manna_transaction option" where
  "transaction_of i db = find (\<lambda>t. tx_id t = i) (manna_transactions (td_ledger db))"

text \<open>\<open>UPDATE turn_authorizations ... WHERE turn_id = t AND state = 'reserved'\<close>.\<close>

definition update_reserved ::
  "string \<Rightarrow> (turn_authorization \<Rightarrow> turn_authorization) \<Rightarrow> turn_db \<Rightarrow> turn_db" where
  "update_reserved turnId f db =
     db\<lparr>td_authorizations := map (\<lambda>a. if au_turnId a = turnId \<and> au_state a = Reserved then f a else a)
          (td_authorizations db)\<rparr>"

section \<open>Provider start\<close>

datatype usage_event_type = ChatTurn | MemoryDream | ChannelChat

fun usage_type_name :: "usage_event_type \<Rightarrow> string" where
  "usage_type_name ChatTurn = ''chat_turn''"
| "usage_type_name MemoryDream = ''memory_dream''"
| "usage_type_name ChannelChat = ''channel_chat''"

definition same_route :: "turn_authorization \<Rightarrow> turn_authorization \<Rightarrow> bool" where
  "same_route a b \<longleftrightarrow>
     au_accountId a = au_accountId b \<and> au_agentAccountId a = au_agentAccountId b \<and>
     au_sessionId a = au_sessionId b \<and> au_provider a = au_provider b \<and> au_model a = au_model b \<and>
     au_pricingBasis a = au_pricingBasis b \<and> au_ceilingTableVersion a = au_ceilingTableVersion b"

definition usage_recorded :: "string \<Rightarrow> string \<Rightarrow> turn_db \<Rightarrow> bool" where
  "usage_recorded eventType turnId db =
     list_ex (\<lambda>u. ue_eventType u = eventType \<and> ue_turnId u = Some turnId) (td_usage db)"

definition usage_skeleton :: "usage_event_type \<Rightarrow> turn_authorization \<Rightarrow> usage_event" where
  "usage_skeleton eventType a =
     \<lparr>ue_eventType = usage_type_name eventType, ue_status = ''provider_admitted'',
      ue_userId = Some (au_accountId a), ue_agentId = au_agentAccountId a,
      ue_sessionId = au_sessionId a, ue_messageId = None, ue_turnId = Some (au_turnId a),
      ue_provider = Some (au_provider a), ue_model = Some (au_model a),
      ue_pricingBasis = au_pricingBasis a, ue_tableVersion = Some (au_ceilingTableVersion a),
      ue_manna = None, ue_errorCode = None, ue_errorMessage = None\<rparr>"

text \<open>\<open>env\<close> is what other transactions commit before the authorization row is locked.\<close>

definition claimTurnProviderAdmissionInTransaction ::
  "(turn_db \<Rightarrow> turn_db) \<Rightarrow> fence \<Rightarrow> string \<Rightarrow> usage_event_type \<Rightarrow> int \<Rightarrow> turn_db
     \<Rightarrow> (turn_error, turn_db \<times> bool) res" where
  "claimTurnProviderAdmissionInTransaction env fence turnId eventType now db =
     (case authorization_of turnId db of
        None \<Rightarrow> Inr (db, False)
      | Some candidate \<Rightarrow>
          if au_accountId candidate \<notin> set (td_liveAccounts db) then Inr (db, False)
          else if au_accountId candidate \<in> set (td_erasing db) then Inr (db, False)
          else
            ebind (fence db) (\<lambda>_.
            let db1 = env db
            in case find (\<lambda>a. au_turnId a = turnId \<and> au_state a = Reserved) (td_authorizations db1) of
                 None \<Rightarrow> Inr (db1, False)
               | Some parent \<Rightarrow>
                   if \<not> same_route parent candidate then Inr (db1, False)
                   else if eventType = ChannelChat \<and> turnId \<notin> set (td_channelReserved db1)
                   then Inr (db1, False)
                   else if run_of turnId db1 \<noteq> None then Inr (db1, False)
                   else if usage_recorded (usage_type_name eventType) turnId db1
                   then Inl (UsageConflict turnId)
                   else
                     Inr (db1\<lparr>td_runs := td_runs db1 @
                              [\<lparr>pr_turnId = turnId, pr_providerStartedAt = now, pr_usableOutputAt = None\<rparr>],
                            td_usage := td_usage db1 @ [usage_skeleton eventType parent]\<rparr>, True)))"

definition claimTurnProviderStart ::
  "(turn_db \<Rightarrow> turn_db) \<Rightarrow> fence \<Rightarrow> string \<Rightarrow> usage_event_type \<Rightarrow> int \<Rightarrow> turn_db
     \<Rightarrow> turn_db \<times> (turn_error, bool) res" where
  "claimTurnProviderStart env fence turnId eventType now db =
     transaction (claimTurnProviderAdmissionInTransaction env fence turnId eventType now) db"

section \<open>Usable output\<close>

text \<open>
  The row trigger admits the first output only while the authorization is reserved; a
  check keeps the output after the start.
\<close>

definition mark_output :: "string \<Rightarrow> provider_run \<Rightarrow> int \<Rightarrow> turn_db \<Rightarrow> (turn_error, turn_db) res" where
  "mark_output turnId r now db =
     (if (case authorization_of turnId db of None \<Rightarrow> True | Some a \<Rightarrow> au_state a \<noteq> Reserved)
      then Inl (PgConstraint ''usable output requires a reserved turn authorization'')
      else if now < pr_providerStartedAt r then Inl (PgConstraint ''turn_provider_runs_output_after_start_chk'')
      else Inr (db\<lparr>td_runs := map (\<lambda>q. if pr_turnId q = turnId
                  then q\<lparr>pr_usableOutputAt := Some now\<rparr> else q) (td_runs db)\<rparr>))"

definition markTurnUsableOutput ::
  "fence \<Rightarrow> string \<Rightarrow> int \<Rightarrow> turn_db \<Rightarrow> turn_db \<times> (turn_error, bool) res" where
  "markTurnUsableOutput fence turnId now db =
     transaction (\<lambda>db.
       ebind (fence db) (\<lambda>_.
         (case run_of turnId db of
            None \<Rightarrow> Inl (NoProviderLease turnId)
          | Some r \<Rightarrow>
              if pr_usableOutputAt r \<noteq> None then Inr (db, False)
              else ebind (mark_output turnId r now db) (\<lambda>db'. Inr (db', True))))) db"

section \<open>Authorization rows\<close>

record reserve_row =
  rw_turnId :: string
  rw_accountId :: string
  rw_agentAccountId :: "string option"
  rw_sessionId :: "string option"
  rw_provider :: string
  rw_model :: string
  rw_pricingBasis :: string
  rw_ceilingTableVersion :: string
  rw_authorizedMaxManna :: jsnum
  rw_reservedSubscriptionManna :: jsnum
  rw_reservationTxId :: nat

text \<open>
  \<open>v.toFixed(4)\<close> stored in a numeric(20,4) column: a number that is not finite never
  passes the checks of the table.
\<close>

definition stored_numeric :: "jsnum \<Rightarrow> int option" where
  "stored_numeric v = (case v of JFin x \<Rightarrow> if pg_fits (fixed4 x) then Some (fixed4 x) else None | _ \<Rightarrow> None)"

definition new_authorization :: "reserve_row \<Rightarrow> int \<Rightarrow> int \<Rightarrow> int \<Rightarrow> turn_authorization" where
  "new_authorization row mx sub now =
     \<lparr>au_turnId = rw_turnId row, au_accountId = rw_accountId row,
      au_agentAccountId = rw_agentAccountId row, au_sessionId = rw_sessionId row,
      au_provider = rw_provider row, au_model = rw_model row,
      au_pricingBasis = rw_pricingBasis row, au_ceilingTableVersion = rw_ceilingTableVersion row,
      au_authorizedMaxManna = mx, au_reservedSubscriptionManna = sub,
      au_reservationTxId = rw_reservationTxId row, au_state = Reserved, au_chargedManna = None,
      au_overrun = False, au_createdAt = now, au_updatedAt = now\<rparr>"

text \<open>The insert with the checks, the unique reservation and the references of the table.\<close>

definition insert_authorization ::
  "reserve_row \<Rightarrow> int \<Rightarrow> turn_db \<Rightarrow> (turn_error, turn_db \<times> turn_authorization option) res" where
  "insert_authorization row now db =
     (case (stored_numeric (rw_authorizedMaxManna row), stored_numeric (rw_reservedSubscriptionManna row)) of
        (Some mx, Some sub) \<Rightarrow>
          if \<not> 0 < mx then Inl (PgConstraint ''turn_authorizations_max_positive_chk'')
          else if \<not> (0 \<le> sub \<and> sub \<le> mx)
          then Inl (PgConstraint ''turn_authorizations_split_within_max_chk'')
          else if authorization_of (rw_turnId row) db \<noteq> None then Inr (db, None)
          else if list_ex (\<lambda>a. au_reservationTxId a = rw_reservationTxId row) (td_authorizations db)
          then Inl (PgConstraint ''turn_authorizations_reservation_tx_uq'')
          else if rw_accountId row \<notin> set (accounts (td_ledger db)) \<or>
                  (case rw_agentAccountId row of None \<Rightarrow> False
                   | Some a \<Rightarrow> a \<notin> set (accounts (td_ledger db))) \<or>
                  transaction_of (rw_reservationTxId row) db = None
          then Inl (PgConstraint ''turn_authorizations_fk'')
          else
            (let a = new_authorization row mx sub now
             in Inr (db\<lparr>td_authorizations := td_authorizations db @ [a]\<rparr>, Some a))
      | _ \<Rightarrow> Inl (PgConstraint ''numeric field overflow''))"

definition insertTurnAuthorization ::
  "reserve_row \<Rightarrow> int \<Rightarrow> turn_db \<Rightarrow> (turn_error, turn_db \<times> turn_authorization option) res" where
  "insertTurnAuthorization row now db =
     ebind (insert_authorization row now db) (\<lambda>(db1, inserted).
       case inserted of
         Some a \<Rightarrow> Inr (db1, Some a)
       | None \<Rightarrow>
           (case authorization_of (rw_turnId row) db1 of
              None \<Rightarrow> Inr (db1, None)
            | Some existing \<Rightarrow>
                if au_state existing \<noteq> Reserved then Inr (db1, None)
                else if \<not> js_eq (numericToNumber (au_authorizedMaxManna existing)) (rw_authorizedMaxManna row)
                then Inr (db1, None)
                else if au_reservationTxId existing \<noteq> rw_reservationTxId row then Inr (db1, None)
                else if au_accountId existing \<noteq> rw_accountId row then Inr (db1, None)
                else if au_provider existing \<noteq> rw_provider row \<or> au_model existing \<noteq> rw_model row
                then Inr (db1, None)
                else if au_pricingBasis existing \<noteq> rw_pricingBasis row then Inr (db1, None)
                else Inr (db1, Some existing)))"

definition markTurnSettled ::
  "string \<Rightarrow> jsnum \<Rightarrow> bool \<Rightarrow> int \<Rightarrow> turn_db \<Rightarrow> (turn_error, turn_db) res" where
  "markTurnSettled turnId chargedManna overrun now db =
     (case find (\<lambda>a. au_turnId a = turnId \<and> au_state a = Reserved) (td_authorizations db) of
        None \<Rightarrow> Inl (NoLongerReserved turnId)
      | Some a \<Rightarrow>
          (case stored_numeric chargedManna of
             None \<Rightarrow> Inl (PgConstraint ''turn_authorizations_charge_within_max_chk'')
           | Some c \<Rightarrow>
               if \<not> (0 \<le> c \<and> c \<le> au_authorizedMaxManna a)
               then Inl (PgConstraint ''turn_authorizations_charge_within_max_chk'')
               else Inr (update_reserved turnId (\<lambda>a. a\<lparr>au_state := Settled, au_chargedManna := Some c,
                           au_overrun := overrun, au_updatedAt := now\<rparr>) db)))"

section \<open>Settling a partial output\<close>

record partial_result =
  ps_settled :: bool
  ps_eligible :: bool
  ps_balanceTotal :: "jsnum option"
  ps_chargedManna :: "jsnum option"

definition partial_none :: "bool \<Rightarrow> partial_result" where
  "partial_none eligible =
     \<lparr>ps_settled = False, ps_eligible = eligible, ps_balanceTotal = None, ps_chargedManna = None\<rparr>"

text \<open>An integer column: other numbers and integers out of range are refused.\<close>

definition stored_int :: "jsnum \<Rightarrow> int option" where
  "stored_int v =
     (case int_of_num v of None \<Rightarrow> None | Some n \<Rightarrow> if - 2147483648 \<le> n \<and> n \<le> 2147483647 then Some n else None)"

definition partial_usage_row ::
  "string \<Rightarrow> string \<Rightarrow> int \<Rightarrow> turn_authorization \<Rightarrow> usage_event \<Rightarrow> usage_event" where
  "partial_usage_row errorCode errorMessage manna a u =
     u\<lparr>ue_status := ''error'', ue_messageId := None, ue_provider := Some (au_provider a),
       ue_model := Some (au_model a), ue_pricingBasis := au_pricingBasis a, ue_tableVersion := None,
       ue_manna := Some manna, ue_errorCode := Some errorCode, ue_errorMessage := Some errorMessage\<rparr>"

definition admitted_usage :: "string \<Rightarrow> turn_authorization \<Rightarrow> usage_event \<Rightarrow> bool" where
  "admitted_usage eventType a u \<longleftrightarrow>
     ue_eventType u = eventType \<and> ue_turnId u = Some (au_turnId a) \<and>
     ue_status u = ''provider_admitted'' \<and> ue_userId u = Some (au_accountId a) \<and>
     ue_agentId u = au_agentAccountId a \<and> ue_sessionId u = au_sessionId a"

text \<open>The admitted usage row becomes the error row; otherwise the row that is there must say the same.\<close>

definition record_partial_usage ::
  "string \<Rightarrow> string \<Rightarrow> string \<Rightarrow> jsnum \<Rightarrow> turn_authorization \<Rightarrow> turn_db \<Rightarrow> (turn_error, turn_db) res" where
  "record_partial_usage eventType errorCode errorMessage chargedManna a db =
     (case stored_int chargedManna of
        None \<Rightarrow> Inl PgInvalidInteger
      | Some manna \<Rightarrow>
          if list_ex (admitted_usage eventType a) (td_usage db) then
            Inr (db\<lparr>td_usage := map (\<lambda>u. if admitted_usage eventType a u
                   then partial_usage_row errorCode errorMessage manna a u else u) (td_usage db)\<rparr>)
          else
            (case filter (\<lambda>u. ue_eventType u = eventType \<and> ue_turnId u = Some (au_turnId a)) (td_usage db) of
               [survivor] \<Rightarrow>
                 if ue_status survivor \<noteq> ''error'' \<or>
                    (case ue_manna survivor of None \<Rightarrow> JFin 0 | Some m \<Rightarrow> JFin (of_int m)) \<noteq> chargedManna
                 then Inl (UsageConflict (au_turnId a)) else Inr db
             | _ \<Rightarrow> Inl (UsageConflict (au_turnId a))))"

definition settle_partial_tx ::
  "fence \<Rightarrow> string \<Rightarrow> string \<Rightarrow> string \<Rightarrow> int \<Rightarrow> turn_db \<Rightarrow> (turn_error, turn_db \<times> partial_result) res" where
  "settle_partial_tx fence turnId errorCode errorMessage now db =
     ebind (fence db) (\<lambda>_.
       case authorization_of turnId db of
         None \<Rightarrow> Inr (db, partial_none False)
       | Some a \<Rightarrow>
       (case run_of turnId db of
          None \<Rightarrow> Inr (db, partial_none False)
        | Some r \<Rightarrow>
       (case transaction_of (au_reservationTxId a) db of
          None \<Rightarrow> Inr (db, partial_none False)
        | Some mt \<Rightarrow>
            if pr_usableOutputAt r = None then Inr (db, partial_none False)
            else if au_state a \<noteq> Reserved then Inr (db, partial_none (au_state a = Settled))
            else
              (case truthy_key (tx_idempotency_key mt) of
                 None \<Rightarrow> Inl (ReservationWithoutKey turnId)
               | Some key \<Rightarrow>
                   if tx_type mt \<noteq> Some ''spend:chat'' \<and> tx_type mt \<noteq> Some ''spend:memory-dream''
                   then Inl (ReservationTypeInvalid turnId)
                   else if au_pricingBasis a \<noteq> ''provider-api'' \<and> au_pricingBasis a \<noteq> ''notional-subscription''
                   then Inl (PricingBasisInvalid turnId)
                   else
                     (let chargedManna = numericToNumber (au_authorizedMaxManna a);
                          dream = (tx_type mt = Some ''spend:memory-dream'')
                      in if \<not> is_safe_integer chargedManna \<or> js_le chargedManna (JFin 0)
                         then Inl (ChargeNotPositiveInteger turnId)
                         else
                           ebind (markTurnSettled turnId chargedManna False now db) (\<lambda>db1.
                           ebind (on_ledger (settleReservation key chargedManna
                                    (numericToNumber (au_reservedSubscriptionManna a))
                                    (Some (if dream then ''refund:memory-dream:partial-output-settle''
                                           else ''refund:chat:partial-output-settle'')) now) db1) (\<lambda>(db2, leg).
                           ebind (record_partial_usage (if dream then ''memory_dream'' else ''chat_turn'')
                                    errorCode errorMessage chargedManna a db2) (\<lambda>db3.
                             Inr (db3, \<lparr>ps_settled = True, ps_eligible = True,
                                    ps_balanceTotal = Some (mb_total (rr_balance leg)),
                                    ps_chargedManna = Some chargedManna\<rparr>)))))))))"

definition settlePartialOutputAuthorization ::
  "fence \<Rightarrow> string \<Rightarrow> string \<Rightarrow> string \<Rightarrow> int \<Rightarrow> turn_db \<Rightarrow> turn_db \<times> (turn_error, partial_result) res" where
  "settlePartialOutputAuthorization fence turnId errorCode errorMessage now db =
     transaction (settle_partial_tx fence turnId errorCode errorMessage now) db"

section \<open>Reversing\<close>

record reverse_result =
  rs_reversed :: bool
  rs_balanceTotal :: "jsnum option"
  rs_partialOutputRequired :: bool

definition reverse_none :: "bool \<Rightarrow> reverse_result" where
  "reverse_none p = \<lparr>rs_reversed = False, rs_balanceTotal = None, rs_partialOutputRequired = p\<rparr>"

definition reverse_tx ::
  "fence \<Rightarrow> string \<Rightarrow> string \<Rightarrow> reverse_state option \<Rightarrow> int \<Rightarrow> turn_db
     \<Rightarrow> (turn_error, turn_db \<times> reverse_result) res" where
  "reverse_tx fence turnId refundType terminalState now db =
     ebind (fence db) (\<lambda>_.
       case authorization_of turnId db of
         None \<Rightarrow> Inr (db, reverse_none False)
       | Some a \<Rightarrow>
           if au_state a \<noteq> Reserved then Inr (db, reverse_none False)
           else if (case run_of turnId db of None \<Rightarrow> False | Some r \<Rightarrow> pr_usableOutputAt r \<noteq> None)
           then Inr (db, reverse_none True)
           else
             (case (case transaction_of (au_reservationTxId a) db of None \<Rightarrow> None
                    | Some mt \<Rightarrow> truthy_key (tx_idempotency_key mt)) of
                None \<Rightarrow> Inl (ReservationWithoutKey turnId)
              | Some key \<Rightarrow>
                  ebind (on_ledger (reverseReservation key
                           (Some (numericToNumber (au_reservedSubscriptionManna a))) (Some refundType) now) db)
                    (\<lambda>(db1, leg).
                  Inr (update_reserved turnId (\<lambda>a. a\<lparr>au_state :=
                           (case terminalState of Some ToReaped \<Rightarrow> Reaped | _ \<Rightarrow> Reversed), au_updatedAt := now\<rparr>) db1,
                       \<lparr>rs_reversed = True, rs_balanceTotal = Some (mb_total (rr_balance leg)),
                        rs_partialOutputRequired = False\<rparr>))))"

definition reverseTurnAuthorization ::
  "fence \<Rightarrow> string \<Rightarrow> string \<Rightarrow> reverse_state option \<Rightarrow> int \<Rightarrow> turn_db
     \<Rightarrow> turn_db \<times> (turn_error, reverse_result) res" where
  "reverseTurnAuthorization fence turnId refundType terminalState now db =
     transaction (reverse_tx fence turnId refundType terminalState now) db"

end
