(* ===== verification/JsDate.thy ===== *)
theory JsDate
  imports JsText
begin

text \<open>
  The calendar of \<open>Date\<close>: days since 1970-01-01 of the proleptic Gregorian calendar, as
  ECMAScript defines them, the parsing of \<open>YYYY-MM-DDT00:00:00.000Z\<close> and the date part of
  \<open>toISOString\<close>. A day of the month beyond the month's end moves into the next month,
  as in \<open>MakeDay\<close>.
\<close>

section \<open>Days, months and years\<close>

definition leap :: "int \<Rightarrow> bool" where
  "leap y = (4 dvd y \<and> (\<not> 100 dvd y \<or> 400 dvd y))"

definition day_from_year :: "int \<Rightarrow> int" where
  "day_from_year y =
     365 * (y - 1970) + (y - 1969) div 4 - (y - 1901) div 100 + (y - 1601) div 400"

definition month_lengths :: "bool \<Rightarrow> int list" where
  "month_lengths l = [31, if l then 29 else 28, 31, 30, 31, 30, 31, 31, 30, 31, 30, 31]"

definition days_in_month :: "int \<Rightarrow> int \<Rightarrow> int" where
  "days_in_month y m = (if 1 \<le> m \<and> m \<le> 12 then month_lengths (leap y) ! nat (m - 1) else 0)"

text \<open>The day number of the first of a month.\<close>

definition month_start :: "int \<Rightarrow> int \<Rightarrow> int" where
  "month_start y m = day_from_year y + sum_list (take (nat (m - 1)) (month_lengths (leap y)))"

definition make_day :: "int \<Rightarrow> int \<Rightarrow> int \<Rightarrow> int" where
  "make_day y m d = month_start y m + d - 1"

lemma div_succ:
  fixes x n :: int
  assumes "0 < n"
  shows "(x + 1) div n = x div n + (if n dvd x + 1 then 1 else 0)"
proof (cases "n dvd x + 1")
  case True
  then obtain k where k: "x + 1 = n * k" by (rule dvdE)
  then have "x = n * (k - 1) + (n - 1)" by (simp add: algebra_simps)
  then have "x div n = k - 1" using assms by (simp add: int_div_pos_eq)
  then show ?thesis using True k assms by simp
next
  case False
  have m: "0 \<le> x mod n" "x mod n < n" "x = n * (x div n) + x mod n" using assms by simp_all
  have "x mod n + 1 \<noteq> n"
  proof
    assume "x mod n + 1 = n"
    with m(3) have "x + 1 = n * (x div n) + n" by linarith
    then have "x + 1 = n * (x div n + 1)" by (simp add: distrib_left)
    then show False using False by simp
  qed
  then have "(x + 1) div n = x div n"
    using m by (intro int_div_pos_eq [where r = "x mod n + 1"]) (simp_all add: mult.commute)
  then show ?thesis using False by simp
qed

lemma div_succ_year:
  fixes y c n :: int
  assumes "0 < n" "n dvd c - 1"
  shows "(y + 1 - c) div n = (y - c) div n + (if n dvd y then 1 else 0)"
proof -
  have "n dvd y - c + 1 \<longleftrightarrow> n dvd y"
    using dvd_diff_left_iff [OF assms(2), of y] by (simp add: algebra_simps)
  then show ?thesis using div_succ [OF assms(1), of "y - c"] by (simp add: algebra_simps)
qed

lemma year_length: "day_from_year (y + 1) = day_from_year y + (if leap y then 366 else 365)"
proof -
  have "4 dvd y" if "100 dvd y" by (rule dvd_trans [OF _ that]) simp
  moreover have "100 dvd y" if "400 dvd y" by (rule dvd_trans [OF _ that]) simp
  moreover have f: "(y + 1 - 1969) div 4 = (y - 1969) div 4 + (if 4 dvd y then 1 else 0)"
    "(y + 1 - 1901) div 100 = (y - 1901) div 100 + (if 100 dvd y then 1 else 0)"
    "(y + 1 - 1601) div 400 = (y - 1601) div 400 + (if 400 dvd y then 1 else 0)"
    by (rule div_succ_year; simp)+
  ultimately show ?thesis
    unfolding day_from_year_def f leap_def
    by (cases "4 dvd y"; cases "100 dvd y"; cases "400 dvd y") simp_all
qed

lemma day_from_year_less: "day_from_year (y - 1) < day_from_year y"
  using year_length [of "y - 1"] by (simp split: if_splits)

function year_down :: "int \<Rightarrow> int \<Rightarrow> int" where
  "year_down y d = (if day_from_year y \<le> d then y else year_down (y - 1) d)"
  by pat_completeness auto
termination
proof (relation "measure (\<lambda>(y, d). nat (day_from_year y - d))", goal_cases)
  case (2 y d)
  then show ?case using day_from_year_less [of y] by simp
qed simp

declare year_down.simps [simp del]

text \<open>The year of a day: the last one that starts on or before it.\<close>

definition year_of :: "int \<Rightarrow> int" where
  "year_of d = year_down (1972 + max (d div 365) (d div 366)) d"

fun month_from :: "int \<Rightarrow> int list \<Rightarrow> int \<Rightarrow> int \<times> int" where
  "month_from m [] k = (m, k)"
| "month_from m (n # ns) k = (if k < n then (m, k) else month_from (m + 1) ns (k - n))"

definition civil_of :: "int \<Rightarrow> int \<times> int \<times> int" where
  "civil_of d =
     (let y = year_of d;
          (m, k) = month_from 1 (month_lengths (leap y)) (d - day_from_year y)
      in (y, m, k + 1))"

lemma year_down_spec: "day_from_year (year_down y d) \<le> d"
  by (induction y d rule: year_down.induct) (subst year_down.simps, auto)

lemma year_down_next: "d < day_from_year (y + 1) \<Longrightarrow> d < day_from_year (year_down y d + 1)"
  by (induction y d rule: year_down.induct) (subst year_down.simps, auto)

lemma year_start_bound: "d < day_from_year (1972 + max (d div 365) (d div 366) + 1)"
proof -
  define q where "q = max (d div 365) (d div 366)"
  define A where "A = (4 + q) div 4"
  define B where "B = (72 + q) div 100"
  define C where "C = (372 + q) div 400"
  have f: "day_from_year (1972 + q + 1) = 365 * (3 + q) + A - B + C"
    by (simp add: day_from_year_def A_def B_def C_def)
  have b: "4 + q < 4 * A + 4" "100 * B \<le> 72 + q" "372 + q < 400 * C + 400"
    by (simp_all add: A_def B_def C_def)
  have "d div 366 \<le> d div 365" if "0 \<le> d" using that by (intro zdiv_mono2) simp_all
  moreover have "d div 365 \<le> d div 366" if "d < 0" using that by (intro zdiv_mono2_neg) simp_all
  ultimately have "0 \<le> d \<and> q = d div 365 \<or> d < 0 \<and> q = d div 366" by (auto simp: q_def max_def)
  then have "0 \<le> q \<and> d < 365 * q + 365 \<or> q \<le> - 1 \<and> d < 366 * q + 366"
    by (auto simp: div_neg_pos_less0 pos_imp_zdiv_nonneg_iff)
  then have "d < 365 * (3 + q) + A - B + C" using b by auto
  then show ?thesis using f by (simp add: q_def)
qed

lemma year_of_spec: "day_from_year (year_of d) \<le> d" "d < day_from_year (year_of d + 1)"
  unfolding year_of_def by (rule year_down_spec, rule year_down_next, rule year_start_bound)

lemma day_from_year_mono: "x \<le> y \<Longrightarrow> day_from_year x \<le> day_from_year y"
proof -
  have "day_from_year x \<le> day_from_year (x + int n)" for n
  proof (induction n)
    case (Suc n)
    have "x + int (Suc n) - 1 = x + int n" by simp
    then have "day_from_year (x + int n) < day_from_year (x + int (Suc n))"
      using day_from_year_less [of "x + int (Suc n)"] by (simp only:)
    then show ?case using Suc by (rule order_trans [OF _ less_imp_le, rotated])
  qed simp
  then show "x \<le> y \<Longrightarrow> ?thesis" by (metis zle_iff_zadd)
qed

lemma year_of_eq: "day_from_year y \<le> d \<Longrightarrow> d < day_from_year (y + 1) \<Longrightarrow> year_of d = y"
  using year_of_spec [of d] day_from_year_mono [of "year_of d + 1" y] day_from_year_mono [of "y + 1" "year_of d"]
  by linarith

section \<open>Dates\<close>

definition valid_date :: "int \<Rightarrow> int \<Rightarrow> int \<Rightarrow> bool" where
  "valid_date y m d = (1 \<le> m \<and> m \<le> 12 \<and> 1 \<le> d \<and> d \<le> days_in_month y m)"

lemma month_from_spec:
  assumes "month_from m ns k = (m', k')" "0 \<le> k" "k < sum_list ns"
  shows "m \<le> m' \<and> m' < m + int (length ns) \<and> 0 \<le> k' \<and> k' < ns ! nat (m' - m)
    \<and> k = sum_list (take (nat (m' - m)) ns) + k'"
  using assms
proof (induction m ns k rule: month_from.induct)
  case (2 m n ns k)
  show ?case
  proof (cases "k < n")
    case False
    then have "m + 1 \<le> m' \<and> m' < m + 1 + int (length ns) \<and> 0 \<le> k' \<and> k' < ns ! nat (m' - (m + 1))
      \<and> k - n = sum_list (take (nat (m' - (m + 1))) ns) + k'"
      using 2 by (intro 2(1)) simp_all
    moreover from this have "nat (m' - m) = Suc (nat (m' - (m + 1)))" by linarith
    ultimately show ?thesis by simp
  qed (use 2 in auto)
qed simp

lemma month_from_eq:
  "i < length ns \<Longrightarrow> 0 \<le> k \<Longrightarrow> k < ns ! i \<Longrightarrow> (\<forall>n \<in> set ns. 0 \<le> n) \<Longrightarrow>
   month_from m ns (sum_list (take i ns) + k) = (m + int i, k)"
proof (induction ns arbitrary: m i)
  case (Cons n ns)
  show ?case
  proof (cases i)
    case (Suc j)
    have "0 \<le> sum_list (take j ns)" using Cons.prems(4) by (intro sum_list_nonneg) (auto dest: in_set_takeD)
    then have "\<not> n + sum_list (take j ns) + k < n" using Cons.prems(2) by simp
    then show ?thesis using Cons.IH [of j "m + 1"] Cons.prems Suc by (simp add: algebra_simps)
  qed (use Cons in simp)
qed simp

lemma month_lengths_facts:
  "length (month_lengths l) = 12" "sum_list (month_lengths l) = (if l then 366 else 365)"
  "\<forall>n \<in> set (month_lengths l). 0 \<le> n"
  by (simp_all add: month_lengths_def)

text \<open>Every day is a valid date, and every valid date is recovered from its day.\<close>

lemma civil_of_valid:
  assumes "civil_of n = (y, m, d)"
  shows "valid_date y m d" "make_day y m d = n"
proof -
  obtain k where k: "month_from 1 (month_lengths (leap y)) (n - day_from_year y) = (m, k)" "d = k + 1"
    and y: "y = year_of n"
    using assms by (auto simp: civil_of_def Let_def split: prod.splits)
  have "0 \<le> n - day_from_year y" "n - day_from_year y < sum_list (month_lengths (leap y))"
    using year_of_spec [of n] year_length [of y] by (simp_all add: y month_lengths_facts split: if_splits)
  note s = month_from_spec [OF k(1) this]
  then show "valid_date y m d" using k(2) by (simp add: valid_date_def days_in_month_def month_lengths_facts)
  show "make_day y m d = n" using s k(2) by (simp add: make_day_def month_start_def)
qed

lemma civil_of_make_day:
  assumes "valid_date y m d"
  shows "civil_of (make_day y m d) = (y, m, d)"
proof -
  define i where "i = nat (m - 1)"
  define ns where "ns = month_lengths (leap y)"
  define k where "k = sum_list (take i ns) + (d - 1)"
  have v: "i < length ns" "m = 1 + int i" "0 \<le> d - 1" "d - 1 < ns ! i"
    using assms by (auto simp: valid_date_def days_in_month_def i_def ns_def month_lengths_facts)
  have n: "make_day y m d = day_from_year y + k" by (simp add: make_day_def month_start_def k_def i_def ns_def)
  have "0 \<le> sum_list (take i ns)"
    using month_lengths_facts(3) by (intro sum_list_nonneg) (auto simp: ns_def dest!: in_set_takeD)
  then have k0: "0 \<le> k" using v by (simp add: k_def)
  have "sum_list ns = sum_list (take i ns) + ns ! i + sum_list (drop (Suc i) ns)"
    using id_take_nth_drop [OF v(1)] by (metis add.assoc sum_list.Cons sum_list.append)
  moreover have "0 \<le> sum_list (drop (Suc i) ns)"
    using month_lengths_facts(3) by (intro sum_list_nonneg) (auto simp: ns_def dest!: in_set_dropD)
  ultimately have k1: "k < sum_list ns" using v by (simp add: k_def)
  have y: "year_of (day_from_year y + k) = y"
    using k0 k1 year_length [of y] by (intro year_of_eq) (simp_all add: ns_def month_lengths_facts)
  have "month_from 1 ns k = (1 + int i, d - 1)"
    unfolding k_def using month_lengths_facts(3) v by (intro month_from_eq) (auto simp: ns_def)
  then show ?thesis using v unfolding civil_of_def n y Let_def ns_def by simp
qed

section \<open>ISO texts\<close>

text \<open>A number below \<open>10 ^ w\<close> in \<open>w\<close> digits.\<close>

fun pad :: "nat \<Rightarrow> nat \<Rightarrow> string" where
  "pad 0 n = []"
| "pad (Suc w) n = pad w (n div 10) @ [digit_char (n mod 10)]"

definition iso_date :: "int \<Rightarrow> int \<Rightarrow> int \<Rightarrow> string" where
  "iso_date y m d =
     (if 0 \<le> y \<and> y \<le> 9999 then pad 4 (nat y)
      else (if y < 0 then CHR ''-'' else CHR ''+'') # pad 6 (nat \<bar>y\<bar>)) @
     ''-'' @ pad 2 (nat m) @ ''-'' @ pad 2 (nat d)"

definition ms_per_day :: int where
  "ms_per_day = 86400000"

text \<open>\<open>new Date(t).toISOString().slice(0, 10)\<close> of an instant.\<close>

definition iso_day :: "int \<Rightarrow> string" where
  "iso_day t = (case civil_of (t div ms_per_day) of (y, m, d) \<Rightarrow> take 10 (iso_date y m d))"

text \<open>The pattern \<open>YYYY-MM-DD\<close>, and the fields it names.\<close>

definition iso_shape :: "string \<Rightarrow> bool" where
  "iso_shape s =
     (length s = 10 \<and> s ! 4 = CHR ''-'' \<and> s ! 7 = CHR ''-'' \<and>
      list_all (\<lambda>i. is_digit (s ! i)) [0, 1, 2, 3, 5, 6, 8, 9])"

definition iso_fields :: "string \<Rightarrow> int \<times> int \<times> int" where
  "iso_fields s =
     (int (digits_val (take 4 s)), int (digits_val (take 2 (drop 5 s))), int (digits_val (drop 8 s)))"

text \<open>
  \<open>new Date(s + 'T00:00:00.000Z').getTime()\<close> of a text of this shape: the month and
  the day of the month must be in 1 to 12 and 1 to 31.
\<close>

definition parse_iso_day :: "string \<Rightarrow> int option" where
  "parse_iso_day s =
     (case iso_fields s of (y, m, d) \<Rightarrow>
        if 1 \<le> m \<and> m \<le> 12 \<and> 1 \<le> d \<and> d \<le> 31 then Some (make_day y m d * ms_per_day) else None)"

lemma length_pad [simp]: "length (pad w n) = w"
  by (induction w arbitrary: n) simp_all

lemma digits_val_pad: "n < 10 ^ w \<Longrightarrow> digits_val (pad w n) = n"
  by (induction w arbitrary: n) (simp_all add: digits_val_def less_mult_imp_div_less mult.commute)

lemma digit_val_less: "is_digit c \<Longrightarrow> digit_val c < 10"
  unfolding is_digit_def digit_val_def by arith

lemma digit_char_val: "is_digit c \<Longrightarrow> digit_char (digit_val c) = c"
  by (simp add: is_digit_def digit_val_def digit_char_def)

lemma pad_digits_val: "list_all is_digit s \<Longrightarrow> pad (length s) (digits_val s) = s"
  by (induction s rule: rev_induct) (simp_all add: digit_val_less digit_char_val)

lemma pad_digits: "c \<in> set (pad w n) \<Longrightarrow> is_digit c"
  by (induction w arbitrary: n) auto

lemma nat_less_power: "n < 100 \<Longrightarrow> n < 10 ^ 2" "n \<le> 9999 \<Longrightarrow> n < 10 ^ 4" for n :: nat
  by simp_all

lemma days_in_month_le: "days_in_month y m \<le> 31"
proof (cases "1 \<le> m \<and> m \<le> 12")
  case True
  then have "nat (m - 1) < 12" by arith
  then have "nat (m - 1) < length (month_lengths (leap y))" by (simp add: month_lengths_facts)
  then have "month_lengths (leap y) ! nat (m - 1) \<in> set (month_lengths (leap y))" by (rule nth_mem)
  then show ?thesis using True by (auto simp: days_in_month_def month_lengths_def)
next
  case False
  then have "days_in_month y m = 0" unfolding days_in_month_def by (rule if_not_P)
  then show ?thesis by simp
qed

lemma iso_fields_date:
  assumes "0 \<le> y" "y \<le> 9999" "valid_date y m d"
  shows "iso_fields (iso_date y m d) = (y, m, d)" "length (iso_date y m d) = 10"
proof -
  have b: "0 \<le> m" "m < 100" "0 \<le> d" "d < 100"
    using assms(3) days_in_month_le [of y m] by (auto simp: valid_date_def)
  have e: "iso_date y m d = pad 4 (nat y) @ CHR ''-'' # pad 2 (nat m) @ CHR ''-'' # pad 2 (nat d)"
    using assms(1,2) by (simp add: iso_date_def)
  show "length (iso_date y m d) = 10" by (simp add: e)
  have parts: "take 4 (iso_date y m d) = pad 4 (nat y)" "take 2 (drop 5 (iso_date y m d)) = pad 2 (nat m)"
    "drop 8 (iso_date y m d) = pad 2 (nat d)"
    unfolding e by simp_all
  have "digits_val (pad 4 (nat y)) = nat y" "digits_val (pad 2 (nat m)) = nat m" "digits_val (pad 2 (nat d)) = nat d"
    using assms(1,2) b by (intro digits_val_pad nat_less_power; simp)+
  then show "iso_fields (iso_date y m d) = (y, m, d)" using assms(1) b unfolding iso_fields_def parts by simp
qed

lemma iso_shape_split:
  assumes "iso_shape s"
  shows "s = take 4 s @ CHR ''-'' # take 2 (drop 5 s) @ CHR ''-'' # drop 8 s"
    "list_all is_digit (take 4 s)" "list_all is_digit (take 2 (drop 5 s))" "list_all is_digit (drop 8 s)"
    "length (take 4 s) = 4" "length (take 2 (drop 5 s)) = 2" "length (drop 8 s) = 2"
proof -
  obtain a b c d e f g h i j where s: "s = [a, b, c, d, e, f, g, h, i, j]"
    using assms by (auto simp: iso_shape_def length_Suc_conv eval_nat_numeral)
  show "s = take 4 s @ CHR ''-'' # take 2 (drop 5 s) @ CHR ''-'' # drop 8 s"
    "list_all is_digit (take 4 s)" "list_all is_digit (take 2 (drop 5 s))" "list_all is_digit (drop 8 s)"
    "length (take 4 s) = 4" "length (take 2 (drop 5 s)) = 2" "length (drop 8 s) = 2"
    using assms by (simp_all add: s iso_shape_def eval_nat_numeral)
qed

lemma digits_val_bound: "list_all is_digit s \<Longrightarrow> digits_val s < 10 ^ length s"
proof (induction s rule: rev_induct)
  case (snoc c s)
  then have "digits_val s < 10 ^ length s" "digit_val c < 10" by (simp_all add: digit_val_less)
  then show ?case by simp
qed (simp add: digits_val_def)

lemma iso_date_fields:
  assumes "iso_shape s" "iso_fields s = (y, m, d)"
  shows "iso_date y m d = s" "0 \<le> y" "y \<le> 9999"
proof -
  note p = iso_shape_split [OF assms(1)]
  have f: "y = int (digits_val (take 4 s))" "m = int (digits_val (take 2 (drop 5 s)))" "d = int (digits_val (drop 8 s))"
    using assms(2) by (simp_all add: iso_fields_def)
  have "digits_val (take 4 s) < 10 ^ 4" using digits_val_bound [OF p(2)] unfolding p(5) .
  then show "0 \<le> y" "y \<le> 9999" using f(1) by simp_all
  then have "iso_date y m d = pad 4 (digits_val (take 4 s)) @ ''-'' @ pad 2 (digits_val (take 2 (drop 5 s))) @
      ''-'' @ pad 2 (digits_val (drop 8 s))"
    unfolding iso_date_def using f by simp
  also have "\<dots> = take 4 s @ ''-'' @ take 2 (drop 5 s) @ ''-'' @ drop 8 s"
    using pad_digits_val [OF p(2)] pad_digits_val [OF p(3)] pad_digits_val [OF p(4)] unfolding p(5,6,7) by simp
  also have "\<dots> = s" using p(1) by simp
  finally show "iso_date y m d = s" .
qed

text \<open>The round trip of a text of this shape succeeds exactly for the real dates.\<close>

lemma iso_round_trip:
  assumes "iso_shape s" "iso_fields s = (y, m, d)"
  shows "(\<exists>t. parse_iso_day s = Some t \<and> iso_day t = s) \<longleftrightarrow> valid_date y m d"
proof
  assume v: "valid_date y m d"
  have "d \<le> 31" using v days_in_month_le [of y m] by (simp add: valid_date_def)
  then have "parse_iso_day s = Some (make_day y m d * ms_per_day)"
    using v assms(2) by (simp add: parse_iso_day_def valid_date_def)
  moreover have "iso_day (make_day y m d * ms_per_day) = s"
    using civil_of_make_day [OF v] iso_date_fields [OF assms] assms(1)
    by (simp add: iso_day_def ms_per_day_def iso_shape_def)
  ultimately show "\<exists>t. parse_iso_day s = Some t \<and> iso_day t = s" by blast
next
  assume "\<exists>t. parse_iso_day s = Some t \<and> iso_day t = s"
  then have e: "iso_day (make_day y m d * ms_per_day) = s"
    using assms(2) by (auto simp: parse_iso_day_def split: if_splits)
  obtain y' m' d' where c: "civil_of (make_day y m d) = (y', m', d')" by (metis prod_cases3)
  note v = civil_of_valid(1) [OF c]
  have t: "take 10 (iso_date y' m' d') = s" using e c by (simp add: iso_day_def ms_per_day_def)
  have "0 \<le> y' \<and> y' \<le> 9999"
  proof (rule ccontr)
    assume "\<not> ?thesis"
    then have "s ! 0 = CHR ''-'' \<or> s ! 0 = CHR ''+''" using t [symmetric] by (auto simp: iso_date_def)
    moreover have "is_digit (s ! 0)" using assms(1) by (simp add: iso_shape_def)
    ultimately show False by (auto simp: is_digit_def)
  qed
  then have "iso_fields s = (y', m', d')" using iso_fields_date [OF _ _ v] t by simp
  then show "valid_date y m d" using v assms(2) by simp
qed

end
