(* ===== verification/Metering.thy ===== *)
theory Metering
  imports JsNumber JsDate
begin

text \<open>
  Cost metering (packages/core/src/metering.ts): the effective-dated price table, the
  selection of a rate, provider cost in USD, its conversion to whole manna, and the
  per-turn authorization ceilings. Decimal literals are the nearest binary64 numbers.
  Error messages are dropped; each throw site is a constructor. Where the code reads the
  clock, the instant is the argument \<open>now\<close>.
\<close>

section \<open>Tables\<close>

definition COST_TABLE_VERSION :: string where
  "COST_TABLE_VERSION = ''2026-08-15.voice-stt-v1''"

definition DEFAULT_MANNA_PER_USD :: jsnum where
  "DEFAULT_MANNA_PER_USD = JFin 1000"

definition DEFAULT_MARKUP :: jsnum where
  "DEFAULT_MARKUP = js_of_rat (35 / 100)"

datatype cost_provider =
    Anthropic | Cartesia | Deepinfra | Elevenlabs | Fal | Google | Openrouter | Replicate | Runway

fun provider_name :: "cost_provider \<Rightarrow> string" where
  "provider_name Anthropic = ''anthropic''"
| "provider_name Cartesia = ''cartesia''"
| "provider_name Deepinfra = ''deepinfra''"
| "provider_name Elevenlabs = ''elevenlabs''"
| "provider_name Fal = ''fal''"
| "provider_name Google = ''google''"
| "provider_name Openrouter = ''openrouter''"
| "provider_name Replicate = ''replicate''"
| "provider_name Runway = ''runway''"

datatype cost_unit =
    Input1mTokens | Output1mTokens | CacheRead1mTokens | CacheWrite1mTokens | ImageUnit
  | Megapixel | VideoSecond | AudioSecond | AudioCharacter | MusicClip | MusicSecond
  | CreditUnit | ResponseUsd

fun unit_name :: "cost_unit \<Rightarrow> string" where
  "unit_name Input1mTokens = ''input_1m_tokens''"
| "unit_name Output1mTokens = ''output_1m_tokens''"
| "unit_name CacheRead1mTokens = ''cache_read_1m_tokens''"
| "unit_name CacheWrite1mTokens = ''cache_write_1m_tokens''"
| "unit_name ImageUnit = ''image''"
| "unit_name Megapixel = ''megapixel''"
| "unit_name VideoSecond = ''video_second''"
| "unit_name AudioSecond = ''audio_second''"
| "unit_name AudioCharacter = ''audio_character''"
| "unit_name MusicClip = ''music_clip''"
| "unit_name MusicSecond = ''music_second''"
| "unit_name CreditUnit = ''credit''"
| "unit_name ResponseUsd = ''response_usd''"

record cost_table_entry =
  ce_provider :: cost_provider
  ce_model :: string
  ce_unit :: cost_unit
  ce_usdPerUnit :: jsnum
  ce_effectiveDate :: string
  ce_source :: string
  ce_estimated :: "bool option"

datatype effective_date_input =
    AsOfDate "int option"
  | AsOfText string

record cost_line_item =
  li_entry :: cost_table_entry
  li_quantity :: jsnum
  li_costUsd :: jsnum

record cost_estimate =
  es_tableVersion :: string
  es_provider :: cost_provider
  es_model :: string
  es_totalCostUsd :: jsnum
  es_lineItems :: "cost_line_item list"
  es_estimated :: bool

datatype registry = CostTable | TurnCeilings

datatype metering_error =
    NotACalendarText registry string
  | NotARealDay registry string
  | InvalidDateValue registry
  | AmbiguousRows registry string string
  | NoCostEntry string string cost_unit string
  | NoTurnCeiling string string string
  | NotFiniteNonnegative string jsnum
  | MannaPerUsdInvalid jsnum
  | MarkupInvalid jsnum

definition RATE_SOURCE :: string where
  "RATE_SOURCE = ''Eden3 launch pricing snapshot; reconcile monthly before production billing''"

definition cost_row ::
  "cost_provider \<Rightarrow> string \<Rightarrow> cost_unit \<Rightarrow> rat \<Rightarrow> string \<Rightarrow> string \<Rightarrow> bool option \<Rightarrow> cost_table_entry" where
  "cost_row p m u usd date src est =
     \<lparr>ce_provider = p, ce_model = m, ce_unit = u, ce_usdPerUnit = js_of_rat usd,
      ce_effectiveDate = date, ce_source = src, ce_estimated = est\<rparr>"

definition cost_rows_llm :: "cost_table_entry list" where
  "cost_rows_llm =
    [cost_row Cartesia ''ink-2'' AudioSecond (15 / 100000) ''2026-08-15''
       ''Cartesia official pricing and Ink-2 pricing docs, reviewed 2026-08-15'' None,
     cost_row Anthropic ''claude-haiku-4-5'' Input1mTokens (1) ''2026-07-06''
       RATE_SOURCE None,
     cost_row Anthropic ''claude-haiku-4-5'' Output1mTokens (5) ''2026-07-06''
       RATE_SOURCE None,
     cost_row Anthropic ''claude-haiku-4-5'' CacheRead1mTokens (1 / 10) ''2026-07-06''
       RATE_SOURCE None,
     cost_row Anthropic ''claude-haiku-4-5'' CacheWrite1mTokens (125 / 100) ''2026-07-06''
       RATE_SOURCE None,
     cost_row Anthropic ''claude-sonnet-4-5'' Input1mTokens (3) ''2026-07-06''
       RATE_SOURCE None,
     cost_row Anthropic ''claude-sonnet-4-5'' Output1mTokens (15) ''2026-07-06''
       RATE_SOURCE None,
     cost_row Anthropic ''claude-sonnet-4-5'' CacheRead1mTokens (3 / 10) ''2026-07-06''
       RATE_SOURCE None,
     cost_row Anthropic ''claude-sonnet-4-5'' CacheWrite1mTokens (375 / 100) ''2026-07-06''
       RATE_SOURCE None,
     cost_row Anthropic ''claude-sonnet-4-6'' Input1mTokens (3) ''2026-07-31''
       ''OpenClaw 2026.7.1 Anthropic provider catalog'' None,
     cost_row Anthropic ''claude-sonnet-4-6'' Output1mTokens (15) ''2026-07-31''
       ''OpenClaw 2026.7.1 Anthropic provider catalog'' None,
     cost_row Anthropic ''claude-sonnet-4-6'' CacheRead1mTokens (3 / 10) ''2026-07-31''
       ''OpenClaw 2026.7.1 Anthropic provider catalog'' None,
     cost_row Anthropic ''claude-sonnet-4-6'' CacheWrite1mTokens (375 / 100) ''2026-07-31''
       ''OpenClaw 2026.7.1 Anthropic provider catalog'' None,
     cost_row Anthropic ''claude-opus-4-6'' Input1mTokens (15) ''2026-07-06''
       RATE_SOURCE None,
     cost_row Anthropic ''claude-opus-4-6'' Output1mTokens (75) ''2026-07-06''
       RATE_SOURCE None,
     cost_row Anthropic ''claude-opus-4-6'' CacheRead1mTokens (15 / 10) ''2026-07-06''
       RATE_SOURCE None,
     cost_row Anthropic ''claude-opus-4-6'' CacheWrite1mTokens (1875 / 100) ''2026-07-06''
       RATE_SOURCE None]"

definition cost_rows_media :: "cost_table_entry list" where
  "cost_rows_media =
    [cost_row Google ''gemini-3-pro-image'' ImageUnit (134 / 1000) ''2026-07-06''
       ''Gemini Developer API pricing page, Gemini 3 Pro Image standard 1K/2K image output'' None,
     cost_row Google ''gemini-3-pro-image-preview'' ImageUnit (134 / 1000) ''2026-07-06''
       ''Gemini Developer API pricing page, Gemini 3 Pro Image standard 1K/2K image output'' None,
     cost_row Google ''lyria-3-clip-preview'' MusicClip (4 / 100) ''2026-07-06''
       ''Gemini Developer API pricing page, Lyria 3 Clip Preview 30s per-song price'' None,
     cost_row Google ''veo-3.1-generate-preview'' VideoSecond (4 / 10) ''2026-07-06''
       ''Gemini Developer API pricing page, Veo 3.1 Standard 720p/1080p per-second price'' None,
     cost_row Google ''veo-3.1-fast-generate-preview'' VideoSecond (1 / 10) ''2026-07-06''
       ''Gemini Developer API pricing page, Veo 3.1 Fast 720p per-second price'' None,
     cost_row Google ''veo-3.1-lite-generate-preview'' VideoSecond (5 / 100) ''2026-07-06''
       ''Gemini Developer API pricing page, Veo 3.1 Lite 720p per-second price'' None,
     cost_row Fal ''fal-ai/flux/dev'' ImageUnit (25 / 1000) ''2026-07-06''
       RATE_SOURCE None,
     cost_row Fal ''fal-ai/kling-video/v3/pro/text-to-video'' VideoSecond (9 / 100) ''2026-07-06''
       RATE_SOURCE (Some True),
     cost_row Fal ''fal-ai/kling-video/v3/pro/image-to-video'' VideoSecond (112 / 1000) ''2026-08-12''
       ''fal Kling Video v3 Pro image-to-video pricing page, audio disabled'' None,
     cost_row Fal ''fal-ai/bytedance/seedance/v1/pro/text-to-video'' VideoSecond (5 / 100) ''2026-07-06''
       RATE_SOURCE (Some True),
     cost_row Elevenlabs ''tts'' AudioCharacter (1667 / 10000000) ''2026-07-06''
       RATE_SOURCE (Some True),
     cost_row Deepinfra ''hexgrad/Kokoro-82M'' AudioCharacter (62 / 100000000) ''2026-08-15''
       ''DeepInfra Kokoro-82M model page: $0.62 per 1M input characters'' None,
     cost_row Cartesia ''sonic-3.5-2026-05-04'' AudioCharacter (5 / 100000) ''2026-08-15''
       ''Cartesia Pro allocation: $5 per 100,000 credits; TTS is one credit per character'' (Some True),
     cost_row Elevenlabs ''eleven_flash_v2_5'' AudioCharacter (5 / 100000) ''2026-08-15''
       ''ElevenLabs API pricing: Flash/Turbo pay-as-you-go $0.05 per 1,000 characters'' None,
     cost_row Runway ''gen4-turbo'' VideoSecond (5 / 100) ''2026-07-06''
       RATE_SOURCE (Some True),
     cost_row Replicate ''black-forest-labs/flux-schnell'' ImageUnit (3 / 1000) ''2026-07-06''
       RATE_SOURCE (Some True),
     cost_row Openrouter ''*'' ResponseUsd (1) ''2026-07-06''
       ''OpenRouter response usage.cost field'' None]"

definition COST_TABLE :: "cost_table_entry list" where
  "COST_TABLE = cost_rows_llm @ cost_rows_media"

section \<open>Dates and rows\<close>

definition normalizeModel :: "string \<Rightarrow> string \<Rightarrow> string" where
  "normalizeModel provider model =
     (let trimmed = js_trim model;
          pre = provider @ ''/''
      in if starts_with trimmed pre then drop (length pre) trimmed else trimmed)"

definition strictUtcCalendarDay :: "registry \<Rightarrow> string \<Rightarrow> (metering_error, string) res" where
  "strictUtcCalendarDay reg value =
     (if \<not> iso_shape value then Inl (NotACalendarText reg value)
      else
        (case parse_iso_day value of
           None \<Rightarrow> Inl (NotARealDay reg value)
         | Some t \<Rightarrow> if iso_day t \<noteq> value then Inl (NotARealDay reg value) else Inr value))"

definition effectiveDay ::
  "registry \<Rightarrow> int \<Rightarrow> effective_date_input option \<Rightarrow> (metering_error, string) res" where
  "effectiveDay reg now value =
     (case value of
        Some (AsOfDate None) \<Rightarrow> Inl (InvalidDateValue reg)
      | Some (AsOfDate (Some t)) \<Rightarrow> Inr (iso_day t)
      | None \<Rightarrow> Inr (iso_day now)
      | Some (AsOfText s) \<Rightarrow> strictUtcCalendarDay reg s)"

text \<open>\<open>date\<close> and \<open>ident\<close> read the date and the identity of a row.\<close>

fun unambiguous_from ::
  "registry \<Rightarrow> ('e \<Rightarrow> string) \<Rightarrow> ('e \<Rightarrow> string) \<Rightarrow> string list \<Rightarrow> 'e list \<Rightarrow> (metering_error, unit) res" where
  "unambiguous_from reg date ident seen [] = Inr ()"
| "unambiguous_from reg date ident seen (e # es) =
     ebind (strictUtcCalendarDay reg (date e)) (\<lambda>d.
       let version = ident e @ CHR 0x00 # d
       in if version \<in> set seen then Inl (AmbiguousRows reg (ident e) d)
          else unambiguous_from reg date ident (version # seen) es)"

definition assertUnambiguousEffectiveRows ::
  "registry \<Rightarrow> ('e \<Rightarrow> string) \<Rightarrow> ('e \<Rightarrow> string) \<Rightarrow> 'e list \<Rightarrow> (metering_error, unit) res" where
  "assertUnambiguousEffectiveRows reg date ident table = unambiguous_from reg date ident [] table"

fun latest_from :: "('e \<Rightarrow> string) \<Rightarrow> string \<Rightarrow> 'e option \<Rightarrow> 'e list \<Rightarrow> 'e option" where
  "latest_from date asOf selected [] = selected"
| "latest_from date asOf selected (e # es) =
     (if asOf < date e then latest_from date asOf selected es
      else
        (case selected of
           None \<Rightarrow> latest_from date asOf (Some e) es
         | Some b \<Rightarrow> latest_from date asOf (if date b < date e then Some e else selected) es))"

definition latestEligible :: "('e \<Rightarrow> string) \<Rightarrow> 'e list \<Rightarrow> string \<Rightarrow> 'e option" where
  "latestEligible date entries asOf = latest_from date asOf None entries"

definition assertFiniteNonnegative :: "string \<Rightarrow> jsnum \<Rightarrow> (metering_error, unit) res" where
  "assertFiniteNonnegative name value =
     (if \<not> is_finite value \<or> js_lt value (JFin 0) then Inl (NotFiniteNonnegative name value) else Inr ())"

section \<open>Rates\<close>

definition cost_identity :: "cost_table_entry \<Rightarrow> string" where
  "cost_identity e =
     provider_name (ce_provider e) @ ''/'' @
     (if ce_model e = ''*'' then ''*'' else normalizeModel (provider_name (ce_provider e)) (ce_model e)) @
     ''/'' @ unit_name (ce_unit e)"

definition selectCostTableEntry ::
  "cost_provider \<Rightarrow> string \<Rightarrow> cost_unit \<Rightarrow> int \<Rightarrow> effective_date_input option \<Rightarrow> cost_table_entry list
     \<Rightarrow> (metering_error, cost_table_entry) res" where
  "selectCostTableEntry provider model unit now asOf table =
     ebind (effectiveDay CostTable now asOf) (\<lambda>day.
     ebind (assertUnambiguousEffectiveRows CostTable ce_effectiveDate cost_identity table) (\<lambda>_.
       let normalized = normalizeModel (provider_name provider) model;
           eligibleExact = filter (\<lambda>item. ce_provider item = provider \<and> ce_unit item = unit \<and>
             ce_model item \<noteq> ''*'' \<and>
             normalizeModel (provider_name (ce_provider item)) (ce_model item) = normalized \<and>
             ce_effectiveDate item \<le> day) table;
           eligibleWildcard = filter (\<lambda>item. ce_provider item = provider \<and> ce_unit item = unit \<and>
             ce_model item = ''*'' \<and> ce_effectiveDate item \<le> day) table
       in case latestEligible ce_effectiveDate
                 (if eligibleExact \<noteq> [] then eligibleExact else eligibleWildcard) day of
            None \<Rightarrow> Inl (NoCostEntry (provider_name provider) normalized unit day)
          | Some entry \<Rightarrow> Inr entry))"

definition sumLines :: "cost_provider \<Rightarrow> string \<Rightarrow> cost_line_item list \<Rightarrow> cost_estimate" where
  "sumLines provider model lines =
     \<lparr>es_tableVersion = COST_TABLE_VERSION, es_provider = provider,
      es_model = normalizeModel (provider_name provider) model,
      es_totalCostUsd = foldl js_add (JFin 0) (map li_costUsd lines),
      es_lineItems = lines,
      es_estimated = list_ex (\<lambda>l. ce_estimated (li_entry l) = Some True) lines\<rparr>"

text \<open>The units are the entries of the object, in insertion order.\<close>

record cost_from_params_input =
  cf_provider :: cost_provider
  cf_model :: string
  cf_units :: "(cost_unit \<times> jsnum option) list"
  cf_asOf :: "effective_date_input option"

fun cost_lines ::
  "cost_provider \<Rightarrow> string \<Rightarrow> int \<Rightarrow> string \<Rightarrow> (cost_unit \<times> jsnum option) list
     \<Rightarrow> (metering_error, cost_line_item list) res" where
  "cost_lines provider model now day [] = Inr []"
| "cost_lines provider model now day ((unit, None) # us) = cost_lines provider model now day us"
| "cost_lines provider model now day ((unit, Some q) # us) =
     ebind (assertFiniteNonnegative (unit_name unit) q) (\<lambda>_.
       if js_eq q (JFin 0) then cost_lines provider model now day us
       else
         ebind (selectCostTableEntry provider model unit now (Some (AsOfText day)) COST_TABLE) (\<lambda>entry.
         ebind (cost_lines provider model now day us) (\<lambda>ls.
           Inr (\<lparr>li_entry = entry, li_quantity = q,
                 li_costUsd = js_mul q (ce_usdPerUnit entry)\<rparr> # ls))))"

definition costFromParams :: "int \<Rightarrow> cost_from_params_input \<Rightarrow> (metering_error, cost_estimate) res" where
  "costFromParams now inp =
     ebind (effectiveDay CostTable now (cf_asOf inp)) (\<lambda>day.
     ebind (cost_lines (cf_provider inp) (cf_model inp) now day (cf_units inp)) (\<lambda>lines.
       Inr (sumLines (cf_provider inp) (cf_model inp) lines)))"

record llm_usage_cost_input =
  lu_provider :: cost_provider
  lu_model :: string
  lu_promptTokens :: jsnum
  lu_completionTokens :: jsnum
  lu_cachedTokens :: "jsnum option"
  lu_cacheWriteTokens :: "jsnum option"
  lu_asOf :: "effective_date_input option"

definition per_million :: "jsnum \<Rightarrow> jsnum" where
  "per_million v = (case v of JFin x \<Rightarrow> js_of_rat (x / 1000000) | _ \<Rightarrow> v)"

definition costFromLlmUsage :: "int \<Rightarrow> llm_usage_cost_input \<Rightarrow> (metering_error, cost_estimate) res" where
  "costFromLlmUsage now inp =
     ebind (assertFiniteNonnegative ''promptTokens'' (lu_promptTokens inp)) (\<lambda>_.
     ebind (assertFiniteNonnegative ''completionTokens'' (lu_completionTokens inp)) (\<lambda>_.
     let cachedTokens = (case lu_cachedTokens inp of None \<Rightarrow> JFin 0 | Some v \<Rightarrow> v);
         cacheWriteTokens = (case lu_cacheWriteTokens inp of None \<Rightarrow> JFin 0 | Some v \<Rightarrow> v)
     in
     ebind (assertFiniteNonnegative ''cachedTokens'' cachedTokens) (\<lambda>_.
     ebind (assertFiniteNonnegative ''cacheWriteTokens'' cacheWriteTokens) (\<lambda>_.
       let fullPriceInputTokens = js_max (JFin 0) (js_sub (lu_promptTokens inp) cachedTokens)
       in costFromParams now
            \<lparr>cf_provider = lu_provider inp, cf_model = lu_model inp,
             cf_units = [(Input1mTokens, Some (per_million fullPriceInputTokens)),
                         (CacheRead1mTokens, Some (per_million cachedTokens)),
                         (CacheWrite1mTokens, Some (per_million cacheWriteTokens)),
                         (Output1mTokens, Some (per_million (lu_completionTokens inp)))],
             cf_asOf = lu_asOf inp\<rparr>))))"

section \<open>Manna\<close>

record manna_conversion_options =
  mc_mannaPerUsd :: "jsnum option"
  mc_markup :: "jsnum option"

definition EPSILON :: jsnum where
  "EPSILON = JFin (1 / 2 ^ 52)"

definition mannaFromUsd :: "jsnum \<Rightarrow> manna_conversion_options \<Rightarrow> (metering_error, jsnum) res" where
  "mannaFromUsd costUsd options =
     ebind (assertFiniteNonnegative ''costUsd'' costUsd) (\<lambda>_.
     let mannaPerUsd = (case mc_mannaPerUsd options of None \<Rightarrow> DEFAULT_MANNA_PER_USD | Some v \<Rightarrow> v);
         markup = (case mc_markup options of None \<Rightarrow> DEFAULT_MARKUP | Some v \<Rightarrow> v)
     in if \<not> is_finite mannaPerUsd \<or> js_le mannaPerUsd (JFin 0) then Inl (MannaPerUsdInvalid mannaPerUsd)
        else if \<not> is_finite markup \<or> js_lt markup (JFin 0) then Inl (MarkupInvalid markup)
        else
          (let raw = js_mul (js_mul costUsd (js_add (JFin 1) markup)) mannaPerUsd;
               epsilon = js_mul (js_mul EPSILON (js_max (JFin 1) (js_abs raw))) (JFin 8)
           in if js_le raw epsilon then Inr (JFin 0) else Inr (js_ceil (js_sub raw epsilon))))"

definition mannaForEstimate :: "cost_estimate \<Rightarrow> manna_conversion_options \<Rightarrow> (metering_error, jsnum) res" where
  "mannaForEstimate estimate options = mannaFromUsd (es_totalCostUsd estimate) options"

section \<open>Turn ceilings\<close>

definition TURN_CEILING_TABLE_VERSION :: string where
  "TURN_CEILING_TABLE_VERSION = ''2026-08-08.authz-v1''"

text \<open>The descriptive \<open>source\<close> text of a row is left out.\<close>

record turn_ceiling_entry =
  tc_provider :: cost_provider
  tc_model :: string
  tc_maxTurnUsd :: jsnum
  tc_maxOutputTokens :: int
  tc_effectiveDate :: string

definition ceiling_row :: "string \<Rightarrow> rat \<Rightarrow> int \<Rightarrow> turn_ceiling_entry" where
  "ceiling_row m usd toks =
     \<lparr>tc_provider = Anthropic, tc_model = m, tc_maxTurnUsd = js_of_rat usd,
      tc_maxOutputTokens = toks, tc_effectiveDate = ''2026-08-08''\<rparr>"

definition TURN_CEILINGS :: "turn_ceiling_entry list" where
  "TURN_CEILINGS =
     [ceiling_row ''claude-haiku-4-5'' (45 / 1000) 8192,
      ceiling_row ''claude-sonnet-4-5'' (67 / 100) 32768,
      ceiling_row ''claude-sonnet-4-6'' (67 / 100) 32768,
      ceiling_row ''claude-opus-4-6'' (112 / 100) 14336]"

record turn_authorization_ceiling =
  ta_manna :: jsnum
  ta_usd :: jsnum
  ta_maxOutputTokens :: int
  ta_tableVersion :: string
  ta_provider :: string
  ta_model :: string

definition ceiling_identity :: "turn_ceiling_entry \<Rightarrow> string" where
  "ceiling_identity e =
     provider_name (tc_provider e) @ ''/'' @
     (if tc_model e = ''*'' then ''*'' else normalizeModel (provider_name (tc_provider e)) (tc_model e))"

definition selectTurnCeilingEntry ::
  "string \<Rightarrow> string \<Rightarrow> int \<Rightarrow> effective_date_input option \<Rightarrow> turn_ceiling_entry list
     \<Rightarrow> (metering_error, turn_ceiling_entry) res" where
  "selectTurnCeilingEntry provider model now asOf table =
     ebind (effectiveDay TurnCeilings now asOf) (\<lambda>day.
     ebind (assertUnambiguousEffectiveRows TurnCeilings tc_effectiveDate ceiling_identity table) (\<lambda>_.
       let normalized = normalizeModel provider model;
           eligibleExact = filter (\<lambda>item. provider_name (tc_provider item) = provider \<and>
             tc_model item \<noteq> ''*'' \<and>
             normalizeModel (provider_name (tc_provider item)) (tc_model item) = normalized \<and>
             tc_effectiveDate item \<le> day) table;
           eligibleWildcard = filter (\<lambda>item. provider_name (tc_provider item) = provider \<and>
             tc_model item = ''*'' \<and> tc_effectiveDate item \<le> day) table
       in case latestEligible tc_effectiveDate
                 (if eligibleExact \<noteq> [] then eligibleExact else eligibleWildcard) day of
            None \<Rightarrow> Inl (NoTurnCeiling provider normalized day)
          | Some entry \<Rightarrow> Inr entry))"

definition turnAuthorizedMax ::
  "string \<Rightarrow> string \<Rightarrow> int \<Rightarrow> effective_date_input option \<Rightarrow> manna_conversion_options
     \<Rightarrow> (metering_error, turn_authorization_ceiling) res" where
  "turnAuthorizedMax provider model now asOf options =
     ebind (selectTurnCeilingEntry provider model now asOf TURN_CEILINGS) (\<lambda>entry.
     ebind (mannaFromUsd (tc_maxTurnUsd entry) options) (\<lambda>manna.
       Inr \<lparr>ta_manna = manna, ta_usd = tc_maxTurnUsd entry, ta_maxOutputTokens = tc_maxOutputTokens entry,
            ta_tableVersion = TURN_CEILING_TABLE_VERSION, ta_provider = provider,
            ta_model = normalizeModel provider model\<rparr>))"

section \<open>Default media prices\<close>

datatype media_action = MediaImage | MediaVideo | MediaMusic | MediaTts

definition default_route :: "media_action \<Rightarrow> cost_from_params_input" where
  "default_route action =
     (case action of
        MediaImage \<Rightarrow> \<lparr>cf_provider = Fal, cf_model = ''fal-ai/flux/dev'',
          cf_units = [(ImageUnit, Some (JFin 1))], cf_asOf = None\<rparr>
      | MediaVideo \<Rightarrow> \<lparr>cf_provider = Fal, cf_model = ''fal-ai/kling-video/v3/pro/text-to-video'',
          cf_units = [(VideoSecond, Some (JFin 5))], cf_asOf = None\<rparr>
      | MediaMusic \<Rightarrow> \<lparr>cf_provider = Google, cf_model = ''lyria-3-clip-preview'',
          cf_units = [(MusicClip, Some (JFin 1))], cf_asOf = None\<rparr>
      | MediaTts \<Rightarrow> \<lparr>cf_provider = Elevenlabs, cf_model = ''tts'',
          cf_units = [(AudioCharacter, Some (JFin 120))], cf_asOf = None\<rparr>)"

definition defaultChatMediaManna :: "int \<Rightarrow> media_action \<Rightarrow> (metering_error, jsnum) res" where
  "defaultChatMediaManna now action =
     ebind (costFromParams now (default_route action)) (\<lambda>e.
       mannaForEstimate e \<lparr>mc_mannaPerUsd = None, mc_markup = None\<rparr>)"

end
