(* ===== verification/TurnFunding.thy ===== *)
theory TurnFunding
  imports TurnAuth Metering
begin

text \<open>
  The money path of a chat turn: the economic steps of the turn pipeline
  (apps/api/src/services/turns.ts), the automation budget (automation-budget.ts) and the
  reaper of orphaned reservations (turn-reservation-reaper.ts). \<open>describe\<close> prints an error,
  \<open>evidence\<close> is the database function that records the end of a run for account erasure;
  both are parameters.
\<close>

section \<open>Automation budget\<close>

definition AUTOMATION_HOURLY_MANNA_CAP :: jsnum where
  "AUTOMATION_HOURLY_MANNA_CAP = JFin 80"

definition AUTOMATION_BUDGET_SCOPE :: string where
  "AUTOMATION_BUDGET_SCOPE = ''automation''"

definition AUTOMATION_BUDGET_WINDOW_MS :: jsnum where
  "AUTOMATION_BUDGET_WINDOW_MS = JFin 3600000"

definition automationLedgerKey :: "string \<Rightarrow> string \<Rightarrow> bool \<Rightarrow> (manna_error, string) res" where
  "automationLedgerKey agentId turnId settling =
     scopedLedgerIdempotencyKey AUTOMATION_BUDGET_SCOPE agentId (if settling then turnId @ '':settle'' else turnId)"

definition automationRollingCap :: "string \<Rightarrow> int option \<Rightarrow> rolling_cap" where
  "automationRollingCap agentId now =
     \<lparr>rc_scope = AUTOMATION_BUDGET_SCOPE, rc_scopeId = agentId, rc_limit = AUTOMATION_HOURLY_MANNA_CAP,
      rc_windowMs = AUTOMATION_BUDGET_WINDOW_MS, rc_now = now\<rparr>"

definition automationMannaSpendLastHour :: "string \<Rightarrow> int \<Rightarrow> ledger \<Rightarrow> (manna_error, jsnum) res" where
  "automationMannaSpendLastHour agentId now s =
     scopedNetSpendSince AUTOMATION_BUDGET_SCOPE agentId (now - 3600000) s"

text \<open>No value on the left is the refusal with status 429.\<close>

definition assertAutomationBudget ::
  "string \<Rightarrow> int \<Rightarrow> ledger \<Rightarrow> (manna_error option, jsnum \<times> jsnum) res" where
  "assertAutomationBudget agentId now s =
     (case automationMannaSpendLastHour agentId now s of
        Inl e \<Rightarrow> Inl (Some e)
      | Inr spent \<Rightarrow>
          if js_le AUTOMATION_HOURLY_MANNA_CAP spent then Inl None
          else Inr (spent, AUTOMATION_HOURLY_MANNA_CAP))"

section \<open>Metering a turn\<close>

definition DEFAULT_CHAT_METERING_MODEL :: string where
  "DEFAULT_CHAT_METERING_MODEL = ''anthropic/claude-haiku-4-5''"

text \<open>Provider, model, and whether the model is the agent's own.\<close>

definition resolveChatMeteringModel :: "string option \<Rightarrow> string \<times> string \<times> bool" where
  "resolveChatMeteringModel model =
     (let own = (case model of None \<Rightarrow> False | Some m \<Rightarrow> js_trim m \<noteq> []);
          raw = js_trim (if own then the model else DEFAULT_CHAT_METERING_MODEL)
      in if CHR ''/'' \<notin> set raw then (''anthropic'', raw, own)
         else (takeWhile (\<lambda>c. c \<noteq> CHR ''/'') raw, drop 1 (dropWhile (\<lambda>c. c \<noteq> CHR ''/'') raw), own))"

definition resolveTurnAuthorization ::
  "string option \<Rightarrow> int \<Rightarrow> (turn_error, turn_authorization_ceiling) res" where
  "resolveTurnAuthorization model now =
     (case resolveChatMeteringModel model of
        (provider, m, _) \<Rightarrow>
          (case turnAuthorizedMax provider m now None \<lparr>mc_mannaPerUsd = None, mc_markup = None\<rparr> of
             Inl (NotFiniteNonnegative _ _) \<Rightarrow> Inl MeteringFailed
           | Inl (MannaPerUsdInvalid _) \<Rightarrow> Inl MeteringFailed
           | Inl (MarkupInvalid _) \<Rightarrow> Inl MeteringFailed
           | Inl _ \<Rightarrow> Inl (ModelNotAuthorizable provider m)
           | Inr c \<Rightarrow> Inr c))"

datatype admission_refusal = CannotAuthorize turn_error | NotEnoughManna jsnum jsnum | DailyCapReached jsnum jsnum

definition assertTurnAdmissible ::
  "string \<Rightarrow> string option \<Rightarrow> jsnum \<Rightarrow> int \<Rightarrow> ledger \<Rightarrow> (admission_refusal, turn_authorization_ceiling) res" where
  "assertTurnAdmissible accountId model dailyCap now s =
     (case resolveTurnAuthorization model now of
        Inl e \<Rightarrow> Inl (CannotAuthorize e)
      | Inr authorization \<Rightarrow>
          if js_lt (mb_total (getBalance accountId s)) (ta_manna authorization)
          then Inl (NotEnoughManna (ta_manna authorization) (mb_total (getBalance accountId s)))
          else
            (let spentToday = netSpendSince accountId (startOfUtcDay now) s
             in if js_lt dailyCap (js_add spentToday (ta_manna authorization))
                then Inl (DailyCapReached spentToday (ta_manna authorization))
                else Inr authorization))"

record gateway_usage =
  gu_promptTokens :: "jsnum option"
  gu_completionTokens :: "jsnum option"
  gu_totalTokens :: "jsnum option"
  gu_cachedTokens :: "jsnum option"
  gu_cacheWriteTokens :: "jsnum option"

datatype chat_metering =
    Metered cost_provider string cost_estimate jsnum
  | MissingUsage cost_provider string
  | Unmetered string string

fun asChatCostProvider :: "string \<Rightarrow> cost_provider option" where
  "asChatCostProvider p =
     (if p = ''anthropic'' then Some Anthropic else if p = ''google'' then Some Google
      else if p = ''openrouter'' then Some Openrouter else None)"

definition or_zero :: "jsnum option \<Rightarrow> jsnum" where
  "or_zero v = (case v of None \<Rightarrow> JFin 0 | Some x \<Rightarrow> x)"

definition any_positive :: "gateway_usage \<Rightarrow> bool" where
  "any_positive u =
     list_ex (\<lambda>v. case v of None \<Rightarrow> False | Some x \<Rightarrow> js_lt (JFin 0) x)
       [gu_promptTokens u, gu_completionTokens u, gu_totalTokens u, gu_cachedTokens u, gu_cacheWriteTokens u]"

definition meterChatUsage :: "gateway_usage option \<Rightarrow> string option \<Rightarrow> int \<Rightarrow> chat_metering" where
  "meterChatUsage usage model now =
     (case resolveChatMeteringModel model of
        (providerName, m, _) \<Rightarrow>
          (case asChatCostProvider providerName of
             None \<Rightarrow> Unmetered providerName m
           | Some provider \<Rightarrow>
               (case usage of
                  None \<Rightarrow> MissingUsage provider m
                | Some u \<Rightarrow>
                    if \<not> any_positive u then MissingUsage provider m
                    else
                      (let completionTokens = or_zero (gu_completionTokens u);
                           derived = (case gu_totalTokens u of None \<Rightarrow> JFin 0
                             | Some whole \<Rightarrow> js_max (JFin 0)
                                 (js_sub (js_sub whole completionTokens) (or_zero (gu_cacheWriteTokens u))));
                           promptTokens = js_max (or_zero (gu_promptTokens u)) derived
                       in case ebind (costFromLlmUsage now
                                 \<lparr>lu_provider = provider, lu_model = m, lu_promptTokens = promptTokens,
                                  lu_completionTokens = completionTokens,
                                  lu_cachedTokens = Some (or_zero (gu_cachedTokens u)),
                                  lu_cacheWriteTokens = Some (or_zero (gu_cacheWriteTokens u)),
                                  lu_asOf = None\<rparr>) (\<lambda>estimate.
                               ebind (mannaForEstimate estimate \<lparr>mc_mannaPerUsd = None, mc_markup = None\<rparr>)
                                 (\<lambda>manna. Inr (estimate, manna))) of
                            Inl _ \<Rightarrow> Unmetered providerName m
                          | Inr (estimate, manna) \<Rightarrow> Metered provider (es_model estimate) estimate manna))))"

section \<open>Reserving\<close>

datatype turn_source = Interactive | ScheduledTask "string option" | MemoryDreamRun | Heartbeat

record turn_params =
  tp_turnId :: string
  tp_sessionId :: string
  tp_userAccountId :: string
  tp_agentAccountId :: string
  tp_meteringModel :: string
  tp_claudeCli :: bool
  tp_source :: turn_source
  tp_dailyCapLimit :: jsnum

definition isMemoryDream :: "turn_params \<Rightarrow> bool" where
  "isMemoryDream p = (tp_source p = MemoryDreamRun)"

fun isAutomation :: "turn_source \<Rightarrow> bool" where
  "isAutomation (ScheduledTask _) = True"
| "isAutomation Heartbeat = True"
| "isAutomation _ = False"

definition pricingBasis :: "turn_params \<Rightarrow> string" where
  "pricingBasis p = (if tp_claudeCli p then ''notional-subscription'' else ''provider-api'')"

definition usageEventType :: "turn_params \<Rightarrow> usage_event_type" where
  "usageEventType p = (if isMemoryDream p then MemoryDream else ChatTurn)"

definition spendType :: "turn_params \<Rightarrow> string" where
  "spendType p = (if isMemoryDream p then ''spend:memory-dream'' else ''spend:chat'')"

definition refundType :: "turn_params \<Rightarrow> string" where
  "refundType p = (if isMemoryDream p then ''refund:memory-dream'' else ''refund:chat'')"

definition taskExternalId :: "turn_params \<Rightarrow> string option" where
  "taskExternalId p = (case tp_source p of ScheduledTask e \<Rightarrow> truthy_key e | _ \<Rightarrow> None)"

definition ledgerTurnKey :: "turn_params \<Rightarrow> (turn_error, string) res" where
  "ledgerTurnKey p =
     (if isAutomation (tp_source p)
      then (case automationLedgerKey (tp_agentAccountId p) (tp_turnId p) False of
              Inl e \<Rightarrow> Inl (LedgerFailed e) | Inr k \<Rightarrow> Inr k)
      else Inr (tp_turnId p))"

definition reservation_debit :: "turn_params \<Rightarrow> string \<Rightarrow> turn_authorization_ceiling \<Rightarrow> debit_params" where
  "reservation_debit p key auth =
     \<lparr>dp_accountId = tp_userAccountId p, dp_amount = ta_manna auth, dp_type = spendType p,
      dp_idempotencyKey = key, dp_taskExternalId = taskExternalId p,
      dp_dailyCap = Some \<lparr>dc_limit = tp_dailyCapLimit p, dc_now = None\<rparr>,
      dp_rollingCap = (if isAutomation (tp_source p) then Some (automationRollingCap (tp_agentAccountId p) None)
                       else None)\<rparr>"

text \<open>A replayed debit must be exactly this reservation, and still whole.\<close>

definition check_replay ::
  "turn_params \<Rightarrow> turn_authorization_ceiling \<Rightarrow> manna_transaction \<Rightarrow> ledger \<Rightarrow> (turn_error, unit) res" where
  "check_replay p auth t s =
     (if \<not> js_eq (js_neg (numericToNumber (tx_amount t))) (ta_manna auth)
      then Inl (TurnReservationConflict ''amount mismatch'')
      else if tx_type t \<noteq> Some (spendType p) then Inl (TurnReservationConflict ''spend-type mismatch'')
      else if \<not> list_ex (\<lambda>r. ma_id r = tx_manna_account_id t \<and> ma_account_id r = tp_userAccountId p)
                 (manna_accounts s)
      then Inl (TurnReservationConflict ''payer mismatch'')
      else if list_ex (\<lambda>u. tx_refunds_transaction_id u = Some (tx_id t) \<and> 0 < tx_amount u)
                (manna_transactions s)
      then Inl (TurnReservationConflict ''reservation already reversed'')
      else Inr ())"

definition reservation_row ::
  "turn_params \<Rightarrow> turn_authorization_ceiling \<Rightarrow> ledger_result \<Rightarrow> reserve_row" where
  "reservation_row p auth debited =
     \<lparr>rw_turnId = tp_turnId p, rw_accountId = tp_userAccountId p,
      rw_agentAccountId = Some (tp_agentAccountId p), rw_sessionId = Some (tp_sessionId p),
      rw_provider = ta_provider auth, rw_model = ta_model auth, rw_pricingBasis = pricingBasis p,
      rw_ceilingTableVersion = ta_tableVersion auth, rw_authorizedMaxManna = ta_manna auth,
      rw_reservedSubscriptionManna = or_zero (lr_subscriptionDrawn debited),
      rw_reservationTxId = tx_id (lr_transaction debited)\<rparr>"

definition reserve_tx ::
  "fence \<Rightarrow> turn_params \<Rightarrow> string \<Rightarrow> turn_authorization_ceiling \<Rightarrow> int \<Rightarrow> turn_db
     \<Rightarrow> (turn_error, turn_db \<times> ledger_result \<times> jsnum) res" where
  "reserve_tx fence p key auth now db =
     ebind (fence db) (\<lambda>_.
     ebind (on_ledger (debit (\<lambda>s. s) (reservation_debit p key auth) now) db) (\<lambda>(db1, debited).
     ebind (if lr_alreadyApplied debited
            then check_replay p auth (lr_transaction debited) (td_ledger db1) else Inr ()) (\<lambda>_.
     ebind (insertTurnAuthorization (reservation_row p auth debited) now db1) (\<lambda>(db2, row).
       case row of
         None \<Rightarrow> Inl (TurnReservationConflict ''authorization terminal or inconsistent'')
       | Some a \<Rightarrow> Inr (db2, debited, numericToNumber (au_reservedSubscriptionManna a))))))"

definition reserveAuthorization ::
  "fence \<Rightarrow> turn_params \<Rightarrow> string \<Rightarrow> turn_authorization_ceiling \<Rightarrow> int \<Rightarrow> turn_db
     \<Rightarrow> turn_db \<times> (turn_error, ledger_result \<times> jsnum) res" where
  "reserveAuthorization fence p key auth now db = transaction (reserve_tx fence p key auth now) db"

definition settlementErrorCode :: "turn_error \<Rightarrow> string" where
  "settlementErrorCode e =
     (case e of
        LedgerFailed (DailyCapExceeded _ _ _ _) \<Rightarrow> ''daily_manna_cap_exceeded''
      | LedgerFailed (RollingSpendCapExceeded scope _ _ _ _ _) \<Rightarrow>
          if scope = AUTOMATION_BUDGET_SCOPE then ''automation_hourly_budget_exceeded''
          else ''chat_charge_settlement_failed''
      | LedgerFailed (InsufficientManna _ _ _) \<Rightarrow> ''insufficient_manna''
      | _ \<Rightarrow> ''chat_charge_settlement_failed'')"

fun cap_refusal :: "turn_error \<Rightarrow> bool" where
  "cap_refusal (LedgerFailed (DailyCapExceeded _ _ _ _)) = True"
| "cap_refusal (LedgerFailed (RollingSpendCapExceeded _ _ _ _ _ _)) = True"
| "cap_refusal _ = False"

text \<open>The usage row of an autonomous turn that a cap refuses; an existing row of the turn stays.\<close>

definition record_refusal ::
  "(turn_error \<Rightarrow> string) \<Rightarrow> turn_params \<Rightarrow> turn_authorization_ceiling \<Rightarrow> turn_error \<Rightarrow> turn_db \<Rightarrow> turn_db" where
  "record_refusal describe p auth e db =
     (if usage_recorded (usage_type_name (usageEventType p)) (tp_turnId p) db then db
      else db\<lparr>td_usage := td_usage db @
        [\<lparr>ue_eventType = usage_type_name (usageEventType p), ue_status = ''error'',
          ue_userId = Some (tp_userAccountId p), ue_agentId = Some (tp_agentAccountId p),
          ue_sessionId = Some (tp_sessionId p), ue_messageId = None, ue_turnId = Some (tp_turnId p),
          ue_provider = Some (ta_provider auth), ue_model = Some (ta_model auth),
          ue_pricingBasis = pricingBasis p, ue_tableVersion = None, ue_manna = Some 0,
          ue_errorCode = Some (settlementErrorCode e), ue_errorMessage = Some (describe e)\<rparr>]\<rparr>)"

text \<open>
  From the authorization to the provider start: the reservation, and the one-shot claim. A
  claim that throws gives the reservation back; a lost claim leaves it to the winner.
\<close>

datatype funding_refusal = FundingFailed turn_error | ProviderAlreadyStarted string

definition fund_turn ::
  "(turn_error \<Rightarrow> string) \<Rightarrow> (turn_db \<Rightarrow> turn_db) \<Rightarrow> fence \<Rightarrow> turn_params \<Rightarrow> int \<Rightarrow> turn_db
     \<Rightarrow> turn_db \<times> (funding_refusal, turn_authorization_ceiling \<times> string \<times> jsnum) res" where
  "fund_turn describe env fence p now db =
     (case ledgerTurnKey p of
        Inl e \<Rightarrow> (db, Inl (FundingFailed e))
      | Inr key \<Rightarrow>
     (case resolveTurnAuthorization (Some (tp_meteringModel p)) now of
        Inl e \<Rightarrow> (db, Inl (FundingFailed e))
      | Inr auth \<Rightarrow>
     (case reserveAuthorization fence p key auth now db of
        (db1, Inl e) \<Rightarrow>
          (if tp_source p \<noteq> Interactive \<and> cap_refusal e then record_refusal describe p auth e db1 else db1,
           Inl (FundingFailed e))
      | (db1, Inr (debited, reservedSub)) \<Rightarrow>
     (case claimTurnProviderStart env fence (tp_turnId p) (usageEventType p) now db1 of
        (db2, Inl e) \<Rightarrow>
          (fst (reverseTurnAuthorization fence (tp_turnId p) (refundType p) None now db2), Inl (FundingFailed e))
      | (db2, Inr False) \<Rightarrow> (db2, Inl (ProviderAlreadyStarted (tp_turnId p)))
      | (db2, Inr True) \<Rightarrow> (db2, Inr (auth, key, reservedSub))))))"

section \<open>Terminal success\<close>

text \<open>The charge of a finished turn: clamped to the authorized maximum, all of it when unmetered.\<close>

definition settle_charge :: "jsnum option \<Rightarrow> jsnum \<Rightarrow> jsnum \<times> bool" where
  "settle_charge meteredManna authorized =
     (case meteredManna of
        None \<Rightarrow> (authorized, False)
      | Some m \<Rightarrow> (js_min m authorized, js_lt authorized m))"

definition metered_manna :: "chat_metering \<Rightarrow> jsnum option" where
  "metered_manna m = (case m of Metered _ _ _ manna \<Rightarrow> Some manna | _ \<Rightarrow> None)"

definition metering_status :: "chat_metering \<Rightarrow> string" where
  "metering_status m =
     (case m of Metered _ _ _ _ \<Rightarrow> ''completed'' | MissingUsage _ _ \<Rightarrow> ''missing_usage'' | Unmetered _ _ \<Rightarrow> ''unmetered'')"

fun metering_route :: "chat_metering \<Rightarrow> string \<times> string" where
  "metering_route (Metered p m _ _) = (provider_name p, m)"
| "metering_route (MissingUsage p m) = (provider_name p, m)"
| "metering_route (Unmetered p m) = (p, m)"

definition own_usage :: "turn_params \<Rightarrow> usage_event \<Rightarrow> bool" where
  "own_usage p u \<longleftrightarrow>
     ue_eventType u = usage_type_name (usageEventType p) \<and> ue_turnId u = Some (tp_turnId p) \<and>
     ue_status u = ''provider_admitted'' \<and> ue_userId u = Some (tp_userAccountId p) \<and>
     ue_agentId u = Some (tp_agentAccountId p) \<and> ue_sessionId u = Some (tp_sessionId p)"

record usage_outcome =
  uo_status :: string
  uo_messageId :: "string option"
  uo_manna :: "jsnum option"
  uo_errorCode :: "string option"
  uo_errorMessage :: "string option"

definition outcome_row ::
  "turn_params \<Rightarrow> chat_metering \<Rightarrow> usage_outcome \<Rightarrow> int option \<Rightarrow> usage_event \<Rightarrow> usage_event" where
  "outcome_row p metering o' manna u =
     u\<lparr>ue_status := uo_status o', ue_messageId := uo_messageId o',
       ue_provider := Some (fst (metering_route metering)), ue_model := Some (snd (metering_route metering)),
       ue_pricingBasis := pricingBasis p,
       ue_tableVersion := (case metering of Metered _ _ e _ \<Rightarrow> Some (es_tableVersion e) | _ \<Rightarrow> None),
       ue_manna := manna, ue_errorCode := uo_errorCode o', ue_errorMessage := uo_errorMessage o'\<rparr>"

definition blank_usage :: "turn_params \<Rightarrow> usage_event" where
  "blank_usage p =
     \<lparr>ue_eventType = usage_type_name (usageEventType p), ue_status = [],
      ue_userId = Some (tp_userAccountId p), ue_agentId = Some (tp_agentAccountId p),
      ue_sessionId = Some (tp_sessionId p), ue_messageId = None, ue_turnId = Some (tp_turnId p),
      ue_provider = None, ue_model = None, ue_pricingBasis = [], ue_tableVersion = None,
      ue_manna = None, ue_errorCode = None, ue_errorMessage = None\<rparr>"

text \<open>
  \<open>recordUsageEvent\<close>: the admitted row of the turn is rewritten, or a row inserted; in strict
  mode a row that was there already must say the same.
\<close>

definition recordUsageEvent ::
  "turn_params \<Rightarrow> chat_metering \<Rightarrow> usage_outcome \<Rightarrow> bool \<Rightarrow> turn_db \<Rightarrow> (turn_error, turn_db) res" where
  "recordUsageEvent p metering o' strict db =
     (case (case uo_manna o' of None \<Rightarrow> Some None | Some v \<Rightarrow> map_option Some (stored_int v)) of
        None \<Rightarrow> Inl PgInvalidInteger
      | Some manna \<Rightarrow>
          if list_ex (own_usage p) (td_usage db) then
            Inr (db\<lparr>td_usage := map (\<lambda>u. if own_usage p u then outcome_row p metering o' manna u else u)
                   (td_usage db)\<rparr>)
          else if \<not> usage_recorded (usage_type_name (usageEventType p)) (tp_turnId p) db then
            Inr (db\<lparr>td_usage := td_usage db @ [outcome_row p metering o' manna (blank_usage p)]\<rparr>)
          else if \<not> strict then Inr db
          else
            (case filter (\<lambda>u. ue_eventType u = usage_type_name (usageEventType p) \<and>
                             ue_turnId u = Some (tp_turnId p)) (td_usage db) of
               [survivor] \<Rightarrow>
                 if ue_status survivor = uo_status o' \<and>
                    (case uo_manna o' of None \<Rightarrow> True
                     | Some v \<Rightarrow> (case ue_manna survivor of None \<Rightarrow> JFin 0 | Some m \<Rightarrow> JFin (of_int m)) = v)
                 then Inr db else Inl (UsageConflict (tp_turnId p))
             | _ \<Rightarrow> Inl (UsageConflict (tp_turnId p))))"

record chat_settlement =
  cs_authorizedMaxManna :: jsnum
  cs_meteredManna :: "jsnum option"
  cs_chargedManna :: jsnum
  cs_refundedManna :: jsnum
  cs_overrun :: bool
  cs_balance :: jsnum
  cs_alreadyApplied :: bool

text \<open>
  The one transaction of a finished turn. \<open>message\<close> is the assistant row with the id the
  database gives it; the counters of its session are not modelled. \<open>hook\<close> is
  \<open>afterAssistantPersist\<close>.
\<close>

definition terminal_tx ::
  "fence \<Rightarrow> fence \<Rightarrow> turn_params \<Rightarrow> string \<Rightarrow> jsnum \<Rightarrow> turn_authorization_ceiling \<Rightarrow> chat_metering
     \<Rightarrow> message_row \<Rightarrow> int \<Rightarrow> turn_db \<Rightarrow> (turn_error, turn_db \<times> chat_settlement) res" where
  "terminal_tx fence hook p key reservedSub auth metering message now db =
     (case settle_charge (metered_manna metering) (ta_manna auth) of
        (chargedManna, overrun) \<Rightarrow>
     ebind (fence db) (\<lambda>_.
     ebind (markTurnSettled (tp_turnId p) chargedManna overrun now db) (\<lambda>db1.
     ebind (on_ledger (settleReservation key chargedManna reservedSub
              (Some (if isMemoryDream p then ''refund:memory-dream:settle'' else ''refund:chat:settle'')) now) db1)
       (\<lambda>(db2, leg).
     let db3 = db2\<lparr>td_messages := td_messages db2 @ [message]\<rparr> in
     ebind (hook db3) (\<lambda>_.
     ebind (recordUsageEvent p metering
              \<lparr>uo_status = metering_status metering, uo_messageId = Some (mr_id message),
               uo_manna = Some chargedManna, uo_errorCode = None, uo_errorMessage = None\<rparr> True db3) (\<lambda>db4.
       Inr (db4, \<lparr>cs_authorizedMaxManna = ta_manna auth, cs_meteredManna = metered_manna metering,
              cs_chargedManna = chargedManna, cs_refundedManna = rr_appliedManna leg, cs_overrun = overrun,
              cs_balance = mb_total (rr_balance leg), cs_alreadyApplied = rr_alreadyApplied leg\<rparr>)))))))"

definition terminal_success ::
  "fence \<Rightarrow> fence \<Rightarrow> turn_params \<Rightarrow> string \<Rightarrow> jsnum \<Rightarrow> turn_authorization_ceiling \<Rightarrow> chat_metering
     \<Rightarrow> message_row \<Rightarrow> int \<Rightarrow> turn_db \<Rightarrow> turn_db \<times> (turn_error, chat_settlement) res" where
  "terminal_success fence hook p key reservedSub auth metering message now db =
     transaction (terminal_tx fence hook p key reservedSub auth metering message now) db"

section \<open>Terminal failure\<close>

text \<open>
  \<open>settleMarkedPartialOutput\<close> and \<open>reverseTurn\<close>: whether the money is at rest, and whether a
  partial settlement is left to the reaper.
\<close>

definition settleMarkedPartialOutput ::
  "fence \<Rightarrow> string \<Rightarrow> string \<Rightarrow> string \<Rightarrow> int \<Rightarrow> turn_db \<Rightarrow> turn_db \<times> bool \<times> bool" where
  "settleMarkedPartialOutput fence turnId errorCode errorMessage now db =
     (case settlePartialOutputAuthorization fence turnId errorCode errorMessage now db of
        (db1, Inl e) \<Rightarrow> (db1, False, True)
      | (db1, Inr partial) \<Rightarrow> (db1, ps_eligible partial, False))"

definition reverse_or_settle ::
  "fence \<Rightarrow> (string \<Rightarrow> turn_db \<Rightarrow> turn_db \<times> bool) \<Rightarrow> turn_params \<Rightarrow> bool \<Rightarrow> string \<Rightarrow> string \<Rightarrow> int
     \<Rightarrow> turn_db \<Rightarrow> turn_db \<times> bool \<times> bool" where
  "reverse_or_settle fence evidence p marked errorCode errorMessage now db =
     (case reverseTurnAuthorization fence (tp_turnId p) (refundType p) None now db of
        (db1, Inr result) \<Rightarrow>
          if rs_partialOutputRequired result
          then settleMarkedPartialOutput fence (tp_turnId p) errorCode errorMessage now db1
          else (db1, True, False)
      | (db1, Inl e) \<Rightarrow>
          if marked then (db1, False, False)
          else (case evidence (tp_turnId p) db1 of (db2, recorded) \<Rightarrow> (db2, recorded, False)))"

definition reverseTurn ::
  "fence \<Rightarrow> (string \<Rightarrow> turn_db \<Rightarrow> turn_db \<times> bool) \<Rightarrow> turn_params \<Rightarrow> bool \<Rightarrow> string \<Rightarrow> string \<Rightarrow> int
     \<Rightarrow> turn_db \<Rightarrow> turn_db \<times> bool \<times> bool" where
  "reverseTurn fence evidence p marked errorCode errorMessage now db =
     (if marked then
        (case settleMarkedPartialOutput fence (tp_turnId p) errorCode errorMessage now db of
           (db1, True, pending) \<Rightarrow> (db1, True, pending)
         | (db1, False, pending) \<Rightarrow>
             (case reverse_or_settle fence evidence p marked errorCode errorMessage now db1 of
                (db2, ok, pending') \<Rightarrow> (db2, ok, pending \<or> pending')))
      else reverse_or_settle fence evidence p marked errorCode errorMessage now db)"

section \<open>The reaper\<close>

definition TURN_RESERVATION_TTL_MS :: int where
  "TURN_RESERVATION_TTL_MS = 3600000"

record reap_outcome =
  ro_scanned :: nat
  ro_reaped :: nat
  ro_partialSettled :: nat

definition stale_turns :: "int \<Rightarrow> string list option \<Rightarrow> turn_db \<Rightarrow> string list" where
  "stale_turns cutoff scope db =
     map au_turnId (take 200 (sort_key au_createdAt
       (filter (\<lambda>a. au_state a = Reserved \<and> au_createdAt a < cutoff \<and>
          (case scope of None \<Rightarrow> True | Some ids \<Rightarrow> au_accountId a \<in> set ids)) (td_authorizations db))))"

definition REAP_CODE :: string where
  "REAP_CODE = ''provider_process_lost_after_output''"

definition REAP_MESSAGE :: string where
  "REAP_MESSAGE = ''Provider process ended after emitting usable output; full authorized reserve retained''"

text \<open>
  One turn: \<open>env\<close> is what others commit before each transaction. The numbers are the turns
  reaped and the turns settled; an error is reported and counts as none.
\<close>

definition reap_turn ::
  "(turn_db \<Rightarrow> turn_db) \<Rightarrow> string \<Rightarrow> int \<Rightarrow> string \<Rightarrow> turn_db \<Rightarrow> turn_db \<times> nat \<times> nat" where
  "reap_turn env refundTy now turnId db =
     (case settlePartialOutputAuthorization no_fence turnId REAP_CODE REAP_MESSAGE now (env db) of
        (db1, Inl e) \<Rightarrow> (db1, 0, 0)
      | (db1, Inr partial) \<Rightarrow>
          if ps_eligible partial then (db1, 0, if ps_settled partial then 1 else 0)
          else
            (case reverseTurnAuthorization no_fence turnId refundTy (Some ToReaped) now (env db1) of
               (db2, Inl e) \<Rightarrow> (db2, 0, 0)
             | (db2, Inr result) \<Rightarrow>
                 if rs_partialOutputRequired result then
                   (case settlePartialOutputAuthorization no_fence turnId REAP_CODE REAP_MESSAGE now (env db2) of
                      (db3, Inl e) \<Rightarrow> (db3, if rs_reversed result then 1 else 0, 0)
                    | (db3, Inr raced) \<Rightarrow>
                        (db3, if rs_reversed result then 1 else 0, if ps_settled raced then 1 else 0))
                 else (db2, if rs_reversed result then 1 else 0, 0)))"

fun reap_turns ::
  "(turn_db \<Rightarrow> turn_db) \<Rightarrow> string \<Rightarrow> int \<Rightarrow> string list \<Rightarrow> turn_db \<Rightarrow> turn_db \<times> nat \<times> nat" where
  "reap_turns env refundTy now [] db = (db, 0, 0)"
| "reap_turns env refundTy now (t # ts) db =
     (case reap_turn env refundTy now t db of
        (db1, n, m) \<Rightarrow>
          (case reap_turns env refundTy now ts db1 of (db2, n', m') \<Rightarrow> (db2, n + n', m + m')))"

text \<open>\<open>runOnce\<close> of an idle reaper.\<close>

definition runOnce ::
  "(turn_db \<Rightarrow> turn_db) \<Rightarrow> string \<Rightarrow> int \<Rightarrow> string list option \<Rightarrow> int \<Rightarrow> turn_db \<Rightarrow> turn_db \<times> reap_outcome" where
  "runOnce env refundTy ttlMs scope now db =
     (let stale = stale_turns (now - ttlMs) scope db
      in case reap_turns env refundTy now stale db of
           (db', reaped, partial) \<Rightarrow>
             (db', \<lparr>ro_scanned = length stale, ro_reaped = reaped, ro_partialSettled = partial\<rparr>))"

end
