(* ===== verification/LedgerFrames.thy ===== *)
theory LedgerFrames
  imports LedgerContracts
begin

text \<open>
  What the ledger operations leave alone: debits and credits refund nothing, and a refund
  leg moves only the refunded amount of its own original.
\<close>

lemma find_unique:
  "distinct (map f xs) \<Longrightarrow> x \<in> set xs \<Longrightarrow> find (\<lambda>y. f y = f x) xs = Some x"
  by (induction xs) auto

lemma tx_by_key:
  assumes "ledger_inv s" "t \<in> set (manna_transactions s)" "tx_idempotency_key t = Some k"
  shows "findTransactionByKey k s = Some t"
proof -
  have "find (\<lambda>u. tx_idempotency_key u = Some k) xs = Some t"
    if "distinct (List.map_filter tx_idempotency_key xs)" "t \<in> set xs" for xs
    using that
  proof (induction xs)
    case (Cons a xs)
    have "k \<in> set (List.map_filter tx_idempotency_key xs)" if "t \<in> set xs"
      using that assms(3) by (force simp: map_filter_def)
    then show ?case using Cons assms(3)
      by (cases "tx_idempotency_key a") (auto simp: map_filter_simps)
  qed simp
  then show ?thesis using assms by (simp add: findTransactionByKey_def ledger_inv_def txs_ok_def tx_keys_def)
qed

definition plain_growth :: "ledger \<Rightarrow> ledger \<Rightarrow> bool" where
  "plain_growth s s' \<longleftrightarrow>
     (\<exists>ts. manna_transactions s' = manna_transactions s @ ts \<and>
           (\<forall>t \<in> set ts. tx_refunds_transaction_id t = None))"

lemma plain_growth_refl [simp]: "plain_growth s s"
  by (simp add: plain_growth_def)

lemma plain_growth_same: "manna_transactions s' = manna_transactions s \<Longrightarrow> plain_growth s s'"
  by (simp add: plain_growth_def)

lemma plain_growth_extends: "plain_growth s s' \<Longrightarrow> extends s s'"
  by (auto simp: plain_growth_def extends_def)

lemma plain_growth_refunded: "plain_growth s s' \<Longrightarrow> refunded_units i s' = refunded_units i s"
proof -
  have "filter (\<lambda>t. tx_refunds_transaction_id t = Some i \<and> p t) ts = []"
    if "\<forall>t \<in> set ts. tx_refunds_transaction_id t = None" for ts p
    using that by (auto simp: filter_empty_conv)
  then show "plain_growth s s' \<Longrightarrow> refunded_units i s' = refunded_units i s"
    by (auto simp: plain_growth_def refunded_units_def linked_refunds_def)
qed

lemma apply_debit_plain:
  assumes "apply_debit p now i s = Inr (s', r)"
  shows "plain_growth s s'"
proof -
  obtain x where "dp_amount p = JFin x"
    using assms by (cases "dp_amount p") (auto simp: apply_debit_def numberToNumeric_def)
  with assms obtain row where "insert_transaction
       ((blank_tx i (- fixed4 x) now)\<lparr>tx_type := Some (dp_type p),
          tx_idempotency_key := Some (dp_idempotencyKey p),
          tx_task_external_id := dp_taskExternalId p\<rparr>)
       (update_account i (draw_down (fixed4 x) now) s) = Inr (s', row)"
    by (rule apply_debit_InrD) blast
  from insert_transaction_InrD [OF this, simplified]
  show ?thesis by (auto simp: plain_growth_def blank_tx_def)
qed

lemma debit_plain:
  assumes "debit (\<lambda>x. x) p now s = (s', res)"
  shows "plain_growth s s'"
proof (cases "debit_tx (\<lambda>x. x) p now s")
  case (Inl e)
  then show ?thesis using assms by (auto simp: debit_def split: sum.splits option.splits if_splits)
next
  case (Inr y)
  then obtain s2 r where y: "debit_tx (\<lambda>x. x) p now s = Inr (s2, r)" by (cases y) auto
  then have "plain_growth s s2"
  proof (cases rule: debit_tx_cases)
    case (locked_replay acc t)
    from locked_replay(1) show ?thesis by (cases rule: getOrCreate_id_cases) (simp_all add: plain_growth_same)
  next
    case (charge s1 acc)
    from charge(2) have "manna_transactions s1 = manna_transactions s"
      by (cases rule: getOrCreate_id_cases) simp_all
    then show ?thesis using apply_debit_plain [OF charge(6)] by (simp add: plain_growth_def)
  qed simp
  then show ?thesis using assms y by (auto simp: debit_def split: sum.splits)
qed

lemma credit_plain:
  assumes "credit (\<lambda>x. x) p now s = (s', res)"
  shows "plain_growth s s'"
proof (cases "credit_tx (\<lambda>x. x) p now s")
  case (Inl e)
  then show ?thesis using assms by (auto simp: credit_def split: sum.splits option.splits if_splits)
next
  case (Inr y)
  obtain s2 r where y: "y = (s2, r)" by (cases y)
  have "plain_growth s s2"
    using Inr unfolding y
    by (auto simp: credit_tx_def ebind_Inr_iff getOrCreateMannaAccount_def update_account_def insert_transaction_def
        plain_growth_def blank_tx_def Let_def split: option.splits if_splits)
  then show ?thesis using assms Inr y by (auto simp: credit_def split: sum.splits)
qed

section \<open>Refund legs\<close>

text \<open>A row linked to a debit of which nothing is refunded gives nothing back.\<close>

lemma linked_row_nonpos:
  assumes "refunded_units i s = 0" "t \<in> set (manna_transactions s)" "tx_refunds_transaction_id t = Some i"
  shows "tx_amount t \<le> 0"
proof (rule ccontr)
  let ?rows = "filter (\<lambda>t. tx_refunds_transaction_id t = Some i \<and> 0 < tx_amount t) (manna_transactions s)"
  assume "\<not> tx_amount t \<le> 0"
  then have t: "0 < tx_amount t" "t \<in> set ?rows" using assms by auto
  have "tx_amount t \<le> sum_list (map tx_amount ?rows)"
    using t(2) by (intro member_le_sum_list) auto
  then show False using t(1) assms(1) by (simp add: refunded_units_def linked_refunds_def)
qed

lemma far_apart:
  assumes "e \<le> 0" "- unit_bound \<le> e" "0 < k" "k \<le> unit_bound"
  shows "js_lt EPS (js_abs (js_sub (numericToNumber e) (JFin (unit_val k))))"
proof -
  have ub: "\<bar>e\<bar> \<le> unit_bound" "\<bar>k\<bar> \<le> unit_bound" "\<bar>1 :: int\<bar> \<le> unit_bound"
    using assms by (simp_all add: unit_bound_def)
  have v: "unit_val e \<le> 0" "unit_val 1 \<le> unit_val k"
    using unit_val_mono [of e 0] unit_val_mono [of 1 k] assms by simp_all
  have "(2::rat) ^ 36 + 1 + (2 ^ 36 + 1) \<le> 2 ^ 40" by simp
  then have "\<bar>unit_val e - unit_val k\<bar> \<le> 2 ^ 40"
    using unit_val_size [OF ub(1)] unit_val_size [OF ub(2)] by linarith
  then have d: "js_sub (numericToNumber e) (JFin (unit_val k)) = JFin (round64 (unit_val e - unit_val k))"
    using ub(1) by (simp add: numericToNumber_def number_of_units_val js_simps js_of_rat_small)
  have "round64 (unit_val e - unit_val k) \<le> round64 (- unit_val 1)" using v by (intro round64_mono) simp
  moreover have "round64 (unit_val 1) = unit_val 1" by (simp add: unit_val_def)
  ultimately have "round64 (unit_val e - unit_val k) \<le> - unit_val 1" by (simp add: round64_uminus)
  moreover have "1 / 10000 - 1 / 2 ^ 16 \<le> unit_val 1" using unit_val_error [OF ub(3)] unfolding abs_le_iff by simp
  moreover have "1 / 2 ^ 20 < (1 / 10000 - 1 / 2 ^ 16 :: rat)" by simp
  ultimately have "1 / 2 ^ 20 < \<bar>round64 (unit_val e - unit_val k)\<bar>" by linarith
  moreover obtain x where x: "EPS = JFin x" "x \<le> 1 / 2 ^ 20" by (rule EPS_val)
  ultimately have "x < \<bar>round64 (unit_val e - unit_val k)\<bar>" by linarith
  then show ?thesis unfolding x(1) d by simp
qed

text \<open>The leg of a fixed amount on an untouched debit, whatever row the leg key may already name.\<close>

lemma leg_refunds:
  assumes leg: "refundLeg (\<lambda>x. x) p now s = (s', Inr (Some leg))"
    and inv: "ledger_inv s"
    and orig: "findTransactionByKey (rl_originalIdempotencyKey p) s = Some o'"
    and amt: "rl_amount p = Some (JFin (unit_val k))" "0 \<le> k" "k \<le> unit_bound"
    and none: "refunded_units (tx_id o') s = 0"
  shows "refunded_units (tx_id o') s' = k \<and> (\<forall>i. i \<noteq> tx_id o' \<longrightarrow> refunded_units i s' = refunded_units i s)"
proof (cases "findTransactionByKey (leg_key p) s")
  case None
  have r: "run_leg (\<lambda>x. x) p (leg_key p) now s = Inr (s', Some leg)"
    using leg None by (auto simp: refundLeg_def Let_def split: sum.splits option.splits if_splits)
  have fk: "fixed4 (unit_val k) = k" using amt by simp
  from r inv extends_refl [of s] show ?thesis
  proof (cases rule: run_leg_cases)
    case (zero o2 r)
    then show ?thesis using amt(1) fk none by simp
  next
    case (applied o2 k2)
    then have o2: "o2 = o'" and k2: "k2 = k" using orig amt(1) fk by auto
    obtain q row j where
      ins: "insert_transaction (leg_tx p (leg_key p) o' k now)
         (update_account (tx_manna_account_id o') (refund_row (k - j) j now) s) = Inr (s', row)"
      using apply_leg_InrD [OF applied(7) [unfolded o2 k2] amt(2,3)] by metis
    note d = insert_transaction_InrD [OF ins, simplified]
    have "0 < k" using applied(4) k2 by simp
    then show ?thesis using none unfolding refunded_units_def linked_refunds_append [OF d(2)]
      by (auto simp: d(1) leg_tx_def blank_tx_def)
  qed (use None orig in simp_all)
next
  case (Some existing)
  have ex: "existing \<in> set (manna_transactions s)" using findTransactionByKey_SomeD [OF Some] by simp
  have ok: "\<exists>r. replay_leg p (leg_key p) (Some o') existing s = Inr r" "s' = s"
    using leg Some orig
    by (auto simp: refundLeg_def run_leg_def Let_def ebind_def split: sum.splits option.splits if_splits)
  have f: "fix4 (JFin (unit_val k)) = JFin (unit_val k)" using amt by (simp add: fix4_unit_val)
  have link: "tx_refunds_transaction_id existing = Some (tx_id o')"
    and near: "\<not> js_lt EPS (js_abs (js_sub (numericToNumber (tx_amount existing)) (JFin (unit_val k))))"
    using ok(1) amt(1) f by (auto simp: replay_leg_def Let_def split: if_splits)
  have "tx_amount existing \<le> 0" by (rule linked_row_nonpos [OF none ex link])
  moreover have "- unit_bound \<le> tx_amount existing" using inv ex by (simp add: ledger_inv_def txs_ok_def)
  ultimately have "k = 0" using far_apart [of "tx_amount existing" k] near amt(2,3) by fastforce
  then show ?thesis using ok(2) none by simp
qed

lemma settle_refunds:
  assumes st: "settleReservation key (JFin (unit_val c)) (JFin (unit_val rs)) ty now s = (s', Inr leg)"
    and inv: "ledger_inv s" and orig: "findTransactionByKey key s = Some o'"
    and c: "0 \<le> c" "c \<le> - tx_amount o'" and rs: "0 \<le> rs" "rs \<le> - tx_amount o'"
    and none: "refunded_units (tx_id o') s = 0"
  shows "refunded_units (tx_id o') s' = - tx_amount o' - c \<and>
    (\<forall>i. i \<noteq> tx_id o' \<longrightarrow> refunded_units i s' = refunded_units i s)"
proof -
  define p where "p = settle_leg key ty (- tx_amount o' - c) (rs - min rs c)"
  have "o' \<in> set (manna_transactions s)" using findTransactionByKey_SomeD [OF orig] by simp
  then have k: "0 \<le> - tx_amount o' - c" "- tx_amount o' - c \<le> unit_bound"
    using inv c by (auto simp: ledger_inv_def txs_ok_def)
  have leg: "refundLeg (\<lambda>x. x) p now s = (s', Inr (Some leg))"
    using st unfolding settle_eq [OF inv orig c rs] leg_or_abort_Inr p_def .
  show ?thesis
    by (rule leg_refunds [OF leg inv _ _ k none]) (use orig in \<open>simp_all add: p_def settle_leg_def\<close>)
qed

lemma reverse_refunds:
  assumes rv: "reverseReservation key (Some (JFin (unit_val rs))) ty now s = (s', Inr leg)"
    and inv: "ledger_inv s" and orig: "findTransactionByKey key s = Some o'" and neg: "tx_amount o' < 0"
    and rs: "0 \<le> rs" "rs \<le> unit_bound" and none: "refunded_units (tx_id o') s = 0"
  shows "refunded_units (tx_id o') s' = - tx_amount o' \<and>
    (\<forall>i. i \<noteq> tx_id o' \<longrightarrow> refunded_units i s' = refunded_units i s)"
proof -
  define m where "m = - tx_amount o' - refunded_units (tx_id o') s"
  define p where "p = reverse_leg key ty m (min rs m)"
  have mem: "o' \<in> set (manna_transactions s)" using findTransactionByKey_SomeD [OF orig] by simp
  note b = debit_row_bounds [OF inv mem neg]
  have m: "0 < m" "m \<le> unit_bound" "m = - tx_amount o'" using b none by (simp_all add: m_def)
  have leg: "refundLeg (\<lambda>x. x) p now s = (s', Inr (Some leg))"
    using rv unfolding reverse_eq [OF inv orig neg rs m_def] leg_or_abort_Inr p_def .
  have amt: "rl_amount p = Some (JFin (unit_val m))" using unit_val_pos [OF m(1,2)] by (simp add: p_def reverse_leg_def)
  have "findTransactionByKey (rl_originalIdempotencyKey p) s = Some o'" using orig by (simp add: p_def reverse_leg_def)
  from leg_refunds [OF leg inv this amt _ m(2) none] m show ?thesis by simp
qed

section \<open>What an operation may give back\<close>

lemma leg_frame:
  assumes leg: "refundLeg (\<lambda>x. x) p now s = (s', res)" and inv: "ledger_inv s"
    and other: "\<And>o'. findTransactionByKey (rl_originalIdempotencyKey p) s = Some o' \<Longrightarrow> tx_id o' \<noteq> i"
  shows "refunded_units i s' = refunded_units i s"
proof (cases "run_leg (\<lambda>x. x) p (leg_key p) now s")
  case (Inl e)
  then have "s' = s" using leg by (auto simp: refundLeg_def Let_def split: option.splits sum.splits if_splits)
  then show ?thesis by simp
next
  case (Inr y)
  then obtain r where r: "run_leg (\<lambda>x. x) p (leg_key p) now s = Inr (s', r)"
    using leg by (cases y) (auto simp: refundLeg_def Let_def)
  from r inv extends_refl [of s] show ?thesis
  proof (cases rule: run_leg_cases)
    case (applied o' k)
    have mem: "o' \<in> set (manna_transactions s)" using findTransactionByKey_SomeD [OF applied(2)] by simp
    have k: "0 \<le> k" "k \<le> unit_bound" using debit_row_bounds [OF inv mem applied(3)] applied(4,5) by simp_all
    obtain j row where
      ins: "insert_transaction (leg_tx p (leg_key p) o' k now)
         (update_account (tx_manna_account_id o') (refund_row (k - j) j now) s) = Inr (s', row)"
      using apply_leg_InrD [OF applied(7) k] by metis
    note d = insert_transaction_InrD [OF ins, simplified]
    show ?thesis using other [OF applied(2)] unfolding refunded_units_def linked_refunds_append [OF d(2)]
      by (simp add: d(1) leg_tx_def blank_tx_def)
  qed simp_all
qed

text \<open>The key of the debit that an operation refunds, settles or reverses.\<close>

fun refunded_key :: "ledger_op \<Rightarrow> string option" where
  "refunded_key (RefundOp k ty now) = Some k"
| "refunded_key (SettleOp k c rs ty now) = Some k"
| "refunded_key (ReverseOp k rs ty now) = Some k"
| "refunded_key op = None"

lemma refund_state: "fst (refund env k ty now s) = fst (refundLeg env \<lparr>rl_originalIdempotencyKey = k,
    rl_amount = None, rl_key = None, rl_type = ty, rl_toSubscription = None\<rparr> now s)"
  by (simp add: refund_def split: prod.splits sum.splits option.splits)

lemma abort_state:
  "rl_originalIdempotencyKey p = k \<Longrightarrow> fst (leg_or_abort k s (refundLeg (\<lambda>x. x) p now s)) = s \<or>
  (\<exists>q. rl_originalIdempotencyKey q = k \<and>
     fst (leg_or_abort k s (refundLeg (\<lambda>x. x) p now s)) = fst (refundLeg (\<lambda>x. x) q now s))"
proof -
  assume "rl_originalIdempotencyKey p = k"
  moreover have "fst (leg_or_abort k s (refundLeg (\<lambda>x. x) p now s)) \<in> {s, fst (refundLeg (\<lambda>x. x) p now s)}"
    by (cases "refundLeg (\<lambda>x. x) p now s") (simp add: leg_or_abort_def split: sum.split option.split)
  ultimately show ?thesis by blast
qed

lemma settle_state: "fst (settleReservation k c rs ty now s) = s \<or>
  (\<exists>p. rl_originalIdempotencyKey p = k \<and> fst (settleReservation k c rs ty now s) = fst (refundLeg (\<lambda>x. x) p now s))"
  unfolding settleReservation_def Let_def leg_or_abort_def [symmetric]
  using abort_state by (simp split: option.split)

lemma reverse_state: "fst (reverseReservation k rs ty now s) = s \<or>
  (\<exists>p. rl_originalIdempotencyKey p = k \<and> fst (reverseReservation k rs ty now s) = fst (refundLeg (\<lambda>x. x) p now s))"
  unfolding reverseReservation_def Let_def leg_or_abort_def [symmetric]
  using abort_state by (simp split: option.split)

lemma ledger_step_frame:
  assumes inv: "ledger_inv s"
    and other: "\<And>k o'. refunded_key op = Some k \<Longrightarrow> findTransactionByKey k s = Some o' \<Longrightarrow> tx_id o' \<noteq> i"
  shows "refunded_units i (ledger_step s op) = refunded_units i s"
proof -
  have leg: "refunded_units i (fst (refundLeg (\<lambda>x. x) p now s)) = refunded_units i s"
    if "refunded_key op = Some (rl_originalIdempotencyKey p)" for p now
    using leg_frame [OF _ inv other [OF that]] by (cases "refundLeg (\<lambda>x. x) p now s") simp
  show ?thesis
  proof (cases op)
    case (DebitOp p now)
    show ?thesis unfolding DebitOp ledger_step.simps
      by (rule plain_growth_refunded, rule debit_plain, rule prod.collapse [symmetric])
  next
    case (CreditOp p now)
    show ?thesis unfolding CreditOp ledger_step.simps
      by (rule plain_growth_refunded, rule credit_plain, rule prod.collapse [symmetric])
  next
    case (RefundOp k ty now)
    then show ?thesis by (simp add: refund_state leg)
  next
    case (SettleOp k c rs ty now)
    then show ?thesis using settle_state [of k c rs ty now s] leg by fastforce
  next
    case (ReverseOp k rs ty now)
    then show ?thesis using reverse_state [of k rs ty now s] leg by fastforce
  qed
qed

end
