(* ===== verification/TurnAuthFacts.thy ===== *)
theory TurnAuthFacts
  imports TurnFunding LedgerFrames
begin

text \<open>
  The invariant of turn authorizations and how each transaction keeps it. Every row names
  the debit that funds it, and what was given back of that debit is what the state of the
  row says.
\<close>

section \<open>The invariant\<close>

text \<open>What is given back of a reservation, by the state of its row.\<close>

definition given_back :: "turn_authorization \<Rightarrow> int" where
  "given_back a =
     (case au_state a of
        Reserved \<Rightarrow> 0
      | Settled \<Rightarrow> au_authorizedMaxManna a - the (au_chargedManna a)
      | _ \<Rightarrow> au_authorizedMaxManna a)"

definition authorization_ok :: "turn_authorization \<Rightarrow> bool" where
  "authorization_ok a \<longleftrightarrow>
     0 < au_authorizedMaxManna a \<and> au_authorizedMaxManna a \<le> unit_bound \<and>
     0 \<le> au_reservedSubscriptionManna a \<and> au_reservedSubscriptionManna a \<le> au_authorizedMaxManna a \<and>
     (case au_chargedManna a of None \<Rightarrow> au_state a \<noteq> Settled
      | Some c \<Rightarrow> au_state a = Settled \<and> 0 \<le> c \<and> c \<le> au_authorizedMaxManna a)"

text \<open>\<open>plan\<close> gives the parameters of the turn with an id.\<close>

definition reservation_ok :: "(string \<Rightarrow> turn_params) \<Rightarrow> ledger \<Rightarrow> turn_authorization \<Rightarrow> bool" where
  "reservation_ok plan s a \<longleftrightarrow>
     (\<exists>t key. t \<in> set (manna_transactions s) \<and> tx_id t = au_reservationTxId a \<and>
        tx_idempotency_key t = Some key \<and> ledgerTurnKey (plan (au_turnId a)) = Inr key \<and>
        tx_amount t = - au_authorizedMaxManna a \<and>
        refunded_units (au_reservationTxId a) s = given_back a)"

definition runs_ok :: "turn_db \<Rightarrow> bool" where
  "runs_ok db \<longleftrightarrow> distinct (map pr_turnId (td_runs db)) \<and>
     (\<forall>r \<in> set (td_runs db). pr_usableOutputAt r \<noteq> None \<longrightarrow>
        (\<exists>a \<in> set (td_authorizations db). au_turnId a = pr_turnId r \<and>
           (au_state a = Reserved \<or> au_state a = Settled)))"

definition auth_inv :: "(string \<Rightarrow> turn_params) \<Rightarrow> turn_db \<Rightarrow> bool" where
  "auth_inv plan db \<longleftrightarrow>
     ledger_inv (td_ledger db) \<and> distinct (map au_turnId (td_authorizations db)) \<and>
     distinct (map au_reservationTxId (td_authorizations db)) \<and>
     (\<forall>a \<in> set (td_authorizations db). authorization_ok a \<and> reservation_ok plan (td_ledger db) a) \<and>
     runs_ok db"

text \<open>How a row may change: its identity stays, and once it is terminal nothing changes.\<close>

definition same_reservation :: "turn_authorization \<Rightarrow> turn_authorization \<Rightarrow> bool" where
  "same_reservation a b \<longleftrightarrow>
     au_turnId b = au_turnId a \<and> au_accountId b = au_accountId a \<and>
     au_reservationTxId b = au_reservationTxId a \<and>
     au_authorizedMaxManna b = au_authorizedMaxManna a \<and>
     au_reservedSubscriptionManna b = au_reservedSubscriptionManna a"

definition db_le :: "turn_db \<Rightarrow> turn_db \<Rightarrow> bool" where
  "db_le db db' \<longleftrightarrow>
     extends (td_ledger db) (td_ledger db') \<and>
     (\<forall>a \<in> set (td_authorizations db). \<exists>b \<in> set (td_authorizations db').
        same_reservation a b \<and> (au_state a \<noteq> Reserved \<longrightarrow> b = a)) \<and>
     (\<forall>r \<in> set (td_runs db). \<exists>q \<in> set (td_runs db').
        pr_turnId q = pr_turnId r \<and> (pr_usableOutputAt r \<noteq> None \<longrightarrow> q = r))"

lemma same_reservation_refl [simp]: "same_reservation a a"
  by (simp add: same_reservation_def)

lemma same_reservation_trans: "same_reservation a b \<Longrightarrow> same_reservation b c \<Longrightarrow> same_reservation a c"
  by (simp add: same_reservation_def)

lemma db_le_refl [simp, intro]: "db_le db db"
  unfolding db_le_def using same_reservation_refl extends_refl by blast

lemma db_le_trans: "db_le a b \<Longrightarrow> db_le b c \<Longrightarrow> db_le a c"
proof -
  assume l: "db_le a b" "db_le b c"
  have "\<exists>z \<in> set (td_authorizations c). same_reservation x z \<and> (au_state x \<noteq> Reserved \<longrightarrow> z = x)"
    if x: "x \<in> set (td_authorizations a)" for x
  proof -
    obtain y where y: "y \<in> set (td_authorizations b)" "same_reservation x y" "au_state x \<noteq> Reserved \<longrightarrow> y = x"
      using l(1) x unfolding db_le_def by blast
    obtain z where "z \<in> set (td_authorizations c)" "same_reservation y z" "au_state y \<noteq> Reserved \<longrightarrow> z = y"
      using l(2) y(1) unfolding db_le_def by blast
    with y same_reservation_trans show ?thesis by blast
  qed
  moreover have "\<exists>z \<in> set (td_runs c). pr_turnId z = pr_turnId x \<and> (pr_usableOutputAt x \<noteq> None \<longrightarrow> z = x)"
    if x: "x \<in> set (td_runs a)" for x
  proof -
    obtain y where y: "y \<in> set (td_runs b)" "pr_turnId y = pr_turnId x" "pr_usableOutputAt x \<noteq> None \<longrightarrow> y = x"
      using l(1) x unfolding db_le_def by blast
    obtain z where "z \<in> set (td_runs c)" "pr_turnId z = pr_turnId y" "pr_usableOutputAt y \<noteq> None \<longrightarrow> z = y"
      using l(2) y(1) unfolding db_le_def by blast
    with y show ?thesis by metis
  qed
  moreover have "extends (td_ledger a) (td_ledger c)"
    using l extends_trans unfolding db_le_def by blast
  ultimately show ?thesis unfolding db_le_def by blast
qed

section \<open>Finding rows\<close>

lemma tx_by_id:
  assumes "ledger_inv (td_ledger db)" "t \<in> set (manna_transactions (td_ledger db))"
  shows "transaction_of (tx_id t) db = Some t"
  using assms find_unique [of tx_id "manna_transactions (td_ledger db)" t]
  by (simp add: transaction_of_def ledger_inv_def txs_ok_def)

lemma authorization_of_in:
  "authorization_of t db = Some a \<Longrightarrow> a \<in> set (td_authorizations db) \<and> au_turnId a = t"
  unfolding authorization_of_def by (drule find_SomeD) simp

lemma authorization_of_iff:
  assumes "distinct (map au_turnId (td_authorizations db))"
  shows "authorization_of t db = Some a \<longleftrightarrow> a \<in> set (td_authorizations db) \<and> au_turnId a = t"
proof
  assume "a \<in> set (td_authorizations db) \<and> au_turnId a = t"
  then show "authorization_of t db = Some a"
    using find_unique [OF assms, of a] by (simp add: authorization_of_def)
qed (rule authorization_of_in)

lemma run_of_in: "run_of t db = Some r \<Longrightarrow> r \<in> set (td_runs db) \<and> pr_turnId r = t"
  unfolding run_of_def by (drule find_SomeD) simp

lemma run_of_none: "run_of t db = None \<longleftrightarrow> t \<notin> pr_turnId ` set (td_runs db)"
  by (auto simp: run_of_def find_None_iff)

lemma reserved_row:
  assumes "distinct (map au_turnId (td_authorizations db))"
  shows "find (\<lambda>a. au_turnId a = t \<and> au_state a = Reserved) (td_authorizations db) = Some a \<longleftrightarrow>
    authorization_of t db = Some a \<and> au_state a = Reserved"
proof -
  have "find (\<lambda>a. au_turnId a = t \<and> au_state a = Reserved) xs = Some a \<longleftrightarrow>
      find (\<lambda>a. au_turnId a = t) xs = Some a \<and> au_state a = Reserved" if "distinct (map au_turnId xs)" for xs
    using that
  proof (induction xs)
    case (Cons x xs)
    have "find (\<lambda>a. au_turnId a = t \<and> au_state a = Reserved) xs = None" if "au_turnId x = t"
      using Cons.prems that by (auto simp: find_None_iff image_iff)
    then show ?case using Cons by auto
  qed simp
  then show ?thesis using assms by (simp add: authorization_of_def)
qed

section \<open>Moves\<close>

text \<open>A move of the ledger that gives nothing back keeps the authorizations.\<close>

lemma reservation_ok_grow:
  assumes "reservation_ok plan s a" "extends s s'"
    "refunded_units (au_reservationTxId a) s' = refunded_units (au_reservationTxId a) s"
  shows "reservation_ok plan s' a"
  using assms extends_rows unfolding reservation_ok_def by metis

lemma ledger_move:
  assumes inv: "auth_inv plan db" and s: "ledger_inv s'" "extends (td_ledger db) s'"
    "\<forall>i. refunded_units i s' = refunded_units i (td_ledger db)"
  shows "auth_inv plan (db\<lparr>td_ledger := s'\<rparr>) \<and> db_le db (db\<lparr>td_ledger := s'\<rparr>)"
proof -
  have "reservation_ok plan s' a" if "reservation_ok plan (td_ledger db) a" for a
    using reservation_ok_grow [OF that s(2)] s(3) by simp
  then have "auth_inv plan (db\<lparr>td_ledger := s'\<rparr>)" using inv s(1) by (simp add: auth_inv_def runs_ok_def)
  moreover have "db_le db (db\<lparr>td_ledger := s'\<rparr>)" using db_le_refl [of db, unfolded db_le_def] s(2) unfolding db_le_def by simp
  ultimately show ?thesis by simp
qed

text \<open>The same with tables the invariant does not read.\<close>

definition same_core :: "turn_db \<Rightarrow> turn_db \<Rightarrow> bool" where
  "same_core db db' \<longleftrightarrow> td_ledger db' = td_ledger db \<and> td_authorizations db' = td_authorizations db \<and>
     td_runs db' = td_runs db"

lemma core_move:
  assumes "same_core db db'" "auth_inv plan db"
  shows "auth_inv plan db' \<and> db_le db db'"
proof -
  have "auth_inv plan db' = auth_inv plan db"
    using assms(1) by (simp add: same_core_def auth_inv_def runs_ok_def)
  moreover have "db_le db db'" using db_le_refl [of db, unfolded db_le_def] assms(1) unfolding db_le_def same_core_def by simp
  ultimately show ?thesis using assms(2) by simp
qed

text \<open>A reserved row becomes terminal, and the ledger gives back what its new state says.\<close>

lemma terminal_move:
  assumes inv: "auth_inv plan db" and a: "authorization_of t db = Some a" "au_state a = Reserved"
    and f: "same_reservation a (f a)" "authorization_ok (f a)" "au_state (f a) \<noteq> Reserved"
    and out: "\<And>r. run_of t db = Some r \<Longrightarrow> pr_usableOutputAt r \<noteq> None \<Longrightarrow> au_state (f a) = Settled"
    and s: "ledger_inv s'" "extends (td_ledger db) s'"
    and ret: "refunded_units (au_reservationTxId a) s' = given_back (f a)"
    and others: "\<forall>i. i \<noteq> au_reservationTxId a \<longrightarrow> refunded_units i s' = refunded_units i (td_ledger db)"
  shows "auth_inv plan ((update_reserved t f db)\<lparr>td_ledger := s'\<rparr>) \<and>
    db_le db ((update_reserved t f db)\<lparr>td_ledger := s'\<rparr>)"
proof -
  define A where "A = td_authorizations db"
  define B where "B = map (\<lambda>b. if au_turnId b = t \<and> au_state b = Reserved then f b else b) A"
  define db' where "db' = (update_reserved t f db)\<lparr>td_ledger := s'\<rparr>"
  have eqs: "td_authorizations db' = B" "td_ledger db' = s'" "td_runs db' = td_runs db"
    by (simp_all add: db'_def B_def A_def update_reserved_def)
  have I: "distinct (map au_turnId A)" "distinct (map au_reservationTxId A)" "runs_ok db"
    "\<forall>b \<in> set A. authorization_ok b \<and> reservation_ok plan (td_ledger db) b"
    using inv by (simp_all add: auth_inv_def A_def)
  have mem: "a \<in> set A" "au_turnId a = t" using authorization_of_in [OF a(1)] by (simp_all add: A_def)
  have uniq: "b = a" if "b \<in> set A" "au_turnId b = t" for b
    using I(1) mem that by (auto simp: distinct_map inj_on_def)
  have maps: "B = map (\<lambda>b. if b = a then f a else b) A"
    unfolding B_def
  proof (rule map_cong [OF refl])
    fix b assume b: "b \<in> set A"
    show "(if au_turnId b = t \<and> au_state b = Reserved then f b else b) = (if b = a then f a else b)"
    proof (cases "b = a")
      case True
      then show ?thesis by (simp add: a(2) mem(2))
    next
      case False
      then have "au_turnId b \<noteq> t" using uniq [OF b] by blast
      then show ?thesis using False by simp
    qed
  qed
  have setB: "set B = insert (f a) (set A - {a})"
    unfolding maps set_map using mem(1) by (auto simp: image_iff)
  have fa: "f a \<in> set B" by (simp add: setB)
  have keep: "b \<in> set B" if "b \<in> set A" "b \<noteq> a" for b using that by (simp add: setB)
  have origin: "b = f a \<or> b \<in> set A \<and> b \<noteq> a" if "b \<in> set B" for b using that by (simp add: setB)
  have ids: "map au_turnId B = map au_turnId A" "map au_reservationTxId B = map au_reservationTxId A"
    using f(1) by (auto simp: maps same_reservation_def)
  have "authorization_ok b \<and> reservation_ok plan s' b" if "b \<in> set B" for b
  proof (cases "b = f a")
    case True
    have "reservation_ok plan (td_ledger db) a" using I(4) mem(1) by simp
    then obtain tx key where tx: "tx \<in> set (manna_transactions (td_ledger db))" "tx_id tx = au_reservationTxId a"
      "tx_idempotency_key tx = Some key" "ledgerTurnKey (plan (au_turnId a)) = Inr key"
      "tx_amount tx = - au_authorizedMaxManna a"
      unfolding reservation_ok_def by blast
    moreover have "tx \<in> set (manna_transactions s')" using extends_rows [OF s(2) tx(1)] .
    ultimately show ?thesis using True f(1,2) ret unfolding reservation_ok_def same_reservation_def by auto
  next
    case False
    then have b: "b \<in> set A" "b \<noteq> a" using origin [OF that] by blast+
    then have "au_reservationTxId b \<noteq> au_reservationTxId a"
      using I(2) mem(1) by (auto simp: distinct_map inj_on_def)
    then show ?thesis using I(4) b(1) s(2) others reservation_ok_grow by blast
  qed
  moreover have "runs_ok db'"
    unfolding runs_ok_def eqs
  proof (intro conjI ballI impI)
    show "distinct (map pr_turnId (td_runs db))" using I(3) unfolding runs_ok_def by blast
    note dist = this
    fix r assume r: "r \<in> set (td_runs db)" "pr_usableOutputAt r \<noteq> None"
    then obtain b where b: "b \<in> set A" "au_turnId b = pr_turnId r" "au_state b = Reserved \<or> au_state b = Settled"
      using I(3) unfolding runs_ok_def A_def by blast
    show "\<exists>c \<in> set B. au_turnId c = pr_turnId r \<and> (au_state c = Reserved \<or> au_state c = Settled)"
    proof (cases "b = a")
      case True
      have "run_of t db = Some r" using find_unique [OF dist r(1)] b(2) mem(2) True by (simp add: run_of_def)
      then have "au_state (f a) = Settled" using out r(2) by blast
      moreover have "au_turnId (f a) = pr_turnId r" using f(1) b(2) True by (simp add: same_reservation_def)
      ultimately show ?thesis using fa by blast
    qed (use b keep in blast)
  qed
  ultimately have "auth_inv plan db'" using s(1) I(1,2) unfolding auth_inv_def eqs ids by blast
  moreover have "\<exists>c \<in> set B. same_reservation b c \<and> (au_state b \<noteq> Reserved \<longrightarrow> c = b)" if "b \<in> set A" for b
    using that fa keep f(1) a(2) same_reservation_refl by (cases "b = a") blast+
  then have "db_le db db'" using s(2) unfolding db_le_def eqs A_def by blast
  ultimately show ?thesis unfolding db'_def by blast
qed

end
