(* ===== verification/MeteringFacts.thy ===== *)
theory MeteringFacts
  imports Metering LedgerArith
begin

text \<open>
  Facts about metering: relative rounding errors and the exact price of a cost in whole
  micro-dollars, monotonicity of the conversion, real calendar dates, and the selection
  of a row by effective date.
\<close>

section \<open>Relative errors\<close>

definition rel :: "rat \<Rightarrow> rat \<Rightarrow> rat \<Rightarrow> bool" where
  "rel a x e \<longleftrightarrow> \<bar>a - x\<bar> \<le> x * e"

lemma rel_mult:
  assumes "rel a x d" "rel b y e" "0 \<le> x" "0 \<le> y" "0 \<le> d" "0 \<le> e"
  shows "rel (a * b) (x * y) (d + e + d * e)"
proof -
  have "a * b - x * y = (a - x) * (b - y) + (a - x) * y + x * (b - y)" by (simp add: algebra_simps)
  then have "\<bar>a * b - x * y\<bar> \<le> \<bar>(a - x) * (b - y)\<bar> + \<bar>(a - x) * y\<bar> + \<bar>x * (b - y)\<bar>" by linarith
  also have "\<dots> = \<bar>a - x\<bar> * \<bar>b - y\<bar> + \<bar>a - x\<bar> * y + x * \<bar>b - y\<bar>" using assms(3,4) by (simp add: abs_mult)
  also have "\<dots> \<le> (x * d) * (y * e) + (x * d) * y + x * (y * e)"
    using assms unfolding rel_def by (intro add_mono mult_mono mult_nonneg_nonneg) simp_all
  finally show ?thesis by (simp add: rel_def algebra_simps)
qed

lemma rel_mono: "rel a x d \<Longrightarrow> d \<le> e \<Longrightarrow> 0 \<le> x \<Longrightarrow> rel a x e"
  unfolding rel_def by (meson mult_left_mono order_trans)

lemma rel_round:
  assumes "rel a x d" "1 / 2 ^ 30 \<le> x" "0 \<le> d" "d \<le> 1 / 2"
  shows "rel (round64 a) x (d + (1 + d) / 2 ^ 52)"
proof -
  have x0: "0 < x" by (rule less_le_trans [OF _ assms(2)]) simp
  have ax: "\<bar>a - x\<bar> \<le> x * d" using assms(1) by (simp add: rel_def)
  have "x * d \<le> x * (1 / 2)" using x0 assms(4) by (intro mult_left_mono) simp_all
  moreover have "x - x * d \<le> a" "a \<le> x + x * d" using ax by linarith+
  ultimately have a: "x / 2 \<le> a" "a \<le> x * (1 + d)" by (simp_all add: distrib_left)
  then have a0: "0 < a" using x0 by linarith
  have "(2::rat) powi (- 1074) \<le> 2 powi (- 84)" by (intro power_int_increasing) simp_all
  also have "\<dots> = 1 / 2 ^ 30 / 2 / 2 ^ 53" by (simp add: power_int_minus field_simps)
  also have "\<dots> \<le> a / 2 ^ 53" using a(1) assms(2) by (intro divide_right_mono) simp_all
  finally have "\<bar>round64 a - a\<bar> \<le> a / 2 ^ 53 + a / 2 ^ 53" using round64_error [of a] a0 by simp
  also have "\<dots> = a / 2 ^ 52" by simp
  also have "\<dots> \<le> x * ((1 + d) / 2 ^ 52)" using divide_right_mono [OF a(2), of "2 ^ 52"] by simp
  finally have "\<bar>round64 a - x\<bar> \<le> x * d + x * ((1 + d) / 2 ^ 52)" using ax by linarith
  then show ?thesis unfolding rel_def by (simp only: distrib_left)
qed

section \<open>The price of a cost\<close>

definition default_conversion :: manna_conversion_options where
  "default_conversion = \<lparr>mc_mannaPerUsd = None, mc_markup = None\<rparr>"

text \<open>\<open>1 + 0.35\<close> as the code computes it.\<close>

definition markup_factor :: rat where
  "markup_factor = 6079859496950170 / 2 ^ 52"

lemma markup_factor:
  "js_add (JFin 1) DEFAULT_MARKUP = JFin markup_factor"
  "\<exists>m. DEFAULT_MARKUP = JFin m \<and> 0 \<le> m" "rel markup_factor (135 / 100) (1 / 2 ^ 52)"
proof -
  have r: "round64 (35 / 100) = 6305039478318694 / 2 ^ 54"
    "round64 (1 + 6305039478318694 / 2 ^ 54) = 6079859496950170 / 2 ^ 52"
    by code_simp+
  have s: "\<bar>35 / 100\<bar> \<le> (2::rat) ^ 40" "\<bar>1 + 6305039478318694 / 2 ^ 54\<bar> \<le> (2::rat) ^ 40" by simp_all
  have m: "DEFAULT_MARKUP = JFin (6305039478318694 / 2 ^ 54)"
    unfolding DEFAULT_MARKUP_def js_of_rat_small [OF s(1)] r ..
  show "js_add (JFin 1) DEFAULT_MARKUP = JFin markup_factor"
    unfolding m js_add.simps js_of_rat_small [OF s(2)] r markup_factor_def ..
  show "\<exists>m. DEFAULT_MARKUP = JFin m \<and> 0 \<le> m" unfolding m by (intro exI conjI) (rule refl, simp)
  show "rel markup_factor (135 / 100) (1 / 2 ^ 52)" by (simp add: rel_def markup_factor_def)
qed

lemma round64_repr:
  assumes "1 \<le> x"
  obtains k e where "\<bar>k\<bar> < 2 ^ 53" "- 52 \<le> e" "round64 x = of_int k * 2 powi e"
proof -
  have "(2::rat) powi 0 \<le> x" "0 < x" using assms by simp_all
  then have "0 \<le> ilog2 x"
    using ilog2_bounds(2) [of x] power_int_increasing [of "ilog2 x + 1" 0 "2::rat"] by (cases "ilog2 x + 1 \<le> 0") auto
  then have e: "- 52 \<le> ulp_exp x" using \<open>0 < x\<close> by (simp add: ulp_exp_def)
  define n where "n = rne (x / 2 powi ulp_exp x)"
  have n: "\<bar>n\<bar> \<le> 2 ^ 53" unfolding n_def by (rule rne_significand)
  have r: "round64 x = of_int n * 2 powi ulp_exp x" using \<open>0 < x\<close> by (simp add: round64_def n_def)
  show thesis
  proof (cases "\<bar>n\<bar> = 2 ^ 53")
    case True
    have "even \<bar>n\<bar>" unfolding True by simp
    then have "n = 2 * (n div 2)" by simp
    then have "rat_of_int n = of_int (n div 2) * 2" by (metis mult.commute of_int_mult of_int_numeral)
    then have "round64 x = of_int (n div 2) * 2 powi (ulp_exp x + 1)"
      unfolding r by (simp add: power_int_add_1 mult.commute mult.left_commute)
    then show thesis using True e by (intro that [of "n div 2" "ulp_exp x + 1"]) auto
  qed (use that n e r in force)
qed

lemma round64_scale: "1 \<le> x \<Longrightarrow> round64 (round64 x * 2 powi (- int k)) = round64 x * 2 powi (- int k)" if "k \<le> 1000"
proof -
  assume "1 \<le> x"
  then obtain n e where r: "\<bar>n\<bar> < 2 ^ 53" "- 52 \<le> e" "round64 x = of_int n * 2 powi e" by (rule round64_repr)
  have "round64 x * 2 powi (- int k) = of_int n * 2 powi (e - int k)"
    unfolding r(3) by (simp add: power_int_diff power_int_minus divide_inverse)
  moreover have "round64 (of_int n * 2 powi (e - int k)) = of_int n * 2 powi (e - int k)"
    using r(1,2) that by (intro round64_exact) simp_all
  ultimately show ?thesis by simp
qed

lemma round64_shift:
  assumes "1 \<le> x" "k \<le> 1000"
  shows "round64 (round64 x / 2 ^ k) = round64 x / 2 ^ k"
proof -
  have "y * 2 powi (- int k) = y / 2 ^ k" for y :: rat by (simp add: power_int_minus divide_inverse)
  then show ?thesis using round64_scale [OF assms(2,1)] by simp
qed

text \<open>
  A finite cost at the default peg and markup: \<open>raw\<close> is the price before the ceiling,
  and the tolerance is exactly \<open>2 powi - 49\<close> of the larger of \<open>raw\<close> and 1.
\<close>

definition raw_price :: "rat \<Rightarrow> rat" where
  "raw_price c = round64 (round64 (c * markup_factor) * 1000)"

lemma default_price:
  assumes c: "0 \<le> c" "c \<le> 2 ^ 28"
  shows "mannaFromUsd (JFin c) default_conversion =
    (let raw = raw_price c; tol = max 1 raw / 2 ^ 49
     in Inr (if raw \<le> tol then JFin 0 else JFin (of_int \<lceil>round64 (raw - tol)\<rceil>)))"
proof -
  define raw where "raw = raw_price c"
  have f: "0 \<le> markup_factor" "markup_factor \<le> 2" by (simp_all add: markup_factor_def)
  have "c * markup_factor \<le> 2 ^ 28 * 2" using c f by (intro mult_mono) simp_all
  then have p: "0 \<le> c * markup_factor" "c * markup_factor \<le> 2 ^ 29" using c f by simp_all
  have "round64 (c * markup_factor) \<le> round64 (2 ^ 29)" using p(2) by (rule round64_mono)
  then have q: "0 \<le> round64 (c * markup_factor) * 1000" "round64 (c * markup_factor) * 1000 \<le> 2 ^ 39"
    using round64_powi [of 29] round64_nonneg [OF p(1)] by simp_all
  have "raw \<le> round64 (2 ^ 39)" unfolding raw_def raw_price_def using q(2) by (rule round64_mono)
  then have r: "0 \<le> raw" "raw \<le> 2 ^ 39"
    using round64_powi [of 39] round64_nonneg [OF q(1)] by (simp_all add: raw_def raw_price_def)
  have b: "\<bar>c * markup_factor\<bar> \<le> 2 ^ 40" "\<bar>round64 (c * markup_factor) * 1000\<bar> \<le> 2 ^ 40"
    using p q by simp_all
  have e1: "js_mul (JFin c) (JFin markup_factor) = JFin (round64 (c * markup_factor))"
    using js_of_rat_small [OF b(1)] by simp
  have e2: "js_mul (JFin (round64 (c * markup_factor))) (JFin 1000) = JFin raw"
    using js_of_rat_small [OF b(2)] by (simp add: raw_def raw_price_def)
  define m where "m = max 1 raw"
  have m: "1 \<le> m" "m \<le> 2 ^ 39" "round64 m = m"
    using r round64_of_int [of 1] by (auto simp: m_def max_def raw_def raw_price_def)
  have "m / 2 ^ 52 * 8 = m / 2 ^ 49" by simp
  then have sc: "round64 (m / 2 ^ 52) = m / 2 ^ 52" "round64 (m / 2 ^ 52 * 8) = m / 2 ^ 49"
    using round64_shift [OF m(1), of 52] round64_shift [OF m(1), of 49] unfolding m(3) by simp_all
  have b1: "\<bar>t\<bar> \<le> 2 ^ 40" if "0 \<le> t" "t \<le> 2 ^ 39" for t :: rat
    using that by simp
  have b2: "\<bar>a - t\<bar> \<le> 2 ^ 40" if "0 \<le> t" "t \<le> 2 ^ 39" "0 \<le> a" "a \<le> 2 ^ 39" for a t :: rat
    using that unfolding abs_le_iff by simp
  have shrink: "0 \<le> m / 2 ^ k \<and> m / 2 ^ k \<le> 2 ^ 39" for k :: nat
  proof -
    have "m / 2 ^ k \<le> m / 1" using m(1) by (intro divide_left_mono) simp_all
    then show ?thesis using m by simp
  qed
  have sb: "\<bar>m / 2 ^ 52\<bar> \<le> 2 ^ 40" "\<bar>m / 2 ^ 52 * 8\<bar> \<le> 2 ^ 40" "\<bar>raw - m / 2 ^ 49\<bar> \<le> 2 ^ 40"
    using shrink [of 52] shrink [of 49] r \<open>m / 2 ^ 52 * 8 = m / 2 ^ 49\<close> b1 b2 by metis+
  have e3: "js_mul (js_mul EPSILON (js_max (JFin 1) (js_abs (JFin raw)))) (JFin 8) = JFin (m / 2 ^ 49)"
  proof -
    have "js_max (JFin 1) (js_abs (JFin raw)) = JFin m" using r by (simp add: js_max_JFin m_def)
    moreover have "js_mul EPSILON (JFin m) = JFin (m / 2 ^ 52)"
      unfolding EPSILON_def js_mul.simps times_divide_eq_left mult_1 js_of_rat_small [OF sb(1)] sc(1) ..
    moreover have "js_mul (JFin (m / 2 ^ 52)) (JFin 8) = JFin (m / 2 ^ 49)"
      unfolding js_mul.simps js_of_rat_small [OF sb(2)] sc(2) ..
    ultimately show ?thesis by simp
  qed
  have e4: "js_ceil (js_sub (JFin raw) (JFin (m / 2 ^ 49))) = JFin (of_int \<lceil>round64 (raw - m / 2 ^ 49)\<rceil>)"
    unfolding js_sub_JFin js_of_rat_small [OF sb(3)] by simp
  obtain mk where mk: "DEFAULT_MARKUP = JFin mk" "0 \<le> mk" using markup_factor(2) by blast
  have af: "js_add (JFin 1) (JFin mk) = JFin markup_factor" using markup_factor(1) mk(1) by simp
  define tol where "tol = m / 2 ^ 49"
  show ?thesis
    unfolding mannaFromUsd_def default_conversion_def Let_def raw_def [symmetric] m_def [symmetric] tol_def [symmetric]
    using c(1) mk(2)
    by (simp add: assertFiniteNonnegative_def DEFAULT_MANNA_PER_USD_def mk(1) af e1 e2 e3 [folded tol_def]
        e4 [folded tol_def] del: js_mul.simps js_add.simps js_abs.simps)
qed

lemma raw_price_rel:
  assumes "rel c x (1 / 2 ^ 51)" "1 / 1000000 \<le> x"
  shows "rel (raw_price c) (1350 * x) (6 / 2 ^ 52)"
proof -
  have x: "0 \<le> x" using assms(2) by (rule order_trans [rotated]) simp
  have big: "1 / 2 ^ 30 \<le> x * (135 / 100)" "1 / 2 ^ 30 \<le> x * (135 / 100) * 1000"
    using assms(2) by simp_all
  define d1 :: rat where "d1 = 1 / 2 ^ 51 + 1 / 2 ^ 52 + 1 / 2 ^ 51 * (1 / 2 ^ 52)"
  define d2 where "d2 = d1 + (1 + d1) / 2 ^ 52"
  have d: "0 \<le> d1" "d1 \<le> 1 / 2" "0 \<le> d2" "d2 \<le> 1 / 2" "d2 + (1 + d2) / 2 ^ 52 \<le> 6 / 2 ^ 52"
    by (simp_all add: d1_def d2_def)
  have "rel (c * markup_factor) (x * (135 / 100)) d1"
    unfolding d1_def using assms(1) markup_factor(3) x by (intro rel_mult) simp_all
  then have "rel (round64 (c * markup_factor)) (x * (135 / 100)) d2"
    unfolding d2_def using big(1) d(1,2) by (rule rel_round)
  then have "rel (round64 (c * markup_factor) * 1000) (x * (135 / 100) * 1000) d2"
    using rel_mult [of _ "x * (135 / 100)" d2 1000 1000 0] x d(3) by (simp add: rel_def)
  then have "rel (raw_price c) (x * (135 / 100) * 1000) (d2 + (1 + d2) / 2 ^ 52)"
    unfolding raw_price_def using big(2) d(3,4) by (rule rel_round)
  then have "rel (raw_price c) (x * (135 / 100) * 1000) (6 / 2 ^ 52)"
    using d(5) by (rule rel_mono) (use x in simp)
  then show ?thesis by (simp add: mult.commute)
qed

text \<open>The price as a function of \<open>raw\<close>.\<close>

definition whole_price :: "rat \<Rightarrow> int" where
  "whole_price raw =
     (if raw \<le> max 1 raw / 2 ^ 49 then 0 else \<lceil>round64 (raw - max 1 raw / 2 ^ 49)\<rceil>)"

lemma default_price_whole:
  "0 \<le> c \<Longrightarrow> c \<le> 2 ^ 28 \<Longrightarrow>
   mannaFromUsd (JFin c) default_conversion = Inr (JFin (of_int (whole_price (raw_price c))))"
  unfolding whole_price_def Let_def
  by (subst default_price, assumption, assumption, unfold Let_def)
    (cases "raw_price c \<le> max 1 (raw_price c) / 2 ^ 49", simp_all only: if_True if_False of_int_0)

lemma whole_price_eq:
  fixes k :: int
  assumes "1 \<le> k" "k \<le> 2 ^ 31" "raw - max 1 raw / 2 ^ 49 \<le> of_int k"
    "of_int (k - 1) + 1 / 2 ^ 15 \<le> raw - max 1 raw / 2 ^ 49"
  shows "whole_price raw = k"
proof -
  define y where "y = raw - max 1 raw / 2 ^ 49"
  define z where "z = rat_of_int ((k - 1) * 2 ^ 15 + 1) * 2 powi (- 15)"
  have z: "z = of_int (k - 1) + 1 / 2 ^ 15" by (simp add: z_def power_int_minus field_simps)
  have "\<bar>(k - 1) * 2 ^ 15 + 1\<bar> < 2 ^ 53" using assms(1,2) by simp
  then have "round64 z = z" unfolding z_def by (intro round64_exact) simp_all
  then have "z \<le> round64 y" using round64_mono [of z y] assms(4) z by (simp add: y_def)
  moreover have "round64 y \<le> of_int k"
    using round64_mono [of y "of_int k"] assms(1-3) round64_of_int [of k] by (simp add: y_def)
  ultimately have "\<lceil>round64 y\<rceil> = k" using z by (intro ceiling_unique) simp_all
  moreover have "\<not> raw \<le> max 1 raw / 2 ^ 49"
  proof
    assume "raw \<le> max 1 raw / 2 ^ 49"
    then have "raw - max 1 raw / 2 ^ 49 \<le> 0" by simp
    moreover have "0 < rat_of_int (k - 1) + 1 / 2 ^ 15" using assms(1) by (intro add_nonneg_pos) simp_all
    ultimately show False using assms(4) by linarith
  qed
  ultimately show ?thesis by (simp add: whole_price_def y_def)
qed

lemma whole_price_near:
  fixes n :: int
  assumes r: "rel raw (of_int (27 * n) / 20000) (6 / 2 ^ 52)" and n: "0 < n" "n \<le> 10 ^ 12"
  shows "whole_price raw = \<lceil>of_int (27 * n) / (20000 :: rat)\<rceil>"
proof -
  define v where "v = rat_of_int (27 * n) / 20000"
  define k where "k = \<lceil>v\<rceil>"
  have nr: "0 < rat_of_int n" "rat_of_int n \<le> 10 ^ 12"
  proof -
    have "rat_of_int n \<le> of_int (10 ^ 12)" using n(2) by (simp only: of_int_le_iff)
    then show "rat_of_int n \<le> 10 ^ 12" by simp
  qed (use n in simp)
  have v: "0 < v" "v \<le> 2 ^ 31" using nr by (simp_all add: v_def)
  have kb: "1 \<le> k" "k \<le> 2 ^ 31" using v by (simp_all add: k_def ceiling_le_iff)
  have vk: "v \<le> of_int k" "of_int (k - 1) < v" by (simp_all add: k_def) linarith
  have "of_int (20000 * (k - 1)) < rat_of_int (27 * n)" using vk(2) by (simp add: v_def field_simps)
  then have "20000 * (k - 1) + 1 \<le> 27 * n" by simp
  then have "rat_of_int (20000 * (k - 1) + 1) \<le> of_int (27 * n)" by (simp only: of_int_le_iff)
  then have gap: "of_int (k - 1) + 1 / 20000 \<le> v" by (simp add: v_def field_simps)
  have rr: "\<bar>raw - v\<bar> \<le> v * (6 / 2 ^ 52)" using r by (simp only: rel_def v_def)
  define e where "e = max 1 raw / 2 ^ 49"
  have small: "v * (6 / 2 ^ 52) \<le> 2 ^ 31 * (6 / 2 ^ 52)" using v(2) by (intro mult_right_mono) simp_all
  have raw: "0 \<le> raw" "raw \<le> 2 ^ 32"
  proof -
    have "v * (6 / 2 ^ 52) \<le> v * 1" using v(1) by (intro mult_left_mono) simp_all
    then show "0 \<le> raw" using rr by linarith
    have "(2::rat) ^ 31 * (6 / 2 ^ 52) \<le> 1" "(2::rat) ^ 31 + 1 \<le> 2 ^ 32" by simp_all
    then show "raw \<le> 2 ^ 32" using rr small v(2) by linarith
  qed
  have "e \<le> 2 ^ 32 / 2 ^ 49" unfolding e_def using raw by (intro divide_right_mono) simp_all
  moreover have "(2::rat) ^ 31 * (6 / 2 ^ 52) + 2 ^ 32 / 2 ^ 49 + 1 / 2 ^ 15 \<le> 1 / 20000" by simp
  ultimately have low: "of_int (k - 1) + 1 / 2 ^ 15 \<le> raw - e" using gap rr small by linarith
  have "raw - e \<le> of_int k"
  proof (cases "1 \<le> raw")
    case True
    have "raw \<le> v + v * (6 / 2 ^ 52)" using rr by linarith
    then have r1: "raw \<le> v * (1 + 6 / 2 ^ 52)" by (simp only: distrib_left mult_1_right)
    have "raw - e = raw * (1 - 8 / 2 ^ 52)" using True by (simp add: e_def algebra_simps)
    also have "\<dots> \<le> v * (1 + 6 / 2 ^ 52) * (1 - 8 / 2 ^ 52)"
      using r1 by (rule mult_right_mono) simp
    also have "\<dots> = v * ((1 + 6 / 2 ^ 52) * (1 - 8 / 2 ^ 52))" by (simp only: mult.assoc)
    also have "\<dots> \<le> v * 1" using v(1) by (intro mult_left_mono) simp_all
    finally show ?thesis using vk by simp
  next
    case False
    then have "raw - e \<le> 1" by (simp add: e_def)
    also have "1 \<le> rat_of_int k" using kb by simp
    finally show ?thesis .
  qed
  with low kb have "whole_price raw = k" unfolding e_def by (intro whole_price_eq)
  then show ?thesis by (simp add: k_def v_def)
qed

lemma whole_price_mono:
  assumes "r \<le> s" "0 \<le> r"
  shows "whole_price r \<le> whole_price s"
proof -
  have m: "r - max 1 r / 2 ^ 49 \<le> s - max 1 s / 2 ^ 49"
  proof -
    have "max 1 s - max 1 r \<le> s - r" using assms by (simp add: max_def)
    moreover have "0 \<le> max 1 s - max 1 r" using assms by (simp add: max_def)
    ultimately have "(max 1 s - max 1 r) / 2 ^ 49 \<le> s - r" by simp
    then show ?thesis by (simp add: diff_divide_distrib)
  qed
  show ?thesis
  proof (cases "r \<le> max 1 r / 2 ^ 49")
    case True
    have "0 \<le> whole_price s"
    proof (cases "s \<le> max 1 s / 2 ^ 49")
      case False
      then have "0 \<le> round64 (s - max 1 s / 2 ^ 49)" by (intro round64_nonneg) linarith
      then show ?thesis unfolding whole_price_def using ceiling_mono [of 0 "round64 (s - max 1 s / 2 ^ 49)"] by (simp only: if_False False) simp
    qed (simp only: whole_price_def if_True)
    then show ?thesis using True by (simp only: whole_price_def [of r] if_True)
  next
    case False
    then have "\<not> s \<le> max 1 s / 2 ^ 49" using m by linarith
    then show ?thesis
      using False round64_mono [OF m] unfolding whole_price_def by (simp only: if_False) (rule ceiling_mono)
  qed
qed

lemma raw_price_mono: "0 \<le> c \<Longrightarrow> c \<le> d \<Longrightarrow> 0 \<le> raw_price c \<and> raw_price c \<le> raw_price d"
  unfolding raw_price_def
  by (auto intro!: round64_mono round64_nonneg mult_right_mono mult_nonneg_nonneg simp: markup_factor_def)

end
