(* ===== verification/MeteringSelect.thy ===== *)
theory MeteringSelect
  imports MeteringFacts "HOL-Library.Multiset"
begin

text \<open>
  The effective-dated registries. The price table and the table of turn ceilings share
  one selection rule: rows of the exact model before wildcard rows, then the latest row
  in effect. A locale states what the rule relies on, its facts are proved once there,
  and both tables interpret it.
\<close>

section \<open>The check of a registry\<close>

lemma strict_day_Inr:
  "strictUtcCalendarDay reg s = Inr d \<longleftrightarrow>
     d = s \<and> iso_shape s \<and> (case iso_fields s of (y, m, k) \<Rightarrow> valid_date y m k)"
proof (cases "iso_shape s")
  case True
  obtain y m k where f: "iso_fields s = (y, m, k)" by (metis prod_cases3)
  have "strictUtcCalendarDay reg s = Inr d \<longleftrightarrow> d = s \<and> (\<exists>t. parse_iso_day s = Some t \<and> iso_day t = s)"
    using True by (auto simp: strictUtcCalendarDay_def split: option.splits)
  then show ?thesis using iso_round_trip [OF True f] f True by simp
qed (simp add: strictUtcCalendarDay_def)

definition row_version :: "('e \<Rightarrow> string) \<Rightarrow> ('e \<Rightarrow> string) \<Rightarrow> 'e \<Rightarrow> string" where
  "row_version date ident e = ident e @ CHR 0x00 # date e"

lemma unambiguous_from_Inr:
  "unambiguous_from reg date ident seen es = Inr u \<longleftrightarrow>
     (\<forall>e \<in> set es. strictUtcCalendarDay reg (date e) = Inr (date e)) \<and>
     distinct (map (row_version date ident) es) \<and>
     set (map (row_version date ident) es) \<inter> set seen = {}"
proof (induction es arbitrary: seen)
  case (Cons e es)
  show ?case
  proof (cases "strictUtcCalendarDay reg (date e)")
    case (Inr d)
    then have d: "d = date e" by (simp add: strict_day_Inr)
    show ?thesis using Cons Inr unfolding d by (auto simp: Let_def row_version_def)
  qed simp
qed simp

lemma unambiguous_Inr:
  "assertUnambiguousEffectiveRows reg date ident es = Inr u \<longleftrightarrow>
     (\<forall>e \<in> set es. strictUtcCalendarDay reg (date e) = Inr (date e)) \<and>
     distinct (map (row_version date ident) es)"
  by (simp add: assertUnambiguousEffectiveRows_def unambiguous_from_Inr)

section \<open>The latest row in effect\<close>

lemma latest_from_spec:
  "(\<forall>b. selected = Some b \<longrightarrow> date b \<le> asOf) \<Longrightarrow>
   (case latest_from date asOf selected es of
      None \<Rightarrow> selected = None \<and> (\<forall>e \<in> set es. asOf < date e)
    | Some r \<Rightarrow> (Some r = selected \<or> r \<in> set es) \<and> date r \<le> asOf \<and>
        (\<forall>b. selected = Some b \<longrightarrow> date b \<le> date r) \<and>
        (\<forall>e \<in> set es. date e \<le> asOf \<longrightarrow> date e \<le> date r))"
proof (induction es arbitrary: selected)
  case Nil
  then show ?case by (cases selected) auto
next
  case (Cons e es)
  show ?case
  proof (cases "asOf < date e")
    case True
    with Cons.IH [OF Cons.prems] show ?thesis by (auto split: option.splits)
  next
    case False
    define s' where "s' = (case selected of None \<Rightarrow> Some e
      | Some b \<Rightarrow> if date b < date e then Some e else selected)"
    have eq: "latest_from date asOf selected (e # es) = latest_from date asOf s' es"
      using False by (simp add: s'_def split: option.split)
    obtain b' where b': "s' = Some b'" "date b' \<le> asOf" "date e \<le> date b'"
      "selected = None \<longrightarrow> b' = e" "\<forall>b. selected = Some b \<longrightarrow> (b' = b \<or> b' = e) \<and> date b \<le> date b'"
    proof (cases selected)
      case (Some b)
      show thesis
      proof (cases "date b < date e")
        case True
        then show thesis using Some False by (intro that [of e]) (auto simp: s'_def)
      next
        case nl: False
        then show thesis using Some Cons.prems by (intro that [of b]) (auto simp: s'_def)
      qed
    qed (use that [of e] False in \<open>auto simp: s'_def\<close>)
    have "case latest_from date asOf s' es of None \<Rightarrow> s' = None \<and> (\<forall>e \<in> set es. asOf < date e)
      | Some r \<Rightarrow> (Some r = s' \<or> r \<in> set es) \<and> date r \<le> asOf \<and> (\<forall>b. s' = Some b \<longrightarrow> date b \<le> date r) \<and>
          (\<forall>e \<in> set es. date e \<le> asOf \<longrightarrow> date e \<le> date r)"
      using b'(1,2) by (intro Cons.IH) simp
    then obtain r where r: "latest_from date asOf s' es = Some r" "r = b' \<or> r \<in> set es" "date r \<le> asOf"
      "date b' \<le> date r" "\<forall>e \<in> set es. date e \<le> asOf \<longrightarrow> date e \<le> date r"
      using b'(1) by (auto split: option.splits)
    have "Some r = selected \<or> r \<in> set (e # es)" using r(2) b'(4,5) by (cases selected) auto
    moreover have "date e \<le> date r" using b'(3) r(4) by (rule order_trans)
    moreover have "\<forall>b. selected = Some b \<longrightarrow> date b \<le> date r" using b'(5) r(4) by (auto intro: order_trans)
    ultimately show ?thesis using r unfolding eq by simp
  qed
qed

lemma latestEligible_spec:
  "latestEligible date es asOf = Some r \<Longrightarrow>
     r \<in> set es \<and> date r \<le> asOf \<and> (\<forall>e \<in> set es. date e \<le> asOf \<longrightarrow> date e \<le> date r)"
  "latestEligible date es asOf = None \<Longrightarrow> \<forall>e \<in> set es. asOf < date e"
  using latest_from_spec [of None date asOf es] by (simp_all add: latestEligible_def)

section \<open>The selection rule\<close>

locale dated_registry =
  fixes reg :: registry
    and date :: "'e \<Rightarrow> string"
    and ident :: "'e \<Rightarrow> string"
    and exact :: "'k \<Rightarrow> 'e \<Rightarrow> bool"
    and wild :: "'k \<Rightarrow> 'e \<Rightarrow> bool"
    and pick :: "'k \<Rightarrow> string \<Rightarrow> 'e list \<Rightarrow> 'e option"
  assumes pick_eq: "pick k day t =
      latestEligible date
        (if filter (\<lambda>e. exact k e \<and> date e \<le> day) t \<noteq> [] then filter (\<lambda>e. exact k e \<and> date e \<le> day) t
         else filter (\<lambda>e. wild k e \<and> date e \<le> day) t) day"
    and exact_ident: "exact k e \<Longrightarrow> exact k e' \<Longrightarrow> ident e = ident e'"
    and wild_ident: "wild k e \<Longrightarrow> wild k e' \<Longrightarrow> ident e = ident e'"
begin

definition valid_table :: "'e list \<Rightarrow> bool" where
  "valid_table t \<longleftrightarrow> assertUnambiguousEffectiveRows reg date ident t = Inr ()"

text \<open>\<open>best k day t r\<close>: the row the rule prefers, as a property of the set of rows.\<close>

definition best :: "'k \<Rightarrow> string \<Rightarrow> 'e list \<Rightarrow> 'e \<Rightarrow> bool" where
  "best k day t r \<longleftrightarrow> r \<in> set t \<and> date r \<le> day \<and>
     (exact k r \<and> (\<forall>e \<in> set t. exact k e \<and> date e \<le> day \<longrightarrow> date e \<le> date r) \<or>
      wild k r \<and> (\<forall>e \<in> set t. exact k e \<longrightarrow> \<not> date e \<le> day) \<and>
        (\<forall>e \<in> set t. wild k e \<and> date e \<le> day \<longrightarrow> date e \<le> date r))"

lemma pick_best: "pick k day t = Some r \<Longrightarrow> best k day t r"
proof -
  assume p: "pick k day t = Some r"
  show "best k day t r"
  proof (cases "filter (\<lambda>e. exact k e \<and> date e \<le> day) t = []")
    case True
    then have "\<forall>e \<in> set t. exact k e \<longrightarrow> \<not> date e \<le> day" by (auto simp: filter_empty_conv)
    moreover have "latestEligible date (filter (\<lambda>e. wild k e \<and> date e \<le> day) t) day = Some r"
      using p True by (simp add: pick_eq)
    ultimately show ?thesis using latestEligible_spec(1) unfolding best_def by fastforce
  next
    case False
    then have "latestEligible date (filter (\<lambda>e. exact k e \<and> date e \<le> day) t) day = Some r"
      using p by (simp add: pick_eq)
    then show ?thesis using latestEligible_spec(1) unfolding best_def by fastforce
  qed
qed

lemma pick_None: "pick k day t = None \<Longrightarrow> \<forall>e \<in> set t. exact k e \<or> wild k e \<longrightarrow> \<not> date e \<le> day"
proof -
  assume p: "pick k day t = None"
  have none: "es = []" if "latestEligible date es day = None" "\<forall>e \<in> set es. date e \<le> day" for es
    using latestEligible_spec(2) [OF that(1)] that(2) by (cases es) (auto simp: not_le [symmetric])
  have "filter (\<lambda>e. exact k e \<and> date e \<le> day) t = []"
  proof (rule ccontr)
    assume ne: "filter (\<lambda>e. exact k e \<and> date e \<le> day) t \<noteq> []"
    then have "latestEligible date (filter (\<lambda>e. exact k e \<and> date e \<le> day) t) day = None"
      using p by (simp add: pick_eq)
    then show False using none ne by fastforce
  qed
  moreover from this have "latestEligible date (filter (\<lambda>e. wild k e \<and> date e \<le> day) t) day = None"
    using p by (simp add: pick_eq)
  then have "filter (\<lambda>e. wild k e \<and> date e \<le> day) t = []" by (rule none) simp
  ultimately show ?thesis by (auto simp: filter_empty_conv)
qed

lemma same_version:
  assumes "valid_table t" "r \<in> set t" "r' \<in> set t" "ident r = ident r'" "date r = date r'"
  shows "r = r'"
  using assms by (auto simp: valid_table_def unambiguous_Inr row_version_def distinct_map inj_on_def)

lemma best_unique:
  assumes "valid_table t" "best k day t r" "best k day t r'"
  shows "r = r'"
proof (rule same_version [OF assms(1)])
  show "r \<in> set t" "r' \<in> set t" using assms(2,3) by (simp_all add: best_def)
  show "ident r = ident r'" "date r = date r'"
    using assms(2,3) exact_ident wild_ident unfolding best_def by (blast intro: order_antisym)+
qed

lemma valid_table_perm: "mset t = mset t' \<Longrightarrow> valid_table t \<Longrightarrow> valid_table t'"
  unfolding valid_table_def unambiguous_Inr
  by (metis mset_eq_setD mset_map distinct_count_atmost_1 set_map)

text \<open>The order of the rows does not matter.\<close>

lemma pick_perm:
  assumes "mset t = mset t'" "valid_table t"
  shows "pick k day t' = pick k day t"
proof -
  have s: "set t' = set t" using mset_eq_setD [OF assms(1)] by simp
  have b: "best k day t' r \<longleftrightarrow> best k day t r" for r by (simp add: best_def s)
  show ?thesis
  proof (cases "pick k day t")
    case None
    then show ?thesis
    proof (cases "pick k day t'")
      case (Some r)
      then have "best k day t r" using pick_best b by blast
      then show ?thesis using pick_None [OF None] by (auto simp: best_def)
    qed simp
  next
    case (Some r)
    show ?thesis
    proof (cases "pick k day t'")
      case None
      have "best k day t r" using pick_best [OF Some] .
      then show ?thesis using pick_None [OF None] s by (auto simp: best_def)
    next
      case (Some r')
      have "best k day t r" "best k day t r'"
        using pick_best [OF \<open>pick k day t = Some r\<close>] pick_best [OF Some] b by blast+
      then show ?thesis using best_unique [OF assms(2)] Some \<open>pick k day t = Some r\<close> by simp
    qed
  qed
qed

end

section \<open>The price table\<close>

type_synonym cost_route = "cost_provider \<times> string \<times> cost_unit"

definition cost_exact :: "cost_route \<Rightarrow> cost_table_entry \<Rightarrow> bool" where
  "cost_exact k e = (case k of (p, m, u) \<Rightarrow>
     ce_provider e = p \<and> ce_unit e = u \<and> ce_model e \<noteq> ''*'' \<and>
     normalizeModel (provider_name (ce_provider e)) (ce_model e) = normalizeModel (provider_name p) m)"

definition cost_wild :: "cost_route \<Rightarrow> cost_table_entry \<Rightarrow> bool" where
  "cost_wild k e = (case k of (p, m, u) \<Rightarrow> ce_provider e = p \<and> ce_unit e = u \<and> ce_model e = ''*'')"

definition cost_pick :: "cost_route \<Rightarrow> string \<Rightarrow> cost_table_entry list \<Rightarrow> cost_table_entry option" where
  "cost_pick k day t =
     latestEligible ce_effectiveDate
       (if filter (\<lambda>e. cost_exact k e \<and> ce_effectiveDate e \<le> day) t \<noteq> []
        then filter (\<lambda>e. cost_exact k e \<and> ce_effectiveDate e \<le> day) t
        else filter (\<lambda>e. cost_wild k e \<and> ce_effectiveDate e \<le> day) t) day"

interpretation ct: dated_registry CostTable ce_effectiveDate cost_identity cost_exact cost_wild cost_pick
  by unfold_locales
    (auto simp: cost_pick_def cost_exact_def cost_wild_def cost_identity_def split: prod.splits)

lemma selectCostTableEntry_pick:
  "selectCostTableEntry p m u now asOf t =
     ebind (effectiveDay CostTable now asOf) (\<lambda>day.
     ebind (assertUnambiguousEffectiveRows CostTable ce_effectiveDate cost_identity t) (\<lambda>_.
       case cost_pick (p, m, u) day t of
         None \<Rightarrow> Inl (NoCostEntry (provider_name p) (normalizeModel (provider_name p) m) u day)
       | Some e \<Rightarrow> Inr e))"
  unfolding selectCostTableEntry_def cost_pick_def cost_exact_def cost_wild_def Let_def
  by (simp add: conj_assoc cong: if_cong)

section \<open>The table of ceilings\<close>

type_synonym turn_route = "string \<times> string"

definition turn_exact :: "turn_route \<Rightarrow> turn_ceiling_entry \<Rightarrow> bool" where
  "turn_exact k e = (case k of (p, m) \<Rightarrow>
     provider_name (tc_provider e) = p \<and> tc_model e \<noteq> ''*'' \<and>
     normalizeModel (provider_name (tc_provider e)) (tc_model e) = normalizeModel p m)"

definition turn_wild :: "turn_route \<Rightarrow> turn_ceiling_entry \<Rightarrow> bool" where
  "turn_wild k e = (case k of (p, m) \<Rightarrow> provider_name (tc_provider e) = p \<and> tc_model e = ''*'')"

definition turn_pick :: "turn_route \<Rightarrow> string \<Rightarrow> turn_ceiling_entry list \<Rightarrow> turn_ceiling_entry option" where
  "turn_pick k day t =
     latestEligible tc_effectiveDate
       (if filter (\<lambda>e. turn_exact k e \<and> tc_effectiveDate e \<le> day) t \<noteq> []
        then filter (\<lambda>e. turn_exact k e \<and> tc_effectiveDate e \<le> day) t
        else filter (\<lambda>e. turn_wild k e \<and> tc_effectiveDate e \<le> day) t) day"

interpretation tt: dated_registry TurnCeilings tc_effectiveDate ceiling_identity turn_exact turn_wild turn_pick
  by unfold_locales
    (auto simp: turn_pick_def turn_exact_def turn_wild_def ceiling_identity_def split: prod.splits)

lemma selectTurnCeilingEntry_pick:
  "selectTurnCeilingEntry p m now asOf t =
     ebind (effectiveDay TurnCeilings now asOf) (\<lambda>day.
     ebind (assertUnambiguousEffectiveRows TurnCeilings tc_effectiveDate ceiling_identity t) (\<lambda>_.
       case turn_pick (p, m) day t of
         None \<Rightarrow> Inl (NoTurnCeiling p (normalizeModel p m) day)
       | Some e \<Rightarrow> Inr e))"
  unfolding selectTurnCeilingEntry_def turn_pick_def turn_exact_def turn_wild_def Let_def
  by (simp add: conj_assoc cong: if_cong)

end
