(* ===== verification/MeteringProperties.thy ===== *)
theory MeteringProperties
  imports MeteringSelect
begin

text \<open>
  The properties of metering: the price of a cost in whole manna, the guarantee of the
  turn ceilings, the selection of a rate, the validity of the shipped tables and the
  completeness of a cost estimate.
\<close>

section \<open>Prices\<close>

lemma rel_literal: "1 / 2 ^ 30 \<le> x \<Longrightarrow> rel (round64 x) x (1 / 2 ^ 51)"
proof -
  assume x: "1 / 2 ^ 30 \<le> x"
  then have "0 \<le> x" by (rule order_trans [rotated]) simp
  have "rel x x 0" by (simp add: rel_def)
  then have "rel (round64 x) x (0 + (1 + 0) / 2 ^ 52)" using x by (rule rel_round) simp_all
  then show ?thesis by (rule rel_mono) (use \<open>0 \<le> x\<close> in simp_all)
qed

lemma micro_price:
  assumes "0 < n" "n \<le> 10 ^ 12" "rel c (of_int n / 1000000) (1 / 2 ^ 51)"
  shows "mannaFromUsd (JFin c) default_conversion = Inr (JFin (of_int \<lceil>of_int (27 * n) / (20000 :: rat)\<rceil>))"
proof -
  define x where "x = rat_of_int n / 1000000"
  have "rat_of_int n \<le> of_int (10 ^ 12)" using assms(2) by (simp only: of_int_le_iff)
  moreover have "1 \<le> rat_of_int n" using assms(1) by simp
  ultimately have x: "1 / 1000000 \<le> x" "x \<le> 1000000" by (simp_all add: x_def)
  then have "0 \<le> x" by (intro order_trans [OF _ x(1)]) simp
  have "\<bar>c - x\<bar> \<le> x * (1 / 2 ^ 51)" using assms(3) by (simp only: rel_def x_def)
  also have "\<dots> \<le> x * 1" using \<open>0 \<le> x\<close> by (intro mult_left_mono) simp_all
  finally have "0 \<le> c" "c \<le> 2 * x" by linarith+
  then have c: "0 \<le> c" "c \<le> 2 ^ 28" using x(2) by simp_all
  have "rel (raw_price c) (1350 * x) (6 / 2 ^ 52)" using raw_price_rel assms(3) x(1) by (simp only: x_def)
  moreover have "1350 * x = of_int (27 * n) / 20000" by (simp add: x_def)
  ultimately show ?thesis using default_price_whole [OF c] whole_price_near assms(1,2) by simp
qed

text \<open>The price of a cost is exact: a cost within two roundings of n millionths of a dollar, up to a
  million dollars, is charged exactly the least whole manna not below 1350 manna per dollar
  (the peg of 1000 with the 35 percent markup), although every step is floating point.\<close>
theorem price_of_micro_usd:
  assumes "0 < n" "n \<le> 10 ^ 12" "rel c (of_int n / 1000000) (1 / 2 ^ 51)"
  shows "mannaFromUsd (JFin c) default_conversion = Inr (JFin (of_int \<lceil>of_int (27 * n) / (20000 :: rat)\<rceil>))"
  using assms by (rule micro_price)

lemma price_of_micro_usd_witness: "mannaFromUsd (JFin (round64 (45 / 1000))) default_conversion = Inr (JFin 61)"
proof -
  have "rel (round64 (45 / 1000)) (of_int 45000 / 1000000) (1 / 2 ^ 51)" using rel_literal [of "45 / 1000"] by simp
  moreover have "\<lceil>of_int (27 * 45000) / (20000 :: rat)\<rceil> = 61" by code_simp
  ultimately show ?thesis using price_of_micro_usd [of 45000 "round64 (45 / 1000)"] by simp
qed

text \<open>The price never falls when the cost rises (up to 268 million dollars).\<close>
theorem price_monotone:
  assumes "0 \<le> c" "c \<le> d" "d \<le> 2 ^ 28"
  shows "\<exists>j k. mannaFromUsd (JFin c) default_conversion = Inr (JFin (of_int j)) \<and>
    mannaFromUsd (JFin d) default_conversion = Inr (JFin (of_int k)) \<and> j \<le> k"
proof -
  have "whole_price (raw_price c) \<le> whole_price (raw_price d)"
    using raw_price_mono [OF assms(1,2)] by (intro whole_price_mono) simp_all
  then show ?thesis using default_price_whole [of c] default_price_whole [of d] assms by auto
qed

lemma price_monotone_witness:
  "\<exists>j k. mannaFromUsd (JFin 1) default_conversion = Inr (JFin (of_int j)) \<and>
     mannaFromUsd (JFin 2) default_conversion = Inr (JFin (of_int k)) \<and> j \<le> k"
  by (rule price_monotone) simp_all

section \<open>Ceilings\<close>

lemma ceiling_rows:
  "e \<in> set TURN_CEILINGS \<Longrightarrow> \<exists>q. tc_maxTurnUsd e = JFin (round64 q) \<and> 1 / 2 ^ 30 \<le> q \<and> q \<le> 2"
proof -
  have s: "js_of_rat (45 / 1000) = JFin (round64 (45 / 1000))" "js_of_rat (67 / 100) = JFin (round64 (67 / 100))"
    "js_of_rat (112 / 100) = JFin (round64 (112 / 100))"
    by (rule js_of_rat_small; simp)+
  assume "e \<in> set TURN_CEILINGS"
  then consider "tc_maxTurnUsd e = JFin (round64 (45 / 1000))" | "tc_maxTurnUsd e = JFin (round64 (67 / 100))"
    | "tc_maxTurnUsd e = JFin (round64 (112 / 100))"
    unfolding TURN_CEILINGS_def ceiling_row_def s by fastforce
  then show ?thesis
    by cases (rule exI, erule conjI, simp)+
qed

lemma authorized_entry:
  assumes "turnAuthorizedMax provider model now asOf options = Inr a"
  obtains e where "e \<in> set TURN_CEILINGS" "ta_usd a = tc_maxTurnUsd e"
    "mannaFromUsd (tc_maxTurnUsd e) options = Inr (ta_manna a)"
proof -
  obtain e where e: "selectTurnCeilingEntry provider model now asOf TURN_CEILINGS = Inr e"
    "ta_usd a = tc_maxTurnUsd e" "mannaFromUsd (tc_maxTurnUsd e) options = Inr (ta_manna a)"
    using assms by (auto simp: turnAuthorizedMax_def ebind_Inr_iff)
  then obtain day where "turn_pick (provider, model) day TURN_CEILINGS = Some e"
    by (auto simp: selectTurnCeilingEntry_pick ebind_Inr_iff split: option.splits)
  then have "e \<in> set TURN_CEILINGS" using tt.pick_best unfolding tt.best_def by blast
  then show thesis using e(2,3) by (rule that)
qed

text \<open>C29: A turn's reservation covers it: whatever model is authorized, every provider cost up to the
  ceiling prices to at most the manna that was reserved.\<close>
theorem turn_reservation_covers:
  assumes "turnAuthorizedMax provider model now asOf default_conversion = Inr a"
    and "0 \<le> c" "js_le (JFin c) (ta_usd a)"
  shows "\<exists>j k. mannaFromUsd (JFin c) default_conversion = Inr (JFin (of_int j)) \<and>
    ta_manna a = JFin (of_int k) \<and> j \<le> k"
proof -
  obtain e where e: "e \<in> set TURN_CEILINGS" "ta_usd a = tc_maxTurnUsd e"
    "mannaFromUsd (tc_maxTurnUsd e) default_conversion = Inr (ta_manna a)"
    by (rule authorized_entry [OF assms(1)])
  obtain q where q: "tc_maxTurnUsd e = JFin (round64 q)" "q \<le> 2" using ceiling_rows [OF e(1)] by blast
  have "round64 q \<le> 2" using round64_mono [OF q(2)] round64_of_int [of 2] by simp
  then have d: "c \<le> round64 q" "round64 q \<le> 2 ^ 28" using assms(3) e(2) q(1) by (simp_all add: js_le_JFin)
  then have "whole_price (raw_price c) \<le> whole_price (raw_price (round64 q))"
    using raw_price_mono [OF assms(2) d(1)] by (intro whole_price_mono) simp_all
  moreover have "ta_manna a = JFin (of_int (whole_price (raw_price (round64 q))))"
    using default_price_whole [of "round64 q"] assms(2) d e(3) q(1) by simp
  ultimately show ?thesis using default_price_whole [of c] assms(2) d by auto
qed

text \<open>The rows of the shipped tables, without their rates.\<close>

definition cost_key :: "cost_table_entry \<Rightarrow> cost_provider \<times> string \<times> cost_unit \<times> string" where
  "cost_key e = (ce_provider e, ce_model e, ce_unit e, ce_effectiveDate e)"

fun key_version :: "cost_provider \<times> string \<times> cost_unit \<times> string \<Rightarrow> string" where
  "key_version (p, m, u, d) =
     (provider_name p @ ''/'' @ (if m = ''*'' then ''*'' else normalizeModel (provider_name p) m) @
      ''/'' @ unit_name u) @ CHR 0x00 # d"

lemma key_version: "row_version ce_effectiveDate cost_identity e = key_version (cost_key e)"
  by (simp add: row_version_def cost_key_def cost_identity_def)

definition shipped_dates :: "string list" where
  "shipped_dates = [''2026-07-06'', ''2026-07-31'', ''2026-08-08'', ''2026-08-12'', ''2026-08-15'']"

lemma shipped_dates_real: "d \<in> set shipped_dates \<Longrightarrow> strictUtcCalendarDay reg d = Inr d"
proof -
  have "list_all (\<lambda>d. iso_shape d \<and> (case iso_fields d of (y, m, k) \<Rightarrow> valid_date y m k)) shipped_dates"
    by code_simp
  then show "d \<in> set shipped_dates \<Longrightarrow> ?thesis" by (simp add: strict_day_Inr list_all_iff)
qed

lemma cost_table_keys: "distinct (map key_version (map cost_key COST_TABLE)) \<and>
    list_all (\<lambda>k. snd (snd (snd k)) \<in> set shipped_dates) (map cost_key COST_TABLE)"
proof -
  obtain ks where ks: "map cost_key COST_TABLE = ks" by simp
  show ?thesis
    unfolding COST_TABLE_def cost_rows_llm_def cost_rows_media_def cost_row_def cost_key_def
      append.simps list.map cost_table_entry.simps
    by code_simp
qed

lemma ceiling_table_valid:
  "assertUnambiguousEffectiveRows TurnCeilings tc_effectiveDate ceiling_identity TURN_CEILINGS = Inr ()"
proof -
  have "distinct (map (row_version tc_effectiveDate ceiling_identity) TURN_CEILINGS)"
    unfolding TURN_CEILINGS_def ceiling_row_def list.map row_version_def ceiling_identity_def
      turn_ceiling_entry.simps
    by code_simp
  moreover have "list_all (\<lambda>e. tc_effectiveDate e \<in> set shipped_dates) TURN_CEILINGS"
    by (simp add: TURN_CEILINGS_def ceiling_row_def shipped_dates_def)
  ultimately show ?thesis
    using shipped_dates_real [of _ TurnCeilings] by (auto simp: unambiguous_Inr list_all_iff)
qed

lemma small_literals:
  "list_all (\<lambda>q. \<bar>q\<bar> \<le> 2 ^ 40) [45 / 1000, 67 / 100, 112 / 100, 1, 5, 15, 75 :: rat]"
  by simp

lemma ceiling_literals:
  "js_of_rat (45 / 1000) = JFin (round64 (45 / 1000))" "js_of_rat (67 / 100) = JFin (round64 (67 / 100))"
  "js_of_rat (112 / 100) = JFin (round64 (112 / 100))"
  "js_of_rat 5 = JFin 5" "js_of_rat 15 = JFin 15" "js_of_rat 75 = JFin 75"
  using round64_of_int [of 5] round64_of_int [of 15] round64_of_int [of 75]
  by (simp_all add: js_of_rat_small)

lemma shipped_tables_ok:
  "assertUnambiguousEffectiveRows CostTable ce_effectiveDate cost_identity COST_TABLE = Inr () \<and>
   assertUnambiguousEffectiveRows TurnCeilings tc_effectiveDate ceiling_identity TURN_CEILINGS = Inr ()"
proof -
  have "row_version ce_effectiveDate cost_identity = key_version \<circ> cost_key" by (rule ext) (simp add: key_version)
  then have "distinct (map (row_version ce_effectiveDate cost_identity) COST_TABLE)"
    using cost_table_keys by simp
  moreover have "\<forall>e \<in> set COST_TABLE. ce_effectiveDate e \<in> set shipped_dates"
    using cost_table_keys by (auto simp: list_all_iff cost_key_def)
  ultimately show ?thesis
    using cost_table_keys shipped_dates_real [of _ CostTable] ceiling_table_valid by (simp add: unambiguous_Inr)
qed

text \<open>The shipped tables are sound: every price row and every ceiling row has a real calendar date
  and no two rows of one route share a date, so no selection from them can fail on the table
  itself.\<close>
theorem shipped_tables_valid:
  "assertUnambiguousEffectiveRows CostTable ce_effectiveDate cost_identity COST_TABLE = Inr () \<and>
   assertUnambiguousEffectiveRows TurnCeilings tc_effectiveDate ceiling_identity TURN_CEILINGS = Inr ()"
  by (rule shipped_tables_ok)

text \<open>The declared output-token cap of every ceiling stays inside it: the cap's tokens at the
  model's output price never cost more than the ceiling, and the ceilings price to 61, 905, 905
  and 1512 manna, as the table's comments say.\<close>
theorem ceilings_cover_token_caps:
  "(\<forall>e \<in> set TURN_CEILINGS. \<exists>r \<in> set COST_TABLE.
      ce_provider r = tc_provider e \<and> ce_model r = tc_model e \<and> ce_unit r = Output1mTokens \<and>
      (\<exists>p q. ce_usdPerUnit r = JFin p \<and> tc_maxTurnUsd e = JFin q \<and>
         of_int (tc_maxOutputTokens e) * p / 1000000 \<le> q)) \<and>
   map (\<lambda>e. mannaFromUsd (tc_maxTurnUsd e) default_conversion) TURN_CEILINGS =
     map (\<lambda>k. Inr (JFin k)) [61, 905, 905, 1512]"
proof -
  have in_table: "cost_row Anthropic ''claude-haiku-4-5'' Output1mTokens 5 ''2026-07-06'' RATE_SOURCE None \<in> set COST_TABLE"
    "cost_row Anthropic ''claude-sonnet-4-5'' Output1mTokens 15 ''2026-07-06'' RATE_SOURCE None \<in> set COST_TABLE"
    "cost_row Anthropic ''claude-sonnet-4-6'' Output1mTokens 15 ''2026-07-31''
       ''OpenClaw 2026.7.1 Anthropic provider catalog'' None \<in> set COST_TABLE"
    "cost_row Anthropic ''claude-opus-4-6'' Output1mTokens 75 ''2026-07-06'' RATE_SOURCE None \<in> set COST_TABLE"
    unfolding COST_TABLE_def cost_rows_llm_def append.simps list.set by blast+
  have lits: "4 / 100 + 1 / 1000 \<le> round64 (45 / 1000)" "1 / 2 \<le> round64 (67 / 100)" "11 / 10 \<le> round64 (112 / 100)"
    by code_simp+
  have caps: "\<exists>r \<in> set COST_TABLE.
      ce_provider r = tc_provider e \<and> ce_model r = tc_model e \<and> ce_unit r = Output1mTokens \<and>
      (\<exists>p q. ce_usdPerUnit r = JFin p \<and> tc_maxTurnUsd e = JFin q \<and>
         of_int (tc_maxOutputTokens e) * p / 1000000 \<le> q)"
    if e: "e = ceiling_row m u toks" and r: "cost_row Anthropic m Output1mTokens p d src est \<in> set COST_TABLE"
      and u: "js_of_rat u = JFin q" "js_of_rat p = JFin p" "of_int toks * p / 1000000 \<le> q" for e m u toks p d src est q
    using r by (rule rev_bexI) (use u in \<open>simp add: e ceiling_row_def cost_row_def\<close>)
  have "\<forall>e \<in> set TURN_CEILINGS. \<exists>r \<in> set COST_TABLE.
      ce_provider r = tc_provider e \<and> ce_model r = tc_model e \<and> ce_unit r = Output1mTokens \<and>
      (\<exists>p q. ce_usdPerUnit r = JFin p \<and> tc_maxTurnUsd e = JFin q \<and>
         of_int (tc_maxOutputTokens e) * p / 1000000 \<le> q)"
    unfolding TURN_CEILINGS_def list.set ball_simps
    using caps [OF refl in_table(1) ceiling_literals(1,4)] caps [OF refl in_table(2) ceiling_literals(2,5)]
      caps [OF refl in_table(3) ceiling_literals(2,5)] caps [OF refl in_table(4) ceiling_literals(3,6)] lits
    by simp
  moreover have "mannaFromUsd (JFin (round64 (45 / 1000))) default_conversion = Inr (JFin 61)"
    "mannaFromUsd (JFin (round64 (67 / 100))) default_conversion = Inr (JFin 905)"
    "mannaFromUsd (JFin (round64 (112 / 100))) default_conversion = Inr (JFin 1512)"
  proof -
    have "rel (round64 (45 / 1000)) (of_int 45000 / 1000000) (1 / 2 ^ 51)"
      "rel (round64 (67 / 100)) (of_int 670000 / 1000000) (1 / 2 ^ 51)"
      "rel (round64 (112 / 100)) (of_int 1120000 / 1000000) (1 / 2 ^ 51)"
      using rel_literal [of "45 / 1000"] rel_literal [of "67 / 100"] rel_literal [of "112 / 100"] by simp_all
    note near = this
    have c: "\<lceil>of_int (27 * 45000) / (20000 :: rat)\<rceil> = 61" "\<lceil>of_int (27 * 670000) / (20000 :: rat)\<rceil> = 905"
      "\<lceil>of_int (27 * 1120000) / (20000 :: rat)\<rceil> = 1512" by code_simp+
    show "mannaFromUsd (JFin (round64 (45 / 1000))) default_conversion = Inr (JFin 61)"
      "mannaFromUsd (JFin (round64 (67 / 100))) default_conversion = Inr (JFin 905)"
      "mannaFromUsd (JFin (round64 (112 / 100))) default_conversion = Inr (JFin 1512)"
      using micro_price [OF _ _ near(1)] micro_price [OF _ _ near(2)] micro_price [OF _ _ near(3)]
      unfolding c by simp_all
  qed
  ultimately show ?thesis
    by (simp add: TURN_CEILINGS_def ceiling_row_def ceiling_literals [simplified])
qed

lemma ceilings_cover_token_caps_witness:
  "\<exists>(r :: cost_table_entry) p q. ce_model r = ''claude-haiku-4-5'' \<and> ce_usdPerUnit r = JFin p \<and>
     tc_maxTurnUsd (hd TURN_CEILINGS) = JFin q \<and> 8192 * p / 1000000 \<le> q"
proof -
  have h: "hd TURN_CEILINGS \<in> set TURN_CEILINGS" "tc_model (hd TURN_CEILINGS) = ''claude-haiku-4-5''"
    "tc_maxOutputTokens (hd TURN_CEILINGS) = 8192"
    by (simp_all add: TURN_CEILINGS_def ceiling_row_def)
  from ceilings_cover_token_caps [THEN conjunct1, rule_format, OF h(1)] obtain r :: cost_table_entry and p q where
    "ce_model r = tc_model (hd TURN_CEILINGS)" "ce_usdPerUnit r = JFin p"
    "tc_maxTurnUsd (hd TURN_CEILINGS) = JFin q"
    "of_int (tc_maxOutputTokens (hd TURN_CEILINGS)) * p / 1000000 \<le> q" by blast
  then show ?thesis unfolding h by (intro exI [of _ r] exI [of _ p] exI [of _ q]) simp
qed

section \<open>Calendar dates\<close>

text \<open>A date text is accepted exactly when it has the form YYYY-MM-DD and names a day of the
  Gregorian calendar: month 1 to 12, and a day that the month has in that year, leap years
  included.\<close>
theorem strict_day_iff_real:
  "strictUtcCalendarDay reg s = Inr d \<longleftrightarrow>
     d = s \<and> iso_shape s \<and> (\<exists>y m k. iso_fields s = (y, m, k) \<and> 1 \<le> m \<and> m \<le> 12 \<and> 1 \<le> k \<and> k \<le> days_in_month y m)"
  by (auto simp: strict_day_Inr valid_date_def)

lemma strict_day_iff_real_witness:
  "strictUtcCalendarDay CostTable ''2024-02-29'' = Inr ''2024-02-29'' \<and>
   (\<forall>d. strictUtcCalendarDay CostTable ''2026-02-29'' \<noteq> Inr d)"
proof -
  have f: "iso_shape ''2024-02-29''" "iso_fields ''2024-02-29'' = (2024, 2, 29)"
    "iso_fields ''2026-02-29'' = (2026, 2, 29)" "days_in_month 2024 2 = 29" "days_in_month 2026 2 = 28"
    by code_simp+
  show ?thesis
    using strict_day_iff_real [of CostTable "''2024-02-29''" "''2024-02-29''"]
      strict_day_iff_real [of CostTable "''2026-02-29''"] f by simp
qed

section \<open>Selection\<close>

lemma select_InrD:
  assumes "selectCostTableEntry p m u now asOf t = Inr e"
  obtains day where "effectiveDay CostTable now asOf = Inr day" "ct.valid_table t"
    "cost_pick (p, m, u) day t = Some e"
  using assms by (auto simp: selectCostTableEntry_pick ebind_Inr_iff ct.valid_table_def split: option.splits)

text \<open>C30: The rate that is selected is the one in effect: a row of the asked provider and unit, dated on
  or before the day, for the asked model when any such row is in effect and otherwise for the
  wildcard, and no row of the same kind in effect is later.\<close>
theorem selected_rate_in_effect:
  assumes "selectCostTableEntry p m u now asOf t = Inr e" "effectiveDay CostTable now asOf = Inr day"
  shows "e \<in> set t \<and> ce_provider e = p \<and> ce_unit e = u \<and> ce_effectiveDate e \<le> day \<and>
    (cost_exact (p, m, u) e \<or>
     ce_model e = ''*'' \<and> (\<forall>r \<in> set t. cost_exact (p, m, u) r \<longrightarrow> \<not> ce_effectiveDate r \<le> day)) \<and>
    (\<forall>r \<in> set t. (if ce_model e = ''*'' then cost_wild (p, m, u) r else cost_exact (p, m, u) r) \<and>
       ce_effectiveDate r \<le> day \<longrightarrow> ce_effectiveDate r \<le> ce_effectiveDate e)"
proof -
  obtain d where "effectiveDay CostTable now asOf = Inr d" "cost_pick (p, m, u) d t = Some e"
    using assms(1) by (rule select_InrD)
  then have "ct.best (p, m, u) day t e" using assms(2) ct.pick_best by simp
  then show ?thesis
    unfolding ct.best_def by (auto simp: cost_exact_def [of _ e] cost_wild_def [of _ e])
qed

text \<open>The order of the rows of a price table does not matter: any permutation of a table gives the
  same selection.\<close>
theorem selection_order_independent:
  assumes "mset t = mset t'" "selectCostTableEntry p m u now asOf t = Inr e"
  shows "selectCostTableEntry p m u now asOf t' = Inr e"
proof -
  obtain day where d: "effectiveDay CostTable now asOf = Inr day" "ct.valid_table t"
    "cost_pick (p, m, u) day t = Some e" using assms(2) by (rule select_InrD)
  have "ct.valid_table t'" "cost_pick (p, m, u) day t' = Some e"
    using ct.valid_table_perm [OF assms(1) d(2)] ct.pick_perm [OF assms(1) d(2)] d(3) by simp_all
  then show ?thesis using d(1) by (simp add: selectCostTableEntry_pick ct.valid_table_def)
qed

text \<open>A sample table with a price change.\<close>

definition sample_rows :: "cost_table_entry list" where
  "sample_rows =
     [cost_row Fal ''m'' ImageUnit 1 ''2026-07-06'' ''s'' None,
      cost_row Fal ''m'' ImageUnit 2 ''2026-08-08'' ''s'' None]"

lemma sample_selection:
  "selectCostTableEntry Fal ''fal/m'' ImageUnit 0 (Some (AsOfText ''2026-08-15'')) sample_rows =
     Inr (cost_row Fal ''m'' ImageUnit 2 ''2026-08-08'' ''s'' None)"
proof -
  have n: "normalizeModel ''fal'' ''m'' = ''m''" "normalizeModel ''fal'' ''fal/m'' = ''m''"
    "''2026-07-06'' \<le> ''2026-08-15''" "''2026-08-08'' \<le> ''2026-08-15''" "''2026-07-06'' < ''2026-08-08''"
    by code_simp+
  have "assertUnambiguousEffectiveRows CostTable ce_effectiveDate cost_identity sample_rows = Inr ()"
    using shipped_dates_real [of _ CostTable]
    by (simp add: unambiguous_Inr sample_rows_def cost_row_def row_version_def cost_identity_def shipped_dates_def)
  moreover have "effectiveDay CostTable 0 (Some (AsOfText ''2026-08-15'')) = Inr ''2026-08-15''"
    using shipped_dates_real [of "''2026-08-15''" CostTable] by (simp add: effectiveDay_def shipped_dates_def)
  moreover have "cost_pick (Fal, ''fal/m'', ImageUnit) ''2026-08-15'' sample_rows =
      Some (cost_row Fal ''m'' ImageUnit 2 ''2026-08-08'' ''s'' None)"
    using n by (simp add: cost_pick_def cost_exact_def sample_rows_def cost_row_def latestEligible_def not_less)
  ultimately show ?thesis by (simp add: selectCostTableEntry_pick)
qed

lemma sample_day: "effectiveDay CostTable 0 (Some (AsOfText ''2026-08-15'')) = Inr ''2026-08-15''"
  using shipped_dates_real [of "''2026-08-15''" CostTable] by (simp add: effectiveDay_def shipped_dates_def)

lemma selected_rate_in_effect_witness:
  "cost_row Fal ''m'' ImageUnit 2 ''2026-08-08'' ''s'' None \<in> set sample_rows"
  using selected_rate_in_effect [OF sample_selection sample_day] by simp

lemma selection_order_independent_witness:
  "selectCostTableEntry Fal ''fal/m'' ImageUnit 0 (Some (AsOfText ''2026-08-15'')) (rev sample_rows) =
     Inr (cost_row Fal ''m'' ImageUnit 2 ''2026-08-08'' ''s'' None)"
  by (rule selection_order_independent [OF _ sample_selection]) simp

section \<open>Estimates\<close>

lemma cost_lines_complete:
  "cost_lines provider model now day units = Inr ls \<Longrightarrow>
   map (\<lambda>l. (ce_unit (li_entry l), li_quantity l)) ls =
     map (\<lambda>(u, q). (u, the q)) (filter (\<lambda>(u, q). q \<noteq> None \<and> q \<noteq> Some (JFin 0)) units) \<and>
   (\<forall>l \<in> set ls. li_entry l \<in> set COST_TABLE \<and> ce_provider (li_entry l) = provider \<and>
      is_finite (li_quantity l) \<and> js_lt (JFin 0) (li_quantity l) \<and>
      li_costUsd l = js_mul (li_quantity l) (ce_usdPerUnit (li_entry l)))"
proof (induction provider model now day units arbitrary: ls rule: cost_lines.induct)
  case (3 provider model now day unit q us)
  have q: "\<exists>x. q = JFin x \<and> 0 \<le> x" and rest: "if q = JFin 0 then cost_lines provider model now day us = Inr ls
      else \<exists>entry ls'. selectCostTableEntry provider model unit now (Some (AsOfText day)) COST_TABLE = Inr entry \<and>
        cost_lines provider model now day us = Inr ls' \<and>
        ls = \<lparr>li_entry = entry, li_quantity = q, li_costUsd = js_mul q (ce_usdPerUnit entry)\<rparr> # ls'"
    using 3(3) by (auto simp: ebind_Inr_iff assertFiniteNonnegative_def js_eq_def is_finite_iff split: if_splits)
  show ?case
  proof (cases "q = JFin 0")
    case True
    then show ?thesis using 3(1) [where ls = ls] rest 3(3) q
      by (simp add: assertFiniteNonnegative_def js_eq_def)
  next
    case False
    with rest obtain entry ls' where e: "selectCostTableEntry provider model unit now (Some (AsOfText day)) COST_TABLE = Inr entry"
      "cost_lines provider model now day us = Inr ls'"
      "ls = \<lparr>li_entry = entry, li_quantity = q, li_costUsd = js_mul q (ce_usdPerUnit entry)\<rparr> # ls'" by auto
    obtain d where "cost_pick (provider, model, unit) d COST_TABLE = Some entry"
      using select_InrD [OF e(1)] by metis
    then have "ct.best (provider, model, unit) d COST_TABLE entry" by (rule ct.pick_best)
    then have "entry \<in> set COST_TABLE" "ce_provider entry = provider" "ce_unit entry = unit"
      by (auto simp: ct.best_def cost_exact_def cost_wild_def)
    moreover have "\<not> js_eq q (JFin 0)" using False by (simp add: js_eq_def)
    ultimately show ?thesis using 3(2) [where ls = ls'] e q False
      by (auto simp: assertFiniteNonnegative_def)
  qed
qed auto

text \<open>An estimate is complete: it has one line for every nonzero quantity that was asked, in order,
  each priced by a row of the shipped table for that provider and unit, so no quantity is ever
  silently free.\<close>
theorem estimate_complete:
  assumes "costFromParams now inp = Inr est"
  shows "map (\<lambda>l. (ce_unit (li_entry l), li_quantity l)) (es_lineItems est) =
      map (\<lambda>(u, q). (u, the q)) (filter (\<lambda>(u, q). q \<noteq> None \<and> q \<noteq> Some (JFin 0)) (cf_units inp)) \<and>
    (\<forall>l \<in> set (es_lineItems est). li_entry l \<in> set COST_TABLE \<and> ce_provider (li_entry l) = cf_provider inp \<and>
      is_finite (li_quantity l) \<and> js_lt (JFin 0) (li_quantity l) \<and>
      li_costUsd l = js_mul (li_quantity l) (ce_usdPerUnit (li_entry l)))"
  using assms cost_lines_complete by (auto simp: costFromParams_def ebind_Inr_iff sumLines_def)

lemma estimate_complete_witness:
  "\<exists>est. costFromParams 0 \<lparr>cf_provider = Fal, cf_model = ''m'', cf_units = [(ImageUnit, Some (JFin 0)), (VideoSecond, None)],
     cf_asOf = Some (AsOfText ''2026-08-15'')\<rparr> = Inr est \<and> es_lineItems est = []"
proof -
  have "\<exists>est. costFromParams 0 \<lparr>cf_provider = Fal, cf_model = ''m'', cf_units = [(ImageUnit, Some (JFin 0)), (VideoSecond, None)],
     cf_asOf = Some (AsOfText ''2026-08-15'')\<rparr> = Inr est"
    using sample_day by (simp add: costFromParams_def assertFiniteNonnegative_def js_eq_def)
  then show ?thesis using estimate_complete by fastforce
qed

section \<open>Samples of the shipped tables\<close>

lemma haiku_authorized:
  "\<exists>a. turnAuthorizedMax ''anthropic'' ''claude-haiku-4-5'' 0 (Some (AsOfText ''2026-08-15'')) default_conversion = Inr a \<and>
     ta_usd a = JFin (round64 (45 / 1000))"
proof -
  have n: "normalizeModel ''anthropic'' ''claude-haiku-4-5'' = ''claude-haiku-4-5''"
    "normalizeModel ''anthropic'' ''claude-sonnet-4-5'' = ''claude-sonnet-4-5''"
    "normalizeModel ''anthropic'' ''claude-sonnet-4-6'' = ''claude-sonnet-4-6''"
    "normalizeModel ''anthropic'' ''claude-opus-4-6'' = ''claude-opus-4-6''"
    "''2026-08-08'' \<le> ''2026-08-15''" by code_simp+
  have "effectiveDay TurnCeilings 0 (Some (AsOfText ''2026-08-15'')) = Inr ''2026-08-15''"
    using shipped_dates_real [of "''2026-08-15''" TurnCeilings] by (simp add: effectiveDay_def shipped_dates_def)
  moreover have "turn_pick (''anthropic'', ''claude-haiku-4-5'') ''2026-08-15'' TURN_CEILINGS =
      Some (ceiling_row ''claude-haiku-4-5'' (45 / 1000) 8192)"
    using n by (simp add: turn_pick_def turn_exact_def TURN_CEILINGS_def ceiling_row_def latestEligible_def not_less)
  ultimately have "selectTurnCeilingEntry ''anthropic'' ''claude-haiku-4-5'' 0 (Some (AsOfText ''2026-08-15'')) TURN_CEILINGS =
      Inr (ceiling_row ''claude-haiku-4-5'' (45 / 1000) 8192)"
    using ceiling_table_valid by (simp add: selectTurnCeilingEntry_pick)
  moreover have "0 \<le> round64 (45 / 1000)" "round64 (45 / 1000) \<le> 2 ^ 28" by code_simp+
  ultimately show ?thesis
    using ceiling_literals(1) default_price_whole [of "round64 (45 / 1000)"]
    by (simp add: turnAuthorizedMax_def ceiling_row_def)
qed

lemma turn_reservation_covers_witness:
  "\<exists>a j k. turnAuthorizedMax ''anthropic'' ''claude-haiku-4-5'' 0 (Some (AsOfText ''2026-08-15'')) default_conversion = Inr a \<and>
     mannaFromUsd (JFin (1 / 32)) default_conversion = Inr (JFin (of_int j)) \<and> ta_manna a = JFin (of_int k) \<and> j \<le> k"
proof -
  obtain a where a: "turnAuthorizedMax ''anthropic'' ''claude-haiku-4-5'' 0 (Some (AsOfText ''2026-08-15'')) default_conversion = Inr a"
    "ta_usd a = JFin (round64 (45 / 1000))" using haiku_authorized by blast
  have "1 / 32 \<le> round64 (45 / 1000)" by code_simp
  then show ?thesis using turn_reservation_covers [OF a(1), of "1 / 32"] a by (simp add: js_le_JFin)
qed

text \<open>The default media routes on any day from 2026-07-06 on.\<close>

lemma one_line_estimate:
  assumes day: "strictUtcCalendarDay CostTable (iso_day now) = Inr (iso_day now)" "''2026-07-06'' \<le> iso_day now"
    and row: "filter (cost_exact (p, m, u)) COST_TABLE = [e]" "ce_effectiveDate e = ''2026-07-06''"
      "ce_usdPerUnit e = js_of_rat r"
    and q: "0 < q" "\<bar>r\<bar> \<le> 2 ^ 40" "\<bar>q * round64 r\<bar> \<le> 2 ^ 40" "0 \<le> r"
  shows "costFromParams now \<lparr>cf_provider = p, cf_model = m, cf_units = [(u, Some (JFin q))], cf_asOf = None\<rparr> =
      Inr \<lparr>es_tableVersion = COST_TABLE_VERSION, es_provider = p, es_model = normalizeModel (provider_name p) m,
        es_totalCostUsd = JFin (round64 (q * round64 r)),
        es_lineItems = [\<lparr>li_entry = e, li_quantity = JFin q, li_costUsd = JFin (round64 (q * round64 r))\<rparr>],
        es_estimated = (ce_estimated e = Some True)\<rparr>"
proof -
  have f: "filter (\<lambda>e. cost_exact (p, m, u) e \<and> ce_effectiveDate e \<le> iso_day now) COST_TABLE = [e]"
  proof -
    have "filter (\<lambda>e. cost_exact (p, m, u) e \<and> ce_effectiveDate e \<le> iso_day now) COST_TABLE =
        filter (\<lambda>e. ce_effectiveDate e \<le> iso_day now) (filter (cost_exact (p, m, u)) COST_TABLE)"
      by (simp add: conj_commute)
    then show ?thesis using row(1,2) day(2) by simp
  qed
  have "effectiveDay CostTable now (Some (AsOfText (iso_day now))) = Inr (iso_day now)"
    using day(1) by (simp add: effectiveDay_def)
  moreover have "cost_pick (p, m, u) (iso_day now) COST_TABLE = Some e"
    unfolding cost_pick_def f using row(2) day(2) by (simp add: latestEligible_def not_less)
  ultimately have sel: "selectCostTableEntry p m u now (Some (AsOfText (iso_day now))) COST_TABLE = Inr e"
    using shipped_tables_ok by (simp add: selectCostTableEntry_pick)
  have jr: "js_of_rat r = JFin (round64 r)" using q(2) by (rule js_of_rat_small)
  have jq: "js_of_rat (q * round64 r) = JFin (round64 (q * round64 r))" using q(3) by (rule js_of_rat_small)
  have "\<bar>round64 (q * round64 r)\<bar> \<le> 2 ^ 40"
  proof -
    have "0 \<le> q * round64 r" using q(1,4) round64_nonneg [of r] by simp
    then have "0 \<le> round64 (q * round64 r)" by (rule round64_nonneg)
    moreover have "round64 (q * round64 r) \<le> round64 (2 ^ 40)" using q(3) by (intro round64_mono) linarith
    ultimately show ?thesis using round64_powi [of 40] by simp
  qed
  then have j0: "js_of_rat (round64 (q * round64 r)) = JFin (round64 (q * round64 r))"
    using js_of_rat_small by simp
  have cl: "cost_lines p m now (iso_day now) [(u, Some (JFin q))] =
      Inr [\<lparr>li_entry = e, li_quantity = JFin q, li_costUsd = JFin (round64 (q * round64 r))\<rparr>]"
    using q(1) sel by (simp add: assertFiniteNonnegative_def js_eq_def row(3) jr jq)
  show ?thesis using cl j0 by (simp add: costFromParams_def effectiveDay_def sumLines_def)
qed

lemma one_line_price:
  assumes day: "strictUtcCalendarDay CostTable (iso_day now) = Inr (iso_day now)" "''2026-07-06'' \<le> iso_day now"
    and row: "filter (cost_exact (p, m, u)) COST_TABLE = [e]" "ce_effectiveDate e = ''2026-07-06''"
      "ce_usdPerUnit e = js_of_rat r"
    and q: "0 < q" "\<bar>r\<bar> \<le> 2 ^ 40" "\<bar>q * round64 r\<bar> \<le> 2 ^ 40" "0 \<le> r"
    and n: "0 < n" "n \<le> 10 ^ 12" "rel (round64 (q * round64 r)) (of_int n / 1000000) (1 / 2 ^ 51)"
  shows "ebind (costFromParams now \<lparr>cf_provider = p, cf_model = m, cf_units = [(u, Some (JFin q))], cf_asOf = None\<rparr>)
      (\<lambda>e. mannaForEstimate e default_conversion) = Inr (JFin (of_int \<lceil>of_int (27 * n) / (20000 :: rat)\<rceil>))"
  using one_line_estimate [OF day row q] micro_price [OF n] by (simp add: mannaForEstimate_def)

lemma default_rows:
  "filter (cost_exact (Fal, ''fal-ai/flux/dev'', ImageUnit)) COST_TABLE =
     [cost_row Fal ''fal-ai/flux/dev'' ImageUnit (25 / 1000) ''2026-07-06'' RATE_SOURCE None]"
  "filter (cost_exact (Fal, ''fal-ai/kling-video/v3/pro/text-to-video'', VideoSecond)) COST_TABLE =
     [cost_row Fal ''fal-ai/kling-video/v3/pro/text-to-video'' VideoSecond (9 / 100) ''2026-07-06'' RATE_SOURCE (Some True)]"
  "filter (cost_exact (Google, ''lyria-3-clip-preview'', MusicClip)) COST_TABLE =
     [cost_row Google ''lyria-3-clip-preview'' MusicClip (4 / 100) ''2026-07-06''
       ''Gemini Developer API pricing page, Lyria 3 Clip Preview 30s per-song price'' None]"
  "filter (cost_exact (Elevenlabs, ''tts'', AudioCharacter)) COST_TABLE =
     [cost_row Elevenlabs ''tts'' AudioCharacter (1667 / 10000000) ''2026-07-06'' RATE_SOURCE (Some True)]"
proof -
  have n: "normalizeModel ''fal'' ''fal-ai/flux/dev'' = ''fal-ai/flux/dev''"
    "normalizeModel ''fal'' ''fal-ai/kling-video/v3/pro/text-to-video'' = ''fal-ai/kling-video/v3/pro/text-to-video''"
    "normalizeModel ''fal'' ''fal-ai/kling-video/v3/pro/image-to-video'' = ''fal-ai/kling-video/v3/pro/image-to-video''"
    "normalizeModel ''fal'' ''fal-ai/bytedance/seedance/v1/pro/text-to-video'' = ''fal-ai/bytedance/seedance/v1/pro/text-to-video''"
    "normalizeModel ''google'' ''lyria-3-clip-preview'' = ''lyria-3-clip-preview''"
    "normalizeModel ''elevenlabs'' ''tts'' = ''tts''"
    "normalizeModel ''elevenlabs'' ''eleven_flash_v2_5'' = ''eleven_flash_v2_5''"
    by code_simp+
  show "filter (cost_exact (Fal, ''fal-ai/flux/dev'', ImageUnit)) COST_TABLE =
     [cost_row Fal ''fal-ai/flux/dev'' ImageUnit (25 / 1000) ''2026-07-06'' RATE_SOURCE None]"
    "filter (cost_exact (Fal, ''fal-ai/kling-video/v3/pro/text-to-video'', VideoSecond)) COST_TABLE =
     [cost_row Fal ''fal-ai/kling-video/v3/pro/text-to-video'' VideoSecond (9 / 100) ''2026-07-06'' RATE_SOURCE (Some True)]"
    "filter (cost_exact (Google, ''lyria-3-clip-preview'', MusicClip)) COST_TABLE =
     [cost_row Google ''lyria-3-clip-preview'' MusicClip (4 / 100) ''2026-07-06''
       ''Gemini Developer API pricing page, Lyria 3 Clip Preview 30s per-song price'' None]"
    "filter (cost_exact (Elevenlabs, ''tts'', AudioCharacter)) COST_TABLE =
     [cost_row Elevenlabs ''tts'' AudioCharacter (1667 / 10000000) ''2026-07-06'' RATE_SOURCE (Some True)]"
    using n by (simp_all add: COST_TABLE_def cost_rows_llm_def cost_rows_media_def cost_row_def cost_exact_def)
qed

text \<open>The default media prices: on every day from 2026-07-06 on, an in-chat image is charged 34, a
  video 608, a music clip 54 and speech 28 manna.\<close>
theorem default_media_prices:
  assumes "strictUtcCalendarDay CostTable (iso_day now) = Inr (iso_day now)" "''2026-07-06'' \<le> iso_day now"
  shows "map (defaultChatMediaManna now) [MediaImage, MediaVideo, MediaMusic, MediaTts] =
    map (\<lambda>k. Inr (JFin k)) [34, 608, 54, 28]"
proof -
  have c: "\<lceil>135 / 4 :: rat\<rceil> = 34" "\<lceil>1215 / 2 :: rat\<rceil> = 608" "\<lceil>135027 / 5000 :: rat\<rceil> = 28" by code_simp+
  have r: "\<bar>round64 (1 * round64 (25 / 1000)) - of_int 25000 / 1000000\<bar> \<le> of_int 25000 / 1000000 * (1 / 2 ^ 51)"
    "\<bar>round64 (5 * round64 (9 / 100)) - of_int 450000 / 1000000\<bar> \<le> of_int 450000 / 1000000 * (1 / 2 ^ 51)"
    "\<bar>round64 (1 * round64 (4 / 100)) - of_int 40000 / 1000000\<bar> \<le> of_int 40000 / 1000000 * (1 / 2 ^ 51)"
    "\<bar>round64 (120 * round64 (1667 / 10000000)) - of_int 20004 / 1000000\<bar> \<le> of_int 20004 / 1000000 * (1 / 2 ^ 51)"
    by code_simp+
  have b: "\<bar>1 * round64 (25 / 1000)\<bar> \<le> 2 ^ 40" "\<bar>5 * round64 (9 / 100)\<bar> \<le> 2 ^ 40"
    "\<bar>1 * round64 (4 / 100)\<bar> \<le> 2 ^ 40" "\<bar>120 * round64 (1667 / 10000000)\<bar> \<le> 2 ^ 40" by code_simp+
  note price = one_line_price [OF assms, unfolded rel_def]
  have "defaultChatMediaManna now MediaImage = Inr (JFin 34)"
    using price [OF default_rows(1) _ _ _ _ b(1) _ _ _ r(1)]
    by (simp add: c cost_row_def defaultChatMediaManna_def default_route_def default_conversion_def)
  moreover have "defaultChatMediaManna now MediaVideo = Inr (JFin 608)"
    using price [OF default_rows(2) _ _ _ _ b(2) _ _ _ r(2)]
    by (simp add: c cost_row_def defaultChatMediaManna_def default_route_def default_conversion_def)
  moreover have "defaultChatMediaManna now MediaMusic = Inr (JFin 54)"
    using price [OF default_rows(3) _ _ _ _ b(3) _ _ _ r(3)]
    by (simp add: c cost_row_def defaultChatMediaManna_def default_route_def default_conversion_def)
  moreover have "defaultChatMediaManna now MediaTts = Inr (JFin 28)"
    using price [OF default_rows(4) _ _ _ _ b(4) _ _ _ r(4)]
    by (simp add: c cost_row_def defaultChatMediaManna_def default_route_def default_conversion_def)
  ultimately show ?thesis by simp
qed

lemma default_media_prices_witness: "defaultChatMediaManna 1787000000000 MediaVideo = Inr (JFin 608)"
proof -
  have d: "iso_day 1787000000000 = ''2026-08-17''" "''2026-07-06'' \<le> ''2026-08-17''"
    "iso_shape ''2026-08-17'' \<and> (case iso_fields ''2026-08-17'' of (y, m, k) \<Rightarrow> valid_date y m k)" by code_simp+
  then show ?thesis using default_media_prices [of 1787000000000] by (simp add: strict_day_Inr)
qed

section \<open>Overflow\<close>

lemma js_of_rat_large:
  assumes "2 ^ k \<le> x" "k \<le> 1024"
  shows "js_of_rat x = JPosInf \<or> (\<exists>y. js_of_rat x = JFin y \<and> 2 ^ k \<le> y \<and> y < 2 ^ 1024)"
proof -
  have "round64 (2 powi int k) \<le> round64 x" using assms(1) by (intro round64_mono) simp
  then have "2 ^ k \<le> round64 x" using round64_powi [of "int k"] by simp
  moreover have "(0::rat) < 2 ^ k" "- (2 ^ 1024) < (0 :: rat)" by simp_all
  ultimately have g: "2 ^ k \<le> round64 x" "\<not> round64 x \<le> - (2 ^ 1024)" by linarith+
  show ?thesis
  proof (cases "2 ^ 1024 \<le> round64 x")
    case True
    then show ?thesis unfolding js_of_rat_def Let_def by (simp only: if_True simp_thms)
  next
    case False
    then have "js_of_rat x = JFin (round64 x)" unfolding js_of_rat_def Let_def by (simp only: if_False g(2))
    then show ?thesis using g(1) False by (auto simp only: not_le)
  qed
qed

text \<open>C31: A cost so large that the price overflows is free: from 2 to the 1015 dollars on, the price is
  infinite, the tolerance is infinite too, and the comparison of the two answers zero manna
  instead of an error.\<close>
theorem overflowing_price_is_free:
  assumes "2 ^ 1015 \<le> c"
  shows "mannaFromUsd (JFin c) default_conversion = Inr (JFin 0)"
proof -
  have "0 \<le> c" using assms by (rule order_trans [rotated]) simp
  then have "c * 1 \<le> c * markup_factor" by (intro mult_left_mono) (simp_all add: markup_factor_def)
  then have "2 ^ 1015 \<le> c * markup_factor" using assms by (simp only: mult_1_right order_trans)
  then have one: "js_mul (JFin c) (JFin markup_factor) = JPosInf \<or>
      (\<exists>y. js_mul (JFin c) (JFin markup_factor) = JFin y \<and> 2 ^ 1015 \<le> y)"
    using js_of_rat_large [of 1015] by auto
  have big: "js_of_rat (y * 1000) = JPosInf" if "2 ^ 1015 \<le> y" for y
  proof -
    have "(2::rat) ^ 1024 = 2 ^ 1015 * 512" by (simp flip: power_add)
    also have "\<dots> \<le> y * 1000" using that by (intro mult_mono) simp_all
    finally have "2 ^ 1024 \<le> y * 1000" .
    from js_of_rat_large [OF this] show ?thesis by auto
  qed
  have raw: "js_mul (js_mul (JFin c) (JFin markup_factor)) (JFin 1000) = JPosInf"
    using one big by (auto simp: js_inf_def)
  have eps: "js_mul (js_mul EPSILON (js_max (JFin 1) (js_abs JPosInf))) (JFin 8) = JPosInf"
    by (simp add: EPSILON_def js_max_def js_inf_def)
  obtain mk where mk: "DEFAULT_MARKUP = JFin mk" "0 \<le> mk" using markup_factor(2) by blast
  have "js_add (JFin 1) (JFin mk) = JFin markup_factor" using markup_factor(1) mk(1) by simp
  then show ?thesis
    using \<open>0 \<le> c\<close> mk(2) unfolding mannaFromUsd_def default_conversion_def
    by (simp add: assertFiniteNonnegative_def DEFAULT_MANNA_PER_USD_def mk(1) raw eps Let_def
        del: js_mul.simps js_add.simps js_abs.simps)
qed

lemma overflowing_price_is_free_witness: "mannaFromUsd (JFin (2 ^ 1020)) default_conversion = Inr (JFin 0)"
  by (rule overflowing_price_is_free) (rule power_increasing; simp)

end
