(* ===== verification/TurnAuthSteps.thy ===== *)
theory TurnAuthSteps
  imports TurnAuthFacts MeteringProperties
begin

text \<open>
  Each transaction on a turn keeps the invariant of the authorizations and only moves the
  rows forward: one lemma per transaction, from the moves of the theory before.
\<close>

section \<open>Amounts\<close>

text \<open>A number that the ledger stores as it is.\<close>

definition exact_units :: "jsnum \<Rightarrow> bool" where
  "exact_units v \<longleftrightarrow> (\<forall>x. v = JFin x \<longrightarrow> \<bar>fixed4 x\<bar> \<le> unit_bound \<longrightarrow> x = unit_val (fixed4 x))"

definition whole :: "jsnum \<Rightarrow> bool" where
  "whole v \<longleftrightarrow> (\<forall>x. v = JFin x \<longrightarrow> (\<exists>n. x = of_int n))"

lemma whole_units: "\<bar>10000 * n\<bar> \<le> unit_bound \<Longrightarrow> unit_val (10000 * n) = of_int n"
  using round64_of_int [of n] by (simp add: unit_val_def unit_bound_def)

lemma whole_exact: "whole v \<Longrightarrow> exact_units v"
  by (auto simp: whole_def exact_units_def whole_units)

lemma whole_min: "whole a \<Longrightarrow> whole b \<Longrightarrow> whole (js_min a b)"
  by (auto simp: whole_def js_min_def)

lemma exact_number: "\<bar>n\<bar> \<le> unit_bound \<Longrightarrow> exact_units (numericToNumber n)"
  by (simp add: exact_units_def numericToNumber_def number_of_units_val)

lemma price_is_whole: "mannaFromUsd c o' = Inr v \<Longrightarrow> whole v"
  by (auto simp: mannaFromUsd_def ebind_Inr_iff Let_def whole_def split: if_splits)
    (metis js_ceil.elims of_int_0 jsnum.distinct jsnum.inject)+

lemma metered_whole: "metered_manna (meterChatUsage usage model now) = Some v \<Longrightarrow> whole v"
  by (auto simp: metered_manna_def meterChatUsage_def Let_def ebind_Inr_iff mannaForEstimate_def
      split: prod.splits option.splits sum.splits if_splits dest!: price_is_whole)

lemma stored_numeric_units:
  assumes "stored_numeric v = Some c" "exact_units v" "\<bar>c\<bar> \<le> unit_bound"
  shows "v = JFin (unit_val c)"
  using assms by (auto simp: stored_numeric_def exact_units_def split: jsnum.splits if_splits)

text \<open>What a turn reserves is a whole amount in the range of the ledger.\<close>

lemma authorized_units:
  assumes "resolveTurnAuthorization model now = Inr auth"
  obtains n where "ta_manna auth = JFin (of_int n)" "0 \<le> n" "10000 * n \<le> unit_bound"
proof -
  obtain provider m where "turnAuthorizedMax provider m now None default_conversion = Inr auth"
    using assms
    by (auto simp: resolveTurnAuthorization_def default_conversion_def split: prod.splits sum.splits metering_error.splits)
  then obtain e where e: "e \<in> set TURN_CEILINGS" "mannaFromUsd (tc_maxTurnUsd e) default_conversion = Inr (ta_manna auth)"
    by (rule authorized_entry)
  obtain q where q: "tc_maxTurnUsd e = JFin (round64 q)" "1 / 2 ^ 30 \<le> q" "q \<le> 2" using ceiling_rows [OF e(1)] by blast
  have "0 \<le> q" using q(2) by (rule order_trans [rotated]) simp
  then have r: "0 \<le> round64 q" "round64 q \<le> 2" "round64 q \<le> 2 ^ 28"
    using round64_nonneg [of q] round64_mono [OF q(3)] round64_of_int [of 2] by simp_all
  have price: "ta_manna auth = JFin (of_int (whole_price (raw_price (round64 q))))"
    using default_price_whole [OF r(1,3)] e(2) q(1) by simp
  have z: "0 \<le> whole_price (raw_price (round64 q))"
    using whole_price_mono [of 0 "raw_price (round64 q)"] raw_price_mono [of 0 "round64 q"] r(1)
    by (simp add: whole_price_def [of 0])
  have "whole_price (raw_price (round64 q)) \<le> whole_price (raw_price 2)"
    using raw_price_mono [OF r(1,2)] by (intro whole_price_mono) simp_all
  also have "whole_price (raw_price 2) = 2700" by code_simp
  finally have "10000 * whole_price (raw_price (round64 q)) \<le> 27000000" by linarith
  also have "27000000 \<le> unit_bound" by (simp add: unit_bound_def)
  finally have "10000 * whole_price (raw_price (round64 q)) \<le> unit_bound" .
  with z price show thesis by (intro that)
qed

section \<open>The row and the debit of a turn\<close>

lemma turn_debit:
  assumes inv: "auth_inv plan db" and a: "authorization_of t db = Some a"
  obtains tx key where "transaction_of (au_reservationTxId a) db = Some tx" "tx_id tx = au_reservationTxId a"
    "tx_idempotency_key tx = Some key" "ledgerTurnKey (plan t) = Inr key"
    "findTransactionByKey key (td_ledger db) = Some tx" "tx_amount tx = - au_authorizedMaxManna a"
    "refunded_units (au_reservationTxId a) (td_ledger db) = given_back a" "authorization_ok a"
proof -
  have m: "a \<in> set (td_authorizations db)" "au_turnId a = t" using authorization_of_in [OF a] by simp_all
  have L: "ledger_inv (td_ledger db)" using inv by (simp add: auth_inv_def)
  have ok: "reservation_ok plan (td_ledger db) a" "authorization_ok a" using inv m(1) by (simp_all add: auth_inv_def)
  obtain tx key where tx: "tx \<in> set (manna_transactions (td_ledger db))" "tx_id tx = au_reservationTxId a"
    "tx_idempotency_key tx = Some key" "ledgerTurnKey (plan t) = Inr key" "tx_amount tx = - au_authorizedMaxManna a"
    "refunded_units (au_reservationTxId a) (td_ledger db) = given_back a"
    using ok(1) m(2) unfolding reservation_ok_def by blast
  show thesis
    using that tx ok(2) tx_by_id [OF L tx(1)] tx_by_key [OF L tx(1,3)] by metis
qed

text \<open>The maximum and the split of a row are numbers the ledger stores exactly.\<close>

lemma row_numbers:
  assumes "authorization_ok a"
  shows "numericToNumber (au_authorizedMaxManna a) = JFin (unit_val (au_authorizedMaxManna a))"
    "numericToNumber (au_reservedSubscriptionManna a) = JFin (unit_val (au_reservedSubscriptionManna a))"
  using assms by (simp_all add: authorization_ok_def numericToNumber_def number_of_units_val)

lemma markTurnSettled_InrD:
  assumes "markTurnSettled t v overrun now db = Inr db'" "distinct (map au_turnId (td_authorizations db))"
  obtains a c where "authorization_of t db = Some a" "au_state a = Reserved" "stored_numeric v = Some c"
    "0 \<le> c" "c \<le> au_authorizedMaxManna a"
    "db' = update_reserved t (\<lambda>a. a\<lparr>au_state := Settled, au_chargedManna := Some c,
                           au_overrun := overrun, au_updatedAt := now\<rparr>) db"
  using assms(1) reserved_row [OF assms(2), of t]
  by (auto simp: markTurnSettled_def split: option.splits if_splits)

lemma on_ledger_InrD:
  "on_ledger f db = Inr (db', r) \<Longrightarrow> \<exists>s'. f (td_ledger db) = (s', Inr r) \<and> db' = db\<lparr>td_ledger := s'\<rparr>"
  by (auto simp: on_ledger_def split: prod.splits sum.splits)

lemma update_reserved_ledger [simp]:
  "td_ledger (update_reserved t f db) = td_ledger db" "td_runs (update_reserved t f db) = td_runs db"
  by (simp_all add: update_reserved_def)

section \<open>Settling\<close>

lemma settle_step:
  assumes inv: "auth_inv plan db"
    and mt: "markTurnSettled t v overrun now db = Inr db1" and v: "exact_units v"
    and st: "on_ledger (settleReservation key v sub ty now) db1 = Inr (db2, leg)"
    and key: "ledgerTurnKey (plan t) = Inr key"
    and sub: "\<And>a. authorization_of t db = Some a \<Longrightarrow> sub = numericToNumber (au_reservedSubscriptionManna a)"
  shows "auth_inv plan db2 \<and> db_le db db2"
proof -
  have "distinct (map au_turnId (td_authorizations db))" using inv by (simp add: auth_inv_def)
  then obtain a c where a: "authorization_of t db = Some a" "au_state a = Reserved"
    and c: "stored_numeric v = Some c" "0 \<le> c" "c \<le> au_authorizedMaxManna a"
    and db1: "db1 = update_reserved t (\<lambda>a. a\<lparr>au_state := Settled, au_chargedManna := Some c,
                           au_overrun := overrun, au_updatedAt := now\<rparr>) db"
    by (rule markTurnSettled_InrD [OF mt])
  obtain tx key' where tx: "tx_id tx = au_reservationTxId a" "ledgerTurnKey (plan t) = Inr key'"
    "findTransactionByKey key' (td_ledger db) = Some tx" "tx_amount tx = - au_authorizedMaxManna a"
    "refunded_units (au_reservationTxId a) (td_ledger db) = given_back a" "authorization_ok a"
    by (rule turn_debit [OF inv a(1)]) (rule that)
  have k: "key' = key" using tx(2) key by simp
  have L: "ledger_inv (td_ledger db)" using inv by (simp add: auth_inv_def)
  have ub: "au_authorizedMaxManna a \<le> unit_bound" and rs: "0 \<le> au_reservedSubscriptionManna a"
    "au_reservedSubscriptionManna a \<le> au_authorizedMaxManna a"
    using tx(6) by (simp_all add: authorization_ok_def)
  have vc: "v = JFin (unit_val c)" using stored_numeric_units [OF c(1) v] c ub by simp
  obtain s' where s': "settleReservation key v sub ty now (td_ledger db) = (s', Inr leg)" "db2 = db1\<lparr>td_ledger := s'\<rparr>"
    using on_ledger_InrD [OF st] db1 by auto
  have g: "given_back a = 0" using a(2) by (simp add: given_back_def)
  have call: "settleReservation key (JFin (unit_val c)) (JFin (unit_val (au_reservedSubscriptionManna a))) ty now
      (td_ledger db) = (s', Inr leg)"
    using s'(1) vc sub [OF a(1)] row_numbers(2) [OF tx(6)] by simp
  have R: "refunded_units (tx_id tx) s' = - tx_amount tx - c"
    "\<forall>i. i \<noteq> tx_id tx \<longrightarrow> refunded_units i s' = refunded_units i (td_ledger db)"
    using settle_refunds [OF call L tx(3) [unfolded k]] c(2,3) tx(1,4,5) g rs by simp_all
  have S: "ledger_inv s'" "extends (td_ledger db) s'"
    using settleReservation_inv [OF L, of key v sub ty now] s'(1) by (simp_all add: evolves_extends)
  show ?thesis
    unfolding s'(2) db1
    by (rule terminal_move [OF inv a(1,2) _ _ _ _ S])
      (use R tx c in \<open>simp_all add: same_reservation_def authorization_ok_def given_back_def\<close>)
qed

section \<open>Reversing\<close>

lemma reverse_step:
  assumes "reverse_tx fence t ty ts now db = Inr (db', r)" and inv: "auth_inv plan db"
  shows "auth_inv plan db' \<and> db_le db db'"
proof -
  consider (same) "db' = db"
    | (reversed) a key db1 leg where "authorization_of t db = Some a" "au_state a = Reserved"
      "\<And>r. run_of t db = Some r \<Longrightarrow> pr_usableOutputAt r = None"
      "(case transaction_of (au_reservationTxId a) db of None \<Rightarrow> None
        | Some mt \<Rightarrow> truthy_key (tx_idempotency_key mt)) = Some key"
      "on_ledger (reverseReservation key (Some (numericToNumber (au_reservedSubscriptionManna a))) (Some ty) now) db
        = Inr (db1, leg)"
      "db' = update_reserved t (\<lambda>a. a\<lparr>au_state := (case ts of Some ToReaped \<Rightarrow> Reaped | _ \<Rightarrow> Reversed),
         au_updatedAt := now\<rparr>) db1"
    using assms(1)
    by (auto simp: reverse_tx_def ebind_Inr_iff split: option.splits if_splits)
  then show ?thesis
  proof cases
    case reversed
    obtain tx k where tx: "transaction_of (au_reservationTxId a) db = Some tx" "tx_id tx = au_reservationTxId a"
      "tx_idempotency_key tx = Some k"
      "findTransactionByKey k (td_ledger db) = Some tx" "tx_amount tx = - au_authorizedMaxManna a"
      "refunded_units (au_reservationTxId a) (td_ledger db) = given_back a" "authorization_ok a"
      by (rule turn_debit [OF inv reversed(1)]) (rule that)
    have k: "k = key" using reversed(4) tx(1,3) by (auto simp: truthy_key_def split: if_splits)
    have L: "ledger_inv (td_ledger db)" using inv by (simp add: auth_inv_def)
    obtain s' where s': "reverseReservation key (Some (numericToNumber (au_reservedSubscriptionManna a))) (Some ty)
        now (td_ledger db) = (s', Inr leg)" "db1 = db\<lparr>td_ledger := s'\<rparr>"
      using on_ledger_InrD [OF reversed(5)] by auto
    have rs: "0 \<le> au_reservedSubscriptionManna a" "au_reservedSubscriptionManna a \<le> unit_bound"
      "tx_amount tx < 0"
      using tx(5,7) by (simp_all add: authorization_ok_def)
    have g: "given_back a = 0" using reversed(2) by (simp add: given_back_def)
    have R: "refunded_units (tx_id tx) s' = - tx_amount tx"
      "\<forall>i. i \<noteq> tx_id tx \<longrightarrow> refunded_units i s' = refunded_units i (td_ledger db)"
      using reverse_refunds [OF s'(1) [unfolded row_numbers(2) [OF tx(7)]] L tx(4) [unfolded k] rs(3,1,2)] tx(2,6) g
      by simp_all
    have S: "ledger_inv s'" "extends (td_ledger db) s'"
      using reverseReservation_inv [OF L, of key "Some (numericToNumber (au_reservedSubscriptionManna a))" "Some ty" now]
        s'(1) by (simp_all add: evolves_extends)
    have st: "(case ts of Some ToReaped \<Rightarrow> Reaped | _ \<Rightarrow> Reversed) \<in> {Reversed, Reaped}"
      by (simp split: option.split reverse_state.split)
    have db': "db' = (update_reserved t (\<lambda>a. a\<lparr>au_state := (case ts of Some ToReaped \<Rightarrow> Reaped | _ \<Rightarrow> Reversed),
         au_updatedAt := now\<rparr>) db)\<lparr>td_ledger := s'\<rparr>"
      by (simp add: reversed(6) s'(2) update_reserved_def)
    show ?thesis
      unfolding db'
      by (rule terminal_move [OF inv reversed(1,2) _ _ _ _ S])
        (use R tx reversed(2,3) st in \<open>auto simp: same_reservation_def authorization_ok_def given_back_def split: option.splits\<close>)
  qed (use inv in simp)
qed

end
