(* ===== verification/TurnReserve.thy ===== *)
theory TurnReserve
  imports TurnAuthSteps
begin

text \<open>
  Reserving: after the transaction the turn has a reserved row, and the debit it names
  carries the key of the turn, takes exactly the authorized maximum and gives nothing back,
  whether the debit was new or a replay.
\<close>

section \<open>The debit\<close>

lemma debit_replayed:
  assumes "debit (\<lambda>x. x) p now s = (s', Inr r)" "lr_alreadyApplied r"
  shows "findTransactionByKey (dp_idempotencyKey p) s' = Some (lr_transaction r)"
proof (cases "debit_tx (\<lambda>x. x) p now s")
  case (Inl e)
  then show ?thesis using assms by (auto simp: debit_def replay_result_def split: sum.splits option.splits if_splits)
next
  case (Inr y)
  then obtain s2 r2 where y: "debit_tx (\<lambda>x. x) p now s = Inr (s2, r2)" by (cases y) auto
  then have e: "s2 = s'" "r2 = r" using assms(1) by (auto simp: debit_def split: sum.splits)
  from y [unfolded e] show ?thesis
  proof (cases rule: debit_tx_cases)
    case (charge s1 acc)
    then show ?thesis using assms(2) by (auto simp: apply_debit_def ebind_Inr_iff Let_def split: option.splits if_splits)
  qed (simp_all add: replay_result_def)
qed

text \<open>The Number of a row that, negated, is a positive whole amount.\<close>

lemma replayed_amount:
  assumes "js_eq (js_neg (numericToNumber a)) (JFin (of_int n))" "0 < n" "10000 * n \<le> unit_bound" "- unit_bound \<le> a"
  shows "a = - (10000 * n)"
proof -
  obtain x where x: "number_of_units a = JFin x" "x = - of_int n"
    using assms(1) by (cases "number_of_units a") (auto simp: js_eq_def numericToNumber_def)
  have "a < 0" using number_of_units_nonneg [OF x(1)] x(2) assms(2) by fastforce
  then have a: "\<bar>a\<bar> \<le> unit_bound" using assms(4) by simp
  then have "unit_val a = - of_int n" using x by (simp add: number_of_units_val)
  then have "unit_val a = unit_val (- (10000 * n))" using whole_units [of n] assms(2,3) by (simp add: unit_val_uminus)
  then have "fixed4 (unit_val a) = fixed4 (unit_val (- (10000 * n)))" by simp
  then show ?thesis using a assms(2,3) by (simp only: fixed4_unit_val abs_minus_cancel abs_of_nonneg)
qed

lemma charged_row:
  assumes "apply_debit p now i s1 = Inr (s', r)" "dp_amount p = JFin x" "ledger_inv s1"
  shows "lr_transaction r \<in> set (manna_transactions s')"
    "tx_idempotency_key (lr_transaction r) = Some (dp_idempotencyKey p)"
    "tx_amount (lr_transaction r) = - fixed4 x" "refunded_units (tx_id (lr_transaction r)) s' = 0"
proof -
  obtain row where ins: "insert_transaction
       ((blank_tx i (- fixed4 x) now)\<lparr>tx_type := Some (dp_type p),
          tx_idempotency_key := Some (dp_idempotencyKey p),
          tx_task_external_id := dp_taskExternalId p\<rparr>)
       (update_account i (draw_down (fixed4 x) now) s1) = Inr (s', row)" and r: "lr_transaction r = row"
    by (rule apply_debit_InrD [OF assms(1,2)]) (rule that, assumption, simp)
  note d = insert_transaction_InrD [OF ins, simplified]
  have "linked_refunds (\<lambda>_. True) (next_id s1) s1 = 0"
    using assms(3) by (intro linked_refunds_none) (auto simp: ledger_inv_def txs_ok_def)
  then show "refunded_units (tx_id (lr_transaction r)) s' = 0"
    unfolding refunded_units_def linked_refunds_append [OF d(2)] using d(1) r by (simp add: blank_tx_def)
  show "lr_transaction r \<in> set (manna_transactions s')"
    "tx_idempotency_key (lr_transaction r) = Some (dp_idempotencyKey p)"
    "tx_amount (lr_transaction r) = - fixed4 x"
    using d(1,2) r by (simp_all add: blank_tx_def)
qed

lemma reserve_debit:
  assumes db: "debit (\<lambda>x. x) (reservation_debit p key auth) now s = (s', Inr r)" and inv: "ledger_inv s"
    and n: "ta_manna auth = JFin (of_int n)" "10000 * n \<le> unit_bound"
    and replay: "lr_alreadyApplied r \<longrightarrow> check_replay p auth (lr_transaction r) s' = Inr ()"
  shows "lr_transaction r \<in> set (manna_transactions s')" "tx_idempotency_key (lr_transaction r) = Some key"
    "tx_amount (lr_transaction r) = - (10000 * n)" "refunded_units (tx_id (lr_transaction r)) s' = 0"
    "0 < n" "ledger_inv s'" "plain_growth s s'"
proof -
  define q where "q = reservation_debit p key auth"
  have q: "dp_amount q = JFin (of_int n)" "dp_idempotencyKey q = key" "debit_units q = 10000 * n"
    by (simp_all add: q_def reservation_debit_def n(1) debit_units_def)
  have db': "debit (\<lambda>x. x) q now s = (s', Inr r)" using db by (simp add: q_def)
  show I: "ledger_inv s'" using debit_inv [OF inv ok_env_id, of q now] db' q(3) n(2) by simp
  show "plain_growth s s'" by (rule debit_plain [OF db'])
  have "assertValidAmount (dp_amount q) = Inr ()"
    using db' by (cases "assertValidAmount (dp_amount q)") (simp_all add: debit_def)
  then show pos: "0 < n" using assertValidAmount_InrD q(1) by fastforce
  have "lr_transaction r \<in> set (manna_transactions s') \<and> tx_idempotency_key (lr_transaction r) = Some key \<and>
    tx_amount (lr_transaction r) = - (10000 * n) \<and> refunded_units (tx_id (lr_transaction r)) s' = 0"
  proof (cases "lr_alreadyApplied r")
    case True
    have f: "lr_transaction r \<in> set (manna_transactions s')" "tx_idempotency_key (lr_transaction r) = Some key"
      using findTransactionByKey_SomeD [OF debit_replayed [OF db' True]] q(2) by simp_all
    have c: "js_eq (js_neg (numericToNumber (tx_amount (lr_transaction r)))) (JFin (of_int n))"
      "\<not> list_ex (\<lambda>u. tx_refunds_transaction_id u = Some (tx_id (lr_transaction r)) \<and> 0 < tx_amount u)
         (manna_transactions s')"
      using replay True n(1) by (auto simp: check_replay_def split: if_splits)
    have "- unit_bound \<le> tx_amount (lr_transaction r)" using I f(1) by (simp add: ledger_inv_def txs_ok_def)
    then have "tx_amount (lr_transaction r) = - (10000 * n)" by (rule replayed_amount [OF c(1) pos n(2)])
    moreover have "filter (\<lambda>t. tx_refunds_transaction_id t = Some (tx_id (lr_transaction r)) \<and> 0 < tx_amount t)
        (manna_transactions s') = []"
      using c(2) by (auto simp: list_ex_iff filter_empty_conv)
    then have "refunded_units (tx_id (lr_transaction r)) s' = 0"
      by (simp add: refunded_units_def linked_refunds_def)
    ultimately show ?thesis using f by simp
  next
    case False
    obtain s1 and acc :: manna_account
      where g: "getOrCreateMannaAccount (\<lambda>x. x) (dp_accountId q) now s = Inr (s1, acc)"
        and ap: "apply_debit q now (ma_id acc) s1 = Inr (s', r)"
      by (rule debit_new_charge [OF db' False]) (rule that, assumption+)
    show ?thesis
      using charged_row [OF ap q(1) getOrCreate_inv(1) [OF g inv]] q(2) by simp
  qed
  then show "lr_transaction r \<in> set (manna_transactions s')" "tx_idempotency_key (lr_transaction r) = Some key"
    "tx_amount (lr_transaction r) = - (10000 * n)" "refunded_units (tx_id (lr_transaction r)) s' = 0"
    by simp_all
qed

section \<open>The row\<close>

lemma insert_move:
  assumes inv: "auth_inv plan db" and none: "authorization_of (au_turnId a) db = None"
    and fresh: "\<not> list_ex (\<lambda>b. au_reservationTxId b = au_reservationTxId a) (td_authorizations db)"
    and ok: "authorization_ok a" "reservation_ok plan (td_ledger db) a"
  shows "auth_inv plan (db\<lparr>td_authorizations := td_authorizations db @ [a]\<rparr>) \<and>
    db_le db (db\<lparr>td_authorizations := td_authorizations db @ [a]\<rparr>)"
proof -
  have "runs_ok db" using inv by (simp add: auth_inv_def)
  then have "runs_ok (db\<lparr>td_authorizations := td_authorizations db @ [a]\<rparr>)"
    by (auto simp: runs_ok_def)
  moreover have "au_turnId a \<notin> au_turnId ` set (td_authorizations db)"
    using none by (auto simp: authorization_of_def find_None_iff)
  moreover have "au_reservationTxId a \<notin> au_reservationTxId ` set (td_authorizations db)"
    using fresh by (auto simp: list_ex_iff)
  ultimately have "auth_inv plan (db\<lparr>td_authorizations := td_authorizations db @ [a]\<rparr>)"
    using inv ok by (auto simp: auth_inv_def)
  moreover have "db_le db (db\<lparr>td_authorizations := td_authorizations db @ [a]\<rparr>)"
    using db_le_refl [of db] unfolding db_le_def by simp
  ultimately show ?thesis by simp
qed

lemma insert_authorization_InrD:
  assumes "insert_authorization row now db = Inr (db', res)"
  obtains (inserted) mx sub a where "stored_numeric (rw_authorizedMaxManna row) = Some mx"
      "stored_numeric (rw_reservedSubscriptionManna row) = Some sub" "0 < mx" "0 \<le> sub" "sub \<le> mx"
      "authorization_of (rw_turnId row) db = None"
      "\<not> list_ex (\<lambda>a. au_reservationTxId a = rw_reservationTxId row) (td_authorizations db)"
      "a = new_authorization row mx sub now" "db' = db\<lparr>td_authorizations := td_authorizations db @ [a]\<rparr>"
      "res = Some a"
  | (conflict) "db' = db" "res = None"
proof -
  obtain mx sub where s: "stored_numeric (rw_authorizedMaxManna row) = Some mx"
    "stored_numeric (rw_reservedSubscriptionManna row) = Some sub"
    using assms by (auto simp: insert_authorization_def split: option.splits)
  note e = assms [unfolded insert_authorization_def s option.case prod.case Let_def]
  show thesis
  proof (cases "authorization_of (rw_turnId row) db")
    case None
    have "0 < mx" "0 \<le> sub" "sub \<le> mx"
      "\<not> list_ex (\<lambda>a. au_reservationTxId a = rw_reservationTxId row) (td_authorizations db)"
      "db' = db\<lparr>td_authorizations := td_authorizations db @ [new_authorization row mx sub now]\<rparr>"
      "res = Some (new_authorization row mx sub now)"
      using e None by (simp_all split: if_split_asm)
    then show ?thesis using s None by (intro inserted [of mx sub "new_authorization row mx sub now"]) simp_all
  next
    case (Some b)
    then show ?thesis using e by (intro conflict) (simp_all split: if_split_asm)
  qed
qed

lemma insertTurnAuthorization_InrD:
  assumes "insertTurnAuthorization row now db = Inr (db', Some a)"
  obtains (inserted) mx sub where "stored_numeric (rw_authorizedMaxManna row) = Some mx"
      "stored_numeric (rw_reservedSubscriptionManna row) = Some sub" "0 < mx" "0 \<le> sub" "sub \<le> mx"
      "authorization_of (rw_turnId row) db = None"
      "\<not> list_ex (\<lambda>a. au_reservationTxId a = rw_reservationTxId row) (td_authorizations db)"
      "a = new_authorization row mx sub now" "db' = db\<lparr>td_authorizations := td_authorizations db @ [a]\<rparr>"
  | (existing) "db' = db" "authorization_of (rw_turnId row) db = Some a" "au_state a = Reserved"
      "js_eq (numericToNumber (au_authorizedMaxManna a)) (rw_authorizedMaxManna row)"
      "au_accountId a = rw_accountId row"
proof -
  obtain db1 res where i: "insert_authorization row now db = Inr (db1, res)"
    and c: "(case res of Some x \<Rightarrow> Inr (db1, Some x) | None \<Rightarrow>
       (case authorization_of (rw_turnId row) db1 of
          None \<Rightarrow> Inr (db1, None)
        | Some existing \<Rightarrow>
            if au_state existing \<noteq> Reserved then Inr (db1, None)
            else if \<not> js_eq (numericToNumber (au_authorizedMaxManna existing)) (rw_authorizedMaxManna row)
            then Inr (db1, None)
            else if au_reservationTxId existing \<noteq> rw_reservationTxId row then Inr (db1, None)
            else if au_accountId existing \<noteq> rw_accountId row then Inr (db1, None)
            else if au_provider existing \<noteq> rw_provider row \<or> au_model existing \<noteq> rw_model row
            then Inr (db1, None)
            else if au_pricingBasis existing \<noteq> rw_pricingBasis row then Inr (db1, None)
            else Inr (db1, Some existing))) = (Inr (db', Some a) :: (turn_error, turn_db \<times> turn_authorization option) res)"
    using assms unfolding insertTurnAuthorization_def ebind_Inr_iff by auto
  from i show thesis
  proof (cases rule: insert_authorization_InrD)
    case (inserted mx sub b)
    have e: "db' = db1" "b = a" using c [unfolded inserted(10)] by simp_all
    show ?thesis by (rule that(1) [OF inserted(1-7)]) (use inserted(8,9) e in simp_all)
  next
    case conflict
    then show ?thesis using c
      by (intro that(2)) (simp_all split: option.split_asm if_split_asm)
  qed
qed

text \<open>What the process holds after its reservation.\<close>

definition holds :: "(string \<Rightarrow> turn_params) \<Rightarrow> turn_db \<Rightarrow> string \<Rightarrow> turn_authorization_ceiling \<Rightarrow> string \<Rightarrow> jsnum \<Rightarrow> bool" where
  "holds plan db t auth key sub \<longleftrightarrow>
     ledgerTurnKey (plan t) = Inr key \<and> whole (ta_manna auth) \<and>
     (\<exists>a. authorization_of t db = Some a \<and> ta_manna auth = numericToNumber (au_authorizedMaxManna a) \<and>
        sub = numericToNumber (au_reservedSubscriptionManna a))"

lemma reserve_step:
  assumes inv: "auth_inv plan db" and p: "tp_turnId p = t" "plan t = p" and key: "ledgerTurnKey p = Inr key"
    and n: "ta_manna auth = JFin (of_int n)" "10000 * n \<le> unit_bound"
    and rs: "reserve_tx fence p key auth now db = Inr (db', debited, sub)"
  shows "auth_inv plan db' \<and> db_le db db' \<and> holds plan db' t auth key sub"
proof -
  obtain db1 a where d: "on_ledger (debit (\<lambda>s. s) (reservation_debit p key auth) now) db = Inr (db1, debited)"
    "lr_alreadyApplied debited \<Longrightarrow> check_replay p auth (lr_transaction debited) (td_ledger db1) = Inr ()"
    "insertTurnAuthorization (reservation_row p auth debited) now db1 = Inr (db', Some a)"
    "sub = numericToNumber (au_reservedSubscriptionManna a)"
    using rs by (auto simp: reserve_tx_def ebind_Inr_iff split: option.splits if_splits)
  obtain s' where s': "debit (\<lambda>s. s) (reservation_debit p key auth) now (td_ledger db) = (s', Inr debited)"
    "db1 = db\<lparr>td_ledger := s'\<rparr>" using on_ledger_InrD [OF d(1)] by auto
  have L: "ledger_inv (td_ledger db)" using inv by (simp add: auth_inv_def)
  have replay: "lr_alreadyApplied debited \<longrightarrow> check_replay p auth (lr_transaction debited) s' = Inr ()"
    using d(2) s'(2) by simp
  note r = reserve_debit [OF s'(1) L n replay]
  have m1: "auth_inv plan db1 \<and> db_le db db1"
    unfolding s'(2)
    by (rule ledger_move [OF inv r(6) plain_growth_extends [OF r(7)]], rule allI, rule plain_growth_refunded [OF r(7)])
  have whole: "whole (ta_manna auth)" by (simp add: whole_def n(1))
  have nb: "\<bar>10000 * n\<bar> \<le> unit_bound" using r(5) n(2) by simp
  from d(3) show ?thesis
  proof (cases rule: insertTurnAuthorization_InrD)
    case (inserted mx sub')
    have mx: "mx = 10000 * n"
      using inserted(1) by (auto simp: reservation_row_def stored_numeric_def n(1) split: if_splits)
    have af: "au_turnId a = t" "au_reservationTxId a = tx_id (lr_transaction debited)" "au_state a = Reserved"
      "au_authorizedMaxManna a = 10000 * n" "au_reservedSubscriptionManna a = sub'" "au_chargedManna a = None"
      using inserted(8) p(1) mx by (simp_all add: new_authorization_def reservation_row_def)
    have ok: "authorization_ok a" using inserted(3-5) af mx n(2) by (simp add: authorization_ok_def)
    have "reservation_ok plan (td_ledger db1) a"
      unfolding reservation_ok_def s'(2) using r(1-4) af p(2) key by (auto simp: given_back_def)
    moreover have "authorization_of (au_turnId a) db1 = None"
      "\<not> list_ex (\<lambda>b. au_reservationTxId b = au_reservationTxId a) (td_authorizations db1)"
      using inserted(6,7) af p(1) by (simp_all add: reservation_row_def)
    ultimately have m2: "auth_inv plan db' \<and> db_le db1 db'"
      unfolding inserted(9) using insert_move m1 ok by blast
    have "authorization_of t db' = Some a"
      using authorization_of_iff [of db' t a] m2 af(1) inserted(9) by (simp add: auth_inv_def)
    moreover have "ta_manna auth = numericToNumber (au_authorizedMaxManna a)"
      unfolding af(4) numericToNumber_def number_of_units_val [OF nb] whole_units [OF nb] n(1) ..
    ultimately have "holds plan db' t auth key sub" using whole key p(2) d(4) by (simp add: holds_def)
    then show ?thesis using m1 m2 db_le_trans by blast
  next
    case existing
    have "authorization_of t db' = Some a" using existing(1,2) p(1) by (simp add: reservation_row_def)
    moreover have "ta_manna auth = numericToNumber (au_authorizedMaxManna a)"
      using existing(4) by (simp add: reservation_row_def js_eq_def)
    ultimately have "holds plan db' t auth key sub" using whole key p(2) d(4) by (simp add: holds_def)
    then show ?thesis using m1 existing(1) by simp
  qed
qed

text \<open>Later transactions leave the process what it holds.\<close>

lemma holds_le:
  assumes "holds plan db t auth key sub" "db_le db db'" "auth_inv plan db'"
  shows "holds plan db' t auth key sub"
proof -
  obtain a where a: "authorization_of t db = Some a" "ta_manna auth = numericToNumber (au_authorizedMaxManna a)"
    "sub = numericToNumber (au_reservedSubscriptionManna a)" using assms(1) by (auto simp: holds_def)
  have m: "a \<in> set (td_authorizations db)" "au_turnId a = t" using authorization_of_in [OF a(1)] by simp_all
  obtain b where b: "b \<in> set (td_authorizations db')" "same_reservation a b"
    using assms(2) m(1) unfolding db_le_def by blast
  have "distinct (map au_turnId (td_authorizations db'))" using assms(3) by (simp add: auth_inv_def)
  then have "authorization_of t db' = Some b" using authorization_of_iff b m(2) by (simp add: same_reservation_def)
  then show ?thesis using assms(1) a(2,3) b(2) by (auto simp: holds_def same_reservation_def)
qed

end
