(* ===== verification/LedgerClients.thy ===== *)
theory LedgerClients
  imports LedgerFrames
begin

text \<open>
  Components that share the ledger. \<open>touches K s s'\<close> is what a client that owns the keys \<open>K\<close> may
  do to the ledger: rows are only appended, the owner of an account stays, and only debits under
  keys of \<open>K\<close> are given back. The locale \<open>ledger_client\<close> is the contract between a client and
  the others; two clients with disjoint keys keep their invariants in any interleaving.
\<close>

section \<open>Owners\<close>

definition keeps_owners :: "ledger \<Rightarrow> ledger \<Rightarrow> bool" where
  "keeps_owners s s' \<longleftrightarrow> (\<forall>i r. manna_row i s = Some r \<longrightarrow>
     (\<exists>r'. manna_row i s' = Some r' \<and> ma_account_id r' = ma_account_id r))"

lemma keeps_owners_refl [simp, intro]: "keeps_owners s s"
  by (simp add: keeps_owners_def)

lemma keeps_owners_trans: "keeps_owners s t \<Longrightarrow> keeps_owners t u \<Longrightarrow> keeps_owners s u"
  unfolding keeps_owners_def by metis

lemma keeps_owners_write:
  assumes "insert_transaction t (update_account i f s) = Inr (s', row)" "keeps_ids f"
  shows "keeps_owners s s'"
  using assms(2) by (auto simp: keeps_owners_def manna_row_insert [OF assms(1)] manna_row_update [OF assms(2)]
      keeps_ids_def)

lemma keeps_owners_create:
  assumes "getOrCreateMannaAccount (\<lambda>x. x) a now s = Inr (s', r)"
  shows "keeps_owners s s'"
  using assms by (cases rule: getOrCreate_id_cases) (auto simp: keeps_owners_def manna_row_def find_append)

lemma debit_owners: "keeps_owners s (fst (debit (\<lambda>x. x) p now s))"
proof (cases "\<exists>s' r. debit_tx (\<lambda>x. x) p now s = Inr (s', r)")
  case True
  then obtain s' r where y: "debit_tx (\<lambda>x. x) p now s = Inr (s', r)" by blast
  then have "keeps_owners s s'"
  proof (cases rule: debit_tx_cases)
    case (locked_replay acc t)
    then show ?thesis by (blast intro: keeps_owners_create)
  next
    case (charge s1 acc)
    from charge(6) obtain x where "dp_amount p = JFin x"
      by (cases "dp_amount p") (auto simp: apply_debit_def numberToNumeric_def)
    from apply_debit_InrD [OF charge(6) this] have "keeps_owners s1 s'"
      by (metis keeps_owners_write keeps_ids_rows(1))
    then show ?thesis using keeps_owners_create [OF charge(2)] keeps_owners_trans by blast
  qed simp
  then show ?thesis using y by (simp add: debit_def split: sum.split)
next
  case False
  then show ?thesis by (auto simp: debit_def split: sum.splits option.splits)
qed

lemma credit_owners: "keeps_owners s (fst (credit (\<lambda>x. x) p now s))"
proof -
  have "keeps_owners s s'" if h: "credit_tx (\<lambda>x. x) p now s = Inr (s', r)" for s' r
  proof -
    consider "s' = s" | s1 acc a t row where "getOrCreateMannaAccount (\<lambda>x. x) (cp_accountId p) now s = Inr (s1, acc)"
      "insert_transaction t (update_account (ma_id acc) (credit_row p a now) s1) = Inr (s', row)"
      using h by (auto simp: credit_tx_def ebind_Inr_iff split: option.splits if_splits)
    then show ?thesis
    proof cases
        case 2
      then show ?thesis
        using keeps_owners_create [OF 2(1)] keeps_owners_write [OF 2(2) keeps_ids_rows(2)] keeps_owners_trans by blast
    qed simp
  qed
  then show ?thesis by (auto simp: credit_def split: sum.splits option.splits prod.splits)
qed

lemma leg_owners:
  assumes "ledger_inv s"
  shows "keeps_owners s (fst (refundLeg (\<lambda>x. x) p now s))"
proof (cases "\<exists>s' r. run_leg (\<lambda>x. x) p (leg_key p) now s = Inr (s', r)")
  case True
  then obtain s' r where y: "run_leg (\<lambda>x. x) p (leg_key p) now s = Inr (s', r)" by blast
  from y assms extends_refl [of s] have "keeps_owners s s'"
  proof (cases rule: run_leg_cases)
    case (applied o' k)
    have mem: "o' \<in> set (manna_transactions s)" using findTransactionByKey_SomeD [OF applied(2)] by simp
    have k: "0 \<le> k" "k \<le> unit_bound" using debit_row_bounds [OF assms mem applied(3)] applied(4,5) by simp_all
    show ?thesis using apply_leg_InrD [OF applied(7) k] keeps_owners_write keeps_ids_rows(3) by metis
  qed simp_all
  then show ?thesis using y by (simp add: refundLeg_def)
next
  case False
  then have "\<exists>e. run_leg (\<lambda>x. x) p (leg_key p) now s = Inl e"
    by (cases "run_leg (\<lambda>x. x) p (leg_key p) now s") auto
  then show ?thesis by (auto simp: refundLeg_def Let_def split: option.splits sum.splits)
qed

lemma ledger_step_owners: "ledger_inv s \<Longrightarrow> keeps_owners s (ledger_step s op)"
proof (cases op)
  case (RefundOp k ty now)
  then show "ledger_inv s \<Longrightarrow> ?thesis" by (simp add: refund_state leg_owners)
next
  case (SettleOp k c rs ty now)
  then show "ledger_inv s \<Longrightarrow> ?thesis" using settle_state [of k c rs ty now s] leg_owners by fastforce
next
  case (ReverseOp k rs ty now)
  then show "ledger_inv s \<Longrightarrow> ?thesis" using reverse_state [of k rs ty now s] leg_owners by fastforce
qed (simp_all add: debit_owners credit_owners)

section \<open>What a client may touch\<close>

definition touches :: "string set \<Rightarrow> ledger \<Rightarrow> ledger \<Rightarrow> bool" where
  "touches K s s' \<longleftrightarrow> ledger_inv s' \<and> extends s s' \<and> keeps_owners s s' \<and>
     (\<forall>t \<in> set (manna_transactions s). tx_idempotency_key t \<notin> Some ` K \<longrightarrow>
        refunded_units (tx_id t) s' = refunded_units (tx_id t) s)"

lemma touches_refl: "ledger_inv s \<Longrightarrow> touches K s s"
  by (simp add: touches_def)

lemma touches_trans: "touches K s t \<Longrightarrow> touches K t u \<Longrightarrow> touches K s u"
  unfolding touches_def using extends_trans keeps_owners_trans extends_rows by metis

lemma touches_mono: "touches K s s' \<Longrightarrow> K \<subseteq> L \<Longrightarrow> touches L s s'"
  unfolding touches_def by blast

lemma step_touches:
  assumes inv: "ledger_inv s" and op: "bounded_op op" and k: "\<And>k. refunded_key op = Some k \<Longrightarrow> k \<in> K"
  shows "touches K s (ledger_step s op)"
proof -
  have "refunded_units (tx_id t) (ledger_step s op) = refunded_units (tx_id t) s"
    if t: "t \<in> set (manna_transactions s)" "tx_idempotency_key t \<notin> Some ` K" for t
  proof (rule ledger_step_frame [OF inv])
    fix k' o' assume h: "refunded_key op = Some k'" "findTransactionByKey k' s = Some o'"
    have o': "o' \<in> set (manna_transactions s)" "tx_idempotency_key o' = Some k'"
      using findTransactionByKey_SomeD [OF h(2)] by simp_all
    have inj: "inj_on tx_id (set (manna_transactions s))"
      using inv by (simp add: ledger_inv_def txs_ok_def distinct_map)
    show "tx_id o' \<noteq> tx_id t" using inj_onD [OF inj _ o'(1) t(1)] o'(2) t(2) k [OF h(1)] by auto
  qed
  then show ?thesis
    using ledger_step_ok [OF inv op] evolves_extends ledger_step_owners [OF inv] by (simp add: touches_def)
qed

section \<open>Clients\<close>

text \<open>
  A client sees the ledger through \<open>ledger_of\<close> and takes over what others committed with \<open>put\<close>.
\<close>

locale ledger_client =
  fixes ledger_of :: "'s \<Rightarrow> ledger"
    and put :: "ledger \<Rightarrow> 's \<Rightarrow> 's"
    and step :: "'s \<Rightarrow> 'e \<Rightarrow> 's"
    and admitted :: "'e \<Rightarrow> bool"
    and inv :: "'s \<Rightarrow> bool"
    and le :: "'s \<Rightarrow> 's \<Rightarrow> bool"
    and keys :: "string set"
  assumes of_put: "ledger_of (put l w) = l"
    and inv_ledger: "inv w \<Longrightarrow> ledger_inv (ledger_of w)"
    and absorbs: "inv w \<Longrightarrow> touches (- keys) (ledger_of w) l \<Longrightarrow> inv (put l w) \<and> le w (put l w)"
    and steps: "inv w \<Longrightarrow> admitted e \<Longrightarrow>
        inv (step w e) \<and> le w (step w e) \<and> touches keys (ledger_of w) (ledger_of (step w e))"
    and le_refl: "le w w"
    and le_trans: "le u v \<Longrightarrow> le v w \<Longrightarrow> le u w"

text \<open>
  Two clients and the rest of the product on one ledger. A client is given by how it sees the
  ledger, how it takes over what others committed, and its step.
\<close>

datatype ('e, 'f) shared_op = FirstOp 'e | SecondOp 'f | OtherOp ledger_op

fun shared_step ::
  "('s \<Rightarrow> ledger) \<Rightarrow> (ledger \<Rightarrow> 's \<Rightarrow> 's) \<Rightarrow> ('s \<Rightarrow> 'e \<Rightarrow> 's) \<Rightarrow>
   ('t \<Rightarrow> ledger) \<Rightarrow> (ledger \<Rightarrow> 't \<Rightarrow> 't) \<Rightarrow> ('t \<Rightarrow> 'f \<Rightarrow> 't) \<Rightarrow>
   's \<times> 't \<Rightarrow> ('e, 'f) shared_op \<Rightarrow> 's \<times> 't" where
  "shared_step of_a put_a step_a of_b put_b step_b (u, v) (FirstOp e) =
     (let u' = step_a u e in (u', put_b (of_a u') v))"
| "shared_step of_a put_a step_a of_b put_b step_b (u, v) (SecondOp f) =
     (let v' = step_b v f in (put_a (of_b v') u, v'))"
| "shared_step of_a put_a step_a of_b put_b step_b (u, v) (OtherOp op) =
     (let l = ledger_step (of_a u) op in (put_a l u, put_b l v))"

fun shared_admitted ::
  "('e \<Rightarrow> bool) \<Rightarrow> string set \<Rightarrow> ('f \<Rightarrow> bool) \<Rightarrow> string set \<Rightarrow> ('e, 'f) shared_op \<Rightarrow> bool" where
  "shared_admitted admitted_a keys_a admitted_b keys_b (FirstOp e) = admitted_a e"
| "shared_admitted admitted_a keys_a admitted_b keys_b (SecondOp f) = admitted_b f"
| "shared_admitted admitted_a keys_a admitted_b keys_b (OtherOp op) = (bounded_op op \<and>
     (case refunded_key op of None \<Rightarrow> True | Some k \<Rightarrow> k \<notin> keys_a \<and> k \<notin> keys_b))"

definition shared_inv ::
  "('s \<Rightarrow> ledger) \<Rightarrow> ('s \<Rightarrow> bool) \<Rightarrow> ('t \<Rightarrow> ledger) \<Rightarrow> ('t \<Rightarrow> bool) \<Rightarrow> 's \<times> 't \<Rightarrow> bool" where
  "shared_inv of_a inv_a of_b inv_b w \<longleftrightarrow>
     inv_a (fst w) \<and> inv_b (snd w) \<and> of_a (fst w) = of_b (snd w)"

definition shared_le :: "('s \<Rightarrow> 's \<Rightarrow> bool) \<Rightarrow> ('t \<Rightarrow> 't \<Rightarrow> bool) \<Rightarrow> 's \<times> 't \<Rightarrow> 's \<times> 't \<Rightarrow> bool" where
  "shared_le le_a le_b w w' \<longleftrightarrow> le_a (fst w) (fst w') \<and> le_b (snd w) (snd w')"

locale two_clients =
  A: ledger_client ledger_of_a put_a step_a admitted_a inv_a le_a keys_a +
  B: ledger_client ledger_of_b put_b step_b admitted_b inv_b le_b keys_b
  for ledger_of_a :: "'s \<Rightarrow> ledger" and put_a and step_a :: "'s \<Rightarrow> 'e \<Rightarrow> 's" and admitted_a and inv_a and le_a
    and keys_a :: "string set"
    and ledger_of_b :: "'t \<Rightarrow> ledger" and put_b and step_b :: "'t \<Rightarrow> 'f \<Rightarrow> 't" and admitted_b and inv_b and le_b
    and keys_b :: "string set" +
  assumes disjoint: "keys_a \<inter> keys_b = {}"
begin

abbreviation (input) both_step where
  "both_step \<equiv> shared_step ledger_of_a put_a step_a ledger_of_b put_b step_b"

abbreviation (input) both_admitted where
  "both_admitted \<equiv> shared_admitted admitted_a keys_a admitted_b keys_b"

abbreviation (input) both_inv where
  "both_inv \<equiv> shared_inv ledger_of_a inv_a ledger_of_b inv_b"

lemma shared_step_ok:
  assumes inv: "both_inv w" and op: "both_admitted e"
  shows "both_inv (both_step w e) \<and> shared_le le_a le_b w (both_step w e)"
proof -
  obtain u v where w: "w = (u, v)" by (cases w)
  have I: "inv_a u" "inv_b v" "ledger_of_a u = ledger_of_b v" using inv by (simp_all add: shared_inv_def w)
  show ?thesis
  proof (cases e)
    case (FirstOp x)
    note a = A.steps [OF I(1), of x]
    have "touches (- keys_b) (ledger_of_b v) (ledger_of_a (step_a u x))"
      using a op FirstOp I(3) disjoint touches_mono [of keys_a _ _ "- keys_b"] by auto
    then show ?thesis using a op FirstOp B.absorbs [OF I(2)]
      by (simp add: shared_inv_def shared_le_def w Let_def B.of_put)
  next
    case (SecondOp x)
    note b = B.steps [OF I(2), of x]
    have "touches (- keys_a) (ledger_of_a u) (ledger_of_b (step_b v x))"
      using b op SecondOp I(3) disjoint touches_mono [of keys_b _ _ "- keys_a"] by auto
    then show ?thesis using b op SecondOp A.absorbs [OF I(1)]
      by (simp add: shared_inv_def shared_le_def w Let_def A.of_put)
  next
    case (OtherOp x)
    have t: "touches (- keys_a \<inter> - keys_b) (ledger_of_a u) (ledger_step (ledger_of_a u) x)"
      using op OtherOp by (intro step_touches A.inv_ledger I(1)) auto
    then have "touches (- keys_a) (ledger_of_a u) (ledger_step (ledger_of_a u) x)"
      "touches (- keys_b) (ledger_of_b v) (ledger_step (ledger_of_a u) x)"
      using touches_mono [OF t] I(3) by auto
    then show ?thesis using A.absorbs [OF I(1)] B.absorbs [OF I(2)] OtherOp
      by (simp add: shared_inv_def shared_le_def w Let_def A.of_put B.of_put)
  qed
qed

sublocale both: progressing_machine both_step both_admitted both_inv "shared_le le_a le_b"
proof unfold_locales
  show "shared_le le_a le_b s s" for s by (simp add: shared_le_def A.le_refl B.le_refl)
  show "shared_le le_a le_b s t \<Longrightarrow> shared_le le_a le_b t u \<Longrightarrow> shared_le le_a le_b s u" for s t u
    unfolding shared_le_def using A.le_trans B.le_trans by blast
qed (simp_all add: shared_step_ok)

end

end
