(* ===== verification/TurnMachine.thy ===== *)
theory TurnMachine
  imports TurnReserve LedgerClients
begin

text \<open>
  The remaining transactions on a turn, and the machine of all of them: any interleaving of
  reservations, provider starts, outputs, settlements, reversals, the reaper and the other
  debits and credits of the ledger.
\<close>

section \<open>Provider start and usable output\<close>

text \<open>What the other transactions may do between two steps of one call.\<close>

definition good_env :: "(string \<Rightarrow> turn_params) \<Rightarrow> (turn_db \<Rightarrow> turn_db) \<Rightarrow> bool" where
  "good_env plan env \<longleftrightarrow> (\<forall>db. auth_inv plan db \<longrightarrow> auth_inv plan (env db) \<and> db_le db (env db))"

lemma good_env_id [simp]: "good_env plan (\<lambda>x. x)"
  by (simp add: good_env_def)

lemma good_envD: "good_env plan env \<Longrightarrow> auth_inv plan db \<Longrightarrow> auth_inv plan (env db) \<and> db_le db (env db)"
  by (simp add: good_env_def)

lemma claim_cases:
  assumes "claimTurnProviderAdmissionInTransaction env fence t ev now db = Inr (db', ok)"
  shows "\<not> ok \<and> (db' = db \<or> db' = env db) \<or> (ok \<and> run_of t (env db) = None \<and>
    (\<exists>u. db' = (env db)\<lparr>td_runs := td_runs (env db) @
         [\<lparr>pr_turnId = t, pr_providerStartedAt = now, pr_usableOutputAt = None\<rparr>], td_usage := u\<rparr>))"
proof (cases "authorization_of t db")
  case None
  then show ?thesis using assms by (simp add: claimTurnProviderAdmissionInTransaction_def)
next
  case (Some c)
  define D where "D = env db"
  note e = assms [unfolded claimTurnProviderAdmissionInTransaction_def Some option.case Let_def, folded D_def]
  show ?thesis
  proof (cases "find (\<lambda>a. au_turnId a = t \<and> au_state a = Reserved) (td_authorizations D)")
    case None
    then show ?thesis using e by (simp add: ebind_Inr_iff D_def split: if_split_asm)
  next
    case (Some a)
    then show ?thesis using e
      unfolding D_def [symmetric] by (simp add: ebind_Inr_iff split: if_split_asm) blast
  qed
qed

lemma claim_step:
  assumes "claimTurnProviderAdmissionInTransaction env fence t ev now db = Inr (db', ok)"
    and inv: "auth_inv plan db" and env: "good_env plan env"
  shows "auth_inv plan db' \<and> db_le db db'"
proof -
  note e = good_envD [OF env inv]
  consider (same) "db' = db" | (env) "db' = env db"
    | (start) u where "run_of t (env db) = None"
      "db' = (env db)\<lparr>td_runs := td_runs (env db) @
         [\<lparr>pr_turnId = t, pr_providerStartedAt = now, pr_usableOutputAt = None\<rparr>], td_usage := u\<rparr>"
    using claim_cases [OF assms(1)] by blast
  then show ?thesis
  proof cases
    case start
    define r where "r = \<lparr>pr_turnId = t, pr_providerStartedAt = now, pr_usableOutputAt = None\<rparr>"
    define D where "D = env db"
    have D: "auth_inv plan D" "db_le db D" "run_of t D = None" using e start(1) by (simp_all add: D_def)
    have db': "db' = D\<lparr>td_runs := td_runs D @ [r], td_usage := u\<rparr>" using start(2) by (simp add: D_def r_def)
    have "runs_ok D" using D(1) by (simp add: auth_inv_def)
    then have "runs_ok db'"
      using D(3) unfolding runs_ok_def db' run_of_none by (auto simp: r_def)
    then have "auth_inv plan db'" using D(1) by (simp add: auth_inv_def db')
    moreover have "db_le D db'" using db_le_refl [of D] unfolding db_le_def db' by auto
    ultimately show ?thesis using D(2) db_le_trans by blast
  qed (use inv e in simp_all)
qed

lemma output_step:
  assumes r: "run_of t db = Some r" "pr_usableOutputAt r = None" and m: "mark_output t r now db = Inr db'"
    and inv: "auth_inv plan db"
  shows "auth_inv plan db' \<and> db_le db db'"
proof -
  obtain a where a: "authorization_of t db = Some a" "au_state a = Reserved"
    and db': "db' = db\<lparr>td_runs := map (\<lambda>q. if pr_turnId q = t
                  then q\<lparr>pr_usableOutputAt := Some now\<rparr> else q) (td_runs db)\<rparr>"
    using m by (auto simp: mark_output_def split: option.split_asm if_split_asm)
  have ma: "a \<in> set (td_authorizations db)" "au_turnId a = t" using authorization_of_in [OF a(1)] by simp_all
  define g where "g = (\<lambda>q :: provider_run. if pr_turnId q = t then q\<lparr>pr_usableOutputAt := Some now\<rparr> else q)"
  have ids: "pr_turnId (g q) = pr_turnId q" for q by (simp add: g_def)
  have R: "distinct (map pr_turnId (td_runs db))" "runs_ok db"
    using inv by (simp_all add: auth_inv_def runs_ok_def)
  have uniq: "q = r" if "q \<in> set (td_runs db)" "pr_turnId q = t" for q
    using find_unique [OF R(1) that(1)] that(2) r(1) by (simp add: run_of_def)
  have keep: "g q = q" if "q \<in> set (td_runs db)" "pr_usableOutputAt q \<noteq> None" for q
    using uniq [OF that(1)] that(2) r(2) by (auto simp: g_def)
  have D: "td_runs db' = map g (td_runs db)" "td_authorizations db' = td_authorizations db" "td_ledger db' = td_ledger db"
    by (simp_all add: db' g_def)
  have "\<exists>b \<in> set (td_authorizations db). au_turnId b = pr_turnId (g q) \<and> (au_state b = Reserved \<or> au_state b = Settled)"
    if q: "q \<in> set (td_runs db)" "pr_usableOutputAt (g q) \<noteq> None" for q
  proof (cases "pr_turnId q = t")
    case True
    then show ?thesis using ma a(2) by (intro bexI [of _ a]) (simp_all add: ids)
  next
    case False
    then have "g q = q" by (simp add: g_def)
    then show ?thesis using R(2) q unfolding runs_ok_def by metis
  qed
  then have "runs_ok db'" using R(1) by (simp add: runs_ok_def D ids comp_def)
  then have "auth_inv plan db'" using inv by (simp add: auth_inv_def D)
  moreover have "\<exists>p \<in> set (map g (td_runs db)). pr_turnId p = pr_turnId q \<and> (pr_usableOutputAt q \<noteq> None \<longrightarrow> p = q)"
    if "q \<in> set (td_runs db)" for q
    using that keep ids by (intro bexI [of _ "g q"]) simp_all
  then have "db_le db db'" using db_le_refl [of db] unfolding db_le_def D by blast
  ultimately show ?thesis by simp
qed

section \<open>Settling a partial output\<close>

lemma record_partial_core: "record_partial_usage ev c m v a db = Inr db' \<Longrightarrow> same_core db db'"
  by (auto simp: record_partial_usage_def same_core_def split: option.split_asm if_split_asm list.split_asm)

lemma recordUsageEvent_core: "recordUsageEvent p m o' strict db = Inr db' \<Longrightarrow> same_core db db'"
  by (auto simp: recordUsageEvent_def same_core_def split: option.split_asm if_split_asm list.split_asm)

lemma record_refusal_core: "same_core db (record_refusal describe p auth e db)"
  by (simp add: record_refusal_def same_core_def)

lemma core_after:
  assumes "auth_inv plan db1 \<and> db_le db db1" "same_core db1 db2"
  shows "auth_inv plan db2 \<and> db_le db db2"
  using core_move [OF assms(2)] assms(1) db_le_trans by blast

lemma partial_step:
  assumes "settle_partial_tx fence t code msg now db = Inr (db', r)" and inv: "auth_inv plan db"
  shows "auth_inv plan db' \<and> db_le db db'"
proof -
  consider (same) "db' = db"
    | (settled) a mt key ty ev db1 db2 leg where "authorization_of t db = Some a"
      "transaction_of (au_reservationTxId a) db = Some mt" "truthy_key (tx_idempotency_key mt) = Some key"
      "markTurnSettled t (numericToNumber (au_authorizedMaxManna a)) False now db = Inr db1"
      "on_ledger (settleReservation key (numericToNumber (au_authorizedMaxManna a))
         (numericToNumber (au_reservedSubscriptionManna a)) ty now) db1 = Inr (db2, leg)"
      "record_partial_usage ev code msg (numericToNumber (au_authorizedMaxManna a)) a db2 = Inr db'"
    using assms(1)
    by (auto simp: settle_partial_tx_def ebind_Inr_iff Let_def split: option.split_asm if_split_asm)
  then show ?thesis
  proof cases
    case (settled a mt key ty ev db1 db2 leg)
    obtain tx k where tx: "transaction_of (au_reservationTxId a) db = Some tx"
      "tx_idempotency_key tx = Some k" "ledgerTurnKey (plan t) = Inr k" "authorization_ok a"
      by (rule turn_debit [OF inv settled(1)]) (rule that)
    have k: "ledgerTurnKey (plan t) = Inr key"
      using settled(2,3) tx by (auto simp: truthy_key_def split: if_split_asm)
    have ex: "exact_units (numericToNumber (au_authorizedMaxManna a))"
      using tx(4) by (intro exact_number) (simp add: authorization_ok_def)
    have "auth_inv plan db2 \<and> db_le db db2"
      by (rule settle_step [OF inv settled(4) ex settled(5) k]) (simp add: settled(1))
    then show ?thesis using record_partial_core [OF settled(6)] by (rule core_after)
  qed (use inv in simp)
qed

section \<open>Terminal success\<close>

lemma terminal_step:
  assumes "terminal_tx fence hook p key sub auth metering message now db = Inr (db', r)"
    and inv: "auth_inv plan db" and h: "holds plan db (tp_turnId p) auth key sub"
    and m: "\<And>v. metered_manna metering = Some v \<Longrightarrow> whole v"
  shows "auth_inv plan db' \<and> db_le db db'"
proof -
  define v where "v = fst (settle_charge (metered_manna metering) (ta_manna auth))"
  obtain ov db1 db2 leg ty where t: "markTurnSettled (tp_turnId p) v ov now db = Inr db1"
    "on_ledger (settleReservation key v sub ty now) db1 = Inr (db2, leg)"
    "recordUsageEvent p metering \<lparr>uo_status = metering_status metering, uo_messageId = Some (mr_id message),
       uo_manna = Some v, uo_errorCode = None, uo_errorMessage = None\<rparr> True
       (db2\<lparr>td_messages := td_messages db2 @ [message]\<rparr>) = Inr db'"
    using assms(1) by (auto simp: terminal_tx_def ebind_Inr_iff Let_def v_def split: prod.split_asm)
  have "whole v"
    using m h by (auto simp: v_def settle_charge_def holds_def intro: whole_min split: option.split)
  then have ex: "exact_units v" by (rule whole_exact)
  have key: "ledgerTurnKey (plan (tp_turnId p)) = Inr key" using h by (simp add: holds_def)
  have "auth_inv plan db2 \<and> db_le db db2"
    by (rule settle_step [OF inv t(1) ex t(2) key]) (use h in \<open>auto simp: holds_def\<close>)
  moreover have "same_core db2 db'"
    using recordUsageEvent_core [OF t(3)] by (simp add: same_core_def)
  ultimately show ?thesis by (rule core_after)
qed

section \<open>Other ledger operations\<close>

definition turn_keys :: "(string \<Rightarrow> turn_params) \<Rightarrow> string set" where
  "turn_keys plan = {k. \<exists>t. ledgerTurnKey (plan t) = Inr k}"

text \<open>What the rest of the product does to the ledger, as long as no debit of a turn is given back.\<close>

lemma turns_absorb:
  assumes inv: "auth_inv plan db" and s: "touches (- turn_keys plan) (td_ledger db) s'"
  shows "auth_inv plan (db\<lparr>td_ledger := s'\<rparr>) \<and> db_le db (db\<lparr>td_ledger := s'\<rparr>)"
proof -
  have S: "ledger_inv s'" "extends (td_ledger db) s'" using s by (simp_all add: touches_def)
  have "reservation_ok plan s' a" if a: "reservation_ok plan (td_ledger db) a" for a
  proof (rule reservation_ok_grow [OF a S(2)])
    obtain t key where t: "t \<in> set (manna_transactions (td_ledger db))" "tx_id t = au_reservationTxId a"
      "tx_idempotency_key t = Some key" "ledgerTurnKey (plan (au_turnId a)) = Inr key"
      using a unfolding reservation_ok_def by blast
    then have "tx_idempotency_key t \<notin> Some ` (- turn_keys plan)" by (auto simp: turn_keys_def)
    then show "refunded_units (au_reservationTxId a) s' = refunded_units (au_reservationTxId a) (td_ledger db)"
      using s t(1,2) unfolding touches_def by metis
  qed
  then have "auth_inv plan (db\<lparr>td_ledger := s'\<rparr>)" using inv S(1) by (simp add: auth_inv_def runs_ok_def)
  moreover have "db_le db (db\<lparr>td_ledger := s'\<rparr>)"
    using db_le_refl [of db, unfolded db_le_def] S(2) unfolding db_le_def by simp
  ultimately show ?thesis by simp
qed

text \<open>An operation of another part of the product: it refunds no debit of a turn.\<close>

definition foreign_op :: "(string \<Rightarrow> turn_params) \<Rightarrow> ledger_op \<Rightarrow> bool" where
  "foreign_op plan op \<longleftrightarrow> bounded_op op \<and>
     (case refunded_key op of None \<Rightarrow> True | Some k \<Rightarrow> \<forall>t. ledgerTurnKey (plan t) \<noteq> Inr k)"

lemma foreign_move:
  assumes inv: "auth_inv plan db" and op: "foreign_op plan op"
  shows "auth_inv plan (db\<lparr>td_ledger := ledger_step (td_ledger db) op\<rparr>) \<and>
    db_le db (db\<lparr>td_ledger := ledger_step (td_ledger db) op\<rparr>)"
  by (rule turns_absorb [OF inv], rule step_touches)
    (use inv op in \<open>auto simp: auth_inv_def foreign_op_def turn_keys_def\<close>)

section \<open>The machine\<close>

text \<open>
  \<open>tw_held\<close> is what the process of a turn keeps between its reservation and its end: the
  authorization, the ledger key and the subscription share.
\<close>

record turn_world =
  tw_db :: turn_db
  tw_held :: "string \<Rightarrow> (turn_authorization_ceiling \<times> string \<times> jsnum) option"

datatype turn_op =
    ReserveOp string fence int
  | ClaimOp string fence int
  | OutputOp string fence int
  | FinishOp string fence fence "gateway_usage option" "string option" message_row int int
  | PartialOp string fence string string int
  | ReturnOp string fence string "reverse_state option" int
  | RefusalOp string "turn_error \<Rightarrow> string" turn_authorization_ceiling turn_error
  | LedgerOp ledger_op

fun turn_step :: "(string \<Rightarrow> turn_params) \<Rightarrow> turn_world \<Rightarrow> turn_op \<Rightarrow> turn_world" where
  "turn_step plan w (ReserveOp t fence now) =
     (case (ledgerTurnKey (plan t), resolveTurnAuthorization (Some (tp_meteringModel (plan t))) now) of
        (Inr key, Inr auth) \<Rightarrow>
          (case reserveAuthorization fence (plan t) key auth now (tw_db w) of
             (db, Inl e) \<Rightarrow> w\<lparr>tw_db := db\<rparr>
           | (db, Inr (debited, sub)) \<Rightarrow> w\<lparr>tw_db := db, tw_held := (tw_held w)(t \<mapsto> (auth, key, sub))\<rparr>)
      | _ \<Rightarrow> w)"
| "turn_step plan w (ClaimOp t fence now) =
     w\<lparr>tw_db := fst (claimTurnProviderStart (\<lambda>x. x) fence t (usageEventType (plan t)) now (tw_db w))\<rparr>"
| "turn_step plan w (OutputOp t fence now) = w\<lparr>tw_db := fst (markTurnUsableOutput fence t now (tw_db w))\<rparr>"
| "turn_step plan w (FinishOp t fence hook usage model message fundedAt now) =
     (case tw_held w t of
        None \<Rightarrow> w
      | Some (auth, key, sub) \<Rightarrow>
          w\<lparr>tw_db := fst (terminal_success fence hook (plan t) key sub auth
             (meterChatUsage usage model fundedAt) message now (tw_db w))\<rparr>)"
| "turn_step plan w (PartialOp t fence code msg now) =
     w\<lparr>tw_db := fst (settlePartialOutputAuthorization fence t code msg now (tw_db w))\<rparr>"
| "turn_step plan w (ReturnOp t fence ty ts now) =
     w\<lparr>tw_db := fst (reverseTurnAuthorization fence t ty ts now (tw_db w))\<rparr>"
| "turn_step plan w (RefusalOp t describe auth e) = w\<lparr>tw_db := record_refusal describe (plan t) auth e (tw_db w)\<rparr>"
| "turn_step plan w (LedgerOp op) = w\<lparr>tw_db := (tw_db w)\<lparr>td_ledger := ledger_step (td_ledger (tw_db w)) op\<rparr>\<rparr>"

fun turn_admitted :: "(string \<Rightarrow> turn_params) \<Rightarrow> turn_op \<Rightarrow> bool" where
  "turn_admitted plan (ReserveOp t fence now) = (tp_turnId (plan t) = t)"
| "turn_admitted plan (FinishOp t fence hook usage model message fundedAt now) = (tp_turnId (plan t) = t)"
| "turn_admitted plan (LedgerOp op) = foreign_op plan op"
| "turn_admitted plan op = True"

definition world_inv :: "(string \<Rightarrow> turn_params) \<Rightarrow> turn_world \<Rightarrow> bool" where
  "world_inv plan w \<longleftrightarrow> auth_inv plan (tw_db w) \<and>
     (\<forall>t auth key sub. tw_held w t = Some (auth, key, sub) \<longrightarrow> holds plan (tw_db w) t auth key sub)"

definition world_le :: "turn_world \<Rightarrow> turn_world \<Rightarrow> bool" where
  "world_le w w' \<longleftrightarrow> db_le (tw_db w) (tw_db w')"

lemma transaction_step:
  assumes "auth_inv plan db" "\<And>db' r. body db = Inr (db', r) \<Longrightarrow> auth_inv plan db' \<and> db_le db db'"
  shows "auth_inv plan (fst (transaction body db)) \<and> db_le db (fst (transaction body db))"
  using assms by (auto simp: transaction_def split: sum.split)

lemma db_moves:
  assumes "world_inv plan w" "auth_inv plan db" "db_le (tw_db w) db"
  shows "world_inv plan (w\<lparr>tw_db := db\<rparr>) \<and> world_le w (w\<lparr>tw_db := db\<rparr>)"
  using assms holds_le unfolding world_inv_def world_le_def by simp blast

lemma output_tx_step:
  assumes "auth_inv plan db"
  shows "auth_inv plan (fst (markTurnUsableOutput fence t now db)) \<and> db_le db (fst (markTurnUsableOutput fence t now db))"
  unfolding markTurnUsableOutput_def
  by (rule transaction_step [OF assms])
    (use assms output_step in \<open>auto simp: ebind_Inr_iff split: option.split_asm if_split_asm\<close>)

lemma turn_step_ok:
  assumes w: "world_inv plan w" and op: "turn_admitted plan op"
  shows "world_inv plan (turn_step plan w op) \<and> world_le w (turn_step plan w op)"
proof -
  have inv: "auth_inv plan (tw_db w)" using w by (simp add: world_inv_def)
  have stay: "world_inv plan w \<and> world_le w w" using w by (simp add: world_le_def)
  note moves = db_moves [OF w]
  show ?thesis
  proof (cases op)
    case (ReserveOp t fence now)
    consider "turn_step plan w op = w"
      | key auth where "ledgerTurnKey (plan t) = Inr key"
        "resolveTurnAuthorization (Some (tp_meteringModel (plan t))) now = Inr auth"
      unfolding ReserveOp by (cases "ledgerTurnKey (plan t)";
        cases "resolveTurnAuthorization (Some (tp_meteringModel (plan t))) now") simp_all
    then show ?thesis
    proof cases
      case (2 key auth)
      obtain n where n: "ta_manna auth = JFin (of_int n)" "10000 * n \<le> unit_bound" by (rule authorized_units [OF 2(2)])
      have t: "tp_turnId (plan t) = t" using op ReserveOp by simp
      show ?thesis
      proof (cases "reserve_tx fence (plan t) key auth now (tw_db w)")
        case (Inl e)
        then show ?thesis unfolding ReserveOp
          by (simp add: 2 reserveAuthorization_def transaction_def stay)
      next
        case (Inr y)
        obtain db debited sub where y: "y = (db, debited, sub)" by (cases y)
        note r = reserve_step [OF inv t refl 2(1) n Inr [unfolded y]]
        have "world_inv plan (w\<lparr>tw_db := db\<rparr>)" using moves r by blast
        then have "world_inv plan (w\<lparr>tw_db := db, tw_held := (tw_held w)(t \<mapsto> (auth, key, sub))\<rparr>)"
          using r by (simp add: world_inv_def)
        then show ?thesis using r unfolding ReserveOp
          by (simp add: 2 reserveAuthorization_def transaction_def Inr y world_le_def)
      qed
    qed (use stay in simp)
  next
    case (ClaimOp t fence now)
    show ?thesis unfolding ClaimOp turn_step.simps claimTurnProviderStart_def
      by (rule moves) (use transaction_step [OF inv] claim_step [OF _ inv good_env_id] in blast)+
  next
    case (OutputOp t fence now)
    show ?thesis unfolding OutputOp turn_step.simps by (rule moves) (use output_tx_step [OF inv] in blast)+
  next
    case (FinishOp t fence hook usage model message fundedAt now)
    show ?thesis
    proof (cases "tw_held w t")
      case (Some h)
      obtain auth key sub where h: "h = (auth, key, sub)" by (cases h)
      have H: "holds plan (tw_db w) (tp_turnId (plan t)) auth key sub"
        using w Some op unfolding h FinishOp by (simp add: world_inv_def)
      define body where
        "body = terminal_tx fence hook (plan t) key sub auth (meterChatUsage usage model fundedAt) message now"
      have "auth_inv plan db' \<and> db_le (tw_db w) db'" if "body (tw_db w) = Inr (db', r)" for db' r
        by (rule terminal_step [OF that [unfolded body_def] inv H]) (rule metered_whole)
      then have "auth_inv plan (fst (transaction body (tw_db w))) \<and> db_le (tw_db w) (fst (transaction body (tw_db w)))"
        by (rule transaction_step [OF inv])
      then show ?thesis
        unfolding FinishOp turn_step.simps Some h option.case prod.case terminal_success_def body_def [symmetric]
        by (intro moves) simp_all
    qed (use stay FinishOp in simp)
  next
    case (PartialOp t fence code msg now)
    show ?thesis unfolding PartialOp turn_step.simps settlePartialOutputAuthorization_def
      by (rule moves) (use transaction_step [OF inv] partial_step [OF _ inv] in blast)+
  next
    case (ReturnOp t fence ty ts now)
    show ?thesis unfolding ReturnOp turn_step.simps reverseTurnAuthorization_def
      by (rule moves) (use transaction_step [OF inv] reverse_step [OF _ inv] in blast)+
  next
    case (RefusalOp t describe auth e)
    show ?thesis unfolding RefusalOp turn_step.simps
      by (rule moves) (use core_move [OF record_refusal_core inv] in blast)+
  next
    case (LedgerOp op)
    show ?thesis unfolding LedgerOp turn_step.simps
      by (rule moves) (use foreign_move [OF inv] assms(2) LedgerOp in simp_all)
  qed
qed

interpretation tm: progressing_machine "turn_step plan" "turn_admitted plan" "world_inv plan" world_le for plan
  by unfold_locales (simp_all add: turn_step_ok, auto simp: world_le_def intro: db_le_trans)

end
