(* ===== verification/TurnOutcomes.thy ===== *)
theory TurnOutcomes
  imports TurnMachine
begin

text \<open>
  What each call on a turn does to the authorization rows, branch by branch: the row of the
  turn, and nothing of any other turn.
\<close>

section \<open>Rows after an update\<close>

lemma authorization_of_update:
  assumes "\<And>a. au_turnId (f a) = au_turnId a"
  shows "authorization_of u (update_reserved t f db) =
    (if u = t then map_option (\<lambda>a. if au_state a = Reserved then f a else a) (authorization_of t db)
     else authorization_of u db)"
proof -
  define g where "g = (\<lambda>a. if au_turnId a = t \<and> au_state a = Reserved then f a else a)"
  have "find (\<lambda>a. au_turnId a = u) (map g xs) = map_option g (find (\<lambda>a. au_turnId a = u) xs)" for xs
    using assms by (induction xs) (simp_all add: g_def)
  moreover have "map_option g (find (\<lambda>a. au_turnId a = u) xs) =
      map_option (\<lambda>a. if u = t \<and> au_state a = Reserved then f a else a) (find (\<lambda>a. au_turnId a = u) xs)" for xs
    by (rule option.map_cong0) (auto simp: g_def dest!: find_SomeD split: option.splits)
  ultimately show ?thesis
    by (auto simp: authorization_of_def update_reserved_def g_def [symmetric] option.map_ident)
qed

definition state_of :: "string \<Rightarrow> turn_db \<Rightarrow> auth_state option" where
  "state_of t db = map_option au_state (authorization_of t db)"

text \<open>A call that leaves every row but that of \<open>t\<close>.\<close>

definition only_row :: "string \<Rightarrow> turn_db \<Rightarrow> turn_db \<Rightarrow> bool" where
  "only_row t db db' \<longleftrightarrow> (\<forall>u. u \<noteq> t \<longrightarrow> authorization_of u db' = authorization_of u db)"

lemma only_row_refl [simp]: "only_row t db db"
  by (simp add: only_row_def)

lemma updated_row:
  assumes "td_authorizations db' = td_authorizations (update_reserved t f db)"
    "\<And>a. au_turnId (f a) = au_turnId a" "authorization_of t db = Some a" "au_state a = Reserved"
  shows "authorization_of t db' = Some (f a)" "only_row t db db'"
proof -
  have "authorization_of u db' = authorization_of u (update_reserved t f db)" for u
    by (simp add: authorization_of_def assms(1))
  then show "authorization_of t db' = Some (f a)" "only_row t db db'"
    using authorization_of_update [OF assms(2)] assms(3,4) by (simp_all add: only_row_def)
qed

section \<open>Settlements and reversals\<close>

lemma partial_cases:
  assumes "settle_partial_tx fence t code msg now db = Inr (db', r)" "auth_inv plan db"
    "authorization_of t db = Some a" "au_state a = Reserved"
  obtains (not) "db' = db" "\<not> ps_settled r" "\<not> ps_eligible r"
  | (settled) "ps_settled r" "ps_eligible r" "only_row t db db'"
      "authorization_of t db' = Some (a\<lparr>au_state := Settled, au_chargedManna := Some (au_authorizedMaxManna a),
         au_overrun := False, au_updatedAt := now\<rparr>)"
proof -
  consider "db' = db" "r = partial_none False"
    | key ty ev db1 db2 leg bal where
      "markTurnSettled t (numericToNumber (au_authorizedMaxManna a)) False now db = Inr db1"
      "on_ledger (settleReservation key (numericToNumber (au_authorizedMaxManna a))
         (numericToNumber (au_reservedSubscriptionManna a)) ty now) db1 = Inr (db2, leg)"
      "record_partial_usage ev code msg (numericToNumber (au_authorizedMaxManna a)) a db2 = Inr db'"
      "r = \<lparr>ps_settled = True, ps_eligible = True, ps_balanceTotal = bal, ps_chargedManna =
         Some (numericToNumber (au_authorizedMaxManna a))\<rparr>"
    using assms(1,3,4)
    by (auto simp: settle_partial_tx_def ebind_Inr_iff Let_def split: option.split_asm if_split_asm)
  then show thesis
  proof cases
    case (2 key ty ev db1 db2 leg bal)
    have d: "distinct (map au_turnId (td_authorizations db))" using assms(2) by (simp add: auth_inv_def)
    obtain b c where c: "authorization_of t db = Some b" "stored_numeric (numericToNumber (au_authorizedMaxManna a)) = Some c"
      "db1 = update_reserved t (\<lambda>a. a\<lparr>au_state := Settled, au_chargedManna := Some c,
                           au_overrun := False, au_updatedAt := now\<rparr>) db"
      by (rule markTurnSettled_InrD [OF 2(1) d]) (rule that)
    have ok: "authorization_ok a" by (rule turn_debit [OF assms(2,3)])
    then have "c = au_authorizedMaxManna a"
      using c(2) by (auto simp: row_numbers stored_numeric_def authorization_ok_def split: if_split_asm)
    moreover have "td_authorizations db' = td_authorizations db1"
      using record_partial_core [OF 2(3)] on_ledger_InrD [OF 2(2)] by (auto simp: same_core_def)
    ultimately have e: "td_authorizations db' = td_authorizations (update_reserved t
        (\<lambda>b. b\<lparr>au_state := Settled, au_chargedManna := Some (au_authorizedMaxManna a),
          au_overrun := False, au_updatedAt := now\<rparr>) db)"
      using c(3) by simp
    show thesis
      by (rule settled) (use updated_row [OF e _ assms(3,4)] 2(4) in simp_all)
  qed (rule not, simp_all add: partial_none_def)
qed

lemma reverse_cases:
  assumes "reverse_tx fence t ty ts now db = Inr (db', r)" "authorization_of t db = Some a" "au_state a = Reserved"
  obtains (not) "db' = db" "\<not> rs_reversed r"
  | (reversed) "rs_reversed r" "\<not> rs_partialOutputRequired r" "only_row t db db'"
      "authorization_of t db' = Some (a\<lparr>au_state := (case ts of Some ToReaped \<Rightarrow> Reaped | _ \<Rightarrow> Reversed),
         au_updatedAt := now\<rparr>)"
proof -
  consider "db' = db" "\<not> rs_reversed r"
    | key db1 leg where
      "on_ledger (reverseReservation key (Some (numericToNumber (au_reservedSubscriptionManna a))) (Some ty) now) db
        = Inr (db1, leg)"
      "db' = update_reserved t (\<lambda>a. a\<lparr>au_state := (case ts of Some ToReaped \<Rightarrow> Reaped | _ \<Rightarrow> Reversed),
         au_updatedAt := now\<rparr>) db1" "rs_reversed r" "\<not> rs_partialOutputRequired r"
    using assms by (auto simp: reverse_tx_def ebind_Inr_iff reverse_none_def split: option.split_asm if_split_asm)
  then show thesis
  proof cases
    case (2 key db1 leg)
    have "td_authorizations db1 = td_authorizations db" using on_ledger_InrD [OF 2(1)] by auto
    then have e: "td_authorizations db' = td_authorizations (update_reserved t
        (\<lambda>a. a\<lparr>au_state := (case ts of Some ToReaped \<Rightarrow> Reaped | _ \<Rightarrow> Reversed), au_updatedAt := now\<rparr>) db)"
      using 2(2) by (simp add: update_reserved_def)
    show thesis
      by (rule reversed) (use updated_row [OF e _ assms(2,3)] 2(3,4) in simp_all)
  qed (rule not)
qed

section \<open>The reaper\<close>

lemma reap_turn_effect:
  assumes reap: "reap_turn (\<lambda>x. x) ty now t db = (db', n, m)" and inv: "auth_inv plan db"
    and res: "state_of t db = Some Reserved"
  shows "auth_inv plan db' \<and> only_row t db db' \<and>
    (n = 1 \<and> m = 0 \<and> state_of t db' = Some Reaped \<or> n = 0 \<and> m = 1 \<and> state_of t db' = Some Settled \<or>
     n = 0 \<and> m = 0 \<and> db' = db)"
proof -
  obtain a where a: "authorization_of t db = Some a" "au_state a = Reserved"
    using res by (auto simp: state_of_def)
  show ?thesis
  proof (cases "settle_partial_tx no_fence t REAP_CODE REAP_MESSAGE now db")
    case (Inl e)
    then show ?thesis using reap inv
      by (simp add: reap_turn_def settlePartialOutputAuthorization_def transaction_def)
  next
    case (Inr y)
    then obtain db1 r where s: "settle_partial_tx no_fence t REAP_CODE REAP_MESSAGE now db = Inr (db1, r)" by (cases y) auto
    from s inv a show ?thesis
    proof (cases rule: partial_cases)
      case settled
      then have "db' = db1" "n = 0" "m = 1"
        using reap s by (simp_all add: reap_turn_def settlePartialOutputAuthorization_def transaction_def)
      then show ?thesis using settled partial_step [OF s inv] by (simp add: state_of_def)
    next
      case not
      show ?thesis
      proof (cases "reverse_tx no_fence t ty (Some ToReaped) now db")
        case (Inl e)
        then show ?thesis using reap s not inv
          by (simp add: reap_turn_def settlePartialOutputAuthorization_def reverseTurnAuthorization_def transaction_def)
      next
        case (Inr z)
        then obtain db2 q where v: "reverse_tx no_fence t ty (Some ToReaped) now db = Inr (db2, q)" by (cases z) auto
        from v a show ?thesis
        proof (cases rule: reverse_cases)
          case reversed
          then have "db' = db2" "n = 1" "m = 0" using reap s v not
            by (simp_all add: reap_turn_def settlePartialOutputAuthorization_def reverseTurnAuthorization_def transaction_def)
          then show ?thesis using reversed reverse_step [OF v inv] by (simp add: state_of_def)
        next
          case unchanged: not
          then have "db' = db" "n = 0" "m = 0" using reap s v not
            by (auto simp: reap_turn_def settlePartialOutputAuthorization_def reverseTurnAuthorization_def
                transaction_def split: if_split_asm)
          then show ?thesis using inv by simp
        qed
      qed
    qed
  qed
qed

lemma reap_turns_effect:
  assumes "reap_turns (\<lambda>x. x) ty now ts db = (db', n, m)" "auth_inv plan db" "distinct ts"
    "\<forall>t \<in> set ts. state_of t db = Some Reserved"
  shows "auth_inv plan db' \<and> n = length (filter (\<lambda>t. state_of t db' = Some Reaped) ts) \<and>
    m = length (filter (\<lambda>t. state_of t db' = Some Settled) ts) \<and>
    (\<forall>u. u \<notin> set ts \<longrightarrow> authorization_of u db' = authorization_of u db)"
  using assms
proof (induction ts arbitrary: db db' n m)
  case (Cons t ts)
  obtain db1 i j where one: "reap_turn (\<lambda>x. x) ty now t db = (db1, i, j)" by (cases "reap_turn (\<lambda>x. x) ty now t db")
  obtain db2 i' j' where rest: "reap_turns (\<lambda>x. x) ty now ts db1 = (db2, i', j')"
    by (cases "reap_turns (\<lambda>x. x) ty now ts db1")
  have eqs: "db' = db2" "n = i + i'" "m = j + j'" using Cons.prems(1) one rest by simp_all
  have res: "state_of t db = Some Reserved" using Cons.prems(4) by simp
  note e = reap_turn_effect [OF one Cons.prems(2) res]
  have "\<forall>u \<in> set ts. state_of u db1 = Some Reserved"
  proof
    fix u assume u: "u \<in> set ts"
    then have "authorization_of u db1 = authorization_of u db" using e Cons.prems(3) by (auto simp: only_row_def)
    then show "state_of u db1 = Some Reserved" using Cons.prems(4) u by (simp add: state_of_def)
  qed
  note ih = Cons.IH [OF rest conjunct1 [OF e] _ this]
  have ih: "auth_inv plan db2" "i' = length (filter (\<lambda>t. state_of t db2 = Some Reaped) ts)"
    "j' = length (filter (\<lambda>t. state_of t db2 = Some Settled) ts)"
    "\<forall>u. u \<notin> set ts \<longrightarrow> authorization_of u db2 = authorization_of u db1"
    using ih Cons.prems(3) by simp_all
  have "state_of t db2 = state_of t db1" using ih(4) Cons.prems(3) by (simp add: state_of_def)
  moreover have "\<forall>u. u \<notin> set (t # ts) \<longrightarrow> authorization_of u db2 = authorization_of u db"
    using ih(4) e by (simp add: only_row_def)
  moreover have "i = (if state_of t db1 = Some Reaped then 1 else 0)" "j = (if state_of t db1 = Some Settled then 1 else 0)"
    using e res by auto
  ultimately show ?case using ih(1-3) unfolding eqs by simp
qed simp

lemma stale_reserved:
  assumes "auth_inv plan db" "t \<in> set (stale_turns cutoff scope db)"
  shows "state_of t db = Some Reserved"
proof -
  obtain a where a: "a \<in> set (td_authorizations db)" "au_state a = Reserved" "au_turnId a = t"
    using assms(2) by (auto simp: stale_turns_def dest!: in_set_takeD)
  then have "authorization_of t db = Some a" using authorization_of_iff assms(1) by (auto simp: auth_inv_def)
  then show ?thesis using a(2) by (simp add: state_of_def)
qed

lemma stale_distinct:
  assumes "auth_inv plan db"
  shows "distinct (stale_turns cutoff scope db)"
proof -
  have d: "distinct (map au_turnId (td_authorizations db))" using assms by (simp add: auth_inv_def)
  have f: "distinct (map au_turnId (filter p (td_authorizations db)))" for p
    using d by (simp add: distinct_map_filter)
  have "mset (map au_turnId (sort_key au_createdAt xs)) = mset (map au_turnId xs)"
    for xs :: "turn_authorization list" by simp
  then have "distinct (map au_turnId (sort_key au_createdAt xs)) = distinct (map au_turnId xs)"
    for xs :: "turn_authorization list" by (rule mset_eq_imp_distinct_iff)
  then show ?thesis using f by (simp add: stale_turns_def take_map [symmetric] distinct_take)
qed

section \<open>Claims and funding\<close>

lemma claimed_row:
  assumes "claimTurnProviderAdmissionInTransaction env fence t ev now db = Inr (db', True)"
  shows "run_of t db' \<noteq> None" "\<exists>a \<in> set (td_authorizations db'). au_turnId a = t \<and> au_state a = Reserved"
proof -
  from claim_cases [OF assms] have "t \<in> pr_turnId ` set (td_runs db')" by auto
  then show "run_of t db' \<noteq> None" unfolding run_of_none by simp
  define D where "D = env db"
  from claim_cases [OF assms] have A: "td_authorizations db' = td_authorizations D" by (auto simp: D_def)
  show "\<exists>a \<in> set (td_authorizations db'). au_turnId a = t \<and> au_state a = Reserved"
  proof (cases "find (\<lambda>a. au_turnId a = t \<and> au_state a = Reserved) (td_authorizations D)")
    case None
    then show ?thesis using assms
      by (auto simp: claimTurnProviderAdmissionInTransaction_def ebind_Inr_iff Let_def D_def
          split: option.split_asm if_split_asm)
  next
    case (Some a)
    then show ?thesis using find_SomeD [OF Some] A by auto
  qed
qed

lemma fund_turn_effect:
  assumes inv: "auth_inv plan db" and p: "plan (tp_turnId p) = p" and env: "good_env plan env"
    and f: "fund_turn describe env fence p now db = (db', Inr (auth, key, sub))"
  shows "auth_inv plan db' \<and> db_le db db' \<and> holds plan db' (tp_turnId p) auth key sub \<and>
    state_of (tp_turnId p) db' = Some Reserved \<and> run_of (tp_turnId p) db' \<noteq> None"
proof -
  let ?t = "tp_turnId p"
  obtain db1 debited where r: "ledgerTurnKey p = Inr key"
    "resolveTurnAuthorization (Some (tp_meteringModel p)) now = Inr auth"
    "reserveAuthorization fence p key auth now db = (db1, Inr (debited, sub))"
    "claimTurnProviderStart env fence ?t (usageEventType p) now db1 = (db', Inr True)"
    using f by (auto simp: fund_turn_def split: sum.split_asm prod.split_asm bool.split_asm)
  obtain n where n: "ta_manna auth = JFin (of_int n)" "10000 * n \<le> unit_bound" by (rule authorized_units [OF r(2)])
  have rt: "reserve_tx fence p key auth now db = Inr (db1, debited, sub)"
    using r(3) by (auto simp: reserveAuthorization_def transaction_def split: sum.split_asm)
  have c: "claimTurnProviderAdmissionInTransaction env fence ?t (usageEventType p) now db1 = Inr (db', True)"
    using r(4) by (auto simp: claimTurnProviderStart_def transaction_def split: sum.split_asm)
  note s1 = reserve_step [OF inv refl p r(1) n rt]
  note s2 = claim_step [OF c _ env]
  have D: "auth_inv plan db'" "db_le db1 db'" using s1 s2 by blast+
  obtain a where "a \<in> set (td_authorizations db')" "au_turnId a = ?t" "au_state a = Reserved"
    using claimed_row(2) [OF c] by blast
  then have "state_of ?t db' = Some Reserved"
    using authorization_of_iff [of db' ?t a] D(1) by (simp add: state_of_def auth_inv_def)
  then show ?thesis using s1 D claimed_row(1) [OF c] db_le_trans holds_le by blast
qed

text \<open>What a funding that fails leaves behind.\<close>

lemma fund_turn_safe:
  assumes inv: "auth_inv plan db" and p: "plan (tp_turnId p) = p" and env: "good_env plan env"
  shows "auth_inv plan (fst (fund_turn describe env fence p now db)) \<and> db_le db (fst (fund_turn describe env fence p now db))"
proof -
  let ?t = "tp_turnId p"
  have stay: "auth_inv plan db \<and> db_le db db" using inv by simp
  show ?thesis
  proof (cases "ledgerTurnKey p")
    case (Inl e)
    then show ?thesis using stay by (simp add: fund_turn_def)
  next
    case key: (Inr key)
    show ?thesis
    proof (cases "resolveTurnAuthorization (Some (tp_meteringModel p)) now")
      case (Inl e)
      then show ?thesis using stay key by (simp add: fund_turn_def)
    next
      case auth: (Inr auth)
      obtain n where n: "ta_manna auth = JFin (of_int n)" "10000 * n \<le> unit_bound" by (rule authorized_units [OF auth])
      show ?thesis
      proof (cases "reserve_tx fence p key auth now db")
        case (Inl e)
        then show ?thesis using stay core_move [OF record_refusal_core inv] key auth
          by (simp add: fund_turn_def reserveAuthorization_def transaction_def)
      next
        case (Inr y)
        obtain db1 debited sub where y: "y = (db1, debited, sub)" by (cases y)
        note s1 = reserve_step [OF inv refl p key n Inr [unfolded y]]
        define c where "c = transaction (claimTurnProviderAdmissionInTransaction env fence ?t (usageEventType p) now) db1"
        have s2: "auth_inv plan (fst c) \<and> db_le db1 (fst c)"
          unfolding c_def by (rule transaction_step) (use s1 claim_step [OF _ _ env] in blast)+
        define v where "v = transaction (reverse_tx fence ?t (refundType p) None now) (fst c)"
        have s3: "auth_inv plan (fst v) \<and> db_le (fst c) (fst v)"
          unfolding v_def by (rule transaction_step) (use s2 reverse_step in blast)+
        have "fst (fund_turn describe env fence p now db) = fst c \<or> fst (fund_turn describe env fence p now db) = fst v"
          using key auth Inr y
          by (simp add: fund_turn_def reserveAuthorization_def transaction_def [of "reserve_tx fence p key auth now"]
              claimTurnProviderStart_def reverseTurnAuthorization_def c_def [symmetric] v_def
              split: prod.split sum.split bool.split)
        then show ?thesis using s1 s2 s3 db_le_trans by metis
      qed
    qed
  qed
qed

section \<open>A retried reservation\<close>

lemma debit_again:
  assumes "debit (\<lambda>x. x) p now s = (s', Inr r)" "findTransactionByKey (dp_idempotencyKey p) s = Some tx"
  shows "s' = s" "lr_alreadyApplied r"
proof -
  have "assertValidAmount (dp_amount p) = Inr ()"
    using assms(1) by (cases "assertValidAmount (dp_amount p)") (simp_all add: debit_def)
  then show "s' = s" "lr_alreadyApplied r" using debit_used_key [OF assms(2), of "\<lambda>x. x" now] assms(1)
    by (auto simp: replay_result_def)
qed

lemma reserve_again:
  assumes inv: "auth_inv plan db" and p: "plan (tp_turnId p) = p"
    and h: "holds plan db (tp_turnId p) auth key sub"
    and rs: "reserve_tx fence p key auth' now db = Inr (db', debited, sub')"
  shows "db' = db \<and> sub' = sub \<and> lr_alreadyApplied debited"
proof -
  obtain a where a: "authorization_of (tp_turnId p) db = Some a" "sub = numericToNumber (au_reservedSubscriptionManna a)"
    "ledgerTurnKey (plan (tp_turnId p)) = Inr key" using h by (auto simp: holds_def)
  obtain tx k where tx: "ledgerTurnKey (plan (tp_turnId p)) = Inr k" "findTransactionByKey k (td_ledger db) = Some tx"
    by (rule turn_debit [OF inv a(1)]) (rule that)
  obtain db1 b where d: "on_ledger (debit (\<lambda>s. s) (reservation_debit p key auth') now) db = Inr (db1, debited)"
    "insertTurnAuthorization (reservation_row p auth' debited) now db1 = Inr (db', Some b)"
    "sub' = numericToNumber (au_reservedSubscriptionManna b)"
    using rs by (auto simp: reserve_tx_def ebind_Inr_iff split: option.splits if_splits)
  obtain s' where s': "debit (\<lambda>s. s) (reservation_debit p key auth') now (td_ledger db) = (s', Inr debited)"
    "db1 = db\<lparr>td_ledger := s'\<rparr>" using on_ledger_InrD [OF d(1)] by auto
  have "findTransactionByKey (dp_idempotencyKey (reservation_debit p key auth')) (td_ledger db) = Some tx"
    using tx a(3) by (simp add: reservation_debit_def)
  note g = debit_again [OF s'(1) this]
  have db1: "db1 = db" using s'(2) g(1) by simp
  from d(2) show ?thesis
  proof (cases rule: insertTurnAuthorization_InrD)
    case (inserted mx sub')
    then show ?thesis using a(1) db1 by (simp add: reservation_row_def)
  next
    case existing
    then have "b = a" using a(1) db1 by (simp add: reservation_row_def)
    then show ?thesis using existing(1) db1 d(3) a(2) g(2) by simp
  qed
qed

section \<open>The end of a turn\<close>

lemma terminal_effect:
  assumes tm: "terminal_tx fence hook p key sub auth metering message now db = Inr (db', cs)"
    and inv: "auth_inv plan db" and m: "\<And>v. metered_manna metering = Some v \<Longrightarrow> whole v"
    and h: "holds plan db (tp_turnId p) auth key sub"
  shows "\<exists>a c. authorization_of (tp_turnId p) db = Some a \<and> au_state a = Reserved \<and>
    0 \<le> c \<and> c \<le> au_authorizedMaxManna a \<and>
    cs_chargedManna cs = JFin (unit_val c) \<and>
    (cs_chargedManna cs, cs_overrun cs) = settle_charge (metered_manna metering) (ta_manna auth) \<and>
    authorization_of (tp_turnId p) db' = Some (a\<lparr>au_state := Settled, au_chargedManna := Some c,
       au_overrun := cs_overrun cs, au_updatedAt := now\<rparr>) \<and>
    only_row (tp_turnId p) db db'"
proof -
  obtain v ov where v: "settle_charge (metered_manna metering) (ta_manna auth) = (v, ov)" by force
  obtain db1 db2 leg ty where t: "markTurnSettled (tp_turnId p) v ov now db = Inr db1"
    "on_ledger (settleReservation key v sub ty now) db1 = Inr (db2, leg)"
    "recordUsageEvent p metering \<lparr>uo_status = metering_status metering, uo_messageId = Some (mr_id message),
       uo_manna = Some v, uo_errorCode = None, uo_errorMessage = None\<rparr> True
       (db2\<lparr>td_messages := td_messages db2 @ [message]\<rparr>) = Inr db'"
    "cs_chargedManna cs = v" "cs_overrun cs = ov"
    using tm by (auto simp: terminal_tx_def ebind_Inr_iff Let_def v)
  have d: "distinct (map au_turnId (td_authorizations db))" using inv by (simp add: auth_inv_def)
  obtain a c where a: "authorization_of (tp_turnId p) db = Some a" "au_state a = Reserved"
    and c: "stored_numeric v = Some c" "0 \<le> c" "c \<le> au_authorizedMaxManna a"
    and db1: "db1 = update_reserved (tp_turnId p) (\<lambda>a. a\<lparr>au_state := Settled, au_chargedManna := Some c,
                           au_overrun := ov, au_updatedAt := now\<rparr>) db"
    by (rule markTurnSettled_InrD [OF t(1) d])
  have ok: "authorization_ok a" by (rule turn_debit [OF inv a(1)])
  have "whole v" using m h v
    by (auto simp: settle_charge_def holds_def intro: whole_min split: option.split_asm)
  then have vc: "v = JFin (unit_val c)"
    using stored_numeric_units [OF c(1)] whole_exact c ok by (simp add: authorization_ok_def)
  have "td_authorizations db' = td_authorizations db1"
    using recordUsageEvent_core [OF t(3)] on_ledger_InrD [OF t(2)] by (auto simp: same_core_def)
  then have e: "td_authorizations db' = td_authorizations (update_reserved (tp_turnId p)
      (\<lambda>a. a\<lparr>au_state := Settled, au_chargedManna := Some c, au_overrun := ov, au_updatedAt := now\<rparr>) db)"
    by (simp add: db1)
  note u = updated_row [OF e _ a]
  show ?thesis
    by (rule exI [of _ a], rule exI [of _ c]) (use a c u vc v t(4,5) in simp)
qed

end
