(* ===== verification/TurnSamples.thy ===== *)
theory TurnSamples
  imports TurnOutcomes
begin

text \<open>A user with 100 manna, and one interactive turn of it, for the witnesses.\<close>

definition demo_plan :: "string \<Rightarrow> turn_params" where
  "demo_plan t = \<lparr>tp_turnId = t, tp_sessionId = ''s1'', tp_userAccountId = ''u1'', tp_agentAccountId = ''a1'',
     tp_meteringModel = ''anthropic/claude-haiku-4-5'', tp_claudeCli = False, tp_source = Interactive,
     tp_dailyCapLimit = JFin 10000\<rparr>"

definition T0 :: int where "T0 = 1786200000000"

definition demo_account :: manna_account where
  "demo_account = \<lparr>ma_id = 0, ma_account_id = ''u1'', ma_balance = 1000000, ma_subscription_balance = 0,
     ma_updated_at = 0\<rparr>"

definition demo_ledger :: ledger where
  "demo_ledger = \<lparr>accounts = [''u1'', ''a1''], manna_accounts = [demo_account], manna_transactions = [],
     next_id = 1\<rparr>"

definition haiku :: turn_authorization_ceiling where
  "haiku = \<lparr>ta_manna = JFin 61, ta_usd = JFin (round64 (45 / 1000)), ta_maxOutputTokens = 8192,
     ta_tableVersion = ''2026-08-08.authz-v1'', ta_provider = ''anthropic'', ta_model = ''claude-haiku-4-5''\<rparr>"

lemma haiku_price: "mannaFromUsd (JFin (round64 (45 / 1000))) default_conversion = Inr (JFin 61)"
proof -
  have "0 \<le> round64 (45 / 1000)" "round64 (45 / 1000) \<le> 2 ^ 28" "whole_price (raw_price (round64 (45 / 1000))) = 61"
    by code_simp+
  then show ?thesis using default_price_whole [of "round64 (45 / 1000)"] by simp
qed

lemma haiku_ceiling: "resolveTurnAuthorization (Some ''anthropic/claude-haiku-4-5'') T0 = Inr haiku"
proof -
  have n: "normalizeModel ''anthropic'' ''claude-haiku-4-5'' = ''claude-haiku-4-5''"
    "normalizeModel ''anthropic'' ''claude-sonnet-4-5'' = ''claude-sonnet-4-5''"
    "normalizeModel ''anthropic'' ''claude-sonnet-4-6'' = ''claude-sonnet-4-6''"
    "normalizeModel ''anthropic'' ''claude-opus-4-6'' = ''claude-opus-4-6''" by code_simp+
  have "iso_day T0 = ''2026-08-08''" by code_simp
  then have "effectiveDay TurnCeilings T0 None = Inr ''2026-08-08''" by (simp add: effectiveDay_def)
  moreover have "turn_pick (''anthropic'', ''claude-haiku-4-5'') ''2026-08-08'' TURN_CEILINGS =
      Some (ceiling_row ''claude-haiku-4-5'' (45 / 1000) 8192)"
    using n by (simp add: turn_pick_def turn_exact_def TURN_CEILINGS_def ceiling_row_def latestEligible_def not_less)
  ultimately have "selectTurnCeilingEntry ''anthropic'' ''claude-haiku-4-5'' T0 None TURN_CEILINGS =
      Inr (ceiling_row ''claude-haiku-4-5'' (45 / 1000) 8192)"
    using ceiling_table_valid by (simp add: selectTurnCeilingEntry_pick)
  then have "turnAuthorizedMax ''anthropic'' ''claude-haiku-4-5'' T0 None default_conversion = Inr haiku"
    using n haiku_price ceiling_literals(1)
    by (simp add: turnAuthorizedMax_def ceiling_row_def haiku_def TURN_CEILING_TABLE_VERSION_def)
  moreover have "resolveChatMeteringModel (Some ''anthropic/claude-haiku-4-5'') = (''anthropic'', ''claude-haiku-4-5'', True)"
    by code_simp
  ultimately show ?thesis by (simp add: resolveTurnAuthorization_def default_conversion_def)
qed

section \<open>The reservation\<close>

lemma demo_numbers [simp]:
  "round64 61 = 61" "round64 39 = 39" "round64 (- 61) = - 61" "fixed4 0 = 0" "fixed4 61 = 610000" "fixed4 (- 61) = - 610000"
  "number_of_units 390000 = JFin 39" "number_of_units 1000000 = JFin 100" "number_of_units 610000 = JFin 61"
  "number_of_units (- 610000) = JFin (- 61)" "assertValidAmount (JFin 61) = Inr ()"
proof -
  show f: "fixed4 61 = 610000" using fixed4_of_int [of 61] by simp
  then show "fixed4 (- 61) = - 610000" by (simp add: fixed4_uminus)
  show "fixed4 0 = 0" using fixed4_of_int [of 0] by simp
  show "round64 61 = 61" "round64 39 = 39" "round64 (- 61) = - 61"
    using round64_of_int [of 61] round64_of_int [of 39] round64_of_int [of "- 61"] by simp_all
  show "number_of_units 390000 = JFin 39" "number_of_units 1000000 = JFin 100" "number_of_units 610000 = JFin 61"
    "number_of_units (- 610000) = JFin (- 61)"
    using whole_units [of 39] whole_units [of 100] whole_units [of 61] whole_units [of "- 61"]
    by (simp_all add: number_of_units_val unit_bound_def)
  show "assertValidAmount (JFin 61) = Inr ()"
    using f by (intro valid_units) (simp_all add: unit_bound_def)
qed

definition demo_tx :: manna_transaction where
  "demo_tx = \<lparr>tx_id = 1, tx_manna_account_id = 0, tx_amount = - 610000, tx_type = Some ''spend:chat'',
     tx_task_external_id = None, tx_stripe_event_id = None, tx_stripe_event_type = None,
     tx_stripe_event_data = None, tx_voucher_external_id = None, tx_code = None,
     tx_idempotency_key = Some ''t1'', tx_refunds_transaction_id = None, tx_created_at = T0\<rparr>"

definition spent_ledger :: ledger where
  "spent_ledger = \<lparr>accounts = [''u1'', ''a1''], manna_accounts = [demo_account\<lparr>ma_balance := 390000, ma_updated_at := T0\<rparr>],
     manna_transactions = [demo_tx], next_id = 2\<rparr>"

definition demo_row :: turn_authorization where
  "demo_row = \<lparr>au_turnId = ''t1'', au_accountId = ''u1'', au_agentAccountId = Some ''a1'', au_sessionId = Some ''s1'',
     au_provider = ''anthropic'', au_model = ''claude-haiku-4-5'', au_pricingBasis = ''provider-api'',
     au_ceilingTableVersion = ''2026-08-08.authz-v1'', au_authorizedMaxManna = 610000,
     au_reservedSubscriptionManna = 0, au_reservationTxId = 1, au_state = Reserved, au_chargedManna = None,
     au_overrun = False, au_createdAt = T0, au_updatedAt = T0\<rparr>"

definition demo_db :: "ledger \<Rightarrow> turn_authorization list \<Rightarrow> turn_db" where
  "demo_db s rows = \<lparr>td_ledger = s, td_authorizations = rows, td_runs = [], td_usage = [], td_messages = [],
     td_liveAccounts = [''u1''], td_erasing = [], td_channelReserved = []\<rparr>"

lemma demo_debit:
  "reservation_debit (demo_plan ''t1'') ''t1'' haiku = \<lparr>dp_accountId = ''u1'', dp_amount = JFin 61,
     dp_type = ''spend:chat'', dp_idempotencyKey = ''t1'', dp_taskExternalId = None,
     dp_dailyCap = Some \<lparr>dc_limit = JFin 10000, dc_now = None\<rparr>, dp_rollingCap = None\<rparr>"
  by (simp add: reservation_debit_def demo_plan_def haiku_def spendType_def isMemoryDream_def taskExternalId_def)

lemma demo_check: "check_daily (reservation_debit (demo_plan ''t1'') ''t1'' haiku) T0 demo_ledger = Inr ()"
  unfolding demo_debit
  by (simp add: check_daily_def Let_def netSpendSince_def net_spend_units_def spend_rows_def js_of_rat_def
      demo_ledger_def numericToNumber_def js_simps)

lemma demo_apply:
  "\<exists>r. apply_debit (reservation_debit (demo_plan ''t1'') ''t1'' haiku) T0 0 demo_ledger = Inr (spent_ledger, r) \<and>
     lr_transaction r = demo_tx \<and> \<not> lr_alreadyApplied r \<and> lr_subscriptionDrawn r = Some (JFin 0)"
  unfolding demo_debit
  by (simp add: apply_debit_def demo_ledger_def demo_account_def manna_row_def numericToNumber_def js_simps
      numberToNumeric_def pg_fits_def draw_down_def insert_transaction_def violates_unique_def blank_tx_def
      update_account_def Let_def spent_ledger_def demo_tx_def fix4_def)

lemma demo_reserved:
  "\<exists>debited. reserve_tx no_fence (demo_plan ''t1'') ''t1'' haiku T0 (demo_db demo_ledger []) =
     Inr (demo_db spent_ledger [demo_row], debited, JFin 0)"
proof -
  obtain r where r: "apply_debit (reservation_debit (demo_plan ''t1'') ''t1'' haiku) T0 0 demo_ledger = Inr (spent_ledger, r)"
    "lr_transaction r = demo_tx" "\<not> lr_alreadyApplied r" "lr_subscriptionDrawn r = Some (JFin 0)"
    using demo_apply by blast
  have "getOrCreateMannaAccount (\<lambda>x. x) ''u1'' T0 demo_ledger = Inr (demo_ledger, demo_account)"
    "findTransactionByKey ''t1'' demo_ledger = None" "ma_id demo_account = 0"
    by (simp_all add: getOrCreateMannaAccount_def account_row_def demo_ledger_def demo_account_def
        findTransactionByKey_def)
  then have "debit (\<lambda>x. x) (reservation_debit (demo_plan ''t1'') ''t1'' haiku) T0 demo_ledger = (spent_ledger, Inr r)"
    using r(1) demo_check unfolding demo_debit
    by (simp add: debit_def debit_tx_def check_rolling_def)
  then show ?thesis using r(2-4)
    by (simp add: reserve_tx_def no_fence_def on_ledger_def demo_db_def insertTurnAuthorization_def
        insert_authorization_def reservation_row_def demo_plan_def haiku_def stored_numeric_def or_zero_def
        pg_fits_def authorization_of_def spent_ledger_def demo_tx_def transaction_of_def new_authorization_def
        demo_row_def pricingBasis_def numericToNumber_def Let_def)
qed

lemma demo_reserved_again:
  "\<exists>debited db2 sub2. reserveAuthorization no_fence (demo_plan ''t1'') ''t1'' haiku T0 (demo_db spent_ledger [demo_row]) =
     (db2, Inr (debited, sub2))"
proof -
  have "debit (\<lambda>x. x) (reservation_debit (demo_plan ''t1'') ''t1'' haiku) T0 spent_ledger =
      (spent_ledger, Inr (replay_result ''u1'' demo_tx spent_ledger))"
    unfolding demo_debit by (simp add: debit_def debit_tx_def findTransactionByKey_def spent_ledger_def demo_tx_def)
  then show ?thesis
    by (simp add: reserveAuthorization_def transaction_def reserve_tx_def no_fence_def on_ledger_def demo_db_def
        replay_result_def check_replay_def demo_plan_def haiku_def spendType_def isMemoryDream_def js_eq_def
        numericToNumber_def insertTurnAuthorization_def insert_authorization_def reservation_row_def
        stored_numeric_def or_zero_def pg_fits_def authorization_of_def spent_ledger_def demo_tx_def demo_account_def
        demo_row_def pricingBasis_def Let_def)
qed

lemma demo_start_inv: "ledger_inv demo_ledger"
  by (simp add: demo_ledger_def demo_account_def ledger_inv_def accounts_ok_def txs_ok_def refunds_ok_def
      tx_keys_def map_filter_def)

definition demo_world :: turn_world where
  "demo_world = \<lparr>tw_db = demo_db spent_ledger [demo_row],
     tw_held = [''t1'' \<mapsto> (haiku, ''t1'', JFin 0)]\<rparr>"

lemma demo_key: "ledgerTurnKey (demo_plan t) = Inr t" "tp_turnId (demo_plan t) = t"
  by (simp_all add: ledgerTurnKey_def demo_plan_def)

lemma demo_step:
  "turn_step demo_plan \<lparr>tw_db = demo_db demo_ledger [], tw_held = (\<lambda>_. None)\<rparr> (ReserveOp ''t1'' no_fence T0) =
     demo_world"
proof -
  obtain d where "reserve_tx no_fence (demo_plan ''t1'') ''t1'' haiku T0 (demo_db demo_ledger []) =
     Inr (demo_db spent_ledger [demo_row], d, JFin 0)" using demo_reserved by blast
  moreover have "resolveTurnAuthorization (Some (tp_meteringModel (demo_plan ''t1''))) T0 = Inr haiku"
    using haiku_ceiling by (simp add: demo_plan_def)
  ultimately show ?thesis
    by (simp add: demo_key reserveAuthorization_def transaction_def demo_world_def)
qed

section \<open>The run\<close>

text \<open>The provider is started and emits output.\<close>

definition started_db :: turn_db where
  "started_db = (demo_db spent_ledger [demo_row])\<lparr>
     td_runs := [\<lparr>pr_turnId = ''t1'', pr_providerStartedAt = T0, pr_usableOutputAt = None\<rparr>],
     td_usage := [usage_skeleton ChatTurn demo_row]\<rparr>"

definition spoken_db :: turn_db where
  "spoken_db = started_db\<lparr>
     td_runs := [\<lparr>pr_turnId = ''t1'', pr_providerStartedAt = T0, pr_usableOutputAt = Some T0\<rparr>]\<rparr>"

lemma demo_claim: "claimTurnProviderStart (\<lambda>x. x) no_fence ''t1'' ChatTurn T0 (tw_db demo_world) = (started_db, Inr True)"
  by (simp add: claimTurnProviderStart_def transaction_def claimTurnProviderAdmissionInTransaction_def no_fence_def
      demo_world_def demo_db_def authorization_of_def demo_row_def same_route_def run_of_def usage_recorded_def
      Let_def started_db_def)

lemma demo_output: "markTurnUsableOutput no_fence ''t1'' T0 started_db = (spoken_db, Inr True)"
  by (simp add: markTurnUsableOutput_def transaction_def no_fence_def started_db_def spoken_db_def demo_db_def
      run_of_def mark_output_def authorization_of_def demo_row_def)

lemma demo_rows: "authorization_of ''t1'' spoken_db = Some demo_row" "au_state demo_row = Reserved"
  "run_of ''t1'' spoken_db = Some \<lparr>pr_turnId = ''t1'', pr_providerStartedAt = T0, pr_usableOutputAt = Some T0\<rparr>"
  by (simp_all add: authorization_of_def run_of_def spoken_db_def started_db_def demo_db_def demo_row_def)

section \<open>The end\<close>

lemma demo_numbers_more [simp]: "fix4 (JFin 61) = JFin 61" "fix4 (JFin 0) = JFin 0"
  "\<not> js_lt (js_add (JFin 61) EPS) (JFin 61)" "\<not> js_lt (js_add (JFin 0) EPS) (JFin 0)" "\<not> js_lt (js_add (JFin 61) EPS) (JFin 0)"
proof -
  show "fix4 (JFin 61) = JFin 61" "fix4 (JFin 0) = JFin 0" by (simp_all add: fix4_def)
  have u: "unit_val 610000 = 61" "unit_val 0 = 0" using whole_units [of 61] by (simp_all add: unit_bound_def)
  show "\<not> js_lt (js_add (JFin 61) EPS) (JFin 61)" "\<not> js_lt (js_add (JFin 0) EPS) (JFin 0)" "\<not> js_lt (js_add (JFin 61) EPS) (JFin 0)"
    using units_within_eps [of 610000 610000] units_within_eps [of 0 0] units_within_eps [of 0 610000] u by (simp_all add: unit_bound_def)
qed

definition settled_row :: turn_authorization where
  "settled_row = demo_row\<lparr>au_state := Settled, au_chargedManna := Some 610000\<rparr>"

text \<open>The output was cut off: the whole reserve is kept.\<close>

lemma demo_settle: "\<exists>leg. settleReservation ''t1'' (JFin 61) (JFin 0) ty T0 spent_ledger = (spent_ledger, Inr leg)"
  by (simp add: settleReservation_def spent_ledger_def demo_tx_def findTransactionByKey_def numericToNumber_def
      js_simps js_of_rat_def Let_def refundLeg_def run_leg_def leg_key_def settleReservationIdempotencyKey_def
      alreadyRefundedManna_def linked_refunds_def)

lemma demo_partial:
  "\<exists>db r. settle_partial_tx no_fence ''t1'' code msg T0 spoken_db = Inr (db, r) \<and> ps_settled r \<and>
     authorization_of ''t1'' db = Some settled_row"
proof -
  obtain leg where "settleReservation ''t1'' (JFin 61) (JFin 0) (Some ''refund:chat:partial-output-settle'') T0 spent_ledger
      = (spent_ledger, Inr leg)" using demo_settle by blast
  then show ?thesis
    by (simp add: settle_partial_tx_def no_fence_def spoken_db_def started_db_def demo_db_def authorization_of_def
        run_of_def transaction_of_def demo_row_def spent_ledger_def demo_tx_def truthy_key_def numericToNumber_def
        is_safe_integer_def js_simps markTurnSettled_def stored_numeric_def pg_fits_def on_ledger_def
        update_reserved_def record_partial_usage_def stored_int_def usage_skeleton_def admitted_usage_def
        settled_row_def Let_def)
qed

text \<open>The turn ends without usage numbers: the whole reserve is the charge.\<close>

definition demo_message :: message_row where
  "demo_message = \<lparr>mr_id = ''m1'', mr_sessionId = ''s1'', mr_senderId = Some ''a1'', mr_role = ''assistant'', mr_content = ''hi''\<rparr>"

lemma demo_metering:
  "meterChatUsage None (Some ''anthropic/claude-haiku-4-5'') T0 = MissingUsage Anthropic ''claude-haiku-4-5''"
  by code_simp

lemma demo_finished:
  "\<exists>db cs. terminal_success no_fence no_fence (demo_plan ''t1'') ''t1'' (JFin 0) haiku
      (meterChatUsage None (Some ''anthropic/claude-haiku-4-5'') T0) demo_message T0 spoken_db = (db, Inr cs)"
proof -
  obtain leg where "settleReservation ''t1'' (JFin 61) (JFin 0) (Some ''refund:chat:settle'') T0 spent_ledger
      = (spent_ledger, Inr leg)" using demo_settle by blast
  then show ?thesis
    unfolding demo_metering
    by (simp add: terminal_success_def transaction_def terminal_tx_def no_fence_def settle_charge_def metered_manna_def
        haiku_def markTurnSettled_def spoken_db_def started_db_def demo_db_def demo_row_def stored_numeric_def pg_fits_def
        update_reserved_def on_ledger_def isMemoryDream_def demo_plan_def recordUsageEvent_def stored_int_def
        own_usage_def usage_skeleton_def usageEventType_def Let_def)
qed

end
