(* ===== verification/TurnProperties.thy ===== *)
theory TurnProperties
  imports TurnSamples
begin

text \<open>
  What a chat turn does with manna: what it costs after any interleaving of the transactions
  on it, which states are final, and what the whole calls (funding, the reaper, the end of a
  turn) leave behind.
\<close>

section \<open>The cost of a turn\<close>

text \<open>A database with a ledger and no turns.\<close>

definition opened :: "ledger \<Rightarrow> string list \<Rightarrow> turn_world" where
  "opened s live =
     \<lparr>tw_db = \<lparr>td_ledger = s, td_authorizations = [], td_runs = [], td_usage = [], td_messages = [],
        td_liveAccounts = live, td_erasing = [], td_channelReserved = []\<rparr>, tw_held = (\<lambda>_. None)\<rparr>"

lemma opened_inv: "ledger_inv s \<Longrightarrow> world_inv plan (opened s live)"
  by (simp add: opened_def world_inv_def auth_inv_def runs_ok_def)

text \<open>The cost of a turn by the state of its row.\<close>

definition turn_cost :: "turn_authorization \<Rightarrow> int" where
  "turn_cost a =
     (case au_state a of
        Reserved \<Rightarrow> au_authorizedMaxManna a
      | Settled \<Rightarrow> (case au_chargedManna a of None \<Rightarrow> 0 | Some c \<Rightarrow> c)
      | _ \<Rightarrow> 0)"

lemma turn_cost_back: "authorization_ok a \<Longrightarrow> au_authorizedMaxManna a - given_back a = turn_cost a"
  by (auto simp: turn_cost_def given_back_def authorization_ok_def split: auth_state.splits option.splits)

text \<open>The turn of the samples, run by the machine.\<close>

definition demo_ops :: "turn_op list" where
  "demo_ops = [ReserveOp ''t1'' no_fence T0, ClaimOp ''t1'' no_fence T0, OutputOp ''t1'' no_fence T0]"

lemma demo_opened: "opened demo_ledger [''u1''] = \<lparr>tw_db = demo_db demo_ledger [], tw_held = (\<lambda>_. None)\<rparr>"
  by (simp add: opened_def demo_db_def)

lemma demo_admitted: "list_all (turn_admitted demo_plan) demo_ops"
  by (simp add: demo_ops_def demo_key)

lemma demo_event: "usageEventType (demo_plan t) = ChatTurn"
  by (simp add: usageEventType_def isMemoryDream_def demo_plan_def)

lemma demo_run:
  "foldl (turn_step demo_plan) (opened demo_ledger [''u1'']) [ReserveOp ''t1'' no_fence T0] = demo_world"
  "foldl (turn_step demo_plan) (opened demo_ledger [''u1'']) demo_ops = demo_world\<lparr>tw_db := spoken_db\<rparr>"
  using demo_step demo_claim demo_output by (simp_all add: demo_opened demo_ops_def demo_event del: turn_step.simps(1))

lemma demo_inv: "world_inv demo_plan demo_world" "world_inv demo_plan (demo_world\<lparr>tw_db := spoken_db\<rparr>)"
  using tm.run_inv [OF opened_inv [OF demo_start_inv], of demo_plan "[ReserveOp ''t1'' no_fence T0]" "[''u1'']"]
    tm.run_inv [OF opened_inv [OF demo_start_inv] demo_admitted, of "[''u1'']"]
  unfolding demo_run by (simp_all add: demo_key)

text \<open>C1: A turn costs exactly what its row says, in ledger units. After any interleaving of reservations,
  provider starts, outputs, settlements, reversals and reaping of any turns with any other
  debits, credits and refunds, the debit behind an authorization row carries the key of the
  turn, and what it took less what was given back is the authorized maximum while the turn
  is reserved, the recorded charge once it is settled, and nothing once it is reversed or
  reaped.\<close>
theorem turn_money_exact:
  assumes "ledger_inv s" "list_all (turn_admitted plan) ops"
    and "db = tw_db (foldl (turn_step plan) (opened s live) ops)"
    and "authorization_of t db = Some a"
  shows "\<exists>tx key. transaction_of (au_reservationTxId a) db = Some tx \<and>
    ledgerTurnKey (plan t) = Inr key \<and> tx_idempotency_key tx = Some key \<and>
    - tx_amount tx - refunded_units (tx_id tx) (td_ledger db) = turn_cost a \<and>
    0 \<le> turn_cost a \<and> turn_cost a \<le> au_authorizedMaxManna a"
proof -
  have inv: "auth_inv plan db"
    using tm.run_inv [OF opened_inv [OF assms(1)] assms(2)] by (simp add: assms(3) world_inv_def)
  obtain tx key where tx: "transaction_of (au_reservationTxId a) db = Some tx" "tx_id tx = au_reservationTxId a"
    "tx_idempotency_key tx = Some key" "ledgerTurnKey (plan t) = Inr key"
    "tx_amount tx = - au_authorizedMaxManna a"
    "refunded_units (au_reservationTxId a) (td_ledger db) = given_back a" "authorization_ok a"
    by (rule turn_debit [OF inv assms(4)]) (rule that)
  have "0 \<le> given_back a" "given_back a \<le> au_authorizedMaxManna a"
    using tx(7) by (auto simp: given_back_def authorization_ok_def split: auth_state.splits option.splits)
  then show ?thesis using tx turn_cost_back [OF tx(7)] by auto
qed

lemma turn_money_exact_witness:
  "\<exists>tx. transaction_of 1 spoken_db = Some tx \<and> tx_idempotency_key tx = Some ''t1'' \<and>
     - tx_amount tx - refunded_units (tx_id tx) (td_ledger spoken_db) = 610000"
  using turn_money_exact [OF demo_start_inv demo_admitted, of spoken_db "[''u1'']" "''t1''" demo_row]
  by (auto simp: demo_run(2) demo_rows demo_key turn_cost_def demo_row_def)

section \<open>Finality\<close>

lemma row_kept:
  assumes "auth_inv plan db'" "db_le db db'" "authorization_of t db = Some a" "au_state a \<noteq> Reserved"
  shows "authorization_of t db' = Some a"
proof -
  have m: "a \<in> set (td_authorizations db)" "au_turnId a = t" using authorization_of_in [OF assms(3)] by simp_all
  then have "a \<in> set (td_authorizations db')" using assms(2,4) unfolding db_le_def by blast
  moreover have "distinct (map au_turnId (td_authorizations db'))" using assms(1) by (simp add: auth_inv_def)
  ultimately show ?thesis using authorization_of_iff m(2) by blast
qed

text \<open>A settled, reversed or reaped turn is final: whatever runs afterwards, its row is the same and not
  a unit more or less of its debit has been given back.\<close>
theorem turn_terminal_final:
  assumes "world_inv plan w" "list_all (turn_admitted plan) ops"
    and "authorization_of t (tw_db w) = Some a" "au_state a \<noteq> Reserved"
  shows "authorization_of t (tw_db (foldl (turn_step plan) w ops)) = Some a \<and>
    refunded_units (au_reservationTxId a) (td_ledger (tw_db (foldl (turn_step plan) w ops))) =
    refunded_units (au_reservationTxId a) (td_ledger (tw_db w))"
proof -
  define db where "db = tw_db (foldl (turn_step plan) w ops)"
  have inv: "auth_inv plan (tw_db w)" "auth_inv plan db" "db_le (tw_db w) db"
    using assms(1) tm.run_inv [OF assms(1,2)] tm.run_le [OF assms(1,2)]
    by (simp_all add: db_def world_inv_def world_le_def)
  have a: "authorization_of t db = Some a" by (rule row_kept [OF inv(2,3) assms(3,4)])
  show ?thesis
    using turn_debit [OF inv(1) assms(3)] turn_debit [OF inv(2) a] a unfolding db_def [symmetric] by metis
qed

lemma turn_terminal_final_witness:
  "\<exists>w. authorization_of ''t1'' (tw_db w) = Some settled_row \<and>
     authorization_of ''t1'' (tw_db (foldl (turn_step demo_plan) w [ReturnOp ''t1'' no_fence ''refund:chat'' None T0]))
       = Some settled_row"
proof -
  obtain db r where p: "settle_partial_tx no_fence ''t1'' [] [] T0 spoken_db = Inr (db, r)"
    "authorization_of ''t1'' db = Some settled_row" using demo_partial by blast
  let ?w = "turn_step demo_plan (demo_world\<lparr>tw_db := spoken_db\<rparr>) (PartialOp ''t1'' no_fence [] [] T0)"
  have w: "world_inv demo_plan ?w" "authorization_of ''t1'' (tw_db ?w) = Some settled_row"
    using turn_step_ok [OF demo_inv(2), of "PartialOp ''t1'' no_fence [] [] T0"] p
    by (simp_all add: settlePartialOutputAuthorization_def transaction_def)
  have "list_all (turn_admitted demo_plan) [ReturnOp ''t1'' no_fence ''refund:chat'' None T0]"
    "au_state settled_row \<noteq> Reserved" by (simp_all add: settled_row_def)
  then show ?thesis using turn_terminal_final [OF w(1) _ w(2)] w(2) by blast
qed

text \<open>C2: The provider's output is paid for: once a run has emitted usable output, its turn is never reversed
  or reaped, whatever runs afterwards, and no more than the authorized maximum less the
  recorded charge is ever given back.\<close>
theorem usable_output_never_refunded:
  assumes "world_inv plan w" "list_all (turn_admitted plan) ops"
    and "run_of t (tw_db w) = Some r" "pr_usableOutputAt r \<noteq> None"
    and "db = tw_db (foldl (turn_step plan) w ops)"
  shows "\<exists>a. authorization_of t db = Some a \<and> (au_state a = Reserved \<or> au_state a = Settled) \<and>
    refunded_units (au_reservationTxId a) (td_ledger db) =
      (case au_chargedManna a of None \<Rightarrow> 0 | Some c \<Rightarrow> au_authorizedMaxManna a - c)"
proof -
  have inv: "auth_inv plan db" "db_le (tw_db w) db"
    using tm.run_inv [OF assms(1,2)] tm.run_le [OF assms(1,2)] by (simp_all add: assms(5) world_inv_def world_le_def)
  have r: "r \<in> set (td_runs (tw_db w))" "pr_turnId r = t" using run_of_in [OF assms(3)] by simp_all
  then have "r \<in> set (td_runs db)" using inv(2) assms(4) unfolding db_le_def by blast
  then obtain a where a: "a \<in> set (td_authorizations db)" "au_turnId a = t" "au_state a = Reserved \<or> au_state a = Settled"
    using inv(1) assms(4) r(2) unfolding auth_inv_def runs_ok_def by blast
  moreover have "authorization_of t db = Some a"
    using authorization_of_iff [of db t a] inv(1) a by (simp add: auth_inv_def)
  note A = this
  obtain tx where "refunded_units (au_reservationTxId a) (td_ledger db) = given_back a" "authorization_ok a"
    by (rule turn_debit [OF inv(1) A]) (rule that)
  then show ?thesis using A a(3) by (auto simp: given_back_def authorization_ok_def split: option.splits)
qed

lemma usable_output_never_refunded_witness:
  "\<exists>a. authorization_of ''t1'' (tw_db (foldl (turn_step demo_plan) (demo_world\<lparr>tw_db := spoken_db\<rparr>)
      [ReturnOp ''t1'' no_fence ''refund:chat'' None T0])) = Some a \<and> (au_state a = Reserved \<or> au_state a = Settled)"
  using usable_output_never_refunded [OF demo_inv(2), of "[ReturnOp ''t1'' no_fence ''refund:chat'' None T0]" "''t1''",
      OF _ _ _ refl] demo_rows(3) by fastforce

text \<open>C25: The provider runs once per turn: after a successful claim no later claim of the same turn succeeds,
  whoever makes it and whatever runs in between.\<close>
theorem provider_started_once:
  assumes "world_inv plan w" "list_all (turn_admitted plan) ops"
    and "claimTurnProviderStart (\<lambda>x. x) fence t ev now (tw_db w) = (db, Inr True)"
  shows "snd (claimTurnProviderStart (\<lambda>x. x) fence' t ev' now'
    (tw_db (foldl (turn_step plan) (w\<lparr>tw_db := db\<rparr>) ops))) \<noteq> Inr True"
proof -
  define db' where "db' = tw_db (foldl (turn_step plan) (w\<lparr>tw_db := db\<rparr>) ops)"
  have inv: "auth_inv plan (tw_db w)" using assms(1) by (simp add: world_inv_def)
  have c: "claimTurnProviderAdmissionInTransaction (\<lambda>x. x) fence t ev now (tw_db w) = Inr (db, True)"
    using assms(3) by (auto simp: claimTurnProviderStart_def transaction_def split: sum.splits)
  note s = claim_step [OF c inv good_env_id]
  have w: "world_inv plan (w\<lparr>tw_db := db\<rparr>)" using db_moves [OF assms(1)] s by blast
  have "t \<in> pr_turnId ` set (td_runs db)" using claim_cases [OF c] by auto
  then have "run_of t db \<noteq> None" unfolding run_of_none by simp
  then obtain r where "run_of t db = Some r" by blast
  then have r: "r \<in> set (td_runs db)" "pr_turnId r = t" using run_of_in by blast+
  have "db_le db db'"
    using tm.run_le [OF w assms(2)] by (simp add: world_le_def db'_def)
  then obtain q where "q \<in> set (td_runs db')" "pr_turnId q = t" using r unfolding db_le_def by blast
  then have "t \<in> pr_turnId ` set (td_runs db')" by (intro image_eqI [of _ _ q]) simp_all
  then have "run_of t db' \<noteq> None" unfolding run_of_none by simp
  then have no: "claimTurnProviderAdmissionInTransaction (\<lambda>x. x) fence' t ev' now' db' \<noteq> Inr (db2, True)" for db2
    using claim_cases [of "\<lambda>x. x" fence' t ev' now' db' db2 True] by auto
  show ?thesis
  proof (cases "claimTurnProviderAdmissionInTransaction (\<lambda>x. x) fence' t ev' now' db'")
    case (Inr y)
    then show ?thesis using no [of "fst y"] unfolding db'_def [symmetric]
      by (cases y) (simp add: claimTurnProviderStart_def transaction_def)
  qed (simp add: db'_def claimTurnProviderStart_def transaction_def)
qed

lemma provider_started_once_witness:
  "snd (claimTurnProviderStart (\<lambda>x. x) no_fence ''t1'' ChatTurn T0 started_db) \<noteq> Inr True"
  using provider_started_once [OF demo_inv(1), of "[]" no_fence "''t1''" ChatTurn T0 started_db no_fence ChatTurn T0]
    demo_claim by simp

section \<open>Whole calls\<close>

text \<open>Retrying a reservation takes nothing more: after a turn has been reserved, a second reservation of it that
  succeeds, at any later time, changes no table, is marked as applied before and hands out the same
  subscription share.\<close>
theorem reservation_retry_free:
  assumes "world_inv plan w" "list_all (turn_admitted plan) ops" "plan (tp_turnId p) = p"
    and "resolveTurnAuthorization model now = Inr auth" "ledgerTurnKey p = Inr key"
    and "reserveAuthorization fence p key auth now (tw_db w) = (db, Inr (debited, sub))"
    and "db' = tw_db (foldl (turn_step plan) (w\<lparr>tw_db := db\<rparr>) ops)"
    and "reserveAuthorization fence' p key auth' now' db' = (db2, Inr (debited2, sub2))"
  shows "db2 = db' \<and> sub2 = sub \<and> lr_alreadyApplied debited2"
proof -
  have inv: "auth_inv plan (tw_db w)" using assms(1) by (simp add: world_inv_def)
  have r: "reserve_tx fence p key auth now (tw_db w) = Inr (db, debited, sub)"
    "reserve_tx fence' p key auth' now' db' = Inr (db2, debited2, sub2)"
    using assms(6,8) by (simp_all add: reserveAuthorization_def transaction_def split: sum.split_asm prod.split_asm)
  obtain n where n: "ta_manna auth = JFin (of_int n)" "10000 * n \<le> unit_bound" by (rule authorized_units [OF assms(4)])
  note s = reserve_step [OF inv refl assms(3,5) n r(1)]
  have w: "world_inv plan (w\<lparr>tw_db := db\<rparr>)" using db_moves [OF assms(1)] s by blast
  have d: "auth_inv plan db'" "db_le db db'"
    using tm.run_inv [OF w assms(2)] tm.run_le [OF w assms(2)] by (simp_all add: assms(7) world_inv_def world_le_def)
  have "holds plan db' (tp_turnId p) auth key sub" using holds_le [OF _ d(2,1)] s by blast
  from reserve_again [OF d(1) assms(3) this r(2)] show ?thesis .
qed

lemma reservation_retry_free_witness:
  "\<exists>debited. reserveAuthorization no_fence (demo_plan ''t1'') ''t1'' haiku T0 (tw_db demo_world) =
     (tw_db demo_world, Inr (debited, JFin 0)) \<and> lr_alreadyApplied debited"
proof -
  obtain d where d: "reserveAuthorization no_fence (demo_plan ''t1'') ''t1'' haiku T0 (demo_db demo_ledger []) =
      (tw_db demo_world, Inr (d, JFin 0))"
    using demo_reserved by (auto simp: reserveAuthorization_def transaction_def demo_world_def)
  obtain e db2 sub2 where e: "reserveAuthorization no_fence (demo_plan ''t1'') ''t1'' haiku T0 (tw_db demo_world) =
      (db2, Inr (e, sub2))"
    using demo_reserved_again by (auto simp: demo_world_def)
  have "world_inv demo_plan (opened demo_ledger [''u1''])" by (rule opened_inv [OF demo_start_inv])
  from reservation_retry_free [OF this, of "[]" "demo_plan ''t1''" "Some ''anthropic/claude-haiku-4-5''" T0 haiku "''t1''"
      no_fence "tw_db demo_world" d "JFin 0" "tw_db demo_world" no_fence haiku T0 db2 e sub2]
  show ?thesis using d e haiku_ceiling by (simp add: demo_key demo_opened)
qed

text \<open>C3: The end of a turn charges what was metered, never more than was authorized: the charge is the metered
  manna clamped to the authorized maximum, or all of it when the usage is unknown; an overrun is
  flagged exactly when the meter shows more; the row becomes settled at that charge, the rest of
  the reservation is given back, and no other turn is touched.\<close>
theorem finished_turn_charge:
  assumes "world_inv plan w" "tw_held w t = Some (auth, key, sub)" "tp_turnId (plan t) = t"
    and "terminal_success fence hook (plan t) key sub auth (meterChatUsage usage model fundedAt) message now (tw_db w)
      = (db, Inr cs)"
  shows "\<exists>a c. authorization_of t (tw_db w) = Some a \<and> au_state a = Reserved \<and>
    0 \<le> c \<and> c \<le> au_authorizedMaxManna a \<and> cs_chargedManna cs = JFin (unit_val c) \<and>
    (case metered_manna (meterChatUsage usage model fundedAt) of
       None \<Rightarrow> c = au_authorizedMaxManna a \<and> \<not> cs_overrun cs
     | Some m \<Rightarrow> cs_chargedManna cs = js_min m (numericToNumber (au_authorizedMaxManna a)) \<and>
         cs_overrun cs = js_lt (numericToNumber (au_authorizedMaxManna a)) m) \<and>
    authorization_of t db = Some (a\<lparr>au_state := Settled, au_chargedManna := Some c,
       au_overrun := cs_overrun cs, au_updatedAt := now\<rparr>) \<and>
    refunded_units (au_reservationTxId a) (td_ledger db) = au_authorizedMaxManna a - c \<and> only_row t (tw_db w) db"
proof -
  have inv: "auth_inv plan (tw_db w)" and h: "holds plan (tw_db w) (tp_turnId (plan t)) auth key sub"
    using assms(1-3) by (simp_all add: world_inv_def)
  have m: "\<And>v. metered_manna (meterChatUsage usage model fundedAt) = Some v \<Longrightarrow> whole v" by (rule metered_whole)
  have tx: "terminal_tx fence hook (plan t) key sub auth (meterChatUsage usage model fundedAt) message now (tw_db w)
      = Inr (db, cs)"
    using assms(4) by (simp add: terminal_success_def transaction_def split: sum.split_asm prod.split_asm)
  have inv2: "auth_inv plan db" using terminal_step [OF tx inv h m] by blast
  obtain a c where e: "authorization_of t (tw_db w) = Some a" "au_state a = Reserved"
    "0 \<le> c" "c \<le> au_authorizedMaxManna a" "cs_chargedManna cs = JFin (unit_val c)"
    "(cs_chargedManna cs, cs_overrun cs) = settle_charge (metered_manna (meterChatUsage usage model fundedAt)) (ta_manna auth)"
    "authorization_of t db = Some (a\<lparr>au_state := Settled, au_chargedManna := Some c,
       au_overrun := cs_overrun cs, au_updatedAt := now\<rparr>)" "only_row t (tw_db w) db"
    using terminal_effect [OF tx inv m h] assms(3) by auto
  obtain tx' where "refunded_units (au_reservationTxId a) (td_ledger db) = au_authorizedMaxManna a - c"
    by (rule turn_debit [OF inv2 e(7)]) (simp add: given_back_def)
  moreover have "ta_manna auth = numericToNumber (au_authorizedMaxManna a)"
    using h e(1) assms(3) by (simp add: holds_def)
  moreover have "c = au_authorizedMaxManna a" if "cs_chargedManna cs = numericToNumber (au_authorizedMaxManna a)"
  proof -
    have ok: "authorization_ok a" by (rule turn_debit [OF inv e(1)])
    then have b: "\<bar>c\<bar> \<le> unit_bound" "\<bar>au_authorizedMaxManna a\<bar> \<le> unit_bound"
      using e(3,4) by (simp_all add: authorization_ok_def)
    have "unit_val c = unit_val (au_authorizedMaxManna a)" using that e(5) row_numbers(1) [OF ok] by simp
    then have "fixed4 (unit_val c) = fixed4 (unit_val (au_authorizedMaxManna a))" by simp
    then show ?thesis using fixed4_unit_val [OF b(1)] fixed4_unit_val [OF b(2)] by simp
  qed
  ultimately show ?thesis using e
    by (auto simp: settle_charge_def split: option.split_asm)
qed

lemma finished_turn_charge_witness:
  "\<exists>db. authorization_of ''t1'' db = Some settled_row \<and> refunded_units 1 (td_ledger db) = 0"
proof -
  obtain db cs where d: "terminal_success no_fence no_fence (demo_plan ''t1'') ''t1'' (JFin 0) haiku
      (meterChatUsage None (Some ''anthropic/claude-haiku-4-5'') T0) demo_message T0 spoken_db = (db, Inr cs)"
    using demo_finished by blast
  obtain a c where e: "authorization_of ''t1'' spoken_db = Some a" "0 \<le> c" "c \<le> au_authorizedMaxManna a"
    "cs_chargedManna cs = JFin (unit_val c)"
    "c = au_authorizedMaxManna a" "\<not> cs_overrun cs"
    "authorization_of ''t1'' db = Some (a\<lparr>au_state := Settled, au_chargedManna := Some c,
       au_overrun := cs_overrun cs, au_updatedAt := T0\<rparr>)"
    "refunded_units (au_reservationTxId a) (td_ledger db) = au_authorizedMaxManna a - c"
    using finished_turn_charge [OF demo_inv(2), of "''t1''" haiku "''t1''" "JFin 0" no_fence no_fence None
        "Some ''anthropic/claude-haiku-4-5''" T0 demo_message T0 db cs] d
    by (auto simp: demo_world_def demo_key demo_metering metered_manna_def)
  have a: "a = demo_row" using e(1) demo_rows(1) by simp
  show ?thesis using e(5-8) unfolding a by (intro exI [of _ db]) (simp add: settled_row_def demo_row_def)
qed

text \<open>The reaper reports what it did: of the stale reservations it scanned, the reaped ones are exactly those now
  in state reaped, given back in full, the partial settlements exactly those now settled, and
  no other turn has changed.\<close>
theorem reaper_report_exact:
  assumes "auth_inv plan db" "runOnce (\<lambda>x. x) ty ttl scope now db = (db', out)"
    and "stale = stale_turns (now - ttl) scope db"
  shows "ro_scanned out = length stale \<and>
    ro_reaped out = length (filter (\<lambda>t. state_of t db' = Some Reaped) stale) \<and>
    ro_partialSettled out = length (filter (\<lambda>t. state_of t db' = Some Settled) stale) \<and>
    (\<forall>u. u \<in> set stale \<or> authorization_of u db' = authorization_of u db) \<and> auth_inv plan db'"
proof -
  obtain n m where r: "reap_turns (\<lambda>x. x) ty now stale db = (db', n, m)"
    "out = \<lparr>ro_scanned = length stale, ro_reaped = n, ro_partialSettled = m\<rparr>"
    using assms(2) by (auto simp: runOnce_def assms(3) Let_def split: prod.splits)
  have "distinct stale" unfolding assms(3) by (rule stale_distinct [OF assms(1)])
  moreover have "\<forall>t \<in> set stale. state_of t db = Some Reserved"
    unfolding assms(3) using stale_reserved [OF assms(1)] by blast
  ultimately show ?thesis using reap_turns_effect [OF r(1) assms(1)] r(2) by auto
qed

lemma reaper_report_exact_witness:
  "\<exists>db' out. runOnce (\<lambda>x. x) ''refund:chat'' TURN_RESERVATION_TTL_MS None (T0 + 2 * TURN_RESERVATION_TTL_MS) spoken_db
     = (db', out) \<and> ro_scanned out = 1 \<and> authorization_of ''t2'' db' = None"
proof -
  obtain db' out where r: "runOnce (\<lambda>x. x) ''refund:chat'' TURN_RESERVATION_TTL_MS None
      (T0 + 2 * TURN_RESERVATION_TTL_MS) spoken_db = (db', out)" by (rule prod.exhaust)
  have "stale_turns (T0 + 2 * TURN_RESERVATION_TTL_MS - TURN_RESERVATION_TTL_MS) None spoken_db = [''t1'']"
    "authorization_of ''t2'' spoken_db = None"
    by (simp_all add: stale_turns_def spoken_db_def started_db_def demo_db_def demo_row_def T0_def
        TURN_RESERVATION_TTL_MS_def authorization_of_def)
  moreover have "auth_inv demo_plan spoken_db" using demo_inv(2) by (simp add: world_inv_def)
  ultimately have "ro_scanned out = 1 \<and> (\<forall>u. u \<in> {''t1''} \<or> authorization_of u db' = authorization_of u spoken_db)"
    "authorization_of ''t2'' spoken_db = None"
    using reaper_report_exact [OF _ r refl, of demo_plan] by simp_all
  note e = this
  have "''t2'' \<in> {''t1''} \<or> authorization_of ''t2'' db' = authorization_of ''t2'' spoken_db"
    by (rule spec [OF conjunct2 [OF e(1)]])
  then have "authorization_of ''t2'' db' = None" using e(2) by simp
  from conjI [OF r conjI [OF conjunct1 [OF e(1)] this]] show ?thesis by (intro exI)
qed

text \<open>C26: A funded turn is ready to run: when the funding succeeds, whatever other transactions commit while it
  runs, the turn is reserved at the authorized maximum it returns, its provider has been claimed,
  and what it holds is what its row says.\<close>
theorem funded_turn_ready:
  assumes "auth_inv plan db" "plan (tp_turnId p) = p" "good_env plan env"
    and "fund_turn describe env fence p now db = (db', Inr (auth, key, sub))"
  shows "auth_inv plan db' \<and> run_of (tp_turnId p) db' \<noteq> None \<and>
    (\<exists>a. authorization_of (tp_turnId p) db' = Some a \<and> au_state a = Reserved \<and> turn_cost a = au_authorizedMaxManna a \<and>
       ta_manna auth = numericToNumber (au_authorizedMaxManna a) \<and>
       sub = numericToNumber (au_reservedSubscriptionManna a)) \<and> ledgerTurnKey p = Inr key"
  using fund_turn_effect [OF assms] assms(2) by (auto simp: holds_def state_of_def turn_cost_def)

lemma funded_turn_ready_witness:
  "\<exists>a. authorization_of ''t1'' started_db = Some a \<and> au_state a = Reserved \<and> turn_cost a = 610000"
proof -
  obtain d where d: "reserve_tx no_fence (demo_plan ''t1'') ''t1'' haiku T0 (demo_db demo_ledger []) =
      Inr (demo_db spent_ledger [demo_row], d, JFin 0)" using demo_reserved by blast
  have c: "resolveTurnAuthorization (Some (tp_meteringModel (demo_plan ''t1''))) T0 = Inr haiku"
    using haiku_ceiling by (simp add: demo_plan_def)
  have "fund_turn (\<lambda>_. []) (\<lambda>x. x) no_fence (demo_plan ''t1'') T0 (demo_db demo_ledger []) =
      (started_db, Inr (haiku, ''t1'', JFin 0))"
    using demo_claim
    by (simp add: fund_turn_def demo_key c reserveAuthorization_def transaction_def d demo_event demo_world_def)
  moreover have "auth_inv demo_plan (demo_db demo_ledger [])"
    using opened_inv [OF demo_start_inv, of demo_plan "[''u1'']"] by (simp add: demo_opened world_inv_def)
  ultimately have "\<exists>a. authorization_of ''t1'' started_db = Some a \<and> au_state a = Reserved \<and>
      turn_cost a = au_authorizedMaxManna a"
    using funded_turn_ready [of demo_plan "demo_db demo_ledger []" "demo_plan ''t1''" "\<lambda>x. x" "\<lambda>_. []" no_fence T0
        started_db haiku "''t1''" "JFin 0"] by (auto simp: demo_key)
  moreover have "authorization_of ''t1'' started_db = Some demo_row"
    by (simp add: authorization_of_def started_db_def demo_db_def demo_row_def)
  ultimately show ?thesis by (simp add: demo_row_def)
qed

end
