(* ===== verification/TurnClient.thy ===== *)
theory TurnClient
  imports TurnMachine
begin

text \<open>
  The turns as a client of the shared ledger: a transaction on a turn gives back nothing but the
  debit of a turn.
\<close>

lemma debit_touches:
  assumes "on_ledger (debit (\<lambda>x. x) p now) db = Inr (db', r)" "ledger_inv (td_ledger db)" "debit_units p \<le> unit_bound"
  shows "touches K (td_ledger db) (td_ledger db')"
  using on_ledger_InrD [OF assms(1)] step_touches [OF assms(2), of "DebitOp p now" K] assms(3) by auto

lemma settle_touches:
  assumes "on_ledger (settleReservation k v sub ty now) db = Inr (db', r)" "ledger_inv (td_ledger db)" "k \<in> K"
  shows "touches K (td_ledger db) (td_ledger db')"
  using on_ledger_InrD [OF assms(1)] step_touches [OF assms(2), of "SettleOp k v sub ty now" K] assms(3) by auto

lemma reverse_touches:
  assumes "on_ledger (reverseReservation k sub ty now) db = Inr (db', r)" "ledger_inv (td_ledger db)" "k \<in> K"
  shows "touches K (td_ledger db) (td_ledger db')"
  using on_ledger_InrD [OF assms(1)] step_touches [OF assms(2), of "ReverseOp k sub ty now" K] assms(3) by auto

text \<open>The key of the debit a row names is the key of its turn.\<close>

lemma row_key:
  assumes "auth_inv plan db" "authorization_of t db = Some a" "transaction_of (au_reservationTxId a) db = Some mt"
    "truthy_key (tx_idempotency_key mt) = Some key"
  shows "key \<in> turn_keys plan"
proof -
  obtain tx k where "transaction_of (au_reservationTxId a) db = Some tx" "tx_idempotency_key tx = Some k"
    "ledgerTurnKey (plan t) = Inr k"
    by (rule turn_debit [OF assms(1,2)]) (rule that)
  then show ?thesis using assms(3,4) by (auto simp: turn_keys_def truthy_key_def split: if_split_asm)
qed

lemma settled_ledger:
  "markTurnSettled t v ov now db = Inr db1 \<Longrightarrow> td_ledger db1 = td_ledger db"
  by (auto simp: markTurnSettled_def split: option.split_asm if_split_asm)

lemma reserve_touches:
  assumes "reserve_tx fence p key auth now db = Inr (db', r)" "auth_inv plan db"
    and n: "ta_manna auth = JFin (of_int n)" "10000 * n \<le> unit_bound"
  shows "touches K (td_ledger db) (td_ledger db')"
proof -
  obtain debited db1 a where d: "on_ledger (debit (\<lambda>s. s) (reservation_debit p key auth) now) db = Inr (db1, debited)"
    "insertTurnAuthorization (reservation_row p auth debited) now db1 = Inr (db', Some a)"
    using assms(1) by (auto simp: reserve_tx_def ebind_Inr_iff split: option.split_asm if_split_asm)
  have "td_ledger db' = td_ledger db1"
    using d(2) by (cases rule: insertTurnAuthorization_InrD) simp_all
  moreover have "debit_units (reservation_debit p key auth) \<le> unit_bound"
    using n by (simp add: debit_units_def reservation_debit_def)
  ultimately show ?thesis using debit_touches [OF d(1)] assms(2) by (simp add: auth_inv_def)
qed

lemma partial_touches:
  assumes "settle_partial_tx fence t code msg now db = Inr (db', r)" and inv: "auth_inv plan db"
  shows "touches (turn_keys plan) (td_ledger db) (td_ledger db')"
proof -
  have L: "ledger_inv (td_ledger db)" using inv by (simp add: auth_inv_def)
  consider (same) "db' = db"
    | (settled) a mt key v sub ty ev db1 db2 leg charged where "authorization_of t db = Some a"
      "transaction_of (au_reservationTxId a) db = Some mt" "truthy_key (tx_idempotency_key mt) = Some key"
      "markTurnSettled t v False now db = Inr db1"
      "on_ledger (settleReservation key v sub ty now) db1 = Inr (db2, leg)"
      "record_partial_usage ev code msg charged a db2 = Inr db'"
    using assms(1)
    by (auto simp: settle_partial_tx_def ebind_Inr_iff Let_def split: option.split_asm if_split_asm)
  then show ?thesis
  proof cases
    case (settled a mt key v sub ty ev db1 db2 leg charged)
    have "td_ledger db' = td_ledger db2" using record_partial_core [OF settled(6)] by (simp add: same_core_def)
    then show ?thesis
      using settle_touches [OF settled(5)] settled_ledger [OF settled(4)] row_key [OF inv settled(1-3)] L by simp
  qed (use L touches_refl in simp)
qed

lemma terminal_touches:
  assumes "terminal_tx fence hook p key sub auth metering message now db = Inr (db', r)"
    and inv: "auth_inv plan db" and key: "key \<in> turn_keys plan"
  shows "touches (turn_keys plan) (td_ledger db) (td_ledger db')"
proof -
  define v where "v = fst (settle_charge (metered_manna metering) (ta_manna auth))"
  obtain ov db1 db2 leg ty where t: "markTurnSettled (tp_turnId p) v ov now db = Inr db1"
    "on_ledger (settleReservation key v sub ty now) db1 = Inr (db2, leg)"
    "recordUsageEvent p metering \<lparr>uo_status = metering_status metering, uo_messageId = Some (mr_id message),
       uo_manna = Some v, uo_errorCode = None, uo_errorMessage = None\<rparr> True
       (db2\<lparr>td_messages := td_messages db2 @ [message]\<rparr>) = Inr db'"
    using assms(1) by (auto simp: terminal_tx_def ebind_Inr_iff Let_def v_def split: prod.split_asm)
  have "td_ledger db' = td_ledger db2" using recordUsageEvent_core [OF t(3)] by (simp add: same_core_def)
  then show ?thesis
    using settle_touches [OF t(2) _ key] settled_ledger [OF t(1)] inv by (simp add: auth_inv_def)
qed

lemma return_touches:
  assumes "reverse_tx fence t ty ts now db = Inr (db', r)" and inv: "auth_inv plan db"
  shows "touches (turn_keys plan) (td_ledger db) (td_ledger db')"
proof -
  have L: "ledger_inv (td_ledger db)" using inv by (simp add: auth_inv_def)
  consider (same) "db' = db"
    | (reversed) a mt key sub ty db1 leg g where "authorization_of t db = Some a"
      "transaction_of (au_reservationTxId a) db = Some mt" "truthy_key (tx_idempotency_key mt) = Some key"
      "on_ledger (reverseReservation key sub ty now) db = Inr (db1, leg)" "db' = update_reserved t g db1"
    using assms(1) by (auto simp: reverse_tx_def ebind_Inr_iff split: option.split_asm if_split_asm)
  then show ?thesis
  proof cases
    case (reversed a mt key sub ty db1 leg g)
    then show ?thesis using reverse_touches [OF reversed(4) L row_key [OF inv reversed(1-3)]] by simp
  qed (use L touches_refl in simp)
qed

section \<open>The client\<close>

definition turn_ledger :: "turn_world \<Rightarrow> ledger" where
  "turn_ledger w = td_ledger (tw_db w)"

definition put_turn :: "ledger \<Rightarrow> turn_world \<Rightarrow> turn_world" where
  "put_turn s w = w\<lparr>tw_db := (tw_db w)\<lparr>td_ledger := s\<rparr>\<rparr>"

text \<open>The operations on turns alone; the rest of the ledger is another client's.\<close>

fun own_turn_op :: "(string \<Rightarrow> turn_params) \<Rightarrow> turn_op \<Rightarrow> bool" where
  "own_turn_op plan (LedgerOp op) = False"
| "own_turn_op plan op = turn_admitted plan op"

lemma own_admitted: "own_turn_op plan op \<Longrightarrow> turn_admitted plan op"
  by (cases op) simp_all

lemma transaction_touches:
  assumes "ledger_inv (td_ledger db)" "\<And>db' r. body db = Inr (db', r) \<Longrightarrow> touches K (td_ledger db) (td_ledger db')"
  shows "touches K (td_ledger db) (td_ledger (fst (transaction body db)))"
  using assms touches_refl by (auto simp: transaction_def split: sum.split)

lemma turn_step_touches:
  assumes w: "world_inv plan w" and op: "own_turn_op plan op"
  shows "touches (turn_keys plan) (turn_ledger w) (turn_ledger (turn_step plan w op))"
proof -
  have inv: "auth_inv plan (tw_db w)" using w by (simp add: world_inv_def)
  then have L: "ledger_inv (td_ledger (tw_db w))" by (simp add: auth_inv_def)
  note stay = touches_refl [OF L, of "turn_keys plan"]
  note tx = transaction_touches [OF L, of _ "turn_keys plan"]
  show ?thesis
  proof (cases op)
    case (ReserveOp t fence now)
    show ?thesis
    proof (cases "ledgerTurnKey (plan t)")
      case (Inr key)
      show ?thesis
      proof (cases "resolveTurnAuthorization (Some (tp_meteringModel (plan t))) now")
        case auth: (Inr auth)
        obtain n where n: "ta_manna auth = JFin (of_int n)" "10000 * n \<le> unit_bound" by (rule authorized_units [OF auth])
        have "touches (turn_keys plan) (td_ledger (tw_db w))
            (td_ledger (fst (reserveAuthorization fence (plan t) key auth now (tw_db w))))"
          unfolding reserveAuthorization_def by (rule tx) (rule reserve_touches [OF _ inv n])
        then show ?thesis
          by (cases "reserveAuthorization fence (plan t) key auth now (tw_db w)")
            (simp add: ReserveOp Inr auth turn_ledger_def split: sum.split prod.split)
      qed (simp add: ReserveOp Inr turn_ledger_def stay)
    qed (simp add: ReserveOp turn_ledger_def stay)
  next
    case (ClaimOp t fence now)
    have "td_ledger db' = td_ledger db" if "claimTurnProviderAdmissionInTransaction (\<lambda>x. x) fence t ev now db = Inr (db', ok)"
      for ev db db' ok using claim_cases [OF that] by auto
    then have "touches (turn_keys plan) (td_ledger (tw_db w)) (td_ledger (fst (claimTurnProviderStart (\<lambda>x. x) fence t
        (usageEventType (plan t)) now (tw_db w))))"
      unfolding claimTurnProviderStart_def by (intro tx) (simp add: stay)
    then show ?thesis by (simp add: ClaimOp turn_ledger_def)
  next
    case (OutputOp t fence now)
    have "touches (turn_keys plan) (td_ledger (tw_db w)) (td_ledger (fst (markTurnUsableOutput fence t now (tw_db w))))"
      unfolding markTurnUsableOutput_def
      by (rule tx) (auto simp: ebind_Inr_iff mark_output_def stay split: option.split_asm if_split_asm)
    then show ?thesis by (simp add: OutputOp turn_ledger_def)
  next
    case (FinishOp t fence hook usage model message fundedAt now)
    show ?thesis
    proof (cases "tw_held w t")
      case (Some h)
      obtain auth key sub where h: "h = (auth, key, sub)" by (cases h)
      have "holds plan (tw_db w) t auth key sub" using w Some unfolding h by (simp add: world_inv_def)
      then have "key \<in> turn_keys plan" by (auto simp: holds_def turn_keys_def)
      then have "touches (turn_keys plan) (td_ledger (tw_db w)) (td_ledger (fst (terminal_success fence hook (plan t) key
          sub auth (meterChatUsage usage model fundedAt) message now (tw_db w))))"
        unfolding terminal_success_def using terminal_touches [OF _ inv] by (intro tx) blast
      then show ?thesis by (simp add: FinishOp Some h turn_ledger_def)
    qed (simp add: FinishOp turn_ledger_def stay)
  next
    case (PartialOp t fence code msg now)
    have "touches (turn_keys plan) (td_ledger (tw_db w))
        (td_ledger (fst (settlePartialOutputAuthorization fence t code msg now (tw_db w))))"
      unfolding settlePartialOutputAuthorization_def by (rule tx) (rule partial_touches [OF _ inv])
    then show ?thesis by (simp add: PartialOp turn_ledger_def)
  next
    case (ReturnOp t fence ty ts now)
    have "touches (turn_keys plan) (td_ledger (tw_db w)) (td_ledger (fst (reverseTurnAuthorization fence t ty ts now (tw_db w))))"
      unfolding reverseTurnAuthorization_def by (rule tx) (rule return_touches [OF _ inv])
    then show ?thesis by (simp add: ReturnOp turn_ledger_def)
  next
    case (RefusalOp t describe auth e)
    show ?thesis using record_refusal_core [of "tw_db w" describe "plan t" auth e] stay
      by (simp add: RefusalOp turn_ledger_def same_core_def)
  qed (use op in simp)
qed

interpretation tc: ledger_client turn_ledger put_turn "turn_step plan" "own_turn_op plan" "world_inv plan" world_le
  "turn_keys plan" for plan
proof unfold_locales
  fix w :: turn_world and l op
  show "turn_ledger (put_turn l w) = l" by (simp add: turn_ledger_def put_turn_def)
  show "world_inv plan w \<Longrightarrow> ledger_inv (turn_ledger w)" by (simp add: world_inv_def auth_inv_def turn_ledger_def)
  show "world_inv plan w \<Longrightarrow> touches (- turn_keys plan) (turn_ledger w) l \<Longrightarrow>
      world_inv plan (put_turn l w) \<and> world_le w (put_turn l w)"
    using turns_absorb [of plan "tw_db w" l] db_moves [of plan w] by (simp add: put_turn_def turn_ledger_def world_inv_def)
  show "world_inv plan w \<Longrightarrow> own_turn_op plan op \<Longrightarrow> world_inv plan (turn_step plan w op) \<and>
      world_le w (turn_step plan w op) \<and> touches (turn_keys plan) (turn_ledger w) (turn_ledger (turn_step plan w op))"
    using turn_step_ok own_admitted turn_step_touches by blast
next
  show "world_le u v \<Longrightarrow> world_le v w \<Longrightarrow> world_le u w" for u v w
    unfolding world_le_def by (rule db_le_trans)
qed (simp add: world_le_def)

end
