(* ===== verification/JsMap.thy ===== *)
theory JsMap
  imports Prelude "HOL-Library.AList" "HOL-Library.Multiset"
begin

text \<open>
  The JavaScript \<open>Map\<close>: an association list in insertion order, in which setting a key
  that is present keeps its place. The facts are about the keys, the lookup and the
  multiset of everything stored in a map of lists.
\<close>

definition map_set :: "'k \<Rightarrow> 'v \<Rightarrow> ('k \<times> 'v) list \<Rightarrow> ('k \<times> 'v) list" where
  "map_set = AList.update"

definition map_delete :: "'k \<Rightarrow> ('k \<times> 'v) list \<Rightarrow> ('k \<times> 'v) list" where
  "map_delete = AList.delete"

definition map_ok :: "('k \<times> 'v) list \<Rightarrow> bool" where
  "map_ok m = distinct (map fst m)"

lemma map_set_simps [simp]:
  "map_set k v [] = [(k, v)]"
  "map_set k v (p # ps) = (if fst p = k then (k, v) # ps else p # map_set k v ps)"
  by (simp_all add: map_set_def)

lemma map_of_set [simp]: "map_of (map_set k v m) = (map_of m)(k \<mapsto> v)"
  by (simp add: map_set_def update_conv')

lemma map_of_delete [simp]: "map_of (map_delete k m) = (map_of m)(k := None)"
  by (simp add: map_delete_def delete_conv')

lemma map_ok_Nil [simp]: "map_ok []"
  by (simp add: map_ok_def)

lemma map_ok_set [simp, intro]: "map_ok m \<Longrightarrow> map_ok (map_set k v m)"
  by (simp add: map_ok_def map_set_def distinct_update)

lemma map_ok_delete [simp, intro]: "map_ok m \<Longrightarrow> map_ok (map_delete k m)"
  by (simp add: map_ok_def map_delete_def distinct_delete)

lemma map_keys_of: "fst ` set m = dom (map_of m)"
  by (simp add: dom_map_of_conv_image_fst)

lemma map_in_iff: "map_ok m \<Longrightarrow> (k, v) \<in> set m \<longleftrightarrow> map_of m k = Some v"
  by (simp add: map_ok_def)

text \<open>Everything stored in a map of lists.\<close>

definition stored :: "('k \<times> 'v list) list \<Rightarrow> 'v multiset" where
  "stored m = mset (concat (map snd m))"

lemma stored_Nil [simp]: "stored [] = {#}"
  by (simp add: stored_def)

lemma stored_Cons [simp]: "stored (p # ps) = mset (snd p) + stored ps"
  by (simp add: stored_def)

lemma stored_set_new: "map_of m k = None \<Longrightarrow> stored (map_set k q m) = stored m + mset q"
  by (induction m) (auto split: if_splits)

lemma stored_set_old: "map_of m k = Some q \<Longrightarrow> stored (map_set k q' m) + mset q = stored m + mset q'"
  by (induction m) (auto split: if_splits)

lemma stored_set_drop:
  "map_of m k = Some q \<Longrightarrow> mset q = {#w#} + mset q' \<Longrightarrow> stored m = {#w#} + stored (map_set k q' m)"
  using stored_set_old [of m k q q'] by simp

lemma map_delete_absent: "map_of m k = None \<Longrightarrow> map_delete k m = m"
  by (simp add: map_delete_def delete_idem map_of_eq_None_iff)

lemma stored_delete: "map_ok m \<Longrightarrow> map_of m k = Some q \<Longrightarrow> stored m = mset q + stored (map_delete k m)"
proof (induction m)
  case (Cons p m)
  show ?case
  proof (cases "fst p = k")
    case True
    with Cons.prems have "map_of m k = None" by (simp add: map_ok_def map_of_eq_None_iff)
    with True Cons.prems show ?thesis by (cases p) (simp add: map_delete_def delete_simps map_delete_absent [unfolded map_delete_def])
  next
    case False
    with Cons show ?thesis by (cases p) (auto simp: map_delete_def map_ok_def)
  qed
qed simp

lemma stored_in: "map_of m k = Some q \<Longrightarrow> w \<in> set q \<Longrightarrow> w \<in># stored m"
  by (induction m) (auto split: if_splits)

lemma stored_inD: "w \<in># stored m \<Longrightarrow> map_ok m \<Longrightarrow> \<exists>k q. map_of m k = Some q \<and> w \<in> set q"
proof (induction m)
  case (Cons p m)
  then consider "w \<in> set (snd p)" | k q where "map_of m k = Some q" "w \<in> set q"
    by (auto simp: map_ok_def)
  then show ?case
  proof cases
    case 2
    then have "k \<noteq> fst p" using Cons.prems(2) by (auto simp: map_ok_def dest!: map_of_SomeD intro: rev_image_eqI)
    with 2 show ?thesis by (intro exI [of _ k] exI [of _ q]) simp
  qed (cases p, auto)
qed simp

end
