(* ===== verification/Jsonb.thy ===== *)
theory Jsonb
  imports Json JsMap
begin

text \<open>
  JSON columns (PostgreSQL's jsonb). \<open>JSON.stringify\<close> omits the members that are
  \<open>undefined\<close> and writes a number that is not finite as null; the order of the members of an
  object carries no meaning, and a column of SQL null is no value.
\<close>

definition stringify_num :: "jsnum \<Rightarrow> json" where
  "stringify_num v = (if is_finite v then JNum v else JNull)"

text \<open>The members a spread of optional fields adds.\<close>

definition opt_field :: "string \<Rightarrow> json option \<Rightarrow> json_object" where
  "opt_field k v = (case v of None \<Rightarrow> [] | Some j \<Rightarrow> [(k, j)])"

text \<open>Equality of jsonb values.\<close>

function jsonb_eq :: "json \<Rightarrow> json \<Rightarrow> bool" where
  "jsonb_eq JNull y = (y = JNull)"
| "jsonb_eq (JBool b) y = (y = JBool b)"
| "jsonb_eq (JNum v) y = (y = JNum v)"
| "jsonb_eq (JStr s) y = (y = JStr s)"
| "jsonb_eq (JArr xs) y =
     (case y of JArr ys \<Rightarrow> length xs = length ys \<and> list_all (\<lambda>(x, y). jsonb_eq x y) (zip xs ys) | _ \<Rightarrow> False)"
| "jsonb_eq (JObj ms) y =
     (case y of
        JObj ns \<Rightarrow> length ms = length ns \<and>
          list_all (\<lambda>m. case member ns (fst m) of None \<Rightarrow> False | Some w \<Rightarrow> jsonb_eq (snd m) w) ms
      | _ \<Rightarrow> False)"
  by pat_completeness auto
termination
proof (relation "measure (\<lambda>(x, y). size x)", goal_cases)
  case (2 xs y x5 z a b)
  then have "a \<in> set xs" by (auto dest: set_zip_leftD)
  then have "size a \<le> size_list size xs" by (rule size_list_estimation' [OF _ order_refl])
  then show ?case using 2 by auto
next
  case (3 ms y ns m w)
  then have "size_prod (\<lambda>x. 0) size m \<le> size_list (size_prod (\<lambda>x. 0) size) ms"
    by (intro size_list_estimation') auto
  then show ?case by (cases m) simp
qed simp

text \<open>The operator \<open>->\<close> on an optional value, and \<open>->>\<close> compared with a text.\<close>

definition jsonb_get :: "json option \<Rightarrow> string \<Rightarrow> json option" where
  "jsonb_get v k = (case v of Some (JObj ms) \<Rightarrow> member ms k | _ \<Rightarrow> None)"

definition jsonb_text_is :: "json option \<Rightarrow> string \<Rightarrow> bool" where
  "jsonb_text_is v t = (v = Some (JStr t))"

text \<open>The operator \<open>||\<close>: objects are merged, the right one wins; anything else concatenates.\<close>

fun jsonb_items :: "json \<Rightarrow> json list" where
  "jsonb_items (JArr xs) = xs"
| "jsonb_items v = [v]"

definition merge_members :: "json_object \<Rightarrow> json_object \<Rightarrow> json_object" where
  "merge_members ms ns = foldl (\<lambda>acc (k, v). map_set k v acc) ms ns"

fun jsonb_concat :: "json \<Rightarrow> json \<Rightarrow> json" where
  "jsonb_concat (JObj ms) (JObj ns) = JObj (merge_members ms ns)"
| "jsonb_concat a b = JArr (jsonb_items a @ jsonb_items b)"

lemma member_merge: "member (merge_members ms ns) k = (case map_of (rev ns) k of None \<Rightarrow> member ms k | Some v \<Rightarrow> Some v)"
  unfolding merge_members_def member_def
  by (induction ns arbitrary: ms) (auto simp: map_add_def split: option.split)

end
