(* ===== verification/StudioReservations.thy ===== *)
theory StudioReservations
  imports TurnAuth Jsonb
begin

text \<open>
  Studio generations (apps/api/src/services/studio-reservations.ts): a debit and a usage row
  that authorizes one provider call, completed together with its artifact or compensated. The
  rows are those of \<open>usage_events\<close> of the event type \<open>studio_generation\<close>; every statement of
  the file selects that type. Members of a quote that the interface does not declare are left
  out. \<open>stamp\<close> is the text of the clock's instant, \<open>evidence\<close> the database function behind
  \<open>recordErasureGenerationTerminalNoOutput\<close>: what it writes, and whether it recorded the end of
  the run.
\<close>

section \<open>Rows and metadata\<close>

definition STUDIO_RESERVATION_TTL_MS :: int where
  "STUDIO_RESERVATION_TTL_MS = 60 * 60 * 1000"

definition STUDIO_RESERVATION_REAPER_INTERVAL_MS :: int where
  "STUDIO_RESERVATION_REAPER_INTERVAL_MS = 5 * 60 * 1000"

datatype output_kind = ImageOutput | VideoOutput | AudioOutput

fun kind_name :: "output_kind \<Rightarrow> string" where
  "kind_name ImageOutput = ''image''"
| "kind_name VideoOutput = ''video''"
| "kind_name AudioOutput = ''audio''"

record studio_quote =
  sq_action :: string
  sq_provider :: string
  sq_model :: string
  sq_tableVersion :: string
  sq_costUsd :: jsnum
  sq_manna :: jsnum

record studio_split =
  sp_idempotencyKey :: string
  sp_transactionId :: string
  sp_reservedManna :: jsnum
  sp_subscriptionManna :: jsnum
  sp_durableManna :: jsnum

text \<open>What the process of a request holds: the members present from the reservation on.\<close>

record studio_metadata =
  sm_tool :: string
  sm_quote :: studio_quote
  sm_reservation :: studio_split

record studio_reservation =
  sr_turnId :: string
  sr_metadata :: studio_metadata

text \<open>A numeric column also stores not-a-number; \<open>PgNum\<close> counts units of the last place.\<close>

datatype pg_numeric = PgNum int | PgNaN

record studio_event =
  se_turnId :: "string option"
  se_userId :: "string option"
  se_status :: string
  se_provider :: "string option"
  se_model :: "string option"
  se_tableVersion :: "string option"
  se_costUsd :: "pg_numeric option"
  se_manna :: "int option"
  se_latencyMs :: "int option"
  se_errorCode :: "string option"
  se_errorMessage :: "string option"
  se_metadata :: "json option"
  se_createdAt :: int

record studio_db =
  sd_ledger :: ledger
  sd_events :: "studio_event list"

datatype studio_error =
    StudioLedgerFailed manna_error
  | StudioGenerationBusyError output_kind
  | StudioOutputQuarantinedError output_kind
  | UnsupportedTool string
  | ProviderAdmissionUnavailable string
  | InvalidAuthorizationMetadata
  | IncompleteAuthorizationMetadata
  | InvalidReservationSplit
  | FreshRequestReplayed string
  | AuthorizationRefused string
  | ArtifactCommitRefused string
  | UnexpectedStatus string
  | LostRefundPending
  | NoPayer
  | TransactionIdentityMismatch
  | TransactionAmountMismatch
  | TerminalUpdateLostRace
  | StudioForeignKey
  | StudioBadNumber jsnum

section \<open>Output kinds\<close>

definition outputKindForStudioTool :: "string \<Rightarrow> (studio_error, output_kind) res" where
  "outputKindForStudioTool tool =
     (if tool = ''image_generate'' then Inr ImageOutput
      else if tool = ''video_generate'' then Inr VideoOutput
      else if tool = ''music_generate'' \<or> tool = ''tts'' then Inr AudioOutput
      else Inl (UnsupportedTool tool))"

definition quarantined :: "output_kind \<Rightarrow> studio_event \<Rightarrow> bool" where
  "quarantined kind e =
     jsonb_text_is (jsonb_get (jsonb_get (se_metadata e) ''outputQuarantine'') ''outputKind'') (kind_name kind)"

definition isStudioOutputKindQuarantined :: "output_kind \<Rightarrow> studio_db \<Rightarrow> bool" where
  "isStudioOutputKindQuarantined kind db = list_ex (quarantined kind) (sd_events db)"

fun kind_tools :: "output_kind \<Rightarrow> string list" where
  "kind_tools ImageOutput = [''image_generate'']"
| "kind_tools VideoOutput = [''video_generate'']"
| "kind_tools AudioOutput = [''music_generate'', ''tts'']"

definition active_status :: "string \<Rightarrow> bool" where
  "active_status st \<longleftrightarrow> st \<in> {''pending'', ''provider_admitted'', ''refund_pending''}"

definition occupies :: "output_kind \<Rightarrow> studio_event \<Rightarrow> bool" where
  "occupies kind e \<longleftrightarrow> active_status (se_status e) \<and>
     list_ex (jsonb_text_is (jsonb_get (se_metadata e) ''tool'')) (kind_tools kind)"

section \<open>Statements\<close>

definition update_events ::
  "(studio_event \<Rightarrow> bool) \<Rightarrow> (studio_event \<Rightarrow> studio_event) \<Rightarrow> studio_db \<Rightarrow> studio_db" where
  "update_events p f db = db\<lparr>sd_events := map (\<lambda>e. if p e then f e else e) (sd_events db)\<rparr>"

definition event_of :: "string \<Rightarrow> studio_db \<Rightarrow> studio_event option" where
  "event_of turnId db = find (\<lambda>e. se_turnId e = Some turnId) (sd_events db)"

text \<open>The state after a transaction: unchanged when it throws.\<close>

definition studio_transaction ::
  "(studio_db \<Rightarrow> (studio_error, studio_db \<times> 'a) res) \<Rightarrow> studio_db \<Rightarrow> studio_db \<times> (studio_error, 'a) res" where
  "studio_transaction body db = (case body db of Inl e \<Rightarrow> (db, Inl e) | Inr (db', a) \<Rightarrow> (db', Inr a))"

definition on_studio_ledger ::
  "(ledger \<Rightarrow> ledger \<times> (manna_error, 'a) res) \<Rightarrow> studio_db \<Rightarrow> (studio_error, studio_db \<times> 'a) res" where
  "on_studio_ledger f db =
     (case f (sd_ledger db) of
        (s, Inl e) \<Rightarrow> Inl (StudioLedgerFailed e)
      | (s, Inr a) \<Rightarrow> Inr (db\<lparr>sd_ledger := s\<rparr>, a))"

text \<open>An integer column, and \<open>v.toFixed(8)\<close> stored in a numeric(20,8) column.\<close>

definition int_column :: "jsnum \<Rightarrow> (studio_error, int) res" where
  "int_column v = (case stored_int v of None \<Rightarrow> Inl (StudioBadNumber v) | Some n \<Rightarrow> Inr n)"

definition opt_int_column :: "jsnum option \<Rightarrow> (studio_error, int option) res" where
  "opt_int_column v = (case v of None \<Rightarrow> Inr None | Some x \<Rightarrow> ebind (int_column x) (\<lambda>n. Inr (Some n)))"

definition fixed8 :: "rat \<Rightarrow> int" where
  "fixed8 x = (if x < 0 then - \<lfloor>- x * 100000000 + 1 / 2\<rfloor> else \<lfloor>x * 100000000 + 1 / 2\<rfloor>)"

definition cost_column :: "jsnum \<Rightarrow> (studio_error, pg_numeric) res" where
  "cost_column v =
     (case v of
        JFin x \<Rightarrow> if \<bar>fixed8 x\<bar> < 10 ^ 20 then Inr (PgNum (fixed8 x)) else Inl (StudioBadNumber v)
      | JNaN \<Rightarrow> Inr PgNaN
      | _ \<Rightarrow> Inl (StudioBadNumber v))"

section \<open>The metadata column\<close>

definition quote_json :: "studio_quote \<Rightarrow> json" where
  "quote_json q = JObj
     [(''action'', JStr (sq_action q)), (''provider'', JStr (sq_provider q)),
      (''model'', JStr (sq_model q)), (''tableVersion'', JStr (sq_tableVersion q)),
      (''costUsd'', stringify_num (sq_costUsd q)), (''manna'', stringify_num (sq_manna q))]"

definition split_json :: "studio_split \<Rightarrow> json" where
  "split_json r = JObj
     [(''idempotencyKey'', JStr (sp_idempotencyKey r)), (''transactionId'', JStr (sp_transactionId r)),
      (''reservedManna'', stringify_num (sp_reservedManna r)),
      (''subscriptionManna'', stringify_num (sp_subscriptionManna r)),
      (''durableManna'', stringify_num (sp_durableManna r))]"

definition metadata_json :: "studio_metadata \<Rightarrow> json_object" where
  "metadata_json m =
     [(''version'', JNum (JFin 1)), (''tool'', JStr (sm_tool m)),
      (''quote'', quote_json (sm_quote m)), (''reservation'', split_json (sm_reservation m))]"

fun read_string :: "json option \<Rightarrow> string option" where
  "read_string (Some (JStr s)) = Some s"
| "read_string _ = None"

fun read_number :: "json option \<Rightarrow> jsnum option" where
  "read_number (Some (JNum v)) = Some v"
| "read_number _ = None"

definition read_quote :: "json option \<Rightarrow> studio_quote option" where
  "read_quote v =
     (case (read_string (jsonb_get v ''action''), read_string (jsonb_get v ''provider''),
            read_string (jsonb_get v ''model''), read_string (jsonb_get v ''tableVersion''),
            read_number (jsonb_get v ''costUsd''), read_number (jsonb_get v ''manna'')) of
        (Some a, Some p, Some m, Some t, Some c, Some n) \<Rightarrow>
          Some \<lparr>sq_action = a, sq_provider = p, sq_model = m, sq_tableVersion = t,
                sq_costUsd = c, sq_manna = n\<rparr>
      | _ \<Rightarrow> None)"

definition read_split :: "json option \<Rightarrow> studio_split option" where
  "read_split v =
     (case (read_string (jsonb_get v ''idempotencyKey''), read_string (jsonb_get v ''transactionId''),
            read_number (jsonb_get v ''reservedManna''), read_number (jsonb_get v ''subscriptionManna''),
            read_number (jsonb_get v ''durableManna'')) of
        (Some k, Some t, Some r, Some s, Some d) \<Rightarrow>
          Some \<lparr>sp_idempotencyKey = k, sp_transactionId = t, sp_reservedManna = r,
                sp_subscriptionManna = s, sp_durableManna = d\<rparr>
      | _ \<Rightarrow> None)"

definition finite_nonneg :: "jsnum \<Rightarrow> bool" where
  "finite_nonneg v \<longleftrightarrow> is_finite v \<and> \<not> js_lt v (JFin 0)"

definition split_valid :: "studio_quote \<Rightarrow> studio_split \<Rightarrow> bool" where
  "split_valid q r \<longleftrightarrow>
     finite_nonneg (sq_costUsd q) \<and> finite_nonneg (sq_manna q) \<and>
     finite_nonneg (sp_reservedManna r) \<and> finite_nonneg (sp_subscriptionManna r) \<and>
     finite_nonneg (sp_durableManna r) \<and>
     js_eq (fix4 (js_add (sp_subscriptionManna r) (sp_durableManna r))) (sp_reservedManna r) \<and>
     js_eq (sq_manna q) (sp_reservedManna r)"

definition readReservationMetadata :: "json option \<Rightarrow> (studio_error, studio_metadata) res" where
  "readReservationMetadata value =
     (case read_string (jsonb_get value ''tool'') of
        None \<Rightarrow> Inl InvalidAuthorizationMetadata
      | Some tool \<Rightarrow>
          if jsonb_get value ''version'' \<noteq> Some (JNum (JFin 1)) then Inl InvalidAuthorizationMetadata
          else
            (case (read_quote (jsonb_get value ''quote''), read_split (jsonb_get value ''reservation'')) of
               (Some q, Some r) \<Rightarrow>
                 if split_valid q r
                 then Inr \<lparr>sm_tool = tool, sm_quote = q, sm_reservation = r\<rparr>
                 else Inl InvalidReservationSplit
             | _ \<Rightarrow> Inl IncompleteAuthorizationMetadata))"

section \<open>Reserving\<close>

record studio_request =
  rq_turnId :: string
  rq_accountId :: string
  rq_tool :: string
  rq_quote :: studio_quote
  rq_reservationKey :: string
  rq_dailyCap :: jsnum

definition studio_debit :: "studio_request \<Rightarrow> debit_params" where
  "studio_debit rq =
     \<lparr>dp_accountId = rq_accountId rq, dp_amount = sq_manna (rq_quote rq),
      dp_type = ''spend:'' @ sq_action (rq_quote rq), dp_idempotencyKey = rq_reservationKey rq,
      dp_taskExternalId = None,
      dp_dailyCap = Some \<lparr>dc_limit = rq_dailyCap rq, dc_now = None\<rparr>, dp_rollingCap = None\<rparr>"

text \<open>The conflicting row the query prefers: quarantined rows come first.\<close>

definition check_conflicts :: "output_kind \<Rightarrow> studio_db \<Rightarrow> (studio_error, unit) res" where
  "check_conflicts kind db =
     (if list_ex (quarantined kind) (sd_events db) then Inl (StudioOutputQuarantinedError kind)
      else if list_ex (occupies kind) (sd_events db) then Inl (StudioGenerationBusyError kind)
      else Inr ())"

definition granted_metadata :: "studio_request \<Rightarrow> ledger_result \<Rightarrow> studio_metadata" where
  "granted_metadata rq debited =
     (let sub = (case lr_subscriptionDrawn debited of None \<Rightarrow> JFin 0 | Some v \<Rightarrow> v);
          manna = sq_manna (rq_quote rq)
      in \<lparr>sm_tool = rq_tool rq, sm_quote = rq_quote rq,
          sm_reservation =
            \<lparr>sp_idempotencyKey = rq_reservationKey rq,
             sp_transactionId = show_nat (tx_id (lr_transaction debited)),
             sp_reservedManna = manna, sp_subscriptionManna = sub,
             sp_durableManna = fix4 (js_sub manna sub)\<rparr>\<rparr>)"

definition pending_event :: "studio_request \<Rightarrow> studio_metadata \<Rightarrow> int \<Rightarrow> int \<Rightarrow> studio_event" where
  "pending_event rq m manna now =
     \<lparr>se_turnId = Some (rq_turnId rq), se_userId = Some (rq_accountId rq), se_status = ''pending'',
      se_provider = Some (sq_provider (rq_quote rq)), se_model = Some (sq_model (rq_quote rq)),
      se_tableVersion = Some (sq_tableVersion (rq_quote rq)), se_costUsd = None,
      se_manna = Some manna, se_latencyMs = None, se_errorCode = None, se_errorMessage = None,
      se_metadata = Some (JObj (metadata_json m)), se_createdAt = now\<rparr>"

definition reserve_studio_tx ::
  "studio_request \<Rightarrow> int \<Rightarrow> studio_db \<Rightarrow> (studio_error, studio_db \<times> studio_reservation) res" where
  "reserve_studio_tx rq now db =
     ebind (outputKindForStudioTool (rq_tool rq)) (\<lambda>kind.
     ebind (check_conflicts kind db) (\<lambda>_.
     ebind (on_studio_ledger (debit (\<lambda>x. x) (studio_debit rq) now) db) (\<lambda>(db1, debited).
       if lr_alreadyApplied debited then Inl (FreshRequestReplayed (rq_turnId rq))
       else
         (let m = granted_metadata rq debited in
          ebind (int_column (sq_manna (rq_quote rq))) (\<lambda>manna.
            if event_of (rq_turnId rq) db1 \<noteq> None then Inl (AuthorizationRefused (rq_turnId rq))
            else if rq_accountId rq \<notin> set (accounts (sd_ledger db1)) then Inl StudioForeignKey
            else Inr (db1\<lparr>sd_events := sd_events db1 @ [pending_event rq m manna now]\<rparr>,
                      \<lparr>sr_turnId = rq_turnId rq, sr_metadata = m\<rparr>))))))"

definition reserveStudioGeneration ::
  "studio_request \<Rightarrow> int \<Rightarrow> studio_db \<Rightarrow> studio_db \<times> (studio_error, studio_reservation) res" where
  "reserveStudioGeneration rq now db = studio_transaction (reserve_studio_tx rq now) db"

section \<open>Admission and completion\<close>

text \<open>The row an admission updates: still pending, with the metadata that was read.\<close>

definition pending_with :: "string \<Rightarrow> json \<Rightarrow> studio_event \<Rightarrow> bool" where
  "pending_with turnId metadata e \<longleftrightarrow> se_turnId e = Some turnId \<and> se_status e = ''pending'' \<and>
     (case se_metadata e of None \<Rightarrow> False | Some j \<Rightarrow> jsonb_eq j metadata)"

definition admittable :: "studio_reservation \<Rightarrow> studio_event \<Rightarrow> bool" where
  "admittable r = pending_with (sr_turnId r) (JObj (metadata_json (sr_metadata r)))"

definition admitStudioGeneration ::
  "studio_reservation \<Rightarrow> studio_db \<Rightarrow> studio_db \<times> (studio_error, unit) res" where
  "admitStudioGeneration r db =
     (if list_ex (admittable r) (sd_events db)
      then (update_events (admittable r) (\<lambda>e. e\<lparr>se_status := ''provider_admitted''\<rparr>) db, Inr ())
      else (db, Inl (ProviderAdmissionUnavailable (sr_turnId r))))"

definition completable :: "studio_reservation \<Rightarrow> studio_event \<Rightarrow> bool" where
  "completable r e \<longleftrightarrow> se_turnId e = Some (sr_turnId r) \<and>
     se_status e \<in> {''pending'', ''provider_admitted''}"

definition completed_event ::
  "studio_reservation \<Rightarrow> string \<Rightarrow> int \<Rightarrow> pg_numeric \<Rightarrow> int \<Rightarrow> studio_event \<Rightarrow> studio_event" where
  "completed_event r creationId manna cost latency e =
     e\<lparr>se_status := ''completed'', se_manna := Some manna, se_costUsd := Some cost,
       se_latencyMs := Some latency, se_errorCode := None, se_errorMessage := None,
       se_metadata := Some (JObj (metadata_json (sr_metadata r) @ [(''creationId'', JStr creationId)]))\<rparr>"

text \<open>Inside the transaction that creates the artifact.\<close>

definition completeStudioGeneration ::
  "studio_reservation \<Rightarrow> string \<Rightarrow> jsnum \<Rightarrow> studio_db \<Rightarrow> (studio_error, studio_db) res" where
  "completeStudioGeneration r creationId latencyMs db =
     ebind (int_column (sq_manna (sm_quote (sr_metadata r)))) (\<lambda>manna.
     ebind (cost_column (sq_costUsd (sm_quote (sr_metadata r)))) (\<lambda>cost.
     ebind (int_column latencyMs) (\<lambda>latency.
       if list_ex (completable r) (sd_events db)
       then Inr (update_events (completable r) (completed_event r creationId manna cost latency) db)
       else Inl (ArtifactCommitRefused (sr_turnId r)))))"

section \<open>Compensation\<close>

datatype compensation_outcome = Refunded | RefundPending | AlreadyTerminal

record compensation =
  cm_turnId :: string
  cm_errorCode :: string
  cm_errorMessage :: string
  cm_latencyMs :: "jsnum option"
  cm_refundType :: "string option"

record studio_failure =
  sf_errorCode :: string
  sf_errorMessage :: string
  sf_latencyMs :: "jsnum option"

definition quarantine_json :: "output_kind \<Rightarrow> string \<Rightarrow> json" where
  "quarantine_json kind stamp =
     JObj [(''version'', JNum (JFin 1)), (''outputKind'', JStr (kind_name kind)), (''markedAt'', JStr stamp)]"

text \<open>The first failure is kept: a row that is already \<open>refund_pending\<close> tells its own.\<close>

definition effective_failure :: "compensation \<Rightarrow> studio_event \<Rightarrow> studio_failure" where
  "effective_failure p e =
     (let again = (se_status e = ''refund_pending'') in
      \<lparr>sf_errorCode =
         (case read_string (jsonb_get (se_metadata e) ''failureCode'') of
            Some c \<Rightarrow> if again then c else cm_errorCode p
          | None \<Rightarrow> cm_errorCode p),
       sf_errorMessage =
         (case se_errorMessage e of
            Some m \<Rightarrow> if again \<and> m \<noteq> [] then m else cm_errorMessage p
          | None \<Rightarrow> cm_errorMessage p),
       sf_latencyMs =
         (case read_number (jsonb_get (se_metadata e) ''failureLatencyMs'') of
            Some l \<Rightarrow> if again then Some l else cm_latencyMs p
          | None \<Rightarrow> cm_latencyMs p)\<rparr>)"

definition failure_patch :: "string \<Rightarrow> studio_failure \<Rightarrow> json option \<Rightarrow> json_object" where
  "failure_patch stamp f quarantine =
     [(''refundAttemptedAt'', JStr stamp), (''failureCode'', JStr (sf_errorCode f))] @
     opt_field ''failureLatencyMs'' (map_option stringify_num (sf_latencyMs f)) @
     opt_field ''outputQuarantine'' quarantine"

definition quarantine_on_mark :: "string \<Rightarrow> studio_event \<Rightarrow> (studio_error, json option) res" where
  "quarantine_on_mark stamp e =
     (if se_status e = ''provider_admitted''
      then ebind (readReservationMetadata (se_metadata e)) (\<lambda>m.
           ebind (outputKindForStudioTool (sm_tool m)) (\<lambda>kind. Inr (Some (quarantine_json kind stamp))))
      else Inr None)"

definition marked_event :: "studio_failure \<Rightarrow> json_object \<Rightarrow> studio_event \<Rightarrow> studio_event" where
  "marked_event f patch e =
     e\<lparr>se_status := ''refund_pending'', se_errorCode := Some ''refund_pending'',
       se_errorMessage := Some (sf_errorMessage f),
       se_metadata := Some (jsonb_concat (case se_metadata e of None \<Rightarrow> JObj [] | Some j \<Rightarrow> j) (JObj patch))\<rparr>"

definition mark_compensation ::
  "string \<Rightarrow> compensation \<Rightarrow> studio_db \<Rightarrow> (studio_error, studio_db \<times> studio_failure option) res" where
  "mark_compensation stamp p db =
     (case event_of (cm_turnId p) db of
        None \<Rightarrow> Inr (db, None)
      | Some e \<Rightarrow>
          if se_status e = ''completed'' \<or> se_status e = ''error'' then Inr (db, None)
          else if \<not> active_status (se_status e) then Inl (UnexpectedStatus (se_status e))
          else
            ebind (quarantine_on_mark stamp e) (\<lambda>q.
              let f = effective_failure p e
              in Inr (update_events (\<lambda>e. se_turnId e = Some (cm_turnId p))
                        (marked_event f (failure_patch stamp f q)) db, Some f)))"

definition reservation_transaction :: "studio_metadata \<Rightarrow> string \<Rightarrow> ledger \<Rightarrow> manna_transaction option" where
  "reservation_transaction m userId s =
     find (\<lambda>t. show_nat (tx_id t) = sp_transactionId (sm_reservation m) \<and>
               tx_idempotency_key t = Some (sp_idempotencyKey (sm_reservation m)) \<and>
               (case manna_row (tx_manna_account_id t) s of
                  None \<Rightarrow> False | Some r \<Rightarrow> ma_account_id r = userId))
       (manna_transactions s)"

text \<open>\<open>reverse\<close> is injectable; its default is \<open>reverseReservation\<close>.\<close>

type_synonym reversal =
  "string \<Rightarrow> jsnum option \<Rightarrow> string option \<Rightarrow> int \<Rightarrow> ledger \<Rightarrow> ledger \<times> (manna_error, refund_leg_result) res"

definition refunded_event :: "studio_failure \<Rightarrow> int option \<Rightarrow> studio_event \<Rightarrow> studio_event" where
  "refunded_event f latency e =
     e\<lparr>se_status := ''error'', se_manna := Some 0, se_costUsd := Some (PgNum 0),
       se_errorCode := Some (sf_errorCode f), se_errorMessage := Some (sf_errorMessage f),
       se_latencyMs := latency\<rparr>"

definition refundable :: "string \<Rightarrow> studio_event \<Rightarrow> bool" where
  "refundable turnId e \<longleftrightarrow> se_turnId e = Some turnId \<and> se_status e = ''refund_pending''"

text \<open>The second transaction after the row and its metadata are read.\<close>

definition pay_back ::
  "reversal \<Rightarrow> compensation \<Rightarrow> studio_failure \<Rightarrow> int \<Rightarrow> studio_metadata \<Rightarrow> string option \<Rightarrow> studio_db
     \<Rightarrow> (studio_error, studio_db \<times> compensation_outcome) res" where
  "pay_back reverse p f now m user db =
     (case user of
        None \<Rightarrow> Inl NoPayer
      | Some userId \<Rightarrow>
          (case reservation_transaction m userId (sd_ledger db) of
             None \<Rightarrow> Inl TransactionIdentityMismatch
           | Some t \<Rightarrow>
               if \<not> js_eq (numericToNumber (tx_amount t)) (js_neg (sp_reservedManna (sm_reservation m)))
                  \<or> tx_type t \<noteq> Some (''spend:'' @ sq_action (sm_quote m))
               then Inl TransactionAmountMismatch
               else
                 ebind (on_studio_ledger
                   (reverse (sp_idempotencyKey (sm_reservation m))
                      (Some (sp_subscriptionManna (sm_reservation m)))
                      (Some (case cm_refundType p of
                               None \<Rightarrow> ''refund:'' @ sq_action (sm_quote m) | Some ty \<Rightarrow> ty)) now) db)
                   (\<lambda>(db1, leg).
                 ebind (opt_int_column (sf_latencyMs f)) (\<lambda>latency.
                   if list_ex (refundable (cm_turnId p)) (sd_events db1)
                   then Inr (update_events (refundable (cm_turnId p)) (refunded_event f latency) db1, Refunded)
                   else Inl TerminalUpdateLostRace))))"

definition finish_compensation ::
  "reversal \<Rightarrow> compensation \<Rightarrow> studio_failure \<Rightarrow> int \<Rightarrow> studio_db
     \<Rightarrow> (studio_error, studio_db \<times> compensation_outcome) res" where
  "finish_compensation reverse p f now db =
     (case event_of (cm_turnId p) db of
        None \<Rightarrow> Inr (db, AlreadyTerminal)
      | Some e \<Rightarrow>
          if se_status e = ''completed'' \<or> se_status e = ''error'' then Inr (db, AlreadyTerminal)
          else if se_status e \<noteq> ''refund_pending'' then Inl LostRefundPending
          else
            ebind (readReservationMetadata (se_metadata e)) (\<lambda>m. pay_back reverse p f now m (se_userId e) db))"

text \<open>
  The two transactions; \<open>env\<close> is what others commit between them. An error of the first one is
  thrown unless the end of the run was recorded, one of the second leaves the row pending.
\<close>

definition compensateStudioGeneration ::
  "reversal \<Rightarrow> (studio_db \<Rightarrow> studio_db) \<Rightarrow> (string \<Rightarrow> studio_db \<Rightarrow> studio_db \<times> bool) \<Rightarrow> string \<Rightarrow> compensation \<Rightarrow> int
     \<Rightarrow> studio_db \<Rightarrow> studio_db \<times> (studio_error, compensation_outcome) res" where
  "compensateStudioGeneration reverse env evidence stamp p now db =
     (case studio_transaction (mark_compensation stamp p) db of
        (db1, Inl e) \<Rightarrow>
          (case evidence (cm_turnId p) db1 of
             (db2, recorded) \<Rightarrow> (db2, if recorded then Inr RefundPending else Inl e))
      | (db1, Inr None) \<Rightarrow> (db1, Inr AlreadyTerminal)
      | (db1, Inr (Some f)) \<Rightarrow>
          (case studio_transaction (finish_compensation reverse p f now) (env db1) of
             (db2, Inl e) \<Rightarrow> (db2, Inr RefundPending)
           | (db2, Inr outcome) \<Rightarrow> (db2, Inr outcome)))"

section \<open>The reaper\<close>

record studio_reap_outcome =
  so_scanned :: nat
  so_reaped :: nat
  so_pending :: nat

definition stale_generations :: "int \<Rightarrow> string list option \<Rightarrow> studio_db \<Rightarrow> string list" where
  "stale_generations cutoff scope db =
     List.map_filter se_turnId (take 200 (sort_key se_createdAt
       (filter (\<lambda>e. se_turnId e \<noteq> None \<and>
          (se_status e = ''refund_pending'' \<or>
           se_status e \<in> {''pending'', ''provider_admitted''} \<and> se_createdAt e < cutoff) \<and>
          (case scope of None \<Rightarrow> True
           | Some ids \<Rightarrow> (case se_userId e of None \<Rightarrow> False | Some u \<Rightarrow> u \<in> set ids)))
         (sd_events db))))"

definition reap_compensation :: "string \<Rightarrow> compensation" where
  "reap_compensation turnId =
     \<lparr>cm_turnId = turnId, cm_errorCode = ''studio_reservation_reaped'',
      cm_errorMessage = ''Studio generation did not commit an artifact before its reservation expired'',
      cm_latencyMs = None, cm_refundType = Some ''refund:studio-reservation-reaped''\<rparr>"

fun reap_generations ::
  "(studio_db \<Rightarrow> studio_db) \<Rightarrow> (string \<Rightarrow> studio_db \<Rightarrow> studio_db \<times> bool) \<Rightarrow> string \<Rightarrow> int \<Rightarrow> string list \<Rightarrow> studio_db
     \<Rightarrow> studio_db \<times> nat \<times> nat" where
  "reap_generations env evidence stamp now [] db = (db, 0, 0)"
| "reap_generations env evidence stamp now (t # ts) db =
     (if t = [] then reap_generations env evidence stamp now ts db
      else
        (case compensateStudioGeneration reverseReservation env evidence stamp (reap_compensation t) now (env db) of
           (db1, outcome) \<Rightarrow>
             (case reap_generations env evidence stamp now ts db1 of
                (db2, reaped, pending) \<Rightarrow>
                  (db2, (if outcome = Inr Refunded then Suc reaped else reaped),
                   (case outcome of Inr RefundPending \<Rightarrow> Suc pending | Inl e \<Rightarrow> Suc pending | _ \<Rightarrow> pending)))))"

text \<open>
  The class: its options, its timer (\<open>sa_timer\<close> is whether one is set) and whether a run is
  going. The accounts of \<open>sa_scope\<close> are all there are when it is not given.
\<close>

record studio_reaper =
  sa_ttlMs :: int
  sa_intervalMs :: int
  sa_scope :: "string list option"
  sa_timer :: bool
  sa_running :: bool

definition new_reaper :: "int option \<Rightarrow> int option \<Rightarrow> string list option \<Rightarrow> studio_reaper" where
  "new_reaper ttlMs intervalMs scope =
     \<lparr>sa_ttlMs = (case ttlMs of None \<Rightarrow> STUDIO_RESERVATION_TTL_MS | Some v \<Rightarrow> v),
      sa_intervalMs = (case intervalMs of None \<Rightarrow> STUDIO_RESERVATION_REAPER_INTERVAL_MS | Some v \<Rightarrow> v),
      sa_scope = scope, sa_timer = False, sa_running = False\<rparr>"

definition reaper_start :: "studio_reaper \<Rightarrow> studio_reaper" where
  "reaper_start r = (if sa_timer r then r else r\<lparr>sa_timer := True\<rparr>)"

definition reaper_stop :: "studio_reaper \<Rightarrow> studio_reaper" where
  "reaper_stop r = r\<lparr>sa_timer := False\<rparr>"

text \<open>\<open>runOnce\<close>: a call during a run answers at once; a run ends with \<open>sa_running\<close> false.\<close>

definition studio_runOnce ::
  "(studio_db \<Rightarrow> studio_db) \<Rightarrow> (string \<Rightarrow> studio_db \<Rightarrow> studio_db \<times> bool) \<Rightarrow> string \<Rightarrow> int \<Rightarrow> studio_reaper \<Rightarrow> studio_db
     \<Rightarrow> studio_reaper \<times> studio_db \<times> studio_reap_outcome" where
  "studio_runOnce env evidence stamp now r db =
     (if sa_running r then (r, db, \<lparr>so_scanned = 0, so_reaped = 0, so_pending = 0\<rparr>)
      else
        (let stale = stale_generations (now - sa_ttlMs r) (sa_scope r) db
         in case reap_generations env evidence stamp now stale db of
              (db', reaped, pending) \<Rightarrow>
                (r\<lparr>sa_running := False\<rparr>, db',
                 \<lparr>so_scanned = length stale, so_reaped = reaped, so_pending = pending\<rparr>)))"

end
