(* ===== verification/FundedRows.thy ===== *)
theory FundedRows
  imports LedgerClients
begin

text \<open>
  Rows that are paid for by a debit of the ledger, as components keep them beside it: what a
  debit under a key of one's own says (\<open>pays\<close>), how it is given back, and the locale
  \<open>funded_rows\<close> of the invariant and the moves that such components share.
\<close>

section \<open>The debit of a row\<close>

definition pays :: "ledger \<Rightarrow> string \<Rightarrow> string \<Rightarrow> manna_transaction \<Rightarrow> int \<Rightarrow> bool" where
  "pays s key userId t a \<longleftrightarrow>
     t \<in> set (manna_transactions s) \<and> tx_idempotency_key t = Some key \<and>
     tx_amount t = - a \<and> 0 < a \<and> a \<le> unit_bound \<and>
     (case manna_row (tx_manna_account_id t) s of None \<Rightarrow> False | Some r \<Rightarrow> ma_account_id r = userId)"

lemma pays_touches:
  assumes "pays s key userId t a" "extends s s'" "keeps_owners s s'"
  shows "pays s' key userId t a"
proof -
  have "t \<in> set (manna_transactions s)" using assms(1) by (simp add: pays_def)
  then have "t \<in> set (manna_transactions s')" by (rule extends_rows [OF assms(2)])
  moreover obtain r where r: "manna_row (tx_manna_account_id t) s = Some r" "ma_account_id r = userId"
    using assms(1) by (auto simp: pays_def split: option.splits)
  moreover obtain r' where "manna_row (tx_manna_account_id t) s' = Some r'" "ma_account_id r' = userId"
    using assms(3) r unfolding keeps_owners_def by blast
  ultimately show ?thesis using assms(1) by (simp add: pays_def)
qed

lemma pays_found: "pays s key userId t a \<Longrightarrow> ledger_inv s \<Longrightarrow> findTransactionByKey key s = Some t"
  by (rule tx_by_key) (simp_all add: pays_def)

lemma show_nat_inj: "show_nat m = show_nat n \<Longrightarrow> m = n"
  by (metis digits_val_show_nat)

text \<open>The transaction a row names by its identifier, key and payer is the one that pays for it.\<close>

lemma pays_transaction:
  assumes "pays s key userId t a" "ledger_inv s"
  shows "find (\<lambda>u. show_nat (tx_id u) = show_nat (tx_id t) \<and> tx_idempotency_key u = Some key \<and>
    (case manna_row (tx_manna_account_id u) s of None \<Rightarrow> False | Some r \<Rightarrow> ma_account_id r = userId))
    (manna_transactions s) = Some t"
proof -
  have t: "t \<in> set (manna_transactions s)" using assms(1) by (simp add: pays_def)
  have "distinct (map tx_id (manna_transactions s))" using assms(2) by (simp add: ledger_inv_def txs_ok_def)
  then have "distinct (map (\<lambda>t. show_nat (tx_id t)) (manna_transactions s))"
    using show_nat_inj by (auto simp: distinct_map inj_on_def)
  from find_unique [OF this t]
  have f: "find (\<lambda>u. show_nat (tx_id u) = show_nat (tx_id t)) (manna_transactions s) = Some t" .
  have "find (\<lambda>u. show_nat (tx_id u) = show_nat (tx_id t) \<and> q u) xs = Some t"
    if "find (\<lambda>u. show_nat (tx_id u) = show_nat (tx_id t)) xs = Some t" "q t" for xs q
    using that by (induction xs) (auto split: if_split_asm)
  from this [OF f] show ?thesis using assms(1) by (simp add: pays_def)
qed

text \<open>A newly charged debit of a whole amount pays.\<close>

lemma new_debit_pays:
  assumes db: "debit (\<lambda>x. x) p now s = (s', Inr r)" "\<not> lr_alreadyApplied r" and inv: "ledger_inv s"
    and amount: "dp_amount p = JFin (of_int n)" and bound: "\<bar>10000 * n\<bar> \<le> unit_bound"
  obtains b where "pays s' (dp_idempotencyKey p) (dp_accountId p) (lr_transaction r) (10000 * n)"
    "tx_type (lr_transaction r) = Some (dp_type p)" "lr_subscriptionDrawn r = Some (JFin (unit_val b))"
    "0 \<le> b" "b \<le> 10000 * n" "refunded_units (tx_id (lr_transaction r)) s' = 0"
proof -
  obtain s1 and acc :: manna_account and x
    where x: "dp_amount p = JFin x" "0 < fixed4 x"
      and g: "getOrCreateMannaAccount (\<lambda>x. x) (dp_accountId p) now s = Inr (s1, acc)"
      and ap: "apply_debit p now (ma_id acc) s1 = Inr (s', r)"
    by (rule debit_new_charge [OF db]) (rule that, assumption+)
  have xn: "x = of_int n" using x(1) amount by simp
  have fx: "fixed4 x = 10000 * n" by (simp add: xn)
  have I: "ledger_inv s1" "acc \<in> set (manna_accounts s1)" using getOrCreate_inv [OF g inv] by simp_all
  have A: "accounts_ok s1" using I(1) by (simp add: ledger_inv_def)
  have owner: "ma_account_id acc = dp_accountId p"
    using g by (cases rule: getOrCreate_id_cases) (auto dest: account_row_SomeD)
  obtain locked row where l: "manna_row (ma_id acc) s1 = Some locked"
    and ins: "insert_transaction
       ((blank_tx (ma_id acc) (- fixed4 x) now)\<lparr>tx_type := Some (dp_type p),
          tx_idempotency_key := Some (dp_idempotencyKey p),
          tx_task_external_id := dp_taskExternalId p\<rparr>)
       (update_account (ma_id acc) (draw_down (fixed4 x) now) s1) = Inr (s', row)"
    and r: "r = \<lparr>lr_transaction = row, lr_balance = balanceFromRow (Some (draw_down (fixed4 x) now locked)),
          lr_alreadyApplied = False,
          lr_subscriptionDrawn =
            Some (fix4 (js_min (numericToNumber (ma_subscription_balance locked)) (JFin x)))\<rparr>"
    by (rule apply_debit_InrD [OF ap x(1)]) (rule that, assumption+)
  have la: "locked = acc" using distinct_row [OF A l I(2)] by simp
  note d = insert_transaction_InrD [OF ins, simplified]
  have ub: "fixed4 x \<le> unit_bound" using bound fx by simp
  define b where "b = min (ma_subscription_balance acc) (fixed4 x)"
  have sb: "0 \<le> ma_subscription_balance acc" using A I(2) by (simp add: accounts_ok_def)
  have sub: "lr_subscriptionDrawn r = Some (JFin (unit_val b))"
    using drawn_units [OF sb, of x] x(2) ub r la by (simp add: b_def)
  have tx: "lr_transaction r = row" by (simp add: r)
  have "manna_row (ma_id acc) s' = Some (draw_down (fixed4 x) now acc)"
    using l la by (simp add: manna_row_insert [OF ins] manna_row_update)
  then have row: "case manna_row (tx_manna_account_id row) s' of None \<Rightarrow> False | Some q \<Rightarrow> ma_account_id q = dp_accountId p"
    using owner d(1) by (simp add: blank_tx_def draw_down_def)
  have pay: "pays s' (dp_idempotencyKey p) (dp_accountId p) (lr_transaction r) (10000 * n)"
    unfolding pays_def tx using row x(2) ub d(1,2) fx by (auto simp: blank_tx_def)
  have ty: "tx_type (lr_transaction r) = Some (dp_type p)" using d(1) by (simp add: tx blank_tx_def)
  have "linked_refunds (\<lambda>_. True) (next_id s1) s1 = 0"
    using I(1) by (intro linked_refunds_none) (auto simp: ledger_inv_def txs_ok_def)
  then have none: "refunded_units (tx_id (lr_transaction r)) s' = 0"
    unfolding refunded_units_def linked_refunds_append [OF d(2)] tx using d(1) by (simp add: blank_tx_def)
  show thesis
    by (rule that [OF pay ty sub _ _ none]) (use sb x(2) fx in \<open>simp_all add: b_def\<close>)
qed

section \<open>Giving back\<close>

lemma pays_reversed:
  assumes pay: "pays s key userId t a" and inv: "ledger_inv s" and none: "refunded_units (tx_id t) s = 0"
    and b: "0 \<le> b" "b \<le> a"
    and rv: "reverseReservation key (Some (JFin (unit_val b))) ty now s = (s', Inr leg)"
  shows "refunded_units (tx_id t) s' = a \<and> touches {key} s s'"
proof -
  have t: "tx_amount t = - a" "0 < a" "a \<le> unit_bound" using pay unfolding pays_def by blast+
  have "refunded_units (tx_id t) s' = a"
    using reverse_refunds [OF rv inv pays_found [OF pay inv] _ b(1) _ none] t b(2) by simp
  moreover have "s' = ledger_step s (ReverseOp key (Some (JFin (unit_val b))) ty now)" using rv by simp
  then have "touches {key} s s'" using step_touches [OF inv, of "ReverseOp key (Some (JFin (unit_val b))) ty now"] by simp
  ultimately show ?thesis ..
qed

text \<open>
  The key of the refund is free, and each pot of the payer's account has room for the whole debit.
\<close>

definition refund_room :: "string \<Rightarrow> ledger \<Rightarrow> bool" where
  "refund_room key s \<longleftrightarrow> findTransactionByKey (refundIdempotencyKey key) s = None \<and>
     (case findTransactionByKey key s of None \<Rightarrow> False
      | Some t \<Rightarrow> (case manna_row (tx_manna_account_id t) s of None \<Rightarrow> False
         | Some r \<Rightarrow> pg_fits (ma_balance r - tx_amount t) \<and> pg_fits (ma_subscription_balance r - tx_amount t)))"

lemma pays_reversal_succeeds:
  assumes pay: "pays s key userId t a" and inv: "ledger_inv s" and none: "refunded_units (tx_id t) s = 0"
    and b: "0 \<le> b" "b \<le> a" and room: "refund_room key s"
  shows "\<exists>s' leg. reverseReservation key (Some (JFin (unit_val b))) ty now s = (s', Inr leg)"
proof -
  have t: "t \<in> set (manna_transactions s)" "tx_amount t = - a" "0 < a" "a \<le> unit_bound"
    using pay unfolding pays_def by blast+
  note orig = pays_found [OF pay inv]
  obtain r where r: "manna_row (tx_manna_account_id t) s = Some r"
    using pay by (auto simp: pays_def split: option.splits)
  have rm: "r \<in> set (manna_accounts s)" using manna_row_SomeD [OF r] by simp
  define p where "p = reverse_leg key ty a (min b a)"
  have amt: "rl_amount p = Some (JFin (unit_val a))" using unit_val_pos [OF t(3,4)] by (simp add: p_def reverse_leg_def)
  have share: "leg_share (rl_toSubscription p) a = b"
    using b t(4) by (simp add: leg_share_def p_def reverse_leg_def)
  have "0 \<le> ma_balance r" "0 \<le> ma_subscription_balance r"
    using inv rm by (simp_all add: ledger_inv_def accounts_ok_def)
  then have fits: "pg_fits (ma_balance r + (a - b))" "pg_fits (ma_subscription_balance r + b)"
    using room b t(2) orig r by (auto simp: refund_room_def pg_fits_def)
  have "\<exists>s' leg. refundLeg (\<lambda>x. x) p now s = (s', Inr (Some leg))"
  proof (rule leg_succeeds [OF inv _ _ _ _ _ _ r])
    show "findTransactionByKey (leg_key p) s = None"
      using room by (simp add: refund_room_def leg_key_def p_def reverse_leg_def)
    show "findTransactionByKey (rl_originalIdempotencyKey p) s = Some t" using orig by (simp add: p_def reverse_leg_def)
    show "rl_amount p = Some (JFin (unit_val a)) \<or> rl_amount p = None \<and> a = - tx_amount t - refunded_units (tx_id t) s"
      using amt by simp
    show "rl_toSubscription p \<noteq> Some JNaN" by (simp add: p_def reverse_leg_def)
    show "pg_fits (ma_balance r + (a - leg_share (rl_toSubscription p) a))"
      "pg_fits (ma_subscription_balance r + leg_share (rl_toSubscription p) a)"
      using fits by (simp_all add: share)
  qed (use t none in simp_all)
  then obtain s' leg where leg: "refundLeg (\<lambda>x. x) p now s = (s', Inr (Some leg))" by blast
  have neg: "tx_amount t < 0" and bu: "b \<le> unit_bound" and m: "a = - tx_amount t - refunded_units (tx_id t) s"
    using t b none by simp_all
  have "reverseReservation key (Some (JFin (unit_val b))) ty now s = (s', Inr leg)"
    unfolding reverse_eq [OF inv orig neg b(1) bu m] p_def [symmetric] leg_or_abort_Inr by (rule leg)
  then show ?thesis by blast
qed

section \<open>Components that keep such rows\<close>

text \<open>
  \<open>ok\<close> is what the invariant says of a row on a ledger, \<open>le\<close> how a row may change, \<open>key_of\<close> the
  key of the debit of a row, and \<open>slots\<close> the places of which a row takes at most one alone.
\<close>

locale funded_rows =
  fixes id_of :: "'e \<Rightarrow> string option"
    and key_of :: "string \<Rightarrow> string"
    and ok :: "ledger \<Rightarrow> 'e \<Rightarrow> bool"
    and le :: "'e \<Rightarrow> 'e \<Rightarrow> bool"
    and slots :: "'k \<Rightarrow> 'e \<Rightarrow> bool"
  assumes ok_touches: "ok s e \<Longrightarrow> touches K s s' \<Longrightarrow> (\<And>t. id_of e = Some t \<Longrightarrow> key_of t \<notin> K) \<Longrightarrow> ok s' e"
    and le_refl: "le e e"
    and le_trans: "le a b \<Longrightarrow> le b c \<Longrightarrow> le a c"
    and le_id: "le e e' \<Longrightarrow> id_of e' = id_of e"
    and le_slots: "le e e' \<Longrightarrow> slots k e' \<Longrightarrow> slots k e"
    and key_inj: "key_of t = key_of u \<Longrightarrow> t = u"
begin

definition rows_inv :: "ledger \<Rightarrow> 'e list \<Rightarrow> bool" where
  "rows_inv s es \<longleftrightarrow> ledger_inv s \<and> distinct (map id_of es) \<and> (\<forall>e \<in> set es. ok s e) \<and>
     (\<forall>k. length (filter (slots k) es) \<le> 1)"

definition rows_le :: "ledger \<Rightarrow> 'e list \<Rightarrow> ledger \<Rightarrow> 'e list \<Rightarrow> bool" where
  "rows_le s es s' es' \<longleftrightarrow> extends s s' \<and> (\<forall>e \<in> set es. \<exists>e' \<in> set es'. le e e')"

lemma rows_le_refl [simp, intro]: "rows_le s es s es"
  unfolding rows_le_def using le_refl by blast

lemma rows_le_trans: "rows_le s es t fs \<Longrightarrow> rows_le t fs u gs \<Longrightarrow> rows_le s es u gs"
  unfolding rows_le_def using extends_trans le_trans by meson

text \<open>Other transactions commit something on the ledger.\<close>

lemma rows_ledger_moved:
  assumes "rows_inv s es" "touches K s s'" "\<And>e t. e \<in> set es \<Longrightarrow> id_of e = Some t \<Longrightarrow> key_of t \<notin> K"
  shows "rows_inv s' es \<and> rows_le s es s' es"
proof -
  have "ok s' e" if "e \<in> set es" for e
    using assms that by (intro ok_touches [OF _ assms(2)]) (auto simp: rows_inv_def)
  then show ?thesis using assms(1,2) le_refl by (auto simp: rows_inv_def rows_le_def touches_def)
qed

text \<open>The rows of one identifier change, and the ledger for its debit.\<close>

lemma rows_move:
  assumes inv: "rows_inv s es" and one: "\<And>e. p e \<Longrightarrow> id_of e = Some turnId"
    and s: "touches {key_of turnId} s s'"
    and moved: "\<And>e. e \<in> set es \<Longrightarrow> p e \<Longrightarrow> ok s' (f e) \<and> le e (f e)"
    and kept: "\<And>e. e \<in> set es \<Longrightarrow> id_of e = Some turnId \<Longrightarrow> \<not> p e \<Longrightarrow> ok s' e"
    and es': "es' = map (\<lambda>e. if p e then f e else e) es"
  shows "rows_inv s' es' \<and> rows_le s es s' es'"
proof -
  define g where "g e = (if p e then f e else e)" for e
  have ev: "es' = map g es" by (simp add: es' g_def)
  have gle: "le e (g e)" if "e \<in> set es" for e using that moved le_refl by (simp add: g_def)
  have ids: "map id_of (map g es) = map id_of es"
    using gle le_id by simp
  have "ok s' (g e)" if e: "e \<in> set es" for e
  proof (cases "id_of e = Some turnId")
    case False
    have "key_of t \<notin> {key_of turnId}" if "id_of e = Some t" for t
      using False that key_inj by auto
    then have "ok s' e" using inv e by (intro ok_touches [OF _ s]) (auto simp: rows_inv_def)
    then show ?thesis using False one by (auto simp: g_def)
  qed (use e moved kept in \<open>auto simp: g_def\<close>)
  moreover have "length (filter (slots k) (map g es)) \<le> length (filter (slots k) es)" for k
  proof -
    have "\<forall>e \<in> set xs. le e (g e) \<Longrightarrow> length (filter (slots k) (map g xs)) \<le> length (filter (slots k) xs)" for xs
      using le_slots by (induction xs) auto
    then show ?thesis using gle by blast
  qed
  then have "length (filter (slots k) (map g es)) \<le> 1" for k
    using inv order_trans unfolding rows_inv_def by blast
  ultimately have "rows_inv s' es'"
    using inv s unfolding rows_inv_def by (auto simp: ev ids touches_def simp del: map_map)
  moreover have "rows_le s es s' es'" using gle s by (auto simp: rows_le_def ev touches_def)
  ultimately show ?thesis by simp
qed

text \<open>The same, with the ledger as it was.\<close>

lemma rows_move_only:
  assumes inv: "rows_inv s es" and one: "\<And>e. p e \<Longrightarrow> id_of e = Some turnId"
    and moved: "\<And>e. e \<in> set es \<Longrightarrow> p e \<Longrightarrow> ok s (f e) \<and> le e (f e)"
    and es': "es' = map (\<lambda>e. if p e then f e else e) es"
  shows "rows_inv s es' \<and> rows_le s es s es'"
proof -
  have t: "touches {key_of turnId} s s" using inv by (intro touches_refl) (simp add: rows_inv_def)
  have "ok s e" if "e \<in> set es" for e using inv that by (simp add: rows_inv_def)
  with rows_move [OF inv _ t, of p f] one moved es' show ?thesis by blast
qed

text \<open>A row with an identifier of its own and a slot that is free.\<close>

lemma rows_append:
  assumes inv: "rows_inv s es" and s: "touches {} s s'" and e: "ok s' e" "id_of e \<notin> id_of ` set es"
    and free: "\<And>k. slots k e \<Longrightarrow> filter (slots k) es = []"
  shows "rows_inv s' (es @ [e]) \<and> rows_le s es s' (es @ [e])"
proof -
  have m: "rows_inv s' es \<and> rows_le s es s' es" by (rule rows_ledger_moved [OF inv s]) simp
  have "length (filter (slots k) (es @ [e])) \<le> 1" for k using m free [of k] by (auto simp: rows_inv_def)
  moreover have "distinct (map id_of (es @ [e]))" using m e(2) by (auto simp: rows_inv_def)
  ultimately show ?thesis using m e le_refl by (auto simp: rows_inv_def rows_le_def)
qed

text \<open>A row is found by its identifier, and is found again later.\<close>

lemma row_iff:
  assumes "rows_inv s es"
  shows "find (\<lambda>e. id_of e = Some t) es = Some e \<longleftrightarrow> e \<in> set es \<and> id_of e = Some t"
proof
  have d: "distinct (map id_of es)" using assms by (simp add: rows_inv_def)
  assume "e \<in> set es \<and> id_of e = Some t"
  then show "find (\<lambda>e. id_of e = Some t) es = Some e" using find_unique [OF d, of e] by simp
next
  assume "find (\<lambda>e. id_of e = Some t) es = Some e"
  then show "e \<in> set es \<and> id_of e = Some t" by (rule find_SomeD)
qed

lemma row_stays:
  assumes "rows_inv s' es'" "rows_le s es s' es'" "find (\<lambda>e. id_of e = Some t) es = Some e"
  obtains e' where "find (\<lambda>e. id_of e = Some t) es' = Some e'" "le e e'"
proof -
  have m: "e \<in> set es" "id_of e = Some t" using find_SomeD [OF assms(3)] by simp_all
  then obtain e' where e': "e' \<in> set es'" "le e e'" using assms(2) unfolding rows_le_def by blast
  then have "id_of e' = Some t" using m(2) le_id by simp
  then show thesis using that row_iff [OF assms(1), of t e'] e' by simp
qed

end

end
