(* ===== verification/StudioFacts.thy ===== *)
theory StudioFacts
  imports StudioReservations FundedRows TurnAuthSteps
begin

text \<open>
  The invariant of studio generations: every row names the debit that funds it, what was given
  back of the debit is what its status says, and at most one row per output kind is active.
\<close>

section \<open>Metadata\<close>

text \<open>What the reader sees of a column depends on four members only.\<close>

definition same_members :: "json_object \<Rightarrow> json_object \<Rightarrow> bool" where
  "same_members a b \<longleftrightarrow>
     (\<forall>k \<in> {''version'', ''tool'', ''quote'', ''reservation''}. member a k = member b k)"

lemma read_same_members:
  "same_members a b \<Longrightarrow> readReservationMetadata (Some (JObj a)) = readReservationMetadata (Some (JObj b))"
proof -
  assume "same_members a b"
  then have same: "jsonb_get (Some (JObj a)) k = jsonb_get (Some (JObj b)) k"
    if "k \<in> {''version'', ''tool'', ''quote'', ''reservation''}" for k
    using that unfolding same_members_def jsonb_get_def option.case json.case by (rule bspec)
  note eqs = same [of "''version''", simplified] same [of "''tool''", simplified]
    same [of "''quote''", simplified] same [of "''reservation''", simplified]
  show ?thesis unfolding readReservationMetadata_def eqs ..
qed

lemma read_quote_json: "finite_nonneg (sq_costUsd q) \<Longrightarrow> finite_nonneg (sq_manna q) \<Longrightarrow> read_quote (Some (quote_json q)) = Some q"
  by (simp add: read_quote_def quote_json_def jsonb_get_def member_def stringify_num_def finite_nonneg_def)

lemma read_split_json:
  "finite_nonneg (sp_reservedManna r) \<Longrightarrow> finite_nonneg (sp_subscriptionManna r) \<Longrightarrow> finite_nonneg (sp_durableManna r)
   \<Longrightarrow> read_split (Some (split_json r)) = Some r"
  by (simp add: read_split_def split_json_def jsonb_get_def member_def stringify_num_def finite_nonneg_def)

text \<open>The reader undoes the writer, whatever members follow.\<close>

lemma read_metadata_json:
  assumes "split_valid (sm_quote m) (sm_reservation m)"
  shows "readReservationMetadata (Some (JObj (metadata_json m @ rest))) = Inr m"
proof -
  have "read_quote (Some (quote_json (sm_quote m))) = Some (sm_quote m)"
    "read_split (Some (split_json (sm_reservation m))) = Some (sm_reservation m)"
    using assms by (simp_all add: split_valid_def read_quote_json read_split_json)
  then show ?thesis using assms
    by (simp add: readReservationMetadata_def metadata_json_def jsonb_get_def member_def)
qed

lemma patch_keys:
  "k \<in> {''version'', ''tool'', ''quote'', ''reservation''} \<Longrightarrow> map_of (rev (failure_patch stamp f q)) k = None"
  by (cases "sf_latencyMs f"; cases q) (auto simp: failure_patch_def opt_field_def)

lemma patched_members: "same_members (merge_members obj (failure_patch stamp f q)) obj"
  using patch_keys by (simp add: same_members_def member_merge del: insert_iff)

text \<open>A mark of quarantine stays under later patches.\<close>

lemma patched_quarantine:
  "quarantined k (marked_event f (failure_patch stamp g q) e) \<longleftrightarrow>
     (case q of Some j \<Rightarrow> jsonb_text_is (jsonb_get (Some j) ''outputKind'') (kind_name k)
      | None \<Rightarrow> quarantined k e)"
  if "se_metadata e = Some (JObj obj)"
  using that
  by (cases q; cases "sf_latencyMs g")
    (simp_all add: quarantined_def marked_event_def failure_patch_def opt_field_def jsonb_get_def member_merge)

section \<open>The invariant\<close>

text \<open>The key the route gives a reservation (apps/api/src/routes/studio.ts).\<close>

definition studioReservationKey :: "string \<Rightarrow> string" where
  "studioReservationKey requestId = ''studio:'' @ requestId @ '':reserve''"

definition studio_statuses :: "string set" where
  "studio_statuses = {''pending'', ''provider_admitted'', ''refund_pending'', ''completed'', ''error''}"

text \<open>The debit that the metadata of a generation names, and its price in ledger units.\<close>

definition funds :: "ledger \<Rightarrow> string \<Rightarrow> string \<Rightarrow> studio_metadata \<Rightarrow> manna_transaction \<Rightarrow> int \<Rightarrow> bool" where
  "funds s turnId userId m t a \<longleftrightarrow>
     pays s (studioReservationKey turnId) userId t a \<and>
     tx_type t = Some (''spend:'' @ sq_action (sm_quote m)) \<and>
     sp_idempotencyKey (sm_reservation m) = studioReservationKey turnId \<and>
     sp_transactionId (sm_reservation m) = show_nat (tx_id t) \<and>
     sp_reservedManna (sm_reservation m) = JFin (unit_val a) \<and>
     (\<exists>b. sp_subscriptionManna (sm_reservation m) = JFin (unit_val b) \<and> 0 \<le> b \<and> b \<le> a) \<and>
     split_valid (sm_quote m) (sm_reservation m) \<and>
     (\<exists>kind. outputKindForStudioTool (sm_tool m) = Inr kind)"

definition event_ok :: "ledger \<Rightarrow> studio_event \<Rightarrow> bool" where
  "event_ok s e \<longleftrightarrow> se_status e \<in> studio_statuses \<and>
     ((\<exists>k. quarantined k e) \<longrightarrow> se_status e = ''refund_pending'' \<or> se_status e = ''error'') \<and>
     (\<exists>turnId userId obj m t a. se_turnId e = Some turnId \<and> se_userId e = Some userId \<and>
        se_metadata e = Some (JObj obj) \<and> readReservationMetadata (Some (JObj obj)) = Inr m \<and>
        funds s turnId userId m t a \<and>
        refunded_units (tx_id t) s = (if se_status e = ''error'' then a else 0))"

definition studio_inv :: "studio_db \<Rightarrow> bool" where
  "studio_inv db \<longleftrightarrow> ledger_inv (sd_ledger db) \<and> distinct (map se_turnId (sd_events db)) \<and>
     (\<forall>e \<in> set (sd_events db). event_ok (sd_ledger db) e) \<and>
     (\<forall>k. length (filter (occupies k) (sd_events db)) \<le> 1)"

text \<open>How a row may change.\<close>

definition event_le :: "studio_event \<Rightarrow> studio_event \<Rightarrow> bool" where
  "event_le e e' \<longleftrightarrow> se_turnId e' = se_turnId e \<and> se_userId e' = se_userId e \<and>
     (se_status e = ''completed'' \<or> se_status e = ''error'' \<longrightarrow> e' = e) \<and>
     (se_status e = ''refund_pending'' \<longrightarrow> se_status e' = ''refund_pending'' \<or> se_status e' = ''error'') \<and>
     (se_status e \<noteq> ''pending'' \<longrightarrow> se_status e' \<noteq> ''pending'') \<and>
     readReservationMetadata (se_metadata e') = readReservationMetadata (se_metadata e) \<and>
     (\<forall>k. quarantined k e \<longrightarrow> quarantined k e') \<and>
     (\<forall>k. occupies k e' \<longrightarrow> occupies k e)"

definition studio_le :: "studio_db \<Rightarrow> studio_db \<Rightarrow> bool" where
  "studio_le db db' \<longleftrightarrow> extends (sd_ledger db) (sd_ledger db') \<and>
     (\<forall>e \<in> set (sd_events db). \<exists>e' \<in> set (sd_events db'). event_le e e')"

lemma event_le_refl [simp, intro]: "event_le e e"
  by (simp add: event_le_def)

lemma studio_le_refl [simp, intro]: "studio_le db db"
  unfolding studio_le_def using event_le_refl by blast

lemma event_le_trans: "event_le a b \<Longrightarrow> event_le b c \<Longrightarrow> event_le a c"
  unfolding event_le_def by metis

lemma studio_le_trans: "studio_le a b \<Longrightarrow> studio_le b c \<Longrightarrow> studio_le a c"
  unfolding studio_le_def using extends_trans event_le_trans by meson

section \<open>Moves\<close>

lemma funds_touches:
  "funds s turnId userId m t a \<Longrightarrow> extends s s' \<Longrightarrow> keeps_owners s s' \<Longrightarrow> funds s' turnId userId m t a"
  unfolding funds_def using pays_touches by blast

text \<open>What a row of the invariant says, as one fact to take apart and to put together.\<close>

lemma event_okE:
  assumes "event_ok s e"
  obtains turnId userId obj m t a where "se_turnId e = Some turnId" "se_userId e = Some userId"
    "se_metadata e = Some (JObj obj)" "readReservationMetadata (Some (JObj obj)) = Inr m"
    "funds s turnId userId m t a" "refunded_units (tx_id t) s = (if se_status e = ''error'' then a else 0)"
  using assms unfolding event_ok_def by blast

lemma event_okI:
  assumes "se_status e \<in> studio_statuses"
    "\<And>k. quarantined k e \<Longrightarrow> se_status e = ''refund_pending'' \<or> se_status e = ''error''"
    "se_turnId e = Some turnId" "se_userId e = Some userId" "se_metadata e = Some (JObj obj)"
    "readReservationMetadata (Some (JObj obj)) = Inr m" "funds s turnId userId m t a"
    "refunded_units (tx_id t) s = (if se_status e = ''error'' then a else 0)"
  shows "event_ok s e"
  unfolding event_ok_def using assms by blast

lemma event_okD:
  "event_ok s e \<Longrightarrow> se_status e \<in> studio_statuses"
  "event_ok s e \<Longrightarrow> quarantined k e \<Longrightarrow> se_status e = ''refund_pending'' \<or> se_status e = ''error''"
  unfolding event_ok_def by blast+

lemma event_touches:
  assumes e: "event_ok s e" and s: "touches K s s'" and k: "\<And>t. se_turnId e = Some t \<Longrightarrow> studioReservationKey t \<notin> K"
  shows "event_ok s' e"
proof -
  obtain turnId userId obj m t a where h: "se_turnId e = Some turnId" "se_userId e = Some userId"
    "se_metadata e = Some (JObj obj)" "readReservationMetadata (Some (JObj obj)) = Inr m"
    "funds s turnId userId m t a" "refunded_units (tx_id t) s = (if se_status e = ''error'' then a else 0)"
    by (rule event_okE [OF e])
  have t: "t \<in> set (manna_transactions s)" "tx_idempotency_key t = Some (studioReservationKey turnId)"
    using h(5) unfolding funds_def pays_def by blast+
  have "tx_idempotency_key t \<notin> Some ` K" using k [OF h(1)] t(2) by auto
  then have "refunded_units (tx_id t) s' = refunded_units (tx_id t) s" using s t(1) unfolding touches_def by blast
  moreover have "funds s' turnId userId m t a"
    by (rule funds_touches [OF h(5)]) (use s in \<open>simp_all add: touches_def\<close>)
  ultimately show ?thesis by (intro event_okI [OF event_okD(1) [OF e] event_okD(2) [OF e] h(1-4)]) (simp_all add: h(6))
qed

text \<open>Generations as rows that are paid for: the moves of the invariant.\<close>

interpretation sf: funded_rows se_turnId studioReservationKey event_ok event_le occupies
proof unfold_locales
  fix s K s' e assume "event_ok s e" "touches K s s'" "\<And>t. se_turnId e = Some t \<Longrightarrow> studioReservationKey t \<notin> K"
  then show "event_ok s' e" by (rule event_touches)
next
  show "event_le a b \<Longrightarrow> event_le b c \<Longrightarrow> event_le a c" for a b c by (rule event_le_trans)
qed (simp_all add: event_le_def studioReservationKey_def)

lemma studio_rows:
  "studio_inv db = sf.rows_inv (sd_ledger db) (sd_events db)"
  "studio_le db db' = sf.rows_le (sd_ledger db) (sd_events db) (sd_ledger db') (sd_events db')"
  by (simp_all add: studio_inv_def sf.rows_inv_def studio_le_def sf.rows_le_def)

text \<open>Other transactions commit something on the ledger.\<close>

lemma ledger_moved:
  assumes "studio_inv db" "touches K (sd_ledger db) s'"
    "\<And>e t. e \<in> set (sd_events db) \<Longrightarrow> se_turnId e = Some t \<Longrightarrow> studioReservationKey t \<notin> K"
  shows "studio_inv (db\<lparr>sd_ledger := s'\<rparr>) \<and> studio_le db (db\<lparr>sd_ledger := s'\<rparr>)"
  using sf.rows_ledger_moved [OF assms(1) [unfolded studio_rows] assms(2)] assms(3) by (simp add: studio_rows)

text \<open>The rows of one generation change, and the ledger for its debit.\<close>

lemma event_move:
  assumes inv: "studio_inv db" and one: "\<And>e. p e \<Longrightarrow> se_turnId e = Some turnId"
    and s: "touches {studioReservationKey turnId} (sd_ledger db) s'"
    and moved: "\<And>e. e \<in> set (sd_events db) \<Longrightarrow> p e \<Longrightarrow> event_ok s' (f e) \<and> event_le e (f e)"
    and kept: "\<And>e. e \<in> set (sd_events db) \<Longrightarrow> se_turnId e = Some turnId \<Longrightarrow> \<not> p e \<Longrightarrow> event_ok s' e"
  shows "studio_inv ((update_events p f db)\<lparr>sd_ledger := s'\<rparr>) \<and>
    studio_le db ((update_events p f db)\<lparr>sd_ledger := s'\<rparr>)"
proof -
  have "sf.rows_inv s' (sd_events (update_events p f db)) \<and>
      sf.rows_le (sd_ledger db) (sd_events db) s' (sd_events (update_events p f db))"
    by (rule sf.rows_move [where p = p and f = f, OF inv [unfolded studio_rows] one s moved kept]) (simp_all add: update_events_def)
  then show ?thesis by (simp add: studio_rows)
qed

text \<open>The same, with the ledger as it was.\<close>

lemma event_move_only:
  assumes inv: "studio_inv db" and one: "\<And>e. p e \<Longrightarrow> se_turnId e = Some turnId"
    and moved: "\<And>e. e \<in> set (sd_events db) \<Longrightarrow> p e \<Longrightarrow> event_ok (sd_ledger db) (f e) \<and> event_le e (f e)"
  shows "studio_inv (update_events p f db) \<and> studio_le db (update_events p f db)"
proof -
  have "sf.rows_inv (sd_ledger db) (sd_events (update_events p f db)) \<and>
      sf.rows_le (sd_ledger db) (sd_events db) (sd_ledger db) (sd_events (update_events p f db))"
    by (rule sf.rows_move_only [where p = p and f = f, OF inv [unfolded studio_rows] one moved]) (simp_all add: update_events_def)
  moreover have "sd_ledger (update_events p f db) = sd_ledger db" by (simp add: update_events_def)
  ultimately show ?thesis by (simp add: studio_rows)
qed

end
