(* ===== verification/StudioSteps.thy ===== *)
theory StudioSteps
  imports StudioFacts TurnReserve
begin

text \<open>
  Each transaction on a studio generation keeps the invariant, only moves rows forward, and
  gives back nothing but the debit of its own generation.
\<close>

section \<open>Rows of one generation\<close>

lemma event_ok_same:
  assumes e: "event_ok s e" and ids: "se_turnId e' = se_turnId e" "se_userId e' = se_userId e"
    and m: "se_metadata e' = Some (JObj obj')"
      "readReservationMetadata (se_metadata e') = readReservationMetadata (se_metadata e)"
    and st: "se_status e \<noteq> ''error''" "se_status e' \<noteq> ''error''" "se_status e' \<in> studio_statuses"
    and q: "\<And>k. quarantined k e' \<Longrightarrow> se_status e' = ''refund_pending''"
  shows "event_ok s e'"
proof -
  obtain turnId userId obj m t a where h: "se_turnId e = Some turnId" "se_userId e = Some userId"
    "se_metadata e = Some (JObj obj)" "readReservationMetadata (Some (JObj obj)) = Inr m"
    "funds s turnId userId m t a" "refunded_units (tx_id t) s = (if se_status e = ''error'' then a else 0)"
    by (rule event_okE [OF e])
  have r: "readReservationMetadata (Some (JObj obj')) = Inr m" using m h(3,4) by simp
  show ?thesis
    by (rule event_okI [OF st(3) _ _ _ m(1) r h(5)]) (use q ids h st in auto)
qed

lemma event_metadata:
  assumes "event_ok s e"
  obtains obj m where "se_metadata e = Some (JObj obj)" "readReservationMetadata (Some (JObj obj)) = Inr m"
    "split_valid (sm_quote m) (sm_reservation m)"
proof -
  obtain turnId userId obj m t a where h: "se_turnId e = Some turnId" "se_userId e = Some userId"
    "se_metadata e = Some (JObj obj)" "readReservationMetadata (Some (JObj obj)) = Inr m"
    "funds s turnId userId m t a" "refunded_units (tx_id t) s = (if se_status e = ''error'' then a else 0)"
    by (rule event_okE [OF assms])
  show thesis by (rule that [OF h(3,4)]) (use h(5) in \<open>simp add: funds_def\<close>)
qed

lemma event_of_in: "event_of t db = Some e \<Longrightarrow> e \<in> set (sd_events db) \<and> se_turnId e = Some t"
  unfolding event_of_def by (drule find_SomeD) simp

lemma event_of_iff:
  assumes "distinct (map se_turnId (sd_events db))"
  shows "event_of t db = Some e \<longleftrightarrow> e \<in> set (sd_events db) \<and> se_turnId e = Some t"
proof
  assume "e \<in> set (sd_events db) \<and> se_turnId e = Some t"
  then show "event_of t db = Some e"
    using find_unique [OF assms, of e] by (simp add: event_of_def)
qed (rule event_of_in)

text \<open>What the process of a generation holds agrees with its row.\<close>

definition granted :: "studio_db \<Rightarrow> studio_reservation \<Rightarrow> bool" where
  "granted db r \<longleftrightarrow> (\<exists>e \<in> set (sd_events db). se_turnId e = Some (sr_turnId r) \<and>
     readReservationMetadata (se_metadata e) = Inr (sr_metadata r))"

lemma granted_le: "granted db r \<Longrightarrow> studio_le db db' \<Longrightarrow> granted db' r"
  unfolding granted_def studio_le_def event_le_def by metis

lemma granted_event:
  assumes "granted db r" "studio_inv db" "e \<in> set (sd_events db)" "se_turnId e = Some (sr_turnId r)"
  shows "readReservationMetadata (se_metadata e) = Inr (sr_metadata r)"
proof -
  obtain e' where e': "e' \<in> set (sd_events db)" "se_turnId e' = Some (sr_turnId r)"
    "readReservationMetadata (se_metadata e') = Inr (sr_metadata r)"
    using assms(1) unfolding granted_def by blast
  have inj: "inj_on se_turnId (set (sd_events db))" using assms(2) by (simp add: studio_inv_def distinct_map)
  have "e' = e" by (rule inj_onD [OF inj _ e'(1) assms(3)]) (simp add: e'(2) assms(4))
  then show ?thesis using e'(3) by simp
qed

section \<open>Admission and completion\<close>

lemma unquarantined: "event_ok s e \<Longrightarrow> se_status e \<in> {''pending'', ''provider_admitted''} \<Longrightarrow> \<not> quarantined k e"
  using event_okD(2) by fastforce

lemma admit_update:
  assumes inv: "studio_inv db"
  shows "studio_inv (update_events (pending_with t j) (\<lambda>e. e\<lparr>se_status := ''provider_admitted''\<rparr>) db) \<and>
    studio_le db (update_events (pending_with t j) (\<lambda>e. e\<lparr>se_status := ''provider_admitted''\<rparr>) db)"
proof -
  have "event_ok (sd_ledger db) (e\<lparr>se_status := ''provider_admitted''\<rparr>) \<and>
      event_le e (e\<lparr>se_status := ''provider_admitted''\<rparr>)"
    if e: "e \<in> set (sd_events db)" "pending_with t j e" for e
  proof -
    have ok: "event_ok (sd_ledger db) e" using inv e(1) by (simp add: studio_inv_def)
    have st: "se_status e = ''pending''" using e(2) by (simp add: pending_with_def)
    obtain obj m where m: "se_metadata e = Some (JObj obj)" by (rule event_metadata [OF ok])
    have q: "\<not> quarantined k (e\<lparr>se_status := x\<rparr>)" for k x
      using unquarantined [OF ok] st by (simp add: quarantined_def)
    have "event_ok (sd_ledger db) (e\<lparr>se_status := ''provider_admitted''\<rparr>)"
      by (rule event_ok_same [OF ok _ _ _ _ _ _ _]) (use m st q in \<open>simp_all add: studio_statuses_def\<close>)
    moreover have "event_le e (e\<lparr>se_status := ''provider_admitted''\<rparr>)"
      using st q unquarantined [OF ok] by (simp add: event_le_def occupies_def active_status_def)
    ultimately show ?thesis ..
  qed
  then show ?thesis by (intro event_move_only [OF inv, of _ t]) (simp_all add: pending_with_def)
qed

lemma admit_step:
  "studio_inv db \<Longrightarrow> studio_inv (fst (admitStudioGeneration r db)) \<and> studio_le db (fst (admitStudioGeneration r db))"
  using admit_update [of db] by (simp add: admitStudioGeneration_def admittable_def)

lemma complete_step:
  assumes "completeStudioGeneration r creationId latencyMs db = Inr db'" and inv: "studio_inv db" and r: "granted db r"
  shows "studio_inv db' \<and> studio_le db db' \<and> sd_ledger db' = sd_ledger db"
proof -
  obtain manna cost latency where db': "db' = update_events (completable r) (completed_event r creationId manna cost latency) db"
    using assms(1) by (auto simp: completeStudioGeneration_def ebind_Inr_iff split: if_splits)
  have "event_ok (sd_ledger db) (completed_event r creationId manna cost latency e) \<and>
      event_le e (completed_event r creationId manna cost latency e)"
    if e: "e \<in> set (sd_events db)" "completable r e" for e
  proof -
    have ok: "event_ok (sd_ledger db) e" using inv e(1) by (simp add: studio_inv_def)
    have st: "se_status e \<in> {''pending'', ''provider_admitted''}" "se_turnId e = Some (sr_turnId r)"
      using e(2) by (simp_all add: completable_def)
    obtain obj m where m: "se_metadata e = Some (JObj obj)" "readReservationMetadata (Some (JObj obj)) = Inr m"
      "split_valid (sm_quote m) (sm_reservation m)" by (rule event_metadata [OF ok])
    have "m = sr_metadata r" using granted_event [OF r inv e(1) st(2)] m by simp
    then have read: "readReservationMetadata (se_metadata (completed_event r creationId manna cost latency e)) =
        readReservationMetadata (se_metadata e)"
      using m read_metadata_json [of "sr_metadata r" "[(''creationId'', JStr creationId)]"] by (simp add: completed_event_def)
    have q: "\<not> quarantined k (completed_event r creationId manna cost latency e)" for k
      by (simp add: quarantined_def completed_event_def jsonb_text_is_def jsonb_get_def member_def metadata_json_def)
    have "event_ok (sd_ledger db) (completed_event r creationId manna cost latency e)"
      by (rule event_ok_same [OF ok _ _ _ read])
        (use st q in \<open>auto simp: completed_event_def studio_statuses_def\<close>)
    moreover have "event_le e (completed_event r creationId manna cost latency e)"
      using st unquarantined [OF ok st(1)] read
      by (auto simp: event_le_def occupies_def active_status_def completed_event_def)
    ultimately show ?thesis ..
  qed
  then have "studio_inv db' \<and> studio_le db db'"
    unfolding db' by (intro event_move_only [OF inv, of _ "sr_turnId r"]) (simp_all add: completable_def)
  then show ?thesis by (simp add: db' update_events_def)
qed

section \<open>Compensation\<close>

lemma mark_step:
  assumes "mark_compensation stamp p db = Inr (db', f)" and inv: "studio_inv db"
  shows "studio_inv db' \<and> studio_le db db' \<and> sd_ledger db' = sd_ledger db"
proof -
  consider "db' = db" | e q g where "event_of (cm_turnId p) db = Some e" "active_status (se_status e)"
    "quarantine_on_mark stamp e = Inr q"
    "db' = update_events (\<lambda>e. se_turnId e = Some (cm_turnId p)) (marked_event g (failure_patch stamp g q)) db"
    using assms(1) by (auto simp: mark_compensation_def ebind_Inr_iff Let_def split: option.splits if_splits)
  then show ?thesis
  proof cases
    case (2 e q g)
    define h where "h = marked_event g (failure_patch stamp g q)"
    have e: "e \<in> set (sd_events db)" "se_turnId e = Some (cm_turnId p)" using event_of_in [OF 2(1)] by simp_all
    have ok: "event_ok (sd_ledger db) e" using inv e(1) by (simp add: studio_inv_def)
    obtain obj m where m: "se_metadata e = Some (JObj obj)" by (rule event_metadata [OF ok])
    have meta: "se_metadata (h e) = Some (JObj (merge_members obj (failure_patch stamp g q)))"
      by (simp add: h_def marked_event_def m)
    have same: "same_members (merge_members obj (failure_patch stamp g q)) obj" by (rule patched_members)
    have read: "readReservationMetadata (se_metadata (h e)) = readReservationMetadata (se_metadata e)"
      unfolding meta m by (rule read_same_members [OF same])
    have "member (merge_members obj (failure_patch stamp g q)) ''tool'' = member obj ''tool''"
      using same by (simp add: same_members_def)
    then have occ: "occupies k (h e) \<Longrightarrow> occupies k e" for k
      using 2(2) by (simp add: occupies_def meta m jsonb_get_def)
    have quar: "quarantined k (h e)" if "quarantined k e" for k
    proof -
      have "se_status e \<noteq> ''provider_admitted''" using unquarantined [OF ok] that by blast
      then have "q = None" using 2(3) by (simp add: quarantine_on_mark_def)
      then show ?thesis using that unfolding h_def patched_quarantine [OF m] by simp
    qed
    have st: "se_status (h e) = ''refund_pending''" "se_turnId (h e) = se_turnId e" "se_userId (h e) = se_userId e"
      by (simp_all add: h_def marked_event_def)
    have nt: "se_status e \<noteq> ''error''" "se_status e \<noteq> ''completed''"
      using 2(2) by (auto simp: active_status_def)
    have ok': "event_ok (sd_ledger db) (h e)"
      by (rule event_ok_same [OF ok st(2,3) meta read nt(1)]) (simp_all add: st studio_statuses_def)
    have le: "event_le e (h e)" using st nt read occ quar by (simp add: event_le_def)
    have only: "e' = e" if "e' \<in> set (sd_events db)" "se_turnId e' = Some (cm_turnId p)" for e'
      using that 2(1) event_of_iff [of db "cm_turnId p" e'] inv by (simp add: studio_inv_def)
    have "studio_inv (update_events (\<lambda>e. se_turnId e = Some (cm_turnId p)) h db) \<and>
        studio_le db (update_events (\<lambda>e. se_turnId e = Some (cm_turnId p)) h db)"
      by (rule event_move_only [OF inv, of _ "cm_turnId p"]) (use only ok' le in auto)
    then show ?thesis by (simp add: 2(4) h_def update_events_def)
  qed (use inv in simp)
qed

text \<open>The reversals the code is run with: the ledger's own, or one that fails.\<close>

definition a_reversal :: "reversal \<Rightarrow> bool" where
  "a_reversal rvs \<longleftrightarrow> rvs = reverseReservation \<or> (\<forall>k sub ty now s. \<exists>x. rvs k sub ty now s = (s, Inl x))"

lemma finish_cases:
  assumes "finish_compensation rvs p f now db = Inr (db', outcome)" "a_reversal rvs"
  obtains "db' = db" "outcome = AlreadyTerminal"
  | e m userId t ty s leg latency where "outcome = Refunded" "rvs = reverseReservation"
    "event_of (cm_turnId p) db = Some e" "se_status e = ''refund_pending''"
    "readReservationMetadata (se_metadata e) = Inr m" "se_userId e = Some userId"
    "reservation_transaction m userId (sd_ledger db) = Some t"
    "reverseReservation (sp_idempotencyKey (sm_reservation m))
       (Some (sp_subscriptionManna (sm_reservation m))) ty now (sd_ledger db) = (s, Inr leg)"
    "opt_int_column (sf_latencyMs f) = Inr latency"
    "db' = (update_events (refundable (cm_turnId p)) (refunded_event f latency) db)\<lparr>sd_ledger := s\<rparr>"
proof (cases "\<exists>e. event_of (cm_turnId p) db = Some e \<and> se_status e = ''refund_pending''")
  case False
  then have "db' = db \<and> outcome = AlreadyTerminal"
    using assms(1) by (auto simp: finish_compensation_def split: option.split_asm if_split_asm)
  then show thesis using that(1) by blast
next
  case True
  then obtain e where e: "event_of (cm_turnId p) db = Some e" "se_status e = ''refund_pending''" by blast
  have eq: "finish_compensation rvs p f now db =
    ebind (readReservationMetadata (se_metadata e)) (\<lambda>m. pay_back rvs p f now m (se_userId e) db)"
    using e by (simp add: finish_compensation_def)
  then obtain m where m: "readReservationMetadata (se_metadata e) = Inr m"
    "pay_back rvs p f now m (se_userId e) db = Inr (db', outcome)"
    using assms(1) unfolding eq ebind_Inr_iff by blast
  obtain userId t where u: "se_userId e = Some userId" "reservation_transaction m userId (sd_ledger db) = Some t"
    using m(2) by (auto simp: pay_back_def split: option.split_asm)
  define ty where "ty = Some (case cm_refundType p of None \<Rightarrow> ''refund:'' @ sq_action (sm_quote m) | Some ty \<Rightarrow> ty)"
  obtain db1 leg latency where r: "on_studio_ledger (rvs (sp_idempotencyKey (sm_reservation m))
      (Some (sp_subscriptionManna (sm_reservation m))) ty now) db = Inr (db1, leg)"
    "opt_int_column (sf_latencyMs f) = Inr latency"
    "db' = update_events (refundable (cm_turnId p)) (refunded_event f latency) db1" "outcome = Refunded"
    using m(2) u by (auto simp: pay_back_def ebind_Inr_iff ty_def split: if_split_asm)
  have "rvs = reverseReservation"
    using assms(2) unfolding a_reversal_def
  proof
    assume "\<forall>k sub ty now s. \<exists>x. rvs k sub ty now s = (s, Inl x)"
    then obtain x where "rvs (sp_idempotencyKey (sm_reservation m)) (Some (sp_subscriptionManna (sm_reservation m)))
        ty now (sd_ledger db) = (sd_ledger db, Inl x)" by blast
    with r(1) show ?thesis by (simp add: on_studio_ledger_def)
  qed
  moreover obtain s where "reverseReservation (sp_idempotencyKey (sm_reservation m))
      (Some (sp_subscriptionManna (sm_reservation m))) ty now (sd_ledger db) = (s, Inr leg)"
    "db1 = db\<lparr>sd_ledger := s\<rparr>"
    using r(1) calculation by (auto simp: on_studio_ledger_def split: prod.split_asm sum.split_asm)
  ultimately show thesis using that(2) e m(1) u r(2-4) by (simp add: update_events_def)
qed

text \<open>The transaction a row names is the one that funds it.\<close>

lemma funds_transaction:
  "funds s turnId userId m t a \<Longrightarrow> ledger_inv s \<Longrightarrow> reservation_transaction m userId s = Some t"
  unfolding funds_def reservation_transaction_def using pays_transaction by fastforce

lemma finish_step:
  assumes "finish_compensation rvs p f now db = Inr (db', outcome)" "a_reversal rvs" and inv: "studio_inv db"
  shows "studio_inv db' \<and> studio_le db db' \<and>
    (db' = db \<or> event_of (cm_turnId p) db \<noteq> None) \<and>
    touches {studioReservationKey (cm_turnId p)} (sd_ledger db) (sd_ledger db')"
  using assms(1,2)
proof (cases rule: finish_cases)
  case 1
  then show ?thesis using inv by (simp add: touches_refl studio_inv_def)
next
  case (2 e m userId t ty s leg latency)
  define turnId where "turnId = cm_turnId p"
  have L: "ledger_inv (sd_ledger db)" using inv by (simp add: studio_inv_def)
  have e: "e \<in> set (sd_events db)" "se_turnId e = Some turnId" using event_of_in [OF 2(3)] by (simp_all add: turnId_def)
  have ok: "event_ok (sd_ledger db) e" using inv e(1) by (simp add: studio_inv_def)
  obtain turnId' userId' obj m' t' a where h: "se_turnId e = Some turnId'" "se_userId e = Some userId'"
    "se_metadata e = Some (JObj obj)" "readReservationMetadata (Some (JObj obj)) = Inr m'"
    "funds (sd_ledger db) turnId' userId' m' t' a"
    "refunded_units (tx_id t') (sd_ledger db) = (if se_status e = ''error'' then a else 0)"
    by (rule event_okE [OF ok])
  have ids: "turnId' = turnId" "userId' = userId" "m' = m" using h(1-4) e(2) 2(5,6) by simp_all
  have tt: "t' = t" using funds_transaction [OF h(5) L] 2(7) ids by simp
  have fu: "funds (sd_ledger db) turnId userId m t a" using h(5) ids tt by simp
  then obtain b where b: "sp_subscriptionManna (sm_reservation m) = JFin (unit_val b)" "0 \<le> b" "b \<le> a"
    unfolding funds_def by blast
  have pay: "pays (sd_ledger db) (studioReservationKey turnId) userId t a"
    and key: "sp_idempotencyKey (sm_reservation m) = studioReservationKey turnId" using fu by (simp_all add: funds_def)
  have none: "refunded_units (tx_id t) (sd_ledger db) = 0" using h(6) tt 2(4) by simp
  have rv: "reverseReservation (studioReservationKey turnId) (Some (JFin (unit_val b))) ty now (sd_ledger db) = (s, Inr leg)"
    using 2(8) b(1) key by simp
  note given_back = pays_reversed [OF pay L none b(2,3) rv]
  then have ref: "refunded_units (tx_id t) s = a" and tch: "touches {studioReservationKey turnId} (sd_ledger db) s" by simp_all
  define g where "g = refunded_event f latency"
  have ge: "event_ok s (g e)"
  proof (rule event_okI)
    show "funds s turnId userId m t a" by (rule funds_touches [OF fu]) (use tch in \<open>simp_all add: touches_def\<close>)
  qed (use e h ids ref in \<open>simp_all add: g_def refunded_event_def studio_statuses_def\<close>)
  have le: "event_le e (g e)"
    using 2(4) by (simp add: event_le_def g_def refunded_event_def quarantined_def occupies_def active_status_def)
  have only: "e' = e" if "e' \<in> set (sd_events db)" "se_turnId e' = Some turnId" for e'
    using that 2(3) event_of_iff [of db turnId e'] inv by (simp add: studio_inv_def turnId_def)
  have db': "db' = (update_events (refundable turnId) g db)\<lparr>sd_ledger := s\<rparr>" using 2(10) by (simp add: turnId_def g_def)
  have "studio_inv db' \<and> studio_le db db'"
    unfolding db' by (rule event_move [OF inv _ tch]) (use only ge le 2(4) in \<open>auto simp: refundable_def\<close>)
  then show ?thesis using tch 2(3) by (simp add: db' turnId_def)
qed

section \<open>Reserving\<close>

lemma int_column_units:
  assumes "int_column v = Inr n"
  shows "v = JFin (of_int n)" "\<bar>10000 * n\<bar> \<le> unit_bound"
proof -
  have s: "stored_int v = Some n" using assms by (auto simp: int_column_def split: option.splits)
  then show "v = JFin (of_int n)"
    by (cases v) (auto simp: stored_int_def split: option.splits if_splits)
  show "\<bar>10000 * n\<bar> \<le> unit_bound"
    using s by (auto simp: stored_int_def unit_bound_def split: option.splits if_splits)
qed

lemma granted_split:
  assumes "0 \<le> b" "b \<le> a" "a \<le> unit_bound"
  shows "fix4 (js_sub (JFin (unit_val a)) (JFin (unit_val b))) = JFin (unit_val (a - b))"
    "fix4 (js_add (JFin (unit_val b)) (JFin (unit_val (a - b)))) = JFin (unit_val a)"
proof -
  show "fix4 (js_sub (JFin (unit_val a)) (JFin (unit_val b))) = JFin (unit_val (a - b))"
    using assms by (intro fix4_sub_units) simp_all
  have "fix4 (js_sub (JFin (unit_val b)) (JFin (unit_val (b - a)))) = JFin (unit_val (b - (b - a)))"
    using assms by (intro fix4_sub_units) simp_all
  moreover have "js_add (JFin (unit_val b)) (JFin (unit_val (a - b))) = js_sub (JFin (unit_val b)) (JFin (unit_val (b - a)))"
    using unit_val_uminus [of "a - b"] by (simp add: js_sub_def)
  ultimately show "fix4 (js_add (JFin (unit_val b)) (JFin (unit_val (a - b)))) = JFin (unit_val a)" by simp
qed

text \<open>A newly charged debit of a generation funds the metadata that is granted for it.\<close>

lemma studio_debit_funds:
  assumes db: "debit (\<lambda>x. x) (studio_debit rq) now s = (s', Inr r)" "\<not> lr_alreadyApplied r" and inv: "ledger_inv s"
    and key: "rq_reservationKey rq = studioReservationKey (rq_turnId rq)"
    and n: "int_column (sq_manna (rq_quote rq)) = Inr n" and cost: "finite_nonneg (sq_costUsd (rq_quote rq))"
    and tool: "outputKindForStudioTool (rq_tool rq) = Inr kind"
  shows "funds s' (rq_turnId rq) (rq_accountId rq) (granted_metadata rq r) (lr_transaction r) (10000 * n)"
    "refunded_units (tx_id (lr_transaction r)) s' = 0"
proof -
  define p where "p = studio_debit rq"
  note N = int_column_units [OF n]
  have p: "dp_amount p = JFin (of_int n)" "dp_idempotencyKey p = studioReservationKey (rq_turnId rq)"
    "dp_accountId p = rq_accountId rq" "dp_type p = ''spend:'' @ sq_action (rq_quote rq)"
    by (simp_all add: p_def studio_debit_def N(1) key)
  obtain b where pay: "pays s' (studioReservationKey (rq_turnId rq)) (rq_accountId rq) (lr_transaction r) (10000 * n)"
    "tx_type (lr_transaction r) = Some (''spend:'' @ sq_action (rq_quote rq))" "lr_subscriptionDrawn r = Some (JFin (unit_val b))"
    and b: "0 \<le> b" "b \<le> 10000 * n" and none: "refunded_units (tx_id (lr_transaction r)) s' = 0"
    by (rule new_debit_pays [OF db [folded p_def] inv p(1) N(2), unfolded p])
  have ub: "10000 * n \<le> unit_bound" using N(2) by simp
  have v: "JFin (of_int n) = JFin (unit_val (10000 * n))" using whole_units [OF N(2)] by simp
  have m: "sm_tool (granted_metadata rq r) = rq_tool rq" "sm_quote (granted_metadata rq r) = rq_quote rq"
    "sm_reservation (granted_metadata rq r) =
      \<lparr>sp_idempotencyKey = studioReservationKey (rq_turnId rq), sp_transactionId = show_nat (tx_id (lr_transaction r)),
       sp_reservedManna = JFin (unit_val (10000 * n)), sp_subscriptionManna = JFin (unit_val b),
       sp_durableManna = JFin (unit_val (10000 * n - b))\<rparr>"
    using granted_split(1) [OF b ub] by (simp_all add: granted_metadata_def Let_def pay(3) key N(1) v)
  have nn: "0 \<le> unit_val b" "0 \<le> unit_val (10000 * n - b)" "0 \<le> unit_val (10000 * n)"
    using b by (simp_all add: unit_val_nonneg)
  have "split_valid (sm_quote (granted_metadata rq r)) (sm_reservation (granted_metadata rq r))"
    using cost granted_split(2) [OF b ub] nn by (simp add: split_valid_def m N(1) v finite_nonneg_def js_eq_def not_less)
  then show "funds s' (rq_turnId rq) (rq_accountId rq) (granted_metadata rq r) (lr_transaction r) (10000 * n)"
    unfolding funds_def m using pay(1,2) tool b by auto
  show "refunded_units (tx_id (lr_transaction r)) s' = 0" by (rule none)
qed

lemma tool_kind: "outputKindForStudioTool tool = Inr kind \<Longrightarrow> tool \<in> set (kind_tools k) \<Longrightarrow> k = kind"
  by (cases k) (auto simp: outputKindForStudioTool_def split: if_splits)

lemma reserve_generation_step:
  assumes "reserve_studio_tx rq now db = Inr (db', r)" and inv: "studio_inv db"
    and key: "rq_reservationKey rq = studioReservationKey (rq_turnId rq)"
    and cost: "finite_nonneg (sq_costUsd (rq_quote rq))"
  shows "studio_inv db' \<and> studio_le db db' \<and> touches {} (sd_ledger db) (sd_ledger db') \<and>
    granted db' r \<and> sr_turnId r = rq_turnId rq"
proof -
  obtain kind s debited n where h: "outputKindForStudioTool (rq_tool rq) = Inr kind" "check_conflicts kind db = Inr ()"
    "debit (\<lambda>x. x) (studio_debit rq) now (sd_ledger db) = (s, Inr debited)" "\<not> lr_alreadyApplied debited"
    "int_column (sq_manna (rq_quote rq)) = Inr n" "event_of (rq_turnId rq) db = None"
    and db': "db' = db\<lparr>sd_ledger := s, sd_events := sd_events db @ [pending_event rq (granted_metadata rq debited) n now]\<rparr>"
    and r: "r = \<lparr>sr_turnId = rq_turnId rq, sr_metadata = granted_metadata rq debited\<rparr>"
    using assms(1) by (auto simp: reserve_studio_tx_def ebind_Inr_iff on_studio_ledger_def Let_def event_of_def
        split: prod.split_asm sum.split_asm if_split_asm)
  define m where "m = granted_metadata rq debited"
  define e where "e = pending_event rq m n now"
  have L: "ledger_inv (sd_ledger db)" using inv by (simp add: studio_inv_def)
  note fu = studio_debit_funds [OF h(3,4) L key h(5) cost h(1)]
  have bounded: "bounded_op (DebitOp (studio_debit rq) now)"
    using int_column_units [OF h(5)] by (simp add: debit_units_def studio_debit_def)
  have "s = ledger_step (sd_ledger db) (DebitOp (studio_debit rq) now)" using h(3) by simp
  then have tch: "touches {} (sd_ledger db) s" using step_touches [OF L bounded, of "{}"] by simp
  have valid: "split_valid (sm_quote m) (sm_reservation m)" using fu(1) by (simp add: funds_def m_def)
  have read: "readReservationMetadata (Some (JObj (metadata_json m))) = Inr m"
    using read_metadata_json [OF valid, of "[]"] by simp
  have meta: "se_metadata e = Some (JObj (metadata_json m))" by (simp add: e_def pending_event_def)
  have tool: "jsonb_get (se_metadata e) ''tool'' = Some (JStr (rq_tool rq))"
    by (simp add: meta jsonb_get_def member_def metadata_json_def m_def granted_metadata_def Let_def)
  have nq: "\<not> quarantined k e" for k
    by (simp add: quarantined_def meta jsonb_text_is_def jsonb_get_def member_def metadata_json_def)
  have ok: "event_ok s e"
    by (rule event_okI [OF _ _ _ _ meta read fu(1) [folded m_def]])
      (use nq fu(2) in \<open>simp_all add: e_def pending_event_def studio_statuses_def\<close>)
  have "k = kind" if "occupies k e" for k
    using that tool_kind [OF h(1), of k] by (auto simp: occupies_def tool jsonb_text_is_def list_ex_iff)
  moreover have "filter (occupies kind) (sd_events db) = []"
    using h(2) by (auto simp: check_conflicts_def list_ex_iff filter_empty_conv split: if_splits)
  ultimately have free: "filter (occupies k) (sd_events db) = []" if "occupies k e" for k using that by blast
  have new: "se_turnId e \<notin> se_turnId ` set (sd_events db)"
    using h(6) by (auto simp: e_def pending_event_def event_of_def find_None_iff)
  have "studio_inv db' \<and> studio_le db db'"
    using sf.rows_append [OF inv [unfolded studio_rows] tch ok new free]
    by (simp add: studio_rows db' e_def m_def)
  moreover have "granted db' r"
    unfolding granted_def db' r using read meta by (simp add: e_def m_def pending_event_def)
  ultimately show ?thesis using tch by (simp add: db' r)
qed

end
