(* ===== verification/StudioMachine.thy ===== *)
theory StudioMachine
  imports StudioSteps
begin

text \<open>
  The machine of the transactions on studio generations, as a client of the shared ledger.
\<close>

text \<open>
  \<open>sw_held\<close> is the reservation the process of a request holds. \<open>AdmitRow\<close> is the statement with
  which the gateway's admission ends, on a row it has read before.
\<close>

record studio_world =
  sw_db :: studio_db
  sw_held :: "string \<Rightarrow> studio_reservation option"

datatype studio_op =
    ReserveGen studio_request int
  | AdmitGen string
  | AdmitRow string json
  | CompleteGen string string jsnum
  | MarkGen string compensation
  | RefundGen reversal compensation studio_failure int

fun studio_step :: "studio_world \<Rightarrow> studio_op \<Rightarrow> studio_world" where
  "studio_step w (ReserveGen rq now) =
     (case reserveStudioGeneration rq now (sw_db w) of
        (db, Inl e) \<Rightarrow> w\<lparr>sw_db := db\<rparr>
      | (db, Inr r) \<Rightarrow> w\<lparr>sw_db := db, sw_held := (sw_held w)(rq_turnId rq \<mapsto> r)\<rparr>)"
| "studio_step w (AdmitGen t) =
     (case sw_held w t of None \<Rightarrow> w | Some r \<Rightarrow> w\<lparr>sw_db := fst (admitStudioGeneration r (sw_db w))\<rparr>)"
| "studio_step w (AdmitRow t j) =
     w\<lparr>sw_db := update_events (pending_with t j) (\<lambda>e. e\<lparr>se_status := ''provider_admitted''\<rparr>) (sw_db w)\<rparr>"
| "studio_step w (CompleteGen t creationId latency) =
     (case sw_held w t of
        None \<Rightarrow> w
      | Some r \<Rightarrow>
          (case completeStudioGeneration r creationId latency (sw_db w) of
             Inl e \<Rightarrow> w | Inr db \<Rightarrow> w\<lparr>sw_db := db\<rparr>))"
| "studio_step w (MarkGen stamp p) = w\<lparr>sw_db := fst (studio_transaction (mark_compensation stamp p) (sw_db w))\<rparr>"
| "studio_step w (RefundGen rvs p f now) =
     w\<lparr>sw_db := fst (studio_transaction (finish_compensation rvs p f now) (sw_db w))\<rparr>"

text \<open>
  A request has the key the route gives it, which no other component uses (\<open>N\<close> are their keys),
  and a quote with a cost that is a number.
\<close>

fun studio_admitted :: "string set \<Rightarrow> studio_op \<Rightarrow> bool" where
  "studio_admitted N (ReserveGen rq now) =
     (rq_reservationKey rq = studioReservationKey (rq_turnId rq) \<and>
      studioReservationKey (rq_turnId rq) \<notin> N \<and> finite_nonneg (sq_costUsd (rq_quote rq)))"
| "studio_admitted N (RefundGen rvs p f now) = a_reversal rvs"
| "studio_admitted N op = True"

definition own_keys :: "string set \<Rightarrow> studio_db \<Rightarrow> bool" where
  "own_keys N db \<longleftrightarrow>
     (\<forall>e \<in> set (sd_events db). \<forall>t. se_turnId e = Some t \<longrightarrow> studioReservationKey t \<notin> N)"

definition studio_world_inv :: "string set \<Rightarrow> studio_world \<Rightarrow> bool" where
  "studio_world_inv N w \<longleftrightarrow> studio_inv (sw_db w) \<and> own_keys N (sw_db w) \<and>
     (\<forall>t r. sw_held w t = Some r \<longrightarrow> granted (sw_db w) r \<and> sr_turnId r = t)"

definition studio_world_le :: "studio_world \<Rightarrow> studio_world \<Rightarrow> bool" where
  "studio_world_le w w' \<longleftrightarrow> studio_le (sw_db w) (sw_db w')"

definition studio_ledger :: "studio_world \<Rightarrow> ledger" where
  "studio_ledger w = sd_ledger (sw_db w)"

definition put_studio :: "ledger \<Rightarrow> studio_world \<Rightarrow> studio_world" where
  "put_studio s w = w\<lparr>sw_db := (sw_db w)\<lparr>sd_ledger := s\<rparr>\<rparr>"

lemma studio_db_moves:
  assumes "studio_world_inv N w" "studio_inv db" "studio_le (sw_db w) db" "own_keys N db"
  shows "studio_world_inv N (w\<lparr>sw_db := db\<rparr>)" "studio_world_le w (w\<lparr>sw_db := db\<rparr>)"
  using assms granted_le [OF _ assms(3)] unfolding studio_world_inv_def studio_world_le_def by auto

text \<open>Every transaction but a reservation leaves the generations there are.\<close>

definition same_turns :: "studio_db \<Rightarrow> studio_db \<Rightarrow> bool" where
  "same_turns db db' \<longleftrightarrow> map se_turnId (sd_events db') = map se_turnId (sd_events db)"

lemma same_turns_keys: "same_turns db db' \<Longrightarrow> own_keys N db \<Longrightarrow> own_keys N db'"
proof -
  have k: "own_keys N db \<longleftrightarrow> (\<forall>x \<in> set (map se_turnId (sd_events db)). \<forall>t. x = Some t \<longrightarrow> studioReservationKey t \<notin> N)"
    for db by (simp add: own_keys_def)
  show "same_turns db db' \<Longrightarrow> own_keys N db \<Longrightarrow> own_keys N db'" unfolding k same_turns_def by simp
qed

lemma same_turns_update:
  assumes "\<And>e. se_turnId (f e) = se_turnId e"
  shows "same_turns db (update_events p f db)" "same_turns db ((update_events p f db)\<lparr>sd_ledger := s\<rparr>)"
  using assms by (simp_all add: same_turns_def update_events_def)

lemma same_turns_refl [simp]: "same_turns db db" "same_turns db (db\<lparr>sd_ledger := s\<rparr>)"
  by (simp_all add: same_turns_def)

abbreviation (input) steps_well :: "string set \<Rightarrow> studio_world \<Rightarrow> studio_world \<Rightarrow> bool" where
  "steps_well N w w' \<equiv> studio_world_inv N w' \<and> studio_world_le w w' \<and>
     touches (range studioReservationKey - N) (studio_ledger w) (studio_ledger w')"

lemma studio_well:
  assumes "studio_world_inv N w" "studio_inv db" "studio_le (sw_db w) db" "same_turns (sw_db w) db"
    "touches (range studioReservationKey - N) (sd_ledger (sw_db w)) (sd_ledger db)"
  shows "steps_well N w (w\<lparr>sw_db := db\<rparr>)"
proof -
  have "own_keys N db" using same_turns_keys [OF assms(4)] assms(1) by (simp add: studio_world_inv_def)
  then show ?thesis using studio_db_moves [OF assms(1-3)] assms(5) by (simp add: studio_ledger_def)
qed

lemma studio_stay: "studio_world_inv N w \<Longrightarrow> steps_well N w w"
  by (simp add: studio_world_inv_def studio_world_le_def studio_ledger_def studio_inv_def touches_refl)

lemma studio_tx_well:
  assumes w: "studio_world_inv N w"
    and body: "\<And>db r. body (sw_db w) = Inr (db, r) \<Longrightarrow> studio_inv db \<and> studio_le (sw_db w) db \<and>
      same_turns (sw_db w) db \<and> touches (range studioReservationKey - N) (sd_ledger (sw_db w)) (sd_ledger db)"
  shows "steps_well N w (w\<lparr>sw_db := fst (studio_transaction body (sw_db w))\<rparr>)"
proof (cases "body (sw_db w)")
  case (Inl e)
  then show ?thesis using studio_stay [OF w] by (simp add: studio_transaction_def)
next
  case (Inr y)
  obtain db r where y: "y = (db, r)" by (cases y)
  show ?thesis using body [OF Inr [unfolded y]] studio_well [OF w, of db] by (simp add: studio_transaction_def Inr y)
qed

text \<open>What each transaction does, in the form the machine needs.\<close>

lemma mark_well:
  assumes "studio_world_inv N w" "mark_compensation stamp p (sw_db w) = Inr (db, f)"
  shows "studio_inv db \<and> studio_le (sw_db w) db \<and> same_turns (sw_db w) db \<and>
    touches (range studioReservationKey - N) (sd_ledger (sw_db w)) (sd_ledger db)"
proof -
  have inv: "studio_inv (sw_db w)" using assms(1) by (simp add: studio_world_inv_def)
  have "same_turns (sw_db w) db"
    using assms(2) same_turns_update(1) [of "marked_event g q" for g q]
    by (auto simp: mark_compensation_def ebind_Inr_iff Let_def marked_event_def split: option.split_asm if_split_asm)
  moreover have "touches K (sd_ledger (sw_db w)) (sd_ledger (sw_db w))" for K
    using inv by (simp add: studio_inv_def touches_refl)
  ultimately show ?thesis using mark_step [OF assms(2) inv] by simp
qed

lemma finish_well:
  assumes "studio_world_inv N w" "finish_compensation rvs p f now (sw_db w) = Inr (db, r)" "a_reversal rvs"
  shows "studio_inv db \<and> studio_le (sw_db w) db \<and> same_turns (sw_db w) db \<and>
    touches (range studioReservationKey - N) (sd_ledger (sw_db w)) (sd_ledger db)"
proof -
  have inv: "studio_inv (sw_db w)" "own_keys N (sw_db w)" using assms(1) by (simp_all add: studio_world_inv_def)
  note s = finish_step [OF assms(2,3) inv(1)]
  have "same_turns (sw_db w) db"
    using assms(2,3) by (cases rule: finish_cases) (simp_all add: same_turns_update refunded_event_def)
  moreover have "touches (range studioReservationKey - N) (sd_ledger (sw_db w)) (sd_ledger db)"
  proof (cases "event_of (cm_turnId p) (sw_db w)")
    case None
    then have "db = sw_db w" using s by blast
    then show ?thesis using inv(1) by (simp add: touches_refl studio_inv_def)
  next
    case (Some e)
    have "studioReservationKey (cm_turnId p) \<notin> N"
      using inv(2) event_of_in [OF Some] unfolding own_keys_def by blast
    then have "{studioReservationKey (cm_turnId p)} \<subseteq> range studioReservationKey - N" by blast
    with s show ?thesis using touches_mono by blast
  qed
  ultimately show ?thesis using s by blast
qed

lemma reserve_well:
  assumes w: "studio_world_inv N w" and op: "studio_admitted N (ReserveGen rq now)"
    and r: "reserve_studio_tx rq now (sw_db w) = Inr (db, r)"
  shows "steps_well N w (w\<lparr>sw_db := db, sw_held := (sw_held w)(rq_turnId rq \<mapsto> r)\<rparr>)"
proof -
  have inv: "studio_inv (sw_db w)" "own_keys N (sw_db w)" using w by (simp_all add: studio_world_inv_def)
  have s: "studio_inv db \<and> studio_le (sw_db w) db \<and> touches {} (sd_ledger (sw_db w)) (sd_ledger db) \<and>
      granted db r \<and> sr_turnId r = rq_turnId rq"
    using reserve_generation_step [OF r inv(1)] op by simp
  obtain m n where "sd_events db = sd_events (sw_db w) @ [pending_event rq m n now]"
    using r by (auto simp: reserve_studio_tx_def ebind_Inr_iff on_studio_ledger_def Let_def
        split: prod.split_asm sum.split_asm if_split_asm)
  then have "own_keys N db" using inv(2) op by (auto simp: own_keys_def pending_event_def)
  then have "studio_world_inv N (w\<lparr>sw_db := db\<rparr>)" "studio_world_le w (w\<lparr>sw_db := db\<rparr>)"
    using studio_db_moves [OF w] s by blast+
  moreover have "touches (range studioReservationKey - N) (sd_ledger (sw_db w)) (sd_ledger db)"
    using s touches_mono [of "{}"] by blast
  ultimately show ?thesis using s
    by (simp add: studio_world_inv_def studio_world_le_def studio_ledger_def)
qed

lemma studio_step_well:
  assumes w: "studio_world_inv N w" and op: "studio_admitted N op"
  shows "steps_well N w (studio_step w op)"
proof -
  have inv: "studio_inv (sw_db w)" using w by (simp add: studio_world_inv_def)
  then have L: "touches K (sd_ledger (sw_db w)) (sd_ledger (sw_db w))" for K by (simp add: studio_inv_def touches_refl)
  note stay = studio_stay [OF w]
  show ?thesis
  proof (cases op)
    case (ReserveGen rq now)
    show ?thesis
    proof (cases "reserve_studio_tx rq now (sw_db w)")
      case (Inr y)
      obtain db r where y: "y = (db, r)" by (cases y)
      show ?thesis using reserve_well [OF w op [unfolded ReserveGen] Inr [unfolded y]]
        by (simp add: ReserveGen reserveStudioGeneration_def studio_transaction_def Inr y)
    qed (use stay in \<open>simp add: ReserveGen reserveStudioGeneration_def studio_transaction_def\<close>)
  next
    case (AdmitGen t)
    show ?thesis
    proof (cases "sw_held w t")
      case (Some r)
      have "same_turns (sw_db w) (fst (admitStudioGeneration r (sw_db w)))"
        "sd_ledger (fst (admitStudioGeneration r (sw_db w))) = sd_ledger (sw_db w)"
        by (simp_all add: admitStudioGeneration_def same_turns_update, simp add: update_events_def)
      then show ?thesis using studio_well [OF w, of "fst (admitStudioGeneration r (sw_db w))"] admit_step [OF inv, of r] L
        by (simp add: AdmitGen Some)
    qed (use stay in \<open>simp add: AdmitGen\<close>)
  next
    case (AdmitRow t j)
    have "same_turns (sw_db w) (sw_db (studio_step w op))" "sd_ledger (sw_db (studio_step w op)) = sd_ledger (sw_db w)"
      by (simp_all add: AdmitRow same_turns_update, simp add: update_events_def)
    then show ?thesis using studio_well [OF w, of "sw_db (studio_step w op)"] admit_update [OF inv, of t j] L
      by (simp add: AdmitRow)
  next
    case (CompleteGen t creationId latency)
    show ?thesis
    proof (cases "sw_held w t")
      case (Some r)
      show ?thesis
      proof (cases "completeStudioGeneration r creationId latency (sw_db w)")
        case (Inr db)
        have g: "granted (sw_db w) r" using w Some by (simp add: studio_world_inv_def)
        have "same_turns (sw_db w) db"
          using Inr by (auto simp: completeStudioGeneration_def ebind_Inr_iff same_turns_update completed_event_def split: if_splits)
        then show ?thesis using studio_well [OF w, of db] complete_step [OF Inr inv g] L
          by (simp add: CompleteGen Some Inr)
      qed (use stay in \<open>simp add: CompleteGen Some\<close>)
    qed (use stay in \<open>simp add: CompleteGen\<close>)
  next
    case (MarkGen stamp p)
    show ?thesis unfolding MarkGen studio_step.simps by (rule studio_tx_well [OF w mark_well [OF w]])
  next
    case (RefundGen rvs p f now)
    show ?thesis unfolding RefundGen studio_step.simps
      by (rule studio_tx_well [OF w finish_well [OF w]]) (use op RefundGen in simp_all)
  qed
qed

text \<open>The component as a client of the ledger, beside components with the keys \<open>N\<close>.\<close>

interpretation sc: ledger_client studio_ledger put_studio studio_step "studio_admitted N" "studio_world_inv N"
  studio_world_le "range studioReservationKey - N" for N
proof unfold_locales
  fix w :: studio_world and l
  show "studio_ledger (put_studio l w) = l" by (simp add: studio_ledger_def put_studio_def)
  show "studio_world_inv N w \<Longrightarrow> ledger_inv (studio_ledger w)"
    by (simp add: studio_world_inv_def studio_inv_def studio_ledger_def)
  assume w: "studio_world_inv N w" and t: "touches (- (range studioReservationKey - N)) (studio_ledger w) l"
  have "studio_inv ((sw_db w)\<lparr>sd_ledger := l\<rparr>) \<and> studio_le (sw_db w) ((sw_db w)\<lparr>sd_ledger := l\<rparr>)"
    by (rule ledger_moved [OF _ t [unfolded studio_ledger_def]])
      (use w in \<open>auto simp: studio_world_inv_def own_keys_def\<close>)
  then show "studio_world_inv N (put_studio l w) \<and> studio_world_le w (put_studio l w)"
    using studio_db_moves [OF w] same_turns_keys [of "sw_db w" "(sw_db w)\<lparr>sd_ledger := l\<rparr>" N] w
    by (simp add: put_studio_def studio_world_inv_def)
next
  show "studio_world_le u v \<Longrightarrow> studio_world_le v w \<Longrightarrow> studio_world_le u w" for u v w
    unfolding studio_world_le_def by (rule studio_le_trans)
qed (simp_all add: studio_step_well, simp add: studio_world_le_def)

end
