(* ===== verification/Platform.thy ===== *)
theory Platform
  imports TurnClient StudioMachine
begin

text \<open>
  Turns and studio generations on one ledger, in any interleaving with the other debits, credits
  and refunds of the product.
\<close>

interpretation pl: two_clients turn_ledger put_turn "turn_step plan" "own_turn_op plan" "world_inv plan" world_le
  "turn_keys plan" studio_ledger put_studio studio_step "studio_admitted (turn_keys plan)"
  "studio_world_inv (turn_keys plan)" studio_world_le "range studioReservationKey - turn_keys plan" for plan
  by unfold_locales blast

type_synonym platform = "turn_world \<times> studio_world"

type_synonym platform_op = "(turn_op, studio_op) shared_op"

definition platform_step :: "(string \<Rightarrow> turn_params) \<Rightarrow> platform \<Rightarrow> platform_op \<Rightarrow> platform" where
  "platform_step plan = shared_step turn_ledger put_turn (turn_step plan) studio_ledger put_studio studio_step"

definition platform_admitted :: "(string \<Rightarrow> turn_params) \<Rightarrow> platform_op \<Rightarrow> bool" where
  "platform_admitted plan =
     shared_admitted (own_turn_op plan) (turn_keys plan)
       (studio_admitted (turn_keys plan)) (range studioReservationKey - turn_keys plan)"

definition platform_inv :: "(string \<Rightarrow> turn_params) \<Rightarrow> platform \<Rightarrow> bool" where
  "platform_inv plan =
     shared_inv turn_ledger (world_inv plan) studio_ledger (studio_world_inv (turn_keys plan))"

lemma platform_run:
  assumes "platform_inv plan w" "list_all (platform_admitted plan) ops"
  shows "platform_inv plan (foldl (platform_step plan) w ops)"
    "world_le (fst w) (fst (foldl (platform_step plan) w ops))"
    "studio_world_le (snd w) (snd (foldl (platform_step plan) w ops))"
  using pl.both.run_inv [of plan w ops] pl.both.run_le [of plan w ops] assms
  by (simp_all add: platform_inv_def platform_admitted_def platform_step_def shared_le_def)

text \<open>What the invariant says of the two sides.\<close>

lemma platform_sides:
  "platform_inv plan w \<Longrightarrow> auth_inv plan (tw_db (fst w)) \<and> studio_inv (sw_db (snd w)) \<and>
     td_ledger (tw_db (fst w)) = sd_ledger (sw_db (snd w))"
  by (simp add: platform_inv_def shared_inv_def world_inv_def studio_world_inv_def turn_ledger_def studio_ledger_def)

end
