(* ===== verification/StudioOutcomes.thy ===== *)
theory StudioOutcomes
  imports Platform
begin

text \<open>
  What a whole compensation does: with the ledger's own reversal it never stays half done.
\<close>

text \<open>What others may commit between the two transactions of a compensation.\<close>

definition good_studio_env :: "(studio_db \<Rightarrow> studio_db) \<Rightarrow> bool" where
  "good_studio_env env \<longleftrightarrow> (\<forall>db. studio_inv db \<longrightarrow> studio_inv (env db) \<and> studio_le db (env db))"

text \<open>
  What can keep a refund waiting: its key is taken, a pot of the payer would outgrow its column, or
  the latency of the failure does not fit the column of the row.
\<close>

definition refund_blocked :: "string \<Rightarrow> studio_failure \<Rightarrow> ledger \<Rightarrow> bool" where
  "refund_blocked turnId f s \<longleftrightarrow> \<not> refund_room (studioReservationKey turnId) s \<or>
     (case opt_int_column (sf_latencyMs f) of Inl x \<Rightarrow> True | Inr latency \<Rightarrow> False)"

lemma reversal_succeeds:
  assumes fu: "funds s turnId userId m t a" and inv: "ledger_inv s" and none: "refunded_units (tx_id t) s = 0"
    and room: "refund_room (studioReservationKey turnId) s"
  shows "\<exists>s' leg. reverseReservation (studioReservationKey turnId) (Some (sp_subscriptionManna (sm_reservation m)))
    ty now s = (s', Inr leg)"
proof -
  obtain b where b: "sp_subscriptionManna (sm_reservation m) = JFin (unit_val b)" "0 \<le> b" "b \<le> a"
    using fu unfolding funds_def by blast
  have "pays s (studioReservationKey turnId) userId t a" using fu by (simp add: funds_def)
  from pays_reversal_succeeds [OF this inv none b(2,3)] show ?thesis
    using room b(1) by simp
qed

text \<open>Marking succeeds on every active row.\<close>

lemma mark_succeeds:
  assumes inv: "studio_inv db" and e: "event_of (cm_turnId p) db = Some e" "active_status (se_status e)"
  obtains db1 where "mark_compensation stamp p db = Inr (db1, Some (effective_failure p e))"
    "\<exists>e1. event_of (cm_turnId p) db1 = Some e1 \<and> se_status e1 = ''refund_pending''"
proof -
  have m: "e \<in> set (sd_events db)" "se_turnId e = Some (cm_turnId p)" using event_of_in [OF e(1)] by simp_all
  have ok: "event_ok (sd_ledger db) e" using inv m(1) by (simp add: studio_inv_def)
  obtain turnId userId obj md t a where h: "se_turnId e = Some turnId" "se_userId e = Some userId"
    "se_metadata e = Some (JObj obj)" "readReservationMetadata (Some (JObj obj)) = Inr md"
    "funds (sd_ledger db) turnId userId md t a"
    "refunded_units (tx_id t) (sd_ledger db) = (if se_status e = ''error'' then a else 0)"
    by (rule event_okE [OF ok])
  obtain kind where "outputKindForStudioTool (sm_tool md) = Inr kind" using h(5) unfolding funds_def by blast
  then have "\<exists>q. quarantine_on_mark stamp e = Inr q"
    using h(3,4) by (cases "se_status e = ''provider_admitted''") (simp_all add: quarantine_on_mark_def)
  then obtain q where q: "quarantine_on_mark stamp e = Inr q" by blast
  define f where "f = effective_failure p e"
  define g where "g = marked_event f (failure_patch stamp f q)"
  define db1 where "db1 = update_events (\<lambda>e. se_turnId e = Some (cm_turnId p)) g db"
  have "se_status e \<noteq> ''completed''" "se_status e \<noteq> ''error''" using e(2) by (auto simp: active_status_def)
  then have "mark_compensation stamp p db = Inr (db1, Some (effective_failure p e))"
    using e q by (simp add: mark_compensation_def Let_def db1_def g_def f_def)
  moreover have "event_of (cm_turnId p) db1 = Some (g e)"
  proof -
    have "find (\<lambda>e. se_turnId e = Some t) (map (\<lambda>e. if se_turnId e = Some t then g e else e) xs) = Some (g e)"
      if "find (\<lambda>e. se_turnId e = Some t) xs = Some e" for t xs
      using that by (induction xs) (auto simp: g_def marked_event_def split: if_split_asm)
    then show ?thesis using e(1) by (simp add: event_of_def db1_def update_events_def)
  qed
  moreover have "se_status (g e) = ''refund_pending''" by (simp add: g_def marked_event_def)
  ultimately show thesis using that by blast
qed

text \<open>The second transaction on a row that is still waiting for its refund.\<close>

lemma finish_succeeds:
  assumes inv: "studio_inv db" and e: "event_of (cm_turnId p) db = Some e" "se_status e = ''refund_pending''"
    and free: "\<not> refund_blocked (cm_turnId p) f (sd_ledger db)"
  shows "\<exists>s latency. finish_compensation reverseReservation p f now db =
    Inr ((update_events (refundable (cm_turnId p)) (refunded_event f latency) db)\<lparr>sd_ledger := s\<rparr>, Refunded)"
proof -
  have m: "e \<in> set (sd_events db)" "se_turnId e = Some (cm_turnId p)" using event_of_in [OF e(1)] by simp_all
  have ok: "event_ok (sd_ledger db) e" and L: "ledger_inv (sd_ledger db)" using inv m(1) by (simp_all add: studio_inv_def)
  obtain turnId userId obj md t a where h: "se_turnId e = Some turnId" "se_userId e = Some userId"
    "se_metadata e = Some (JObj obj)" "readReservationMetadata (Some (JObj obj)) = Inr md"
    "funds (sd_ledger db) turnId userId md t a"
    "refunded_units (tx_id t) (sd_ledger db) = (if se_status e = ''error'' then a else 0)"
    by (rule event_okE [OF ok])
  have T: "turnId = cm_turnId p" using h(1) m(2) by simp
  have r: "reservation_transaction md userId (sd_ledger db) = Some t" by (rule funds_transaction [OF h(5) L])
  obtain latency where lat: "opt_int_column (sf_latencyMs f) = Inr latency"
    and room: "refund_room (studioReservationKey (cm_turnId p)) (sd_ledger db)"
    using free by (auto simp: refund_blocked_def split: sum.split_asm)
  have fu: "tx_amount t = - a" "0 < a" "a \<le> unit_bound" "tx_type t = Some (''spend:'' @ sq_action (sm_quote md))"
    "sp_idempotencyKey (sm_reservation md) = studioReservationKey turnId"
    "sp_reservedManna (sm_reservation md) = JFin (unit_val a)" using h(5) unfolding funds_def pays_def by blast+
  have amt: "js_eq (numericToNumber (tx_amount t)) (js_neg (sp_reservedManna (sm_reservation md)))"
    using fu by (simp add: numericToNumber_def number_of_units_val unit_val_uminus js_eq_def)
  obtain s leg where rv: "reverseReservation (studioReservationKey turnId) (Some (sp_subscriptionManna (sm_reservation md)))
      (Some (case cm_refundType p of None \<Rightarrow> ''refund:'' @ sq_action (sm_quote md) | Some ty \<Rightarrow> ty)) now (sd_ledger db)
      = (s, Inr leg)"
    using reversal_succeeds [OF h(5) L] h(6) e(2) room T by fastforce
  have "list_ex (refundable (cm_turnId p)) (sd_events db)"
    using m e(2) by (auto simp: list_ex_iff refundable_def)
  then have "pay_back reverseReservation p f now md (Some userId) db =
      Inr ((update_events (refundable (cm_turnId p)) (refunded_event f latency) db)\<lparr>sd_ledger := s\<rparr>, Refunded)"
    using r amt fu(4,5) rv lat by (simp add: pay_back_def on_studio_ledger_def update_events_def)
  then show ?thesis using e h(2-4) by (intro exI [of _ s] exI [of _ latency]) (simp add: finish_compensation_def)
qed

section \<open>Rows through a compensation\<close>

lemma event_of_update:
  assumes "\<And>e. se_turnId (f e) = se_turnId e"
  shows "event_of t (update_events p f db) = map_option (\<lambda>e. if p e then f e else e) (event_of t db)"
proof -
  have "find (\<lambda>e. se_turnId e = Some t) (map (\<lambda>e. if p e then f e else e) xs) =
      map_option (\<lambda>e. if p e then f e else e) (find (\<lambda>e. se_turnId e = Some t) xs)" for xs
    using assms by (induction xs) auto
  then show ?thesis by (simp add: event_of_def update_events_def)
qed

lemma event_of_ledger [simp]: "event_of t (db\<lparr>sd_ledger := s\<rparr>) = event_of t db"
  by (simp add: event_of_def)

lemma refunded_row:
  assumes "event_of t db = Some e" "se_status e = ''refund_pending''"
  shows "event_of t ((update_events (refundable t) (refunded_event f latency) db)\<lparr>sd_ledger := s\<rparr>) =
    Some (refunded_event f latency e)"
  using assms event_of_in [OF assms(1)]
  by (simp add: event_of_update refunded_event_def refundable_def)

text \<open>A row that is not open any more: completed, refunded or waiting for its refund.\<close>

abbreviation closed_status :: "string \<Rightarrow> bool" where
  "closed_status st \<equiv> st \<in> {''refund_pending'', ''completed'', ''error''}"

lemma event_stays:
  assumes "studio_inv db'" "studio_le db db'" "event_of t db = Some e"
  obtains e' where "event_of t db' = Some e'" "event_le e e'"
  using sf.row_stays [OF assms(1,2) [unfolded studio_rows], of t e] assms(3) unfolding event_of_def by blast

text \<open>The row between the two transactions.\<close>

lemma between_transactions:
  assumes "studio_inv db'" "studio_le db db'" "event_of t db = Some e" "se_status e = ''refund_pending''"
  obtains e' where "event_of t db' = Some e'" "se_status e' = ''refund_pending'' \<or> se_status e' = ''error''"
proof -
  obtain e' where "event_of t db' = Some e'" "event_le e e'" by (rule event_stays [OF assms(1-3)])
  then show thesis using that assms(4) by (simp add: event_le_def)
qed

lemma closed_kept:
  assumes "studio_inv db'" "studio_le db db'" "event_of t db = Some e" "closed_status (se_status e)"
  shows "\<exists>e'. event_of t db' = Some e' \<and> closed_status (se_status e')"
proof -
  obtain e' where "event_of t db' = Some e'" "event_le e e'" by (rule event_stays [OF assms(1-3)])
  then show ?thesis using assms(4) by (auto simp: event_le_def)
qed

lemma known_status:
  assumes "studio_inv db" "event_of t db = Some e"
  shows "se_status e \<in> studio_statuses"
proof -
  have "event_ok (sd_ledger db) e" using event_of_in [OF assms(2)] assms(1) by (simp add: studio_inv_def)
  then show ?thesis by (rule event_okD(1))
qed

text \<open>The debit of a generation by its row.\<close>

lemma generation_debit:
  assumes inv: "studio_inv db" and e: "event_of t db = Some e"
  obtains tx m a where "findTransactionByKey (studioReservationKey t) (sd_ledger db) = Some tx"
    "readReservationMetadata (se_metadata e) = Inr m" "sp_reservedManna (sm_reservation m) = numericToNumber a"
    "tx_amount tx = - a" "0 < a" "refunded_units (tx_id tx) (sd_ledger db) = (if se_status e = ''error'' then a else 0)"
    "se_status e \<in> studio_statuses"
proof -
  have m: "e \<in> set (sd_events db)" "se_turnId e = Some t" using event_of_in [OF e] by simp_all
  have ok: "event_ok (sd_ledger db) e" and L: "ledger_inv (sd_ledger db)" using inv m(1) by (simp_all add: studio_inv_def)
  obtain turnId userId obj md tx a where h: "se_turnId e = Some turnId" "se_userId e = Some userId"
    "se_metadata e = Some (JObj obj)" "readReservationMetadata (Some (JObj obj)) = Inr md"
    "funds (sd_ledger db) turnId userId md tx a"
    "refunded_units (tx_id tx) (sd_ledger db) = (if se_status e = ''error'' then a else 0)"
    by (rule event_okE [OF ok])
  have tx: "tx \<in> set (manna_transactions (sd_ledger db))" "tx_idempotency_key tx = Some (studioReservationKey turnId)"
    "tx_amount tx = - a" "0 < a" "a \<le> unit_bound" "sp_reservedManna (sm_reservation md) = JFin (unit_val a)"
    using h(5) unfolding funds_def pays_def by blast+
  have t: "turnId = t" using h(1) m(2) by simp
  show thesis
    by (rule that [of tx md a])
      (use tx_by_key [OF L tx(1,2)] t h(3,4,6) tx event_okD(1) [OF ok] in
        \<open>simp_all add: numericToNumber_def number_of_units_val\<close>)
qed

text \<open>The second transaction, whichever way it ends.\<close>

lemma pay_back_refunded: "pay_back rvs p f now m user db = Inr (db', out) \<Longrightarrow> out = Refunded"
  by (auto simp: pay_back_def ebind_Inr_iff split: option.split_asm if_split_asm)

lemma finish_row:
  assumes fin: "studio_transaction (finish_compensation rvs p f now) db = (db', out)" and inv: "studio_inv db"
    and rvs: "a_reversal rvs" and e: "event_of (cm_turnId p) db = Some e"
    and st: "se_status e = ''refund_pending'' \<or> se_status e = ''error''"
  shows "studio_inv db' \<and> studio_le db db' \<and> (\<exists>e'. event_of (cm_turnId p) db' = Some e' \<and>
    (case out of Inl x \<Rightarrow> se_status e' = ''refund_pending'' | Inr r \<Rightarrow> se_status e' = ''error'' \<and> r \<noteq> RefundPending))"
proof (cases "se_status e = ''error''")
  case True
  then have "finish_compensation rvs p f now db = Inr (db, AlreadyTerminal)" using e by (simp add: finish_compensation_def)
  then show ?thesis using fin inv e True by (auto simp: studio_transaction_def)
next
  case False
  then have s: "se_status e = ''refund_pending''" using st by simp
  show ?thesis
  proof (cases "finish_compensation rvs p f now db")
    case (Inl x)
    then show ?thesis using fin inv e s by (auto simp: studio_transaction_def)
  next
    case (Inr y)
    obtain db2 r where y: "y = (db2, r)" by (cases y)
    have d: "db' = db2" "out = Inr r" using fin by (simp_all add: studio_transaction_def Inr y)
    have r: "r = Refunded"
      using Inr [unfolded y] e s pay_back_refunded by (auto simp: finish_compensation_def ebind_Inr_iff)
    obtain latency l where "db2 = (update_events (refundable (cm_turnId p)) (refunded_event f latency) db)\<lparr>sd_ledger := l\<rparr>"
      by (rule finish_cases [OF Inr [unfolded y] rvs]) (use r in auto)
    then have "event_of (cm_turnId p) db2 = Some (refunded_event f latency e)" using refunded_row [OF e s] by simp
    then show ?thesis using finish_step [OF Inr [unfolded y] rvs inv] r
      by (simp add: d refunded_event_def)
  qed
qed

text \<open>
  What the compensation answers after the second transaction, and when it leaves the refund
  waiting.
\<close>

definition second_outcome :: "studio_db \<times> (studio_error, compensation_outcome) res
    \<Rightarrow> studio_db \<times> (studio_error, compensation_outcome) res" where
  "second_outcome r = (case r of (db, Inl x) \<Rightarrow> (db, Inr RefundPending) | (db, Inr out) \<Rightarrow> (db, Inr out))"

lemma finish_answers:
  assumes inv: "studio_inv db" and e: "event_of (cm_turnId p) db = Some e"
    and st: "se_status e = ''refund_pending'' \<or> se_status e = ''error''"
    and run: "(db', outcome) = second_outcome (studio_transaction (finish_compensation reverseReservation p f now) db)"
  shows "\<exists>e'. event_of (cm_turnId p) db' = Some e' \<and> studio_inv db' \<and>
    (se_status e' = ''error'' \<and> (outcome = Inr AlreadyTerminal \<or> outcome = Inr Refunded \<and>
       se_errorCode e' = Some (sf_errorCode f) \<and> se_errorMessage e' = Some (sf_errorMessage f) \<and>
       opt_int_column (sf_latencyMs f) = Inr (se_latencyMs e')) \<or>
     outcome = Inr RefundPending \<and> se_status e' = ''refund_pending'' \<and>
       refund_blocked (cm_turnId p) f (sd_ledger db))"
proof (cases "se_status e = ''error''")
  case True
  then have "finish_compensation reverseReservation p f now db = Inr (db, AlreadyTerminal)"
    using e by (simp add: finish_compensation_def)
  then show ?thesis using run True e inv by (simp add: studio_transaction_def second_outcome_def)
next
  case False
  then have s: "se_status e = ''refund_pending''" using st by simp
  show ?thesis
  proof (cases "finish_compensation reverseReservation p f now db")
    case (Inl x)
    then have "refund_blocked (cm_turnId p) f (sd_ledger db)"
      using finish_succeeds [OF inv e s, of f now] by auto
    then show ?thesis using run Inl s e inv by (simp add: studio_transaction_def second_outcome_def)
  next
    case (Inr y)
    obtain db2 r where y: "y = (db2, r)" by (cases y)
    note fin = Inr [unfolded y]
    have d: "db' = db2" "outcome = Inr r" using run by (simp_all add: studio_transaction_def fin second_outcome_def)
    have rv: "a_reversal reverseReservation" by (simp add: a_reversal_def)
    have r: "r = Refunded"
      using fin e s pay_back_refunded by (auto simp: finish_compensation_def ebind_Inr_iff)
    obtain latency l where l: "opt_int_column (sf_latencyMs f) = Inr latency"
      "db2 = (update_events (refundable (cm_turnId p)) (refunded_event f latency) db)\<lparr>sd_ledger := l\<rparr>"
      by (rule finish_cases [OF fin rv]) (use r in auto)
    have "studio_inv db2" using finish_step [OF fin rv inv] by simp
    moreover have "event_of (cm_turnId p) db2 = Some (refunded_event f latency e)" using refunded_row [OF e s] l(2) by simp
    ultimately show ?thesis using d r l(1) by (simp add: refunded_event_def)
  qed
qed

text \<open>Another compensation of the same generation may commit between the two transactions.\<close>

lemma rival_env:
  "good_studio_env (\<lambda>db. fst (studio_transaction (finish_compensation reverseReservation p f now) db))"
proof -
  have "studio_inv (fst (studio_transaction (finish_compensation reverseReservation p f now) db)) \<and>
      studio_le db (fst (studio_transaction (finish_compensation reverseReservation p f now) db))" if "studio_inv db" for db
  proof (cases "finish_compensation reverseReservation p f now db")
    case (Inr y)
    then show ?thesis
      using finish_step [of reverseReservation p f now db "fst y" "snd y"] that
      by (cases y) (simp add: studio_transaction_def a_reversal_def)
  qed (use that in \<open>simp add: studio_transaction_def\<close>)
  then show ?thesis by (simp add: good_studio_env_def)
qed

text \<open>A whole compensation, whatever its reversal does: the answer tells the state of the row.\<close>

lemma compensate_row:
  assumes inv: "studio_inv db" and env: "good_studio_env env" and rvs: "a_reversal rvs"
    and e: "event_of (cm_turnId p) db = Some e"
    and c: "compensateStudioGeneration rvs env evidence stamp p now db = (db', outcome)"
  shows "studio_inv db' \<and> studio_le db db' \<and> (\<exists>e'. event_of (cm_turnId p) db' = Some e' \<and>
    (outcome = Inr RefundPending \<and> se_status e' = ''refund_pending'' \<or>
     outcome \<in> {Inr Refunded, Inr AlreadyTerminal} \<and> (se_status e' = ''error'' \<or> se_status e' = ''completed'' \<and> e' = e)))"
proof (cases "active_status (se_status e)")
  case False
  then have st: "se_status e = ''completed'' \<or> se_status e = ''error''"
    using known_status [OF inv e] by (auto simp: studio_statuses_def active_status_def)
  then have "db' = db" "outcome = Inr AlreadyTerminal"
    using c e by (auto simp: compensateStudioGeneration_def studio_transaction_def mark_compensation_def)
  then show ?thesis using inv e st by auto
next
  case True
  obtain db1 e1 where mark: "mark_compensation stamp p db = Inr (db1, Some (effective_failure p e))"
    "event_of (cm_turnId p) db1 = Some e1" "se_status e1 = ''refund_pending''"
    using mark_succeeds [OF inv e True] by blast
  have m: "studio_inv db1" "studio_le db db1" using mark_step [OF mark(1) inv] by simp_all
  then have env1: "studio_inv (env db1)" "studio_le db1 (env db1)" using env by (simp_all add: good_studio_env_def)
  obtain e2 where e2: "event_of (cm_turnId p) (env db1) = Some e2" "se_status e2 = ''refund_pending'' \<or> se_status e2 = ''error''"
    by (rule between_transactions [OF env1 mark(2,3)])
  obtain out where fin:
    "studio_transaction (finish_compensation rvs p (effective_failure p e) now) (env db1) = (db', out)"
    and out: "outcome = (case out of Inl x \<Rightarrow> Inr RefundPending | Inr r \<Rightarrow> Inr r)"
    using c by (auto simp: compensateStudioGeneration_def studio_transaction_def mark(1) split: sum.split_asm)
  note f = finish_row [OF fin env1(1) rvs e2]
  have "studio_le db db'" using studio_le_trans [OF studio_le_trans [OF m(2) env1(2)]] f by blast
  moreover have "r = Refunded \<or> r = AlreadyTerminal" if "r \<noteq> RefundPending" for r using that by (cases r) auto
  ultimately show ?thesis using f out by (cases out) auto
qed

lemma compensate_step:
  assumes inv: "studio_inv db" and env: "good_studio_env env"
    and c: "compensateStudioGeneration reverseReservation env evidence stamp p now db = (db', outcome)"
  shows "studio_inv db' \<and> studio_le db db' \<and>
    (event_of (cm_turnId p) db \<noteq> None \<longrightarrow> (\<exists>e. event_of (cm_turnId p) db' = Some e \<and> closed_status (se_status e)))"
proof (cases "event_of (cm_turnId p) db")
  case None
  then have "db' = db"
    using c by (simp add: compensateStudioGeneration_def studio_transaction_def mark_compensation_def)
  then show ?thesis using inv None by simp
next
  case (Some e)
  have "a_reversal reverseReservation" by (simp add: a_reversal_def)
  then show ?thesis using compensate_row [OF inv env _ Some c] by auto
qed

section \<open>The reaper\<close>

lemma reap_run:
  assumes env: "good_studio_env env"
  shows "studio_inv db \<Longrightarrow> reap_generations env evidence stamp now ts db = (db', reaped, pending) \<Longrightarrow>
    studio_inv db' \<and> studio_le db db' \<and> reaped + pending \<le> length ts \<and>
    (\<forall>t \<in> set ts. t \<noteq> [] \<and> event_of t db \<noteq> None \<longrightarrow>
       (\<exists>e. event_of t db' = Some e \<and> closed_status (se_status e)))"
proof (induction ts arbitrary: db db' reaped pending)
  case (Cons t ts)
  show ?case
  proof (cases "t = []")
    case False
    obtain db1 out where c: "compensateStudioGeneration reverseReservation env evidence stamp (reap_compensation t) now (env db)
        = (db1, out)" by fastforce
    obtain reaped' pending' where rest: "reap_generations env evidence stamp now ts db1 = (db', reaped', pending')"
      "reaped + pending \<le> Suc (reaped' + pending')"
      using Cons.prems(2) False c by (cases out) (auto split: prod.split_asm compensation_outcome.split_asm)
    have e: "studio_inv (env db)" "studio_le db (env db)" using env Cons.prems(1) by (simp_all add: good_studio_env_def)
    have id: "cm_turnId (reap_compensation t) = t" by (simp add: reap_compensation_def)
    note s = compensate_step [OF e(1) env c, unfolded id]
    note ih = Cons.IH [OF _ rest(1)]
    have le: "studio_le db db1" using studio_le_trans [OF e(2)] s by blast
    have known: "event_of u v \<noteq> None" if "studio_inv v" "studio_le w v" "event_of u w \<noteq> None" for u v w
      using that event_stays [of v w u] by blast
    have "\<exists>x. event_of u db' = Some x \<and> closed_status (se_status x)"
      if "u \<in> set (t # ts)" "u \<noteq> []" "event_of u db \<noteq> None" for u
    proof (cases "u = t")
      case True
      then obtain x where "event_of t db1 = Some x" "closed_status (se_status x)"
        using s known [OF e \<open>event_of u db \<noteq> None\<close>] by blast
      then show ?thesis using closed_kept ih s True by blast
    next
      case False
      then show ?thesis using that known [OF _ le \<open>event_of u db \<noteq> None\<close>] ih s by auto
    qed
    then show ?thesis using ih s studio_le_trans [OF le] rest(2) by auto
  next
    case True
    then show ?thesis using Cons.IH [OF Cons.prems(1), of db' reaped pending] Cons.prems(2) by simp
  qed
qed simp

lemma stale_bounded: "length (stale_generations cutoff scope db) \<le> 200"
proof -
  have "length (List.map_filter f xs) \<le> length xs" for f :: "studio_event \<Rightarrow> string option" and xs
    by (simp add: List.map_filter_def)
  then show ?thesis unfolding stale_generations_def using length_take order_trans
    by (metis (no_types, lifting) min.cobounded2)
qed

lemma stale_known:
  assumes "studio_inv db" "t \<in> set (stale_generations cutoff scope db)"
  shows "event_of t db \<noteq> None"
proof -
  obtain e where "e \<in> set (sd_events db)" "se_turnId e = Some t"
    using assms(2) by (auto simp: stale_generations_def List.map_filter_def dest!: in_set_takeD)
  then show ?thesis using event_of_iff [of db t e] assms(1) by (simp add: studio_inv_def)
qed

end
