(* ===== verification/StudioSamples.thy ===== *)
theory StudioSamples
  imports StudioOutcomes TurnProperties
begin

text \<open>A user with 100 manna and one generation of it, for the witnesses.\<close>

text \<open>A plan with one turn.\<close>

definition one_plan :: "string \<Rightarrow> turn_params" where
  "one_plan t = demo_plan ''t1''"

lemma one_plan_keys: "turn_keys one_plan = {''t1''}"
  by (auto simp: turn_keys_def one_plan_def demo_key)

abbreviation (input) speech_id :: string where
  "speech_id \<equiv> ''11111111-1111-4111-8111-111111111111''"

text \<open>The cost of 120 characters of speech, and the quote of 28 manna for it.\<close>

definition speech_cost :: rat where
  "speech_cost = round64 (120 * round64 (1667 / 10000000))"

definition speech_quote :: studio_quote where
  "speech_quote = \<lparr>sq_action = ''tts'', sq_provider = ''elevenlabs'', sq_model = ''tts'',
     sq_tableVersion = COST_TABLE_VERSION, sq_costUsd = JFin speech_cost, sq_manna = JFin 28\<rparr>"

lemma speech_cost_near: "\<bar>speech_cost - of_int 20004 / 1000000\<bar> \<le> of_int 20004 / 1000000 * (1 / 2 ^ 51)"
  by code_simp

lemma speech_cost: "0 \<le> speech_cost" "cost_column (JFin speech_cost) = Inr (PgNum 2000400)"
proof -
  have b: "20003999 / 1000000000 < speech_cost" "speech_cost < 20004001 / 1000000000"
    using abs_le_D1 [OF speech_cost_near] abs_le_D2 [OF speech_cost_near] by simp_all
  then show "0 \<le> speech_cost" by simp
  have "\<lfloor>speech_cost * 100000000 + 1 / 2\<rfloor> = 2000400" using b by (intro floor_unique) simp_all
  then show "cost_column (JFin speech_cost) = Inr (PgNum 2000400)"
    using b by (simp add: cost_column_def fixed8_def)
qed

lemma speech_units [simp]: "fixed4 28 = 280000" "fixed4 (- 28) = - 280000" "round64 28 = 28" "round64 (- 28) = - 28"
  "assertValidAmount (JFin 28) = Inr ()" "number_of_units 280000 = JFin 28" "fix4 (JFin 28) = JFin 28"
proof -
  show f: "fixed4 28 = 280000" "fixed4 (- 28) = - 280000" using fixed4_of_int [of 28] by (simp_all add: fixed4_uminus)
  show "round64 28 = 28" "round64 (- 28) = - 28" using round64_of_int [of 28] round64_of_int [of "- 28"] by simp_all
  show "assertValidAmount (JFin 28) = Inr ()" using f by (intro valid_units) (simp_all add: unit_bound_def)
  show "number_of_units 280000 = JFin 28" "fix4 (JFin 28) = JFin 28"
    using whole_units [of 28] fix4_unit_val [of 280000] by (simp_all add: number_of_units_val unit_bound_def unit_val_def)
qed

definition speech :: studio_request where
  "speech = \<lparr>rq_turnId = speech_id, rq_accountId = ''u1'', rq_tool = ''tts'', rq_quote = speech_quote,
     rq_reservationKey = studioReservationKey speech_id, rq_dailyCap = JFin 10000\<rparr>"

definition speech_tx :: manna_transaction where
  "speech_tx = \<lparr>tx_id = 1, tx_manna_account_id = 0, tx_amount = - 280000, tx_type = Some ''spend:tts'',
     tx_task_external_id = None, tx_stripe_event_id = None, tx_stripe_event_type = None,
     tx_stripe_event_data = None, tx_voucher_external_id = None, tx_code = None,
     tx_idempotency_key = Some (studioReservationKey speech_id), tx_refunds_transaction_id = None, tx_created_at = T0\<rparr>"

definition speech_ledger :: ledger where
  "speech_ledger = \<lparr>accounts = [''u1'', ''a1''], manna_accounts = [demo_account\<lparr>ma_balance := 720000, ma_updated_at := T0\<rparr>],
     manna_transactions = [speech_tx], next_id = 2\<rparr>"

definition speech_metadata :: studio_metadata where
  "speech_metadata = \<lparr>sm_tool = ''tts'', sm_quote = speech_quote,
     sm_reservation = \<lparr>sp_idempotencyKey = studioReservationKey speech_id, sp_transactionId = show_nat 1,
       sp_reservedManna = JFin 28, sp_subscriptionManna = JFin 0, sp_durableManna = JFin 28\<rparr>\<rparr>"

definition speech_event :: studio_event where
  "speech_event = pending_event speech speech_metadata 28 T0"

definition speech_db :: studio_db where
  "speech_db = \<lparr>sd_ledger = speech_ledger, sd_events = [speech_event]\<rparr>"

definition speech_reservation :: studio_reservation where
  "speech_reservation = \<lparr>sr_turnId = speech_id, sr_metadata = speech_metadata\<rparr>"

lemma speech_debit:
  "studio_debit speech = \<lparr>dp_accountId = ''u1'', dp_amount = JFin 28,
     dp_type = ''spend:tts'', dp_idempotencyKey = studioReservationKey speech_id, dp_taskExternalId = None,
     dp_dailyCap = Some \<lparr>dc_limit = JFin 10000, dc_now = None\<rparr>, dp_rollingCap = None\<rparr>"
  by (simp add: studio_debit_def speech_def speech_quote_def)

lemma speech_check: "check_daily (studio_debit speech) T0 demo_ledger = Inr ()"
  unfolding speech_debit
  by (simp add: check_daily_def Let_def netSpendSince_def net_spend_units_def spend_rows_def js_of_rat_def
      demo_ledger_def numericToNumber_def js_simps)

lemma speech_apply:
  "\<exists>r. apply_debit (studio_debit speech) T0 0 demo_ledger = Inr (speech_ledger, r) \<and>
     lr_transaction r = speech_tx \<and> \<not> lr_alreadyApplied r \<and> lr_subscriptionDrawn r = Some (JFin 0)"
  unfolding speech_debit
  by (simp add: apply_debit_def demo_ledger_def demo_account_def manna_row_def numericToNumber_def js_simps
      numberToNumeric_def pg_fits_def draw_down_def insert_transaction_def violates_unique_def blank_tx_def
      update_account_def Let_def speech_ledger_def speech_tx_def fix4_def)

lemma speech_reserved:
  "reserve_studio_tx speech T0 \<lparr>sd_ledger = demo_ledger, sd_events = []\<rparr> = Inr (speech_db, speech_reservation)"
proof -
  obtain r where r: "apply_debit (studio_debit speech) T0 0 demo_ledger = Inr (speech_ledger, r)"
    "lr_transaction r = speech_tx" "\<not> lr_alreadyApplied r" "lr_subscriptionDrawn r = Some (JFin 0)"
    using speech_apply by blast
  have "getOrCreateMannaAccount (\<lambda>x. x) ''u1'' T0 demo_ledger = Inr (demo_ledger, demo_account)"
    "findTransactionByKey k demo_ledger = None" "ma_id demo_account = 0" for k
    by (simp_all add: getOrCreateMannaAccount_def account_row_def demo_ledger_def demo_account_def
        findTransactionByKey_def)
  then have d: "debit (\<lambda>x. x) (studio_debit speech) T0 demo_ledger = (speech_ledger, Inr r)"
    using r(1) speech_check unfolding speech_debit
    by (simp add: debit_def debit_tx_def check_rolling_def)
  have m: "granted_metadata speech r = speech_metadata"
    using r(2,4) by (simp add: granted_metadata_def speech_metadata_def speech_def speech_quote_def speech_tx_def
        js_simps js_of_rat_def Let_def)
  have c: "int_column (JFin 28) = Inr 28" by (simp add: int_column_def stored_int_def)
  have k: "outputKindForStudioTool ''tts'' = Inr AudioOutput" by (simp add: outputKindForStudioTool_def)
  have q: "rq_tool speech = ''tts''" "sq_manna (rq_quote speech) = JFin 28" "rq_turnId speech = speech_id"
    "rq_accountId speech = ''u1''" by (simp_all add: speech_def speech_quote_def)
  show ?thesis
    using r(3) by (simp add: reserve_studio_tx_def q k d m c check_conflicts_def on_studio_ledger_def event_of_def
        speech_db_def speech_event_def speech_reservation_def Let_def, simp add: speech_ledger_def)
qed

section \<open>The platform\<close>

text \<open>A platform with a ledger, no turns and no generations.\<close>

definition platform_start :: "ledger \<Rightarrow> string list \<Rightarrow> platform" where
  "platform_start s live =
     (opened s live, \<lparr>sw_db = \<lparr>sd_ledger = s, sd_events = []\<rparr>, sw_held = (\<lambda>_. None)\<rparr>)"

lemma platform_start_inv: "ledger_inv s \<Longrightarrow> platform_inv plan (platform_start s live)"
  using opened_inv [of s plan live]
  by (simp add: platform_inv_def shared_inv_def platform_start_def studio_world_inv_def studio_inv_def own_keys_def
      turn_ledger_def studio_ledger_def opened_def)

definition speech_platform :: platform where
  "speech_platform = (put_turn speech_ledger (opened demo_ledger [''u1'']),
     \<lparr>sw_db = speech_db, sw_held = [speech_id \<mapsto> speech_reservation]\<rparr>)"

definition reserve_speech :: "platform_op list" where
  "reserve_speech = [SecondOp (ReserveGen speech T0)]"

lemma speech_run:
  "foldl (platform_step one_plan) (platform_start demo_ledger [''u1'']) reserve_speech = speech_platform"
proof -
  have r: "reserveStudioGeneration speech T0 \<lparr>sd_ledger = demo_ledger, sd_events = []\<rparr> = (speech_db, Inr speech_reservation)"
    using speech_reserved by (simp add: reserveStudioGeneration_def studio_transaction_def)
  have "rq_turnId speech = speech_id" "sd_ledger speech_db = speech_ledger" by (simp_all add: speech_def speech_db_def)
  then show ?thesis
    by (simp add: platform_step_def platform_start_def reserve_speech_def speech_platform_def Let_def r studio_ledger_def)
qed

lemma speech_admitted: "list_all (platform_admitted one_plan) reserve_speech"
  by (simp add: reserve_speech_def platform_admitted_def one_plan_keys speech_def speech_quote_def
      studioReservationKey_def finite_nonneg_def speech_cost not_less)

lemma speech_inv: "platform_inv one_plan speech_platform"
  using platform_run(1) [OF platform_start_inv [OF demo_start_inv] speech_admitted, of "[''u1'']"]
  unfolding speech_run .

lemma speech_rows:
  "event_of speech_id speech_db = Some speech_event" "se_status speech_event = ''pending''"
  "readReservationMetadata (se_metadata speech_event) = Inr speech_metadata"
  "sw_db (snd speech_platform) = speech_db"
proof -
  have "split_valid (sm_quote speech_metadata) (sm_reservation speech_metadata)"
    by (simp add: split_valid_def speech_metadata_def speech_quote_def finite_nonneg_def js_eq_def js_of_rat_def speech_cost not_less)
  then show "readReservationMetadata (se_metadata speech_event) = Inr speech_metadata"
    using read_metadata_json [of speech_metadata "[]"] by (simp add: speech_event_def pending_event_def)
qed (simp_all add: event_of_def speech_db_def speech_event_def pending_event_def speech_def speech_platform_def)

text \<open>The generation admitted to its provider, and completed with its artifact.\<close>

definition provider_platform :: platform where
  "provider_platform = platform_step one_plan speech_platform (SecondOp (AdmitGen speech_id))"

definition finished_platform :: platform where
  "finished_platform = platform_step one_plan speech_platform (SecondOp (CompleteGen speech_id ''c1'' (JFin 5)))"

lemma later_speech_inv: "platform_inv one_plan provider_platform" "platform_inv one_plan finished_platform"
  using platform_run(1) [OF speech_inv, of "[SecondOp (AdmitGen speech_id)]"]
    platform_run(1) [OF speech_inv, of "[SecondOp (CompleteGen speech_id ''c1'' (JFin 5))]"]
  by (simp_all add: provider_platform_def finished_platform_def platform_admitted_def)

lemma speech_admittable: "admittable speech_reservation speech_event"
  by (simp add: admittable_def pending_with_def speech_reservation_def speech_event_def pending_event_def speech_def metadata_json_def
      speech_metadata_def quote_json_def split_json_def stringify_num_def member_def)

lemma speech_ids: "se_turnId speech_event = Some speech_id" "se_status speech_event = ''pending''"
  "sr_turnId speech_reservation = speech_id" "sr_metadata speech_reservation = speech_metadata"
  by (simp_all add: speech_event_def pending_event_def speech_def speech_reservation_def)

definition provider_db :: studio_db where
  "provider_db = \<lparr>sd_ledger = speech_ledger, sd_events = [speech_event\<lparr>se_status := ''provider_admitted''\<rparr>]\<rparr>"

lemma speech_admit: "admitStudioGeneration speech_reservation speech_db = (provider_db, Inr ())"
  using speech_admittable by (simp add: admitStudioGeneration_def update_events_def speech_db_def provider_db_def)

lemma provider_event:
  "event_of speech_id (sw_db (snd provider_platform)) = Some (speech_event\<lparr>se_status := ''provider_admitted''\<rparr>)"
  by (simp add: provider_platform_def platform_step_def speech_platform_def Let_def speech_admit)
    (simp add: event_of_def provider_db_def speech_ids)

definition done_event :: studio_event where
  "done_event = completed_event speech_reservation ''c1'' 28 (PgNum 2000400) 5 speech_event"

definition done_db :: studio_db where
  "done_db = \<lparr>sd_ledger = speech_ledger, sd_events = [done_event]\<rparr>"

lemma speech_complete:
  assumes "db = speech_db \<or> db = provider_db"
  shows "completeStudioGeneration speech_reservation ''c1'' (JFin 5) db = Inr done_db"
proof -
  have c: "int_column (JFin 28) = Inr 28" "int_column (JFin 5) = Inr 5"
    by (simp_all add: int_column_def stored_int_def)
  have m: "sq_manna (sm_quote speech_metadata) = JFin 28" "sq_costUsd (sm_quote speech_metadata) = JFin speech_cost"
    by (simp_all add: speech_metadata_def speech_quote_def)
  show ?thesis
    using assms c m speech_cost(2)
    by (auto simp: completeStudioGeneration_def speech_ids completable_def update_events_def speech_db_def provider_db_def
        done_db_def done_event_def completed_event_def)
qed

lemma finished_event: "event_of speech_id (sw_db (snd finished_platform)) = Some done_event" "se_status done_event = ''completed''"
proof -
  show "event_of speech_id (sw_db (snd finished_platform)) = Some done_event"
    by (simp add: finished_platform_def platform_step_def speech_platform_def Let_def speech_complete)
      (simp add: event_of_def done_db_def done_event_def completed_event_def speech_ids)
  show "se_status done_event = ''completed''" by (simp add: done_event_def completed_event_def)
qed

end
