(* ===== verification/StudioProperties.thy ===== *)
theory StudioProperties
  imports StudioSamples
begin

text \<open>
  The properties of studio generations, in any interleaving with turns and with the rest of the
  ledger: what they cost, that one of a kind runs at a time, that their ends are final, and that a
  compensation never stays half done.
\<close>

section \<open>The platform\<close>

text \<open>C4: Turns and studio generations pay exactly once, side by side. After any interleaving of the
  transactions on turns, the transactions on generations and the other debits, credits and
  refunds of one ledger, every turn has cost what its row says, and every generation has cost the
  price its metadata records while it runs and once it is completed, and nothing once it has
  ended in an error.\<close>
theorem platform_money_exact:
  assumes "ledger_inv s" "list_all (platform_admitted plan) ops"
    and "w = foldl (platform_step plan) (platform_start s live) ops"
  shows "(\<forall>t a. authorization_of t (tw_db (fst w)) = Some a \<longrightarrow>
      (\<exists>tx key. ledgerTurnKey (plan t) = Inr key \<and> findTransactionByKey key (turn_ledger (fst w)) = Some tx \<and>
        - tx_amount tx - refunded_units (tx_id tx) (turn_ledger (fst w)) = turn_cost a)) \<and>
    (\<forall>t e. event_of t (sw_db (snd w)) = Some e \<longrightarrow>
      (\<exists>tx m. findTransactionByKey (studioReservationKey t) (studio_ledger (snd w)) = Some tx \<and>
        readReservationMetadata (se_metadata e) = Inr m \<and>
        sp_reservedManna (sm_reservation m) = numericToNumber (- tx_amount tx) \<and> tx_amount tx < 0 \<and>
        - tx_amount tx - refunded_units (tx_id tx) (studio_ledger (snd w)) =
          (if se_status e = ''error'' then 0 else - tx_amount tx))) \<and>
    turn_ledger (fst w) = studio_ledger (snd w)"
proof -
  have "platform_inv plan w" using platform_run(1) [OF platform_start_inv assms(2)] assms(1,3) by blast
  then have inv: "auth_inv plan (tw_db (fst w))" "studio_inv (sw_db (snd w))" "turn_ledger (fst w) = studio_ledger (snd w)"
    using platform_sides by (simp_all add: turn_ledger_def studio_ledger_def)
  have "\<exists>tx key. ledgerTurnKey (plan t) = Inr key \<and> findTransactionByKey key (turn_ledger (fst w)) = Some tx \<and>
      - tx_amount tx - refunded_units (tx_id tx) (turn_ledger (fst w)) = turn_cost a"
    if a: "authorization_of t (tw_db (fst w)) = Some a" for t a
    using turn_debit [OF inv(1) a] turn_cost_back [of a] unfolding turn_ledger_def by (metis minus_minus)
  moreover have "\<exists>tx m. findTransactionByKey (studioReservationKey t) (studio_ledger (snd w)) = Some tx \<and>
      readReservationMetadata (se_metadata e) = Inr m \<and>
      sp_reservedManna (sm_reservation m) = numericToNumber (- tx_amount tx) \<and> tx_amount tx < 0 \<and>
      - tx_amount tx - refunded_units (tx_id tx) (studio_ledger (snd w)) =
        (if se_status e = ''error'' then 0 else - tx_amount tx)"
    if e: "event_of t (sw_db (snd w)) = Some e" for t e
    by (rule generation_debit [OF inv(2) e]) (auto simp: studio_ledger_def)
  ultimately show ?thesis using inv(3) by blast
qed

lemma platform_money_exact_witness:
  "\<exists>tx. findTransactionByKey (studioReservationKey speech_id) (studio_ledger (snd speech_platform)) = Some tx \<and>
     tx_amount tx < 0 \<and>
     - tx_amount tx - refunded_units (tx_id tx) (studio_ledger (snd speech_platform)) = - tx_amount tx"
  using platform_money_exact [OF demo_start_inv speech_admitted, of speech_platform "[''u1'']"]
  unfolding speech_run using speech_rows by fastforce

section \<open>One generation of a kind\<close>

text \<open>A request is refused before its debit while its output kind is taken.\<close>

lemma taken_refused:
  assumes "outputKindForStudioTool (rq_tool rq) = Inr kind"
    "isStudioOutputKindQuarantined kind db \<or> list_ex (occupies kind) (sd_events db)"
  shows "reserveStudioGeneration rq now db =
    (db, Inl (if isStudioOutputKindQuarantined kind db then StudioOutputQuarantinedError kind
              else StudioGenerationBusyError kind))"
  using assms
  by (auto simp: reserveStudioGeneration_def studio_transaction_def reserve_studio_tx_def check_conflicts_def
      isStudioOutputKindQuarantined_def)

text \<open>C9: At most one generation of an output kind is active at any time of any run, and a request for a kind
  that is active or quarantined is refused, with the error that tells which, before anything
  is debited.\<close>
theorem one_generation_per_kind:
  assumes "ledger_inv s" "list_all (platform_admitted plan) ops"
    and "db = sw_db (snd (foldl (platform_step plan) (platform_start s live) ops))"
  shows "length (filter (occupies kind) (sd_events db)) \<le> 1 \<and>
    (outputKindForStudioTool (rq_tool rq) = Inr kind \<and> list_ex (occupies kind) (sd_events db) \<longrightarrow>
     reserveStudioGeneration rq now db =
       (db, Inl (if isStudioOutputKindQuarantined kind db then StudioOutputQuarantinedError kind
                 else StudioGenerationBusyError kind)))"
proof -
  have "studio_inv db"
    using platform_sides platform_run(1) [OF platform_start_inv assms(2)] assms(1,3) by blast
  then have "length (filter (occupies kind) (sd_events db)) \<le> 1" unfolding studio_inv_def by blast
  then show ?thesis using taken_refused by blast
qed

lemma one_generation_per_kind_witness:
  "reserveStudioGeneration (speech\<lparr>rq_turnId := ''g2''\<rparr>) T0 speech_db =
     (speech_db, Inl (StudioGenerationBusyError AudioOutput))"
proof -
  have tool: "rq_tool (speech\<lparr>rq_turnId := ''g2''\<rparr>) = ''tts''" "outputKindForStudioTool ''tts'' = Inr AudioOutput"
    by (simp_all add: speech_def outputKindForStudioTool_def)
  have occ: "list_ex (occupies AudioOutput) (sd_events speech_db)" "\<not> isStudioOutputKindQuarantined AudioOutput speech_db"
    by (simp_all add: speech_db_def speech_event_def pending_event_def occupies_def active_status_def jsonb_text_is_def
        jsonb_get_def member_def metadata_json_def speech_metadata_def isStudioOutputKindQuarantined_def quarantined_def)
  show ?thesis
    using one_generation_per_kind [OF demo_start_inv speech_admitted, of speech_db "[''u1'']" AudioOutput
        "speech\<lparr>rq_turnId := ''g2''\<rparr>" T0] tool occ
    unfolding speech_run speech_rows(4) by simp
qed

section \<open>Final ends\<close>

lemma generation_kept:
  assumes "studio_inv db'" "studio_le db db'" "event_of t db = Some e" "se_status e = ''completed'' \<or> se_status e = ''error''"
  shows "event_of t db' = Some e"
proof -
  have m: "e \<in> set (sd_events db)" "se_turnId e = Some t" using event_of_in [OF assms(3)] by simp_all
  then have "e \<in> set (sd_events db')" using assms(2,4) unfolding studio_le_def event_le_def by blast
  then show ?thesis using event_of_iff [of db' t e] assms(1) m(2) by (simp add: studio_inv_def)
qed

text \<open>A generation that is completed or has ended in an error is final: whatever runs afterwards, its row
  is the same, and not a unit more or less of its debit has been given back, so a completed
  artifact is never refunded and a refund is never repeated.\<close>
theorem generation_end_final:
  assumes "platform_inv plan w" "list_all (platform_admitted plan) ops"
    and "event_of t (sw_db (snd w)) = Some e" "se_status e = ''completed'' \<or> se_status e = ''error''"
    and "w' = foldl (platform_step plan) w ops"
  shows "event_of t (sw_db (snd w')) = Some e \<and>
    (\<exists>tx. findTransactionByKey (studioReservationKey t) (studio_ledger (snd w)) = Some tx \<and>
       findTransactionByKey (studioReservationKey t) (studio_ledger (snd w')) = Some tx \<and>
       refunded_units (tx_id tx) (studio_ledger (snd w')) = refunded_units (tx_id tx) (studio_ledger (snd w)))"
proof -
  have run: "platform_inv plan w'" "studio_world_le (snd w) (snd w')"
    using platform_run [OF assms(1,2)] assms(5) by simp_all
  have inv: "studio_inv (sw_db (snd w))" "studio_inv (sw_db (snd w'))" "studio_le (sw_db (snd w)) (sw_db (snd w'))"
    using platform_sides [OF assms(1)] platform_sides [OF run(1)] run(2) by (simp_all add: studio_world_le_def)
  have e: "event_of t (sw_db (snd w')) = Some e" by (rule generation_kept [OF inv(2,3) assms(3,4)])
  obtain tx a where tx: "findTransactionByKey (studioReservationKey t) (studio_ledger (snd w)) = Some tx" "tx_amount tx = - a"
    "refunded_units (tx_id tx) (studio_ledger (snd w)) = (if se_status e = ''error'' then a else 0)"
    by (rule generation_debit [OF inv(1) assms(3), folded studio_ledger_def]) (rule that)
  obtain tx' a' where tx': "findTransactionByKey (studioReservationKey t) (studio_ledger (snd w')) = Some tx'"
    "tx_amount tx' = - a'" "refunded_units (tx_id tx') (studio_ledger (snd w')) = (if se_status e = ''error'' then a' else 0)"
    by (rule generation_debit [OF inv(2) e, folded studio_ledger_def]) (rule that)
  have "extends (studio_ledger (snd w)) (studio_ledger (snd w'))" using inv(3) by (simp add: studio_le_def studio_ledger_def)
  then have "tx' = tx" using extends_find [OF _ tx(1)] tx'(1) by simp
  then show ?thesis using e tx tx' by auto
qed

lemma generation_end_final_witness:
  "\<exists>e. event_of speech_id (sw_db (snd finished_platform)) = Some e \<and> se_status e = ''completed'' \<and>
     event_of speech_id (sw_db (snd (platform_step one_plan finished_platform
       (SecondOp (MarkGen ''now'' (reap_compensation speech_id)))))) = Some e"
proof -
  have ok: "list_all (platform_admitted one_plan) [SecondOp (MarkGen ''now'' (reap_compensation speech_id))]"
    by (simp add: platform_admitted_def)
  show ?thesis
    using generation_end_final [OF later_speech_inv(2) ok finished_event(1) disjI1 [OF finished_event(2)] refl] finished_event by simp
qed

section \<open>Quarantine\<close>

text \<open>A generation that fails after its provider was admitted is marked with its output kind.\<close>

lemma marked_quarantined:
  assumes "studio_inv db" "event_of (cm_turnId p) db = Some e" "se_status e = ''provider_admitted''"
    and "readReservationMetadata (se_metadata e) = Inr m" "outputKindForStudioTool (sm_tool m) = Inr kind"
  shows "\<exists>e' \<in> set (sd_events (fst (studio_transaction (mark_compensation stamp p) db))). quarantined kind e'"
proof -
  have e: "e \<in> set (sd_events db)" "se_turnId e = Some (cm_turnId p)" using event_of_in [OF assms(2)] by simp_all
  then have ok: "event_ok (sd_ledger db) e" using assms(1) by (simp add: studio_inv_def)
  obtain obj md where obj: "se_metadata e = Some (JObj obj)" by (rule event_metadata [OF ok])
  define f where "f = effective_failure p e"
  define q where "q = quarantine_json kind stamp"
  have "quarantine_on_mark stamp e = Inr (Some q)"
    using assms(3-5) by (simp add: quarantine_on_mark_def q_def)
  then have "mark_compensation stamp p db =
      Inr (update_events (\<lambda>e. se_turnId e = Some (cm_turnId p)) (marked_event f (failure_patch stamp f (Some q))) db, Some f)"
    using assms(2,3) by (simp add: mark_compensation_def active_status_def Let_def f_def)
  moreover have "quarantined kind (marked_event f (failure_patch stamp f (Some q)) e)"
    unfolding patched_quarantine [OF obj] by (simp add: q_def quarantine_json_def jsonb_text_is_def jsonb_get_def member_def)
  ultimately show ?thesis using e by (auto simp: studio_transaction_def update_events_def)
qed

text \<open>C8: Once a generation that was admitted to its provider has failed, its output kind stays quarantined:
  after any later operations every request for a tool of that kind is refused before its debit,
  whoever makes it, because the lost output could be delivered to another user.\<close>
theorem quarantine_holds:
  assumes "platform_inv plan w" "event_of (cm_turnId p) (sw_db (snd w)) = Some e" "se_status e = ''provider_admitted''"
    and "readReservationMetadata (se_metadata e) = Inr m" "outputKindForStudioTool (sm_tool m) = Inr kind"
    and "list_all (platform_admitted plan) ops"
    and "db = sw_db (snd (foldl (platform_step plan) w (SecondOp (MarkGen stamp p) # ops)))"
    and "outputKindForStudioTool (rq_tool rq) = Inr kind"
  shows "reserveStudioGeneration rq now db = (db, Inl (StudioOutputQuarantinedError kind))"
proof -
  define w1 where "w1 = platform_step plan w (SecondOp (MarkGen stamp p))"
  have inv: "studio_inv (sw_db (snd w))" using platform_sides [OF assms(1)] by blast
  have "sw_db (snd w1) = fst (studio_transaction (mark_compensation stamp p) (sw_db (snd w)))"
    by (cases w) (simp add: w1_def platform_step_def Let_def)
  then obtain e1 where e1: "e1 \<in> set (sd_events (sw_db (snd w1)))" "quarantined kind e1"
    using marked_quarantined [OF inv assms(2-5)] by auto
  have "platform_inv plan w1"
    using platform_run(1) [OF assms(1), of "[SecondOp (MarkGen stamp p)]"] by (simp add: w1_def platform_admitted_def)
  then have "studio_le (sw_db (snd w1)) db"
    using platform_run(3) [OF _ assms(6)] assms(7) by (simp add: w1_def studio_world_le_def)
  then have "isStudioOutputKindQuarantined kind db"
    using e1 unfolding studio_le_def event_le_def isStudioOutputKindQuarantined_def list_ex_iff by blast
  then show ?thesis using taken_refused [OF assms(8), of db now] by simp
qed

lemma quarantine_holds_witness:
  "\<exists>db. reserveStudioGeneration (speech\<lparr>rq_turnId := ''g2''\<rparr>) T0 db = (db, Inl (StudioOutputQuarantinedError AudioOutput)) \<and>
     db = sw_db (snd (platform_step one_plan provider_platform (SecondOp (MarkGen ''now'' (reap_compensation speech_id)))))"
proof -
  define e where "e = speech_event\<lparr>se_status := ''provider_admitted''\<rparr>"
  have e: "event_of (cm_turnId (reap_compensation speech_id)) (sw_db (snd provider_platform)) = Some e"
    using provider_event by (simp add: reap_compensation_def e_def)
  have m: "readReservationMetadata (se_metadata e) = Inr speech_metadata" "se_status e = ''provider_admitted''"
    using speech_rows(3) by (simp_all add: e_def)
  have k: "outputKindForStudioTool (sm_tool speech_metadata) = Inr AudioOutput"
    "outputKindForStudioTool (rq_tool (speech\<lparr>rq_turnId := ''g2''\<rparr>)) = Inr AudioOutput"
    by (simp_all add: speech_metadata_def speech_def outputKindForStudioTool_def)
  show ?thesis
    using quarantine_holds [where ops = "[]" and stamp = "''now''" and now = T0,
        OF later_speech_inv(1) e m(2,1) k(1) _ refl k(2)] by simp
qed

section \<open>Compensation\<close>

text \<open>C7: A compensation does not stay half done, whatever commits between its two transactions, other
  compensations of the same generation included. Started on a generation that is pending, at its
  provider or waiting for a refund, it answers that it refunded or that somebody else did, and
  then the row is an error whose whole debit is given back, and when it refunded, the row tells
  the first failure that was recorded; or it answers that the refund is pending, and then the row
  is still waiting for it with nothing given back, which happens only when the refund is blocked:
  its key is taken by another row, a pot of the payer would outgrow its numeric column, or the
  latency does not fit its integer column.\<close>
theorem compensation_refunds:
  assumes "studio_inv db" "event_of (cm_turnId p) db = Some e" "active_status (se_status e)" "good_studio_env env"
    and "compensateStudioGeneration reverseReservation env evidence stamp p now db = (db', outcome)"
  shows "\<exists>e' tx. event_of (cm_turnId p) db' = Some e' \<and>
    findTransactionByKey (studioReservationKey (cm_turnId p)) (sd_ledger db') = Some tx \<and> tx_amount tx < 0 \<and>
    (outcome \<in> {Inr Refunded, Inr AlreadyTerminal} \<and> se_status e' = ''error'' \<and>
       refunded_units (tx_id tx) (sd_ledger db') = - tx_amount tx \<and>
       (outcome = Inr Refunded \<longrightarrow> se_errorCode e' = Some (sf_errorCode (effective_failure p e)) \<and>
          se_errorMessage e' = Some (sf_errorMessage (effective_failure p e)) \<and>
          opt_int_column (sf_latencyMs (effective_failure p e)) = Inr (se_latencyMs e')) \<or>
     outcome = Inr RefundPending \<and> se_status e' = ''refund_pending'' \<and>
       refunded_units (tx_id tx) (sd_ledger db') = 0 \<and>
       refund_blocked (cm_turnId p) (effective_failure p e)
         (sd_ledger (env (fst (studio_transaction (mark_compensation stamp p) db)))))"
proof -
  define f where "f = effective_failure p e"
  obtain db1 e1 where mark: "mark_compensation stamp p db = Inr (db1, Some f)" "event_of (cm_turnId p) db1 = Some e1"
    "se_status e1 = ''refund_pending''"
    using mark_succeeds [OF assms(1-3)] unfolding f_def by metis
  have "studio_inv db1" using mark_step [OF mark(1) assms(1)] by simp
  then have env: "studio_inv (env db1)" "studio_le db1 (env db1)" using assms(4) by (simp_all add: good_studio_env_def)
  obtain e2 where e2: "event_of (cm_turnId p) (env db1) = Some e2" "se_status e2 = ''refund_pending'' \<or> se_status e2 = ''error''"
    by (rule between_transactions [OF env mark(2,3)])
  have mid: "fst (studio_transaction (mark_compensation stamp p) db) = db1" using mark(1) by (simp add: studio_transaction_def)
  have "(db', outcome) = second_outcome (studio_transaction (finish_compensation reverseReservation p f now) (env db1))"
    using assms(5) mark(1) by (simp add: compensateStudioGeneration_def studio_transaction_def second_outcome_def)
  from finish_answers [OF env(1) e2 this]
  obtain e' where e': "event_of (cm_turnId p) db' = Some e'" "studio_inv db'"
    "se_status e' = ''error'' \<and> (outcome = Inr AlreadyTerminal \<or> outcome = Inr Refunded \<and>
       se_errorCode e' = Some (sf_errorCode f) \<and> se_errorMessage e' = Some (sf_errorMessage f) \<and>
       opt_int_column (sf_latencyMs f) = Inr (se_latencyMs e')) \<or>
     outcome = Inr RefundPending \<and> se_status e' = ''refund_pending'' \<and> refund_blocked (cm_turnId p) f (sd_ledger (env db1))"
    by blast
  obtain tx a where "findTransactionByKey (studioReservationKey (cm_turnId p)) (sd_ledger db') = Some tx" "tx_amount tx = - a"
    "0 < a" "refunded_units (tx_id tx) (sd_ledger db') = (if se_status e' = ''error'' then a else 0)"
    by (rule generation_debit [OF e'(2,1)]) (rule that)
  then show ?thesis using e' unfolding mid f_def by auto
qed

text \<open>
  The speech generation, compensated twice: the rival's second transaction commits between the two
  of the first compensation, which then finds the refund made.
\<close>

lemma speech_refundable: "refund_room (studioReservationKey speech_id) speech_ledger"
  by (simp add: refund_room_def speech_ledger_def speech_tx_def findTransactionByKey_def refundIdempotencyKey_def
      demo_account_def pg_fits_def manna_row_def studioReservationKey_def)

definition speech_failure :: studio_failure where
  "speech_failure = effective_failure (reap_compensation speech_id) speech_event"

definition rival :: "studio_db \<Rightarrow> studio_db" where
  "rival db = fst (studio_transaction (finish_compensation reverseReservation (reap_compensation speech_id) speech_failure T0) db)"

definition reap_speech :: "(studio_db \<Rightarrow> studio_db) \<Rightarrow> studio_db \<times> (studio_error, compensation_outcome) res" where
  "reap_speech env = compensateStudioGeneration reverseReservation env (\<lambda>t db. (db, False)) ''now''
     (reap_compensation speech_id) T0 speech_db"

lemma speech_rival_refunds:
  obtains db1 db2 where "mark_compensation ''now'' (reap_compensation speech_id) speech_db = Inr (db1, Some speech_failure)"
    "finish_compensation reverseReservation (reap_compensation speech_id) speech_failure T0 db1 = Inr (db2, Refunded)"
    "\<not> refund_blocked speech_id speech_failure (sd_ledger db1)"
    "finish_compensation reverseReservation (reap_compensation speech_id) speech_failure T0 db2 = Inr (db2, AlreadyTerminal)"
proof -
  define p where "p = reap_compensation speech_id"
  have t: "cm_turnId p = speech_id" "cm_latencyMs p = None" by (simp_all add: p_def reap_compensation_def)
  have inv: "studio_inv speech_db" using platform_sides [OF speech_inv] speech_rows(4) by simp
  have e: "event_of (cm_turnId p) speech_db = Some speech_event" "active_status (se_status speech_event)"
    using speech_rows(1,2) by (simp_all add: t active_status_def)
  obtain db1 e1 where m: "mark_compensation ''now'' p speech_db = Inr (db1, Some speech_failure)"
    "event_of (cm_turnId p) db1 = Some e1" "se_status e1 = ''refund_pending''"
    using mark_succeeds [OF inv e, of "''now''"] unfolding speech_failure_def p_def by metis
  have db1: "studio_inv db1" "sd_ledger db1 = speech_ledger"
    using mark_step [OF m(1) inv] by (simp_all, simp add: speech_db_def)
  have lat: "opt_int_column (sf_latencyMs speech_failure) = Inr None"
    using speech_rows(2) by (simp add: speech_failure_def effective_failure_def Let_def t [unfolded p_def] opt_int_column_def
        split: option.split)
  then have free: "\<not> refund_blocked (cm_turnId p) speech_failure (sd_ledger db1)"
    using speech_refundable by (simp add: refund_blocked_def t db1(2))
  obtain db2 where f: "finish_compensation reverseReservation p speech_failure T0 db1 = Inr (db2, Refunded)"
    using finish_succeeds [OF db1(1) m(2,3) free] by blast
  have "finish_compensation reverseReservation p speech_failure T0 db2 = Inr (db2, AlreadyTerminal)"
    using finish_row [of reverseReservation p speech_failure T0 db1 db2 "Inr Refunded" e1] m(2,3) db1(1) f
    by (auto simp: studio_transaction_def a_reversal_def finish_compensation_def)
  then show thesis using that m(1) f free unfolding p_def by (simp add: reap_compensation_def)
qed

lemma compensation_refunds_witness:
  "snd (reap_speech (\<lambda>db. db)) = Inr Refunded \<and> snd (reap_speech rival) = Inr AlreadyTerminal \<and>
   (\<exists>e' tx. event_of speech_id (fst (reap_speech rival)) = Some e' \<and> se_status e' = ''error'' \<and>
      findTransactionByKey (studioReservationKey speech_id) (sd_ledger (fst (reap_speech rival))) = Some tx \<and>
      tx_amount tx < 0 \<and> refunded_units (tx_id tx) (sd_ledger (fst (reap_speech rival))) = - tx_amount tx)"
proof -
  have t: "cm_turnId (reap_compensation speech_id) = speech_id" by (simp add: reap_compensation_def)
  have inv: "studio_inv speech_db" using platform_sides [OF speech_inv] speech_rows(4) by simp
  have e: "event_of (cm_turnId (reap_compensation speech_id)) speech_db = Some speech_event" "active_status (se_status speech_event)"
    using speech_rows(1,2) by (simp_all add: t active_status_def)
  obtain db1 db2 where r: "mark_compensation ''now'' (reap_compensation speech_id) speech_db = Inr (db1, Some speech_failure)"
    "finish_compensation reverseReservation (reap_compensation speech_id) speech_failure T0 db1 = Inr (db2, Refunded)"
    "finish_compensation reverseReservation (reap_compensation speech_id) speech_failure T0 db2 = Inr (db2, AlreadyTerminal)"
    by (rule speech_rival_refunds)
  have alone: "reap_speech (\<lambda>db. db) = (db2, Inr Refunded)" and both: "reap_speech rival = (db2, Inr AlreadyTerminal)"
    using r by (simp_all add: reap_speech_def compensateStudioGeneration_def studio_transaction_def rival_def)
  have "good_studio_env rival" unfolding rival_def using rival_env .
  from compensation_refunds [OF inv e this, of "\<lambda>t db. (db, False)" "''now''" T0 db2 "Inr AlreadyTerminal"] both alone
  show ?thesis by (simp add: reap_speech_def t) blast
qed

section \<open>The reaper\<close>

text \<open>The reaper leaves nothing it found stale open, whatever commits between its statements and whatever
  its reversals do: each generation it scanned is completed, refunded or waiting for its refund,
  never again pending or at its provider, and the counts it reports stay within the 200 it scans.\<close>
theorem reaper_leaves_no_stale:
  assumes "studio_inv db" "good_studio_env env" "\<not> sa_running r"
    and "studio_runOnce env evidence stamp now r db = (r', db', out)"
  shows "(\<forall>t \<in> set (stale_generations (now - sa_ttlMs r) (sa_scope r) db). t \<noteq> [] \<longrightarrow>
      (\<exists>e. event_of t db' = Some e \<and> se_status e \<in> {''refund_pending'', ''completed'', ''error''})) \<and>
    so_reaped out + so_pending out \<le> so_scanned out \<and> so_scanned out \<le> 200 \<and> \<not> sa_running r' \<and>
    studio_inv db' \<and> studio_le db db'"
proof -
  define ts where "ts = stale_generations (now - sa_ttlMs r) (sa_scope r) db"
  obtain reaped pending where run: "reap_generations env evidence stamp now ts db = (db', reaped, pending)"
    and out: "out = \<lparr>so_scanned = length ts, so_reaped = reaped, so_pending = pending\<rparr>" "\<not> sa_running r'"
    using assms(3,4) by (auto simp: studio_runOnce_def Let_def ts_def split: prod.split_asm)
  have "event_of t db \<noteq> None" if "t \<in> set ts" for t
    using that stale_known [OF assms(1)] by (simp add: ts_def)
  moreover have "length ts \<le> 200" by (simp add: ts_def stale_bounded)
  ultimately show ?thesis using reap_run [OF assms(2) assms(1) run] out unfolding ts_def [symmetric] by simp
qed

lemma reaper_leaves_no_stale_witness:
  "\<exists>e. event_of speech_id (fst (snd (studio_runOnce (\<lambda>db. db) (\<lambda>t db. (db, False)) ''now'' (T0 + 2 * STUDIO_RESERVATION_TTL_MS)
     (new_reaper None None None) speech_db))) = Some e \<and> se_status e \<in> {''refund_pending'', ''completed'', ''error''}"
proof -
  define r where "r = new_reaper None None None"
  have r: "\<not> sa_running r" "sa_ttlMs r = STUDIO_RESERVATION_TTL_MS" "sa_scope r = None"
    by (simp_all add: r_def new_reaper_def)
  obtain r' db' out where c: "studio_runOnce (\<lambda>db. db) (\<lambda>t db. (db, False)) ''now'' (T0 + 2 * STUDIO_RESERVATION_TTL_MS) r speech_db
      = (r', db', out)" by (metis prod_cases3)
  have "stale_generations (T0 + 2 * STUDIO_RESERVATION_TTL_MS - sa_ttlMs r) (sa_scope r) speech_db = [speech_id]"
    by (simp add: stale_generations_def r speech_db_def speech_event_def pending_event_def speech_def
        STUDIO_RESERVATION_TTL_MS_def List.map_filter_def)
  moreover have "studio_inv speech_db" using platform_sides [OF speech_inv] speech_rows(4) by simp
  moreover have "good_studio_env (\<lambda>db. db)" by (simp add: good_studio_env_def)
  ultimately show ?thesis
    using reaper_leaves_no_stale [OF _ _ r(1) c] c unfolding r_def [symmetric] by simp
qed

end
