(* ===== verification/StudioQuote.thy ===== *)
theory StudioQuote
  imports StudioReservations Metering
begin

text \<open>
  The boundary of the studio (apps/api/src/routes/studio.ts): the closed schemas of a request,
  its quote from the price table, and the payload that goes to the provider. The clock a
  quote reads is the argument \<open>now\<close>.
\<close>

section \<open>Tools\<close>

datatype studio_tool = ImageGenerate | VideoGenerate | MusicGenerate | TtsGenerate

fun tool_name :: "studio_tool \<Rightarrow> string" where
  "tool_name ImageGenerate = ''image_generate''"
| "tool_name VideoGenerate = ''video_generate''"
| "tool_name MusicGenerate = ''music_generate''"
| "tool_name TtsGenerate = ''tts''"

definition STUDIO_TOOL_NAMES :: "studio_tool list" where
  "STUDIO_TOOL_NAMES = [ImageGenerate, VideoGenerate, MusicGenerate, TtsGenerate]"

fun TOOL_CLAIM_KINDS :: "studio_tool \<Rightarrow> output_kind list" where
  "TOOL_CLAIM_KINDS ImageGenerate = [ImageOutput]"
| "TOOL_CLAIM_KINDS VideoGenerate = [VideoOutput]"
| "TOOL_CLAIM_KINDS MusicGenerate = [AudioOutput]"
| "TOOL_CLAIM_KINDS TtsGenerate = [AudioOutput]"

text \<open>What a quote throws. A range error is the caller's, the type error comes from reading a
  model name that every object inherits.\<close>

datatype quote_error =
    DurationOutOfRange jsnum jsnum
  | TextRequired
  | UnknownImageModel string
  | InheritedOption string
  | QuoteMetering metering_error

section \<open>Quantities\<close>

definition numericDuration :: "json_object \<Rightarrow> jsnum \<Rightarrow> jsnum \<Rightarrow> jsnum \<Rightarrow> (quote_error, jsnum) res" where
  "numericDuration args fallback least most =
     (let duration =
        (case member args ''duration'' of
           Some (JNum raw) \<Rightarrow> if is_finite raw then raw else fallback
         | _ \<Rightarrow> fallback)
      in if js_lt duration least \<or> js_lt most duration then Inl (DurationOutOfRange least most)
         else Inr duration)"

definition textLength :: "json_object \<Rightarrow> (quote_error, jsnum) res" where
  "textLength args =
     (let raw =
        (case member args ''text'' of
           Some (JStr s) \<Rightarrow> s
         | _ \<Rightarrow> (case member args ''prompt'' of Some (JStr s) \<Rightarrow> s | _ \<Rightarrow> []));
          text = js_trim raw
      in if text = [] then Inl TextRequired else Inr (JFin (of_nat (length text))))"

definition VIDEO_MIN :: jsnum where "VIDEO_MIN = JFin 2"
definition VIDEO_MAX :: jsnum where "VIDEO_MAX = JFin 10"
definition VIDEO_DEFAULT :: jsnum where "VIDEO_DEFAULT = JFin 5"
definition MUSIC_MIN :: jsnum where "MUSIC_MIN = JFin 5"
definition MUSIC_MAX :: jsnum where "MUSIC_MAX = JFin 120"
definition MUSIC_DEFAULT :: jsnum where "MUSIC_DEFAULT = JFin 30"

definition VIDEO_TEXT_MODEL :: string where
  "VIDEO_TEXT_MODEL = ''fal-ai/kling-video/v3/pro/text-to-video''"

definition VIDEO_IMAGE_MODEL :: string where
  "VIDEO_IMAGE_MODEL = ''fal-ai/kling-video/v3/pro/image-to-video''"

section \<open>Image models\<close>

record image_option =
  io_provider :: cost_provider
  io_model :: string
  io_openclawModel :: string

definition IMAGE_MODEL_OPTIONS :: "(string \<times> image_option) list" where
  "IMAGE_MODEL_OPTIONS =
     [(''flux-dev'', \<lparr>io_provider = Fal, io_model = ''fal-ai/flux/dev'',
         io_openclawModel = ''fal/fal-ai/flux/dev''\<rparr>),
      (''gemini-pro'', \<lparr>io_provider = Google, io_model = ''gemini-3-pro-image-preview'',
         io_openclawModel = ''google/gemini-3-pro-image-preview''\<rparr>)]"

definition DEFAULT_IMAGE_MODEL :: string where
  "DEFAULT_IMAGE_MODEL = ''flux-dev''"

text \<open>The names every object inherits; reading one gives something that is not a model.\<close>

definition inherited_names :: "string list" where
  "inherited_names =
     [''constructor'', ''__defineGetter__'', ''__defineSetter__'', ''hasOwnProperty'',
      ''__lookupGetter__'', ''__lookupSetter__'', ''isPrototypeOf'', ''propertyIsEnumerable'',
      ''toString'', ''valueOf'', ''__proto__'', ''toLocaleString'']"

definition imageModelOption :: "json_object \<Rightarrow> (quote_error, image_option) res" where
  "imageModelOption args =
     (let raw = (case member args ''model'' of Some (JStr s) \<Rightarrow> s | _ \<Rightarrow> DEFAULT_IMAGE_MODEL)
      in case map_of IMAGE_MODEL_OPTIONS raw of
           Some opt \<Rightarrow> Inr opt
         | None \<Rightarrow>
             if raw \<in> set inherited_names then Inl (InheritedOption raw)
             else Inl (UnknownImageModel raw))"

section \<open>Quotes\<close>

record metering_spec =
  ms_action :: string
  ms_provider :: cost_provider
  ms_model :: string
  ms_unit :: cost_unit
  ms_defaultQuantity :: jsnum

fun STUDIO_METERING :: "studio_tool \<Rightarrow> metering_spec" where
  "STUDIO_METERING ImageGenerate =
     \<lparr>ms_action = ''image'', ms_provider = Fal, ms_model = ''fal-ai/flux/dev'', ms_unit = ImageUnit,
      ms_defaultQuantity = JFin 1\<rparr>"
| "STUDIO_METERING VideoGenerate =
     \<lparr>ms_action = ''video'', ms_provider = Fal, ms_model = VIDEO_TEXT_MODEL, ms_unit = VideoSecond,
      ms_defaultQuantity = VIDEO_DEFAULT\<rparr>"
| "STUDIO_METERING MusicGenerate =
     \<lparr>ms_action = ''music'', ms_provider = Google, ms_model = ''lyria-3-clip-preview'',
      ms_unit = MusicClip, ms_defaultQuantity = JFin 1\<rparr>"
| "STUDIO_METERING TtsGenerate =
     \<lparr>ms_action = ''tts'', ms_provider = Elevenlabs, ms_model = ''tts'', ms_unit = AudioCharacter,
      ms_defaultQuantity = JFin 120\<rparr>"

text \<open>The member \<open>quantityFromArgs\<close> of each entry.\<close>

fun quantityFromArgs :: "studio_tool \<Rightarrow> json_object \<Rightarrow> (quote_error, jsnum) res" where
  "quantityFromArgs ImageGenerate args = Inr (JFin 1)"
| "quantityFromArgs VideoGenerate args = numericDuration args VIDEO_DEFAULT VIDEO_MIN VIDEO_MAX"
| "quantityFromArgs MusicGenerate args = Inr (JFin 1)"
| "quantityFromArgs TtsGenerate args = textLength args"

record quote_line =
  ql_unit :: cost_unit
  ql_quantity :: jsnum
  ql_usdPerUnit :: jsnum
  ql_costUsd :: jsnum
  ql_estimated :: bool

record generation_quote =
  gq_tool :: studio_tool
  gq_action :: string
  gq_provider :: cost_provider
  gq_model :: string
  gq_tableVersion :: string
  gq_units :: "(cost_unit \<times> jsnum) list"
  gq_costUsd :: jsnum
  gq_manna :: jsnum
  gq_estimated :: bool
  gq_lineItems :: "quote_line list"

definition quoteFromEstimate ::
  "studio_tool \<Rightarrow> metering_spec \<Rightarrow> cost_estimate \<Rightarrow> (quote_error, generation_quote) res" where
  "quoteFromEstimate tool spec estimate =
     (case mannaForEstimate estimate \<lparr>mc_mannaPerUsd = None, mc_markup = None\<rparr> of
        Inl e \<Rightarrow> Inl (QuoteMetering e)
      | Inr manna \<Rightarrow> Inr
          \<lparr>gq_tool = tool, gq_action = ms_action spec, gq_provider = es_provider estimate,
           gq_model = es_model estimate, gq_tableVersion = es_tableVersion estimate,
           gq_units = foldl (\<lambda>m l. map_set (ce_unit (li_entry l)) (li_quantity l) m) [] (es_lineItems estimate),
           gq_costUsd = es_totalCostUsd estimate, gq_manna = manna, gq_estimated = es_estimated estimate,
           gq_lineItems =
             map (\<lambda>l. \<lparr>ql_unit = ce_unit (li_entry l), ql_quantity = li_quantity l,
                        ql_usdPerUnit = ce_usdPerUnit (li_entry l), ql_costUsd = li_costUsd l,
                        ql_estimated = (ce_estimated (li_entry l) = Some True)\<rparr>)
               (es_lineItems estimate)\<rparr>)"

text \<open>The entry a request is priced with.\<close>

definition priced_spec :: "studio_tool \<Rightarrow> json_object \<Rightarrow> (quote_error, metering_spec) res" where
  "priced_spec tool args =
     (let spec = STUDIO_METERING tool
      in if tool = ImageGenerate
         then ebind (imageModelOption args) (\<lambda>opt.
                Inr (spec\<lparr>ms_provider := io_provider opt, ms_model := io_model opt\<rparr>))
         else if tool = VideoGenerate \<and> member args ''videoMode'' = Some (JStr ''image-to-video'')
         then Inr (spec\<lparr>ms_model := VIDEO_IMAGE_MODEL\<rparr>)
         else Inr spec)"

definition estimate_of :: "int \<Rightarrow> metering_spec \<Rightarrow> jsnum \<Rightarrow> (quote_error, cost_estimate) res" where
  "estimate_of now spec quantity =
     (case costFromParams now
             \<lparr>cf_provider = ms_provider spec, cf_model = ms_model spec,
              cf_units = [(ms_unit spec, Some quantity)], cf_asOf = None\<rparr> of
        Inl e \<Rightarrow> Inl (QuoteMetering e)
      | Inr e \<Rightarrow> Inr e)"

definition quoteStudioGeneration :: "int \<Rightarrow> studio_tool \<Rightarrow> json_object \<Rightarrow> (quote_error, generation_quote) res" where
  "quoteStudioGeneration now tool args =
     ebind (priced_spec tool args) (\<lambda>spec.
     ebind (quantityFromArgs tool args) (\<lambda>quantity.
     ebind (estimate_of now spec quantity) (\<lambda>estimate.
       quoteFromEstimate tool spec estimate)))"

definition defaultQuote :: "int \<Rightarrow> studio_tool \<Rightarrow> (quote_error, generation_quote) res" where
  "defaultQuote now tool =
     (let spec = STUDIO_METERING tool
      in ebind (estimate_of now spec (ms_defaultQuantity spec)) (\<lambda>estimate. quoteFromEstimate tool spec estimate))"

definition STUDIO_PRICING :: "int \<Rightarrow> (studio_tool \<times> (quote_error, jsnum) res) list" where
  "STUDIO_PRICING now =
     map (\<lambda>tool. (tool, ebind (defaultQuote now tool) (\<lambda>q. Inr (gq_manna q)))) STUDIO_TOOL_NAMES"

section \<open>Requests\<close>

text \<open>What the schemas produce: the trimmed prompt or text, and the optional knob.\<close>

datatype studio_body =
    ImageBody string "string option"
  | VideoBody string "jsnum option"
  | MusicBody string "jsnum option"
  | TtsBody string

text \<open>A strict object has no other members.\<close>

definition strict_members :: "string list \<Rightarrow> json_object \<Rightarrow> bool" where
  "strict_members ks obj \<longleftrightarrow> list_all (\<lambda>m. fst m \<in> set ks) obj"

definition promptSchema :: "json option \<Rightarrow> string option" where
  "promptSchema v =
     (case v of
        Some (JStr s) \<Rightarrow> if js_trim s = [] then None else Some (js_trim s)
      | _ \<Rightarrow> None)"

definition imageModelKeySchema :: "json option \<Rightarrow> string option option" where
  "imageModelKeySchema v =
     (case v of
        None \<Rightarrow> Some None
      | Some (JStr s) \<Rightarrow> if s \<in> fst ` set IMAGE_MODEL_OPTIONS then Some (Some s) else None
      | _ \<Rightarrow> None)"

definition durationSchema :: "jsnum \<Rightarrow> jsnum \<Rightarrow> json option \<Rightarrow> jsnum option option" where
  "durationSchema least most v =
     (case v of
        None \<Rightarrow> Some None
      | Some (JNum d) \<Rightarrow>
          if is_finite d \<and> \<not> js_lt d least \<and> \<not> js_lt most d then Some (Some d) else None
      | _ \<Rightarrow> None)"

fun parse_args :: "studio_tool \<Rightarrow> json_object \<Rightarrow> studio_body option" where
  "parse_args ImageGenerate args =
     (case (promptSchema (member args ''prompt''), imageModelKeySchema (member args ''model'')) of
        (Some p, Some m) \<Rightarrow> if strict_members [''prompt'', ''model''] args then Some (ImageBody p m) else None
      | _ \<Rightarrow> None)"
| "parse_args VideoGenerate args =
     (case (promptSchema (member args ''prompt''), durationSchema VIDEO_MIN VIDEO_MAX (member args ''duration'')) of
        (Some p, Some d) \<Rightarrow> if strict_members [''prompt'', ''duration''] args then Some (VideoBody p d) else None
      | _ \<Rightarrow> None)"
| "parse_args MusicGenerate args =
     (case (promptSchema (member args ''prompt''), durationSchema MUSIC_MIN MUSIC_MAX (member args ''duration'')) of
        (Some p, Some d) \<Rightarrow> if strict_members [''prompt'', ''duration''] args then Some (MusicBody p d) else None
      | _ \<Rightarrow> None)"
| "parse_args TtsGenerate args =
     (case promptSchema (member args ''text'') of
        Some t \<Rightarrow> if strict_members [''text''] args then Some (TtsBody t) else None
      | None \<Rightarrow> None)"

definition parseStudioGenerationRequest :: "json \<Rightarrow> studio_body option" where
  "parseStudioGenerationRequest input =
     (case input of
        JObj obj \<Rightarrow>
          (case (member obj ''tool'', member obj ''args'') of
             (Some (JStr t), Some (JObj args)) \<Rightarrow>
               (case find (\<lambda>tool. tool_name tool = t) STUDIO_TOOL_NAMES of
                  None \<Rightarrow> None
                | Some tool \<Rightarrow> if strict_members [''tool'', ''args''] obj then parse_args tool args else None)
           | _ \<Rightarrow> None)
      | _ \<Rightarrow> None)"

text \<open>\<open>body.tool\<close> and \<open>body.args\<close>.\<close>

fun body_tool :: "studio_body \<Rightarrow> studio_tool" where
  "body_tool (ImageBody p m) = ImageGenerate"
| "body_tool (VideoBody p d) = VideoGenerate"
| "body_tool (MusicBody p d) = MusicGenerate"
| "body_tool (TtsBody t) = TtsGenerate"

fun body_args :: "studio_body \<Rightarrow> json_object" where
  "body_args (ImageBody p m) = (''prompt'', JStr p) # opt_field ''model'' (map_option JStr m)"
| "body_args (VideoBody p d) = (''prompt'', JStr p) # opt_field ''duration'' (map_option JNum d)"
| "body_args (MusicBody p d) = (''prompt'', JStr p) # opt_field ''duration'' (map_option JNum d)"
| "body_args (TtsBody t) = [(''text'', JStr t)]"

text \<open>The payload for the provider; a body of the schema names a model that exists.\<close>

fun studioProviderArgs :: "studio_body \<Rightarrow> json_object option" where
  "studioProviderArgs (ImageBody p m) =
     (case map_of IMAGE_MODEL_OPTIONS (case m of None \<Rightarrow> DEFAULT_IMAGE_MODEL | Some k \<Rightarrow> k) of
        None \<Rightarrow> None
      | Some opt \<Rightarrow> Some [(''prompt'', JStr p), (''model'', JStr (io_openclawModel opt))])"
| "studioProviderArgs (VideoBody p d) =
     Some [(''prompt'', JStr p), (''duration'', JNum (case d of None \<Rightarrow> VIDEO_DEFAULT | Some v \<Rightarrow> v))]"
| "studioProviderArgs (MusicBody p d) =
     Some [(''prompt'', JStr p), (''duration'', JNum (case d of None \<Rightarrow> MUSIC_DEFAULT | Some v \<Rightarrow> v))]"
| "studioProviderArgs (TtsBody t) = Some [(''text'', JStr t)]"

section \<open>What is charged\<close>

text \<open>The quote as the reservation keeps it; its other members stay out of the model.\<close>

definition authorized_quote :: "generation_quote \<Rightarrow> studio_quote" where
  "authorized_quote q =
     \<lparr>sq_action = gq_action q, sq_provider = provider_name (gq_provider q), sq_model = gq_model q,
      sq_tableVersion = gq_tableVersion q, sq_costUsd = gq_costUsd q, sq_manna = gq_manna q\<rparr>"

end
