(* ===== verification/StudioRoute.thy ===== *)
theory StudioRoute
  imports StudioQuote
begin

text \<open>
  The request that generates (POST /studio/generate of apps/api/src/routes/studio.ts): quote,
  reservation, media claim, tool or speech provider, ingest with completion, and the
  compensation of every failure after the debit. What the gateway, the watcher, the provider
  and the ingest pipeline answer is the record \<open>outside\<close>; \<open>env i\<close> is what others commit before
  the i-th transaction of the request.
\<close>

section \<open>Errors and replies\<close>

definition PUBLIC_SERVER_ERROR_CODES :: "string list" where
  "PUBLIC_SERVER_ERROR_CODES =
     [''account_erasure_unavailable'', ''agent_provision_failed'', ''backend_part_size_mismatch'',
      ''channel_custody_unavailable'', ''configuration_error'', ''database_unavailable'',
      ''erasure_intent_mismatch'', ''erasure_ledger_mismatch'', ''erasure_ledger_unavailable'',
      ''erasure_recovery_manifest_mismatch'', ''erasure_recovery_manifest_unavailable'',
      ''gateway_error'', ''gateway_not_configured'', ''gateway_stream_error'', ''gateway_unavailable'',
      ''gateway_unconfigured'', ''generation_timeout'', ''internal_error'',
      ''managed_bot_activation_failed'', ''managed_bot_revocation_failed'',
      ''managed_bot_state_unavailable'', ''media_refund_pending'', ''memory_scheduler_unavailable'',
      ''metering_not_configured'', ''not_implemented'', ''provider_error'', ''provider_unavailable'',
      ''refund_pending'', ''repair_failed'', ''scheduled_task_checkpointed_failure'',
      ''scheduled_task_empty_response'', ''scheduled_task_error'',
      ''scheduled_task_occurrence_indeterminate'', ''scheduled_task_occurrence_refund_pending'',
      ''secret_vault_not_configured'', ''skill_sync_failed'', ''stripe_checkout_failed'',
      ''stripe_not_configured'', ''stripe_price_not_configured'', ''subscription_runtime_unavailable'',
      ''telegram_manager_not_configured'', ''telegram_response_invalid'', ''telegram_unavailable'',
      ''turn_capacity_exceeded'', ''turn_queue_timeout'', ''tts_not_configured'',
      ''transcription_not_configured'', ''provider_auth_error'', ''provider_rate_limited'',
      ''provider_response_invalid'', ''provider_timeout'']"

definition publicErrorCode :: "int \<Rightarrow> string \<Rightarrow> string" where
  "publicErrorCode statusCode code =
     (if statusCode < 500 \<or> code \<in> set PUBLIC_SERVER_ERROR_CODES then code else ''internal_error'')"

text \<open>The classes of errors the handler tells apart; the rest is \<open>OtherError\<close>.\<close>

datatype thrown =
    ApiError int string
  | InvalidRequest
  | QuoteFailed quote_error
  | ReservationFailed studio_error
  | GatewayHttpError int string
  | GatewayToolError
  | MediaClaimTimeoutError
  | OtherError string

datatype studio_reply =
    Sent int string
  | Generated string
  | Raised thrown

text \<open>\<open>sendError\<close>: the status and the code of the envelope.\<close>

definition sendError :: "int \<Rightarrow> string \<Rightarrow> studio_reply" where
  "sendError statusCode code = Sent statusCode (publicErrorCode statusCode code)"

section \<open>The world outside\<close>

text \<open>
  How the ingest ends: it fails before its transaction commits, or it calls the function that
  finalizes with the identifier of the creation (if there is one), commits, and may still
  throw afterwards.
\<close>

datatype ingest_run =
    IngestFails thrown
  | IngestFinalizes "string option" "thrown option"

record outside =
  ou_account :: "string option"
  ou_requestId :: string
  ou_dailyCap :: jsnum
  ou_claim :: "thrown option"
  ou_race :: "thrown option"
  ou_timedOut :: bool
  ou_hasFallback :: bool
  ou_fallback :: "thrown option"
  ou_ingest :: ingest_run
  ou_completedMs :: jsnum
  ou_failedMs :: jsnum
  ou_stamp :: string
  ou_quotedAt :: int
  ou_reservedAt :: int
  ou_refundedAt :: int
  ou_evidence :: "string \<Rightarrow> studio_db \<Rightarrow> studio_db \<times> bool"
  ou_reverse :: reversal
  ou_env :: "nat \<Rightarrow> studio_db \<Rightarrow> studio_db"

section \<open>The handler\<close>

definition is_range_error :: "quote_error \<Rightarrow> bool" where
  "is_range_error e =
     (case e of
        DurationOutOfRange a b \<Rightarrow> True
      | TextRequired \<Rightarrow> True
      | UnknownImageModel m \<Rightarrow> True
      | InheritedOption m \<Rightarrow> False
      | QuoteMetering m \<Rightarrow>
          (case m of
             NotFiniteNonnegative s v \<Rightarrow> True
           | MannaPerUsdInvalid v \<Rightarrow> True
           | MarkupInvalid v \<Rightarrow> True
           | _ \<Rightarrow> False))"

definition is_cost_table_error :: "quote_error \<Rightarrow> bool" where
  "is_cost_table_error e = (case e of QuoteMetering m \<Rightarrow> \<not> is_range_error e | _ \<Rightarrow> False)"

definition quote_reply :: "quote_error \<Rightarrow> studio_reply" where
  "quote_reply e =
     (if is_range_error e then sendError 400 ''bad_request''
      else if is_cost_table_error e then sendError 500 ''metering_not_configured''
      else Raised (QuoteFailed e))"

definition reservation_reply :: "studio_error \<Rightarrow> studio_reply" where
  "reservation_reply e =
     (case e of
        StudioLedgerFailed (InsufficientManna a b c) \<Rightarrow> sendError 402 ''insufficient_manna''
      | StudioLedgerFailed (DailyCapExceeded a b c d) \<Rightarrow> sendError 429 ''daily_manna_cap_exceeded''
      | StudioGenerationBusyError k \<Rightarrow> sendError 409 ''studio_generation_busy''
      | StudioOutputQuarantinedError k \<Rightarrow> sendError 409 ''studio_output_quarantined''
      | _ \<Rightarrow> Raised (ReservationFailed e))"

definition request_of :: "outside \<Rightarrow> string \<Rightarrow> studio_body \<Rightarrow> generation_quote \<Rightarrow> studio_request" where
  "request_of ou accountId body quote =
     \<lparr>rq_turnId = ou_requestId ou, rq_accountId = accountId, rq_tool = tool_name (body_tool body),
      rq_quote = authorized_quote quote,
      rq_reservationKey = ''studio:'' @ ou_requestId ou @ '':reserve'', rq_dailyCap = ou_dailyCap ou\<rparr>"

text \<open>\<open>recordStudioReversal\<close>: the durable failure text is fixed, the code one of the public ones.\<close>

definition safe_failure :: "outside \<Rightarrow> string \<Rightarrow> string \<Rightarrow> compensation" where
  "safe_failure ou action code =
     \<lparr>cm_turnId = ou_requestId ou, cm_errorCode = publicErrorCode 500 code,
      cm_errorMessage = ''Studio generation failed'', cm_latencyMs = Some (ou_failedMs ou),
      cm_refundType = Some (''refund:'' @ action)\<rparr>"

definition requireReversal :: "outside \<Rightarrow> string \<Rightarrow> string \<Rightarrow> studio_db \<Rightarrow> studio_db \<times> thrown option" where
  "requireReversal ou action code db =
     (case compensateStudioGeneration (ou_reverse ou) (ou_env ou 4) (ou_evidence ou) (ou_stamp ou)
             (safe_failure ou action code) (ou_refundedAt ou) (ou_env ou 3 db) of
        (db', Inl e) \<Rightarrow> (db', Some (ReservationFailed e))
      | (db', Inr RefundPending) \<Rightarrow> (db', Some (ApiError 503 ''refund_pending''))
      | (db', Inr outcome) \<Rightarrow> (db', None))"

definition reversed_then :: "outside \<Rightarrow> string \<Rightarrow> string \<Rightarrow> studio_reply \<Rightarrow> studio_db \<Rightarrow> studio_db \<times> studio_reply" where
  "reversed_then ou action code reply db =
     (case requireReversal ou action code db of
        (db', Some t) \<Rightarrow> (db', Raised t)
      | (db', None) \<Rightarrow> (db', reply))"

definition isMissingTtsInvoke :: "thrown \<Rightarrow> studio_tool \<Rightarrow> bool" where
  "isMissingTtsInvoke err tool \<longleftrightarrow> tool = TtsGenerate \<and>
     (case err of GatewayHttpError status message \<Rightarrow> status = 404 \<and> contains message ''/tools/invoke'' | _ \<Rightarrow> False)"

text \<open>What the race of the invocation, the file and the timer throws: speech bypasses the gateway.\<close>

definition race_error :: "outside \<Rightarrow> studio_tool \<Rightarrow> thrown option" where
  "race_error ou tool =
     (if tool = TtsGenerate \<and> ou_hasFallback ou
      then Some (GatewayHttpError 404 ''POST /tools/invoke intentionally bypassed for exact tts'')
      else ou_race ou)"

text \<open>The speech provider: one admission, then the call.\<close>

definition run_fallback ::
  "outside \<Rightarrow> string \<Rightarrow> studio_reservation \<Rightarrow> studio_db \<Rightarrow> studio_db \<times> studio_reply option" where
  "run_fallback ou action reservation db =
     (case admitStudioGeneration reservation (ou_env ou 1 db) of
        (db1, admitted) \<Rightarrow>
          (case (case admitted of Inl e \<Rightarrow> Some (ReservationFailed e) | Inr u \<Rightarrow> ou_fallback ou) of
             None \<Rightarrow> (db1, None)
           | Some (ApiError status code) \<Rightarrow>
               (case reversed_then ou action code (sendError status code) db1 of (db2, r) \<Rightarrow> (db2, Some r))
           | Some t \<Rightarrow>
               (case reversed_then ou action ''provider_error'' (sendError 502 ''provider_error'') db1 of
                  (db2, r) \<Rightarrow> (db2, Some r))))"

text \<open>The output of the tool: no reply yet when there is a file.\<close>

definition obtain_output ::
  "outside \<Rightarrow> studio_tool \<Rightarrow> string \<Rightarrow> studio_reservation \<Rightarrow> studio_db \<Rightarrow> studio_db \<times> studio_reply option" where
  "obtain_output ou tool action reservation db =
     (case race_error ou tool of
        None \<Rightarrow> (db, None)
      | Some err \<Rightarrow>
          if ou_hasFallback ou \<and> isMissingTtsInvoke err tool then run_fallback ou action reservation db
          else
            (case (if ou_timedOut ou \<or> err = MediaClaimTimeoutError
                   then reversed_then ou action ''generation_timeout'' (sendError 504 ''generation_timeout'') db
                   else
                     (case err of
                        ApiError status code \<Rightarrow> reversed_then ou action code (Raised err) db
                      | _ \<Rightarrow> reversed_then ou action ''gateway_error'' (sendError 502 ''gateway_error'') db)) of
               (db', r) \<Rightarrow> (db', Some r)))"

text \<open>The transaction of the ingest, with the completion in it.\<close>

definition ingest_tx ::
  "outside \<Rightarrow> studio_reservation \<Rightarrow> studio_db \<Rightarrow> studio_db \<times> (thrown, string) res" where
  "ingest_tx ou reservation db =
     (case ou_ingest ou of
        IngestFails t \<Rightarrow> (db, Inl t)
      | IngestFinalizes None after \<Rightarrow> (db, Inl (OtherError ''studio: ingest produced no creation row''))
      | IngestFinalizes (Some creationId) after \<Rightarrow>
          (case completeStudioGeneration reservation creationId (ou_completedMs ou) (ou_env ou 2 db) of
             Inl e \<Rightarrow> (ou_env ou 2 db, Inl (ReservationFailed e))
           | Inr db' \<Rightarrow> (db', (case after of None \<Rightarrow> Inr creationId | Some t \<Rightarrow> Inl t))))"

definition finish_output ::
  "outside \<Rightarrow> string \<Rightarrow> studio_reservation \<Rightarrow> studio_db \<Rightarrow> studio_db \<times> studio_reply" where
  "finish_output ou action reservation db =
     (case ingest_tx ou reservation db of
        (db', Inr creationId) \<Rightarrow> (db', Generated creationId)
      | (db', Inl t) \<Rightarrow> reversed_then ou action ''ingest_failed'' (Raised t) db')"

text \<open>From the reservation on.\<close>

definition run_reserved ::
  "outside \<Rightarrow> studio_tool \<Rightarrow> string \<Rightarrow> studio_reservation \<Rightarrow> studio_db \<Rightarrow> studio_db \<times> studio_reply" where
  "run_reserved ou tool action reservation db =
     (case ou_claim ou of
        Some t \<Rightarrow> reversed_then ou action ''watcher_start_failed'' (Raised t) db
      | None \<Rightarrow>
          (case obtain_output ou tool action reservation db of
             (db', Some r) \<Rightarrow> (db', r)
           | (db', None) \<Rightarrow> finish_output ou action reservation db'))"

text \<open>The whole request; the account comes from the hook that runs before the handler.\<close>

definition studio_generate :: "outside \<Rightarrow> json \<Rightarrow> studio_db \<Rightarrow> studio_db \<times> studio_reply" where
  "studio_generate ou input db =
     (case ou_account ou of
        None \<Rightarrow> (db, sendError 401 ''unauthorized'')
      | Some accountId \<Rightarrow>
          (case parseStudioGenerationRequest input of
             None \<Rightarrow> (db, Raised InvalidRequest)
           | Some body \<Rightarrow>
               (case quoteStudioGeneration (ou_quotedAt ou) (body_tool body) (body_args body) of
                  Inl e \<Rightarrow> (db, quote_reply e)
                | Inr quote \<Rightarrow>
                    (case reserveStudioGeneration (request_of ou accountId body quote) (ou_reservedAt ou) (ou_env ou 0 db) of
                       (db1, Inl e) \<Rightarrow> (db1, reservation_reply e)
                     | (db1, Inr reservation) \<Rightarrow>
                         run_reserved ou (body_tool body) (gq_action quote) reservation db1))))"

text \<open>The quote endpoint.\<close>

definition studio_quote_request :: "int \<Rightarrow> json \<Rightarrow> (studio_reply, generation_quote) res" where
  "studio_quote_request now input =
     (case parseStudioGenerationRequest input of
        None \<Rightarrow> Inl (Raised InvalidRequest)
      | Some body \<Rightarrow>
          (case quoteStudioGeneration now (body_tool body) (body_args body) of
             Inl e \<Rightarrow> Inl (quote_reply e)
           | Inr q \<Rightarrow> Inr q))"

end
