(* ===== verification/StudioRouteFacts.thy ===== *)
theory StudioRouteFacts
  imports StudioRoute StudioOutcomes
begin

text \<open>
  A request through its reservation, output and compensation: what its reply says of its row.
\<close>

section \<open>Quotes and requests\<close>

lemma prompt_trimmed: "promptSchema v = Some t \<Longrightarrow> js_trim t = t \<and> t \<noteq> []"
  by (auto simp: promptSchema_def js_trim_idem split: option.split_asm json.split_asm if_split_asm)

text \<open>What the schemas guarantee of a body.\<close>

abbreviation (input) trimmed :: "string \<Rightarrow> bool" where
  "trimmed p \<equiv> js_trim p = p \<and> p \<noteq> []"

fun body_ok :: "studio_body \<Rightarrow> bool" where
  "body_ok (ImageBody p m) = (trimmed p \<and> (case m of None \<Rightarrow> True | Some k \<Rightarrow> k \<in> fst ` set IMAGE_MODEL_OPTIONS))"
| "body_ok (VideoBody p d) = (trimmed p \<and>
     (case d of None \<Rightarrow> True | Some v \<Rightarrow> is_finite v \<and> \<not> js_lt v VIDEO_MIN \<and> \<not> js_lt VIDEO_MAX v))"
| "body_ok (MusicBody p d) = (trimmed p \<and>
     (case d of None \<Rightarrow> True | Some v \<Rightarrow> is_finite v \<and> \<not> js_lt v MUSIC_MIN \<and> \<not> js_lt MUSIC_MAX v))"
| "body_ok (TtsBody t) = trimmed t"

lemma parse_args_ok: "parse_args tool args = Some body \<Longrightarrow> body_ok body \<and> body_tool body = tool"
  using prompt_trimmed
  by (cases tool) (auto simp: imageModelKeySchema_def durationSchema_def split: option.split_asm json.split_asm if_split_asm, force)

lemma parse_ok: "parseStudioGenerationRequest input = Some body \<Longrightarrow> body_ok body"
  using parse_args_ok
  by (auto simp: parseStudioGenerationRequest_def split: json.split_asm option.split_asm if_split_asm)

text \<open>A quote that is given has a cost that is a number.\<close>

lemma quote_cost: "quoteStudioGeneration now tool args = Inr q \<Longrightarrow> finite_nonneg (gq_costUsd q)"
  by (auto simp: quoteStudioGeneration_def quoteFromEstimate_def ebind_Inr_iff mannaForEstimate_def mannaFromUsd_def
      assertFiniteNonnegative_def finite_nonneg_def ebind_def split: sum.split_asm if_split_asm)

section \<open>Runs of one request\<close>

text \<open>Nobody else starts or completes the generation of this request.\<close>

definition own_generation :: "string \<Rightarrow> (studio_db \<Rightarrow> studio_db) \<Rightarrow> bool" where
  "own_generation t env \<longleftrightarrow> good_studio_env env \<and>
     (\<forall>db. studio_inv db \<longrightarrow>
        (event_of t db = None \<longrightarrow> event_of t (env db) = None) \<and>
        (\<forall>e. event_of t (env db) = Some e \<and> se_status e = ''completed'' \<longrightarrow> event_of t db = Some e))"

text \<open>What a reply says of the row of its request.\<close>

fun reply_settled :: "studio_reply \<Rightarrow> studio_event option \<Rightarrow> bool" where
  "reply_settled (Generated creationId) row =
     (case row of
        None \<Rightarrow> False
      | Some e \<Rightarrow> se_status e = ''completed'' \<and>
          jsonb_get (se_metadata e) ''creationId'' = Some (JStr creationId))"
| "reply_settled (Sent status code) row = (case row of None \<Rightarrow> True | Some e \<Rightarrow> se_status e = ''error'')"
| "reply_settled (Raised t) row =
     (case row of
        None \<Rightarrow> True
      | Some e \<Rightarrow> se_status e = ''error'' \<or> se_status e = ''completed'' \<or>
          se_status e = ''refund_pending'' \<and> t = ApiError 503 ''refund_pending'')"

text \<open>A reservation whose row is not completed.\<close>

definition run_ok :: "string \<Rightarrow> studio_reservation \<Rightarrow> studio_db \<Rightarrow> bool" where
  "run_ok t r db \<longleftrightarrow> studio_inv db \<and> granted db r \<and> sr_turnId r = t \<and>
     (\<forall>e. event_of t db = Some e \<longrightarrow> se_status e \<noteq> ''completed'')"

lemma run_row:
  assumes "run_ok t r db"
  obtains e where "event_of t db = Some e" "se_status e \<noteq> ''completed''"
  using assms event_of_iff [of db t] unfolding run_ok_def granted_def studio_inv_def by metis

lemma run_moves:
  assumes "run_ok t r db" "studio_inv db'" "studio_le db db'"
    and "\<And>e. event_of t db' = Some e \<Longrightarrow> se_status e = ''completed'' \<Longrightarrow> event_of t db = Some e"
  shows "run_ok t r db'"
  using assms granted_le unfolding run_ok_def by blast

lemma own_generationD:
  assumes "own_generation t env" "studio_inv db"
  shows "studio_inv (env db)" "studio_le db (env db)" "event_of t db = None \<Longrightarrow> event_of t (env db) = None"
    "event_of t (env db) = Some e \<Longrightarrow> se_status e = ''completed'' \<Longrightarrow> event_of t db = Some e"
  using assms unfolding own_generation_def good_studio_env_def by blast+

lemma run_env:
  assumes "run_ok t r db" "own_generation t env"
  shows "run_ok t r (env db)"
proof -
  have "studio_inv db" using assms(1) by (simp add: run_ok_def)
  note o = own_generationD [OF assms(2) this]
  show ?thesis by (rule run_moves [OF assms(1) o(1,2)]) (rule o(4))
qed

lemma run_admit:
  assumes "run_ok t r db"
  shows "run_ok t r (fst (admitStudioGeneration q db))"
proof (rule run_moves [OF assms])
  show "studio_inv (fst (admitStudioGeneration q db))" "studio_le db (fst (admitStudioGeneration q db))"
    using admit_step [of db q] assms by (simp_all add: run_ok_def)
  show "event_of t db = Some e"
    if "event_of t (fst (admitStudioGeneration q db)) = Some e" "se_status e = ''completed''" for e
    using that by (auto simp: admitStudioGeneration_def event_of_update split: if_split_asm)
qed

section \<open>Compensation\<close>

lemma reversed_settles:
  assumes run: "run_ok (ou_requestId ou) r db \<or> studio_inv db \<and>
      (\<exists>e. event_of (ou_requestId ou) db = Some e \<and> se_status e = ''completed'') \<and> (\<exists>t. reply = Raised t)"
    and env: "\<And>i. own_generation (ou_requestId ou) (ou_env ou i)" and rvs: "a_reversal (ou_reverse ou)"
    and reply: "\<And>c. reply \<noteq> Generated c"
    and c: "reversed_then ou action code reply db = (db', reply')"
  shows "studio_inv db' \<and> reply_settled reply' (event_of (ou_requestId ou) db')"
proof -
  define t where "t = ou_requestId ou"
  define p where "p = safe_failure ou action code"
  have p: "cm_turnId p = t" by (simp add: p_def safe_failure_def t_def)
  have good: "good_studio_env (ou_env ou i)" for i using env by (simp add: own_generation_def)
  have inv: "studio_inv db" using run by (auto simp: run_ok_def)
  obtain e0 where e0: "event_of t db = Some e0" using run run_row unfolding t_def by blast
  have inv3: "studio_inv (ou_env ou 3 db)" "studio_le db (ou_env ou 3 db)"
    using own_generationD(1,2) [OF env inv] by blast+
  obtain e where e: "event_of t (ou_env ou 3 db) = Some e" by (rule event_stays [OF inv3 e0])
  have finished: "se_status e = ''completed'' \<Longrightarrow> \<exists>t. reply = Raised t"
    using run own_generationD(4) [OF env inv, of 3 e] e unfolding run_ok_def t_def by blast
  obtain outcome where comp: "compensateStudioGeneration (ou_reverse ou) (ou_env ou 4) (ou_evidence ou) (ou_stamp ou)
      p (ou_refundedAt ou) (ou_env ou 3 db) = (db', outcome)"
    using c by (auto simp: reversed_then_def requireReversal_def p_def split: prod.split_asm option.split_asm sum.split_asm
        compensation_outcome.split_asm)
  note row = compensate_row [OF inv3(1) good rvs e [folded p] comp, unfolded p]
  then obtain e' where e': "event_of t db' = Some e'"
    "outcome = Inr RefundPending \<and> se_status e' = ''refund_pending'' \<or>
     outcome \<in> {Inr Refunded, Inr AlreadyTerminal} \<and> (se_status e' = ''error'' \<or> se_status e' = ''completed'' \<and> e' = e)"
    by blast
  have "reply_settled reply' (Some e')"
    using e'(2)
  proof
    assume a: "outcome = Inr RefundPending \<and> se_status e' = ''refund_pending''"
    then have "reply' = Raised (ApiError 503 ''refund_pending'')"
      using c comp by (simp add: reversed_then_def requireReversal_def p_def)
    then show ?thesis using a by simp
  next
    assume a: "outcome \<in> {Inr Refunded, Inr AlreadyTerminal} \<and> (se_status e' = ''error'' \<or> se_status e' = ''completed'' \<and> e' = e)"
    then have "reply' = reply" using c comp by (auto simp: reversed_then_def requireReversal_def p_def)
    then show ?thesis using a finished reply by (cases reply) auto
  qed
  then show ?thesis using row e'(1) by (simp add: t_def)
qed

section \<open>The output\<close>

text \<open>What the two settled ends of a step have in common.\<close>

definition step_settles :: "outside \<Rightarrow> studio_reservation \<Rightarrow> studio_db \<times> studio_reply option \<Rightarrow> bool" where
  "step_settles ou r x =
     (case x of
        (db, None) \<Rightarrow> run_ok (ou_requestId ou) r db
      | (db, Some reply) \<Rightarrow> studio_inv db \<and> reply_settled reply (event_of (ou_requestId ou) db))"

lemma reversed_step:
  assumes "run_ok (ou_requestId ou) r db" "\<And>i. own_generation (ou_requestId ou) (ou_env ou i)" "a_reversal (ou_reverse ou)"
    "\<And>c. reply \<noteq> Generated c"
  shows "step_settles ou r (case reversed_then ou action code reply db of (db', x) \<Rightarrow> (db', Some x))"
proof -
  obtain db' x where x: "reversed_then ou action code reply db = (db', x)" by fastforce
  show ?thesis using reversed_settles [OF disjI1 [OF assms(1)] assms(2-4) x] by (simp add: x step_settles_def)
qed

lemma sendError_not_generated: "sendError status code \<noteq> Generated c"
  by (simp add: sendError_def)

lemma fallback_settles:
  assumes "run_ok (ou_requestId ou) r db" and env: "\<And>i. own_generation (ou_requestId ou) (ou_env ou i)"
    and rvs: "a_reversal (ou_reverse ou)"
  shows "step_settles ou r (run_fallback ou action r db)"
proof -
  obtain db1 admitted where a: "admitStudioGeneration r (ou_env ou 1 db) = (db1, admitted)" by fastforce
  have run: "run_ok (ou_requestId ou) r db1"
    using run_admit [OF run_env [OF assms(1) env [of 1]], of r] a by simp
  note undo = reversed_step [OF run env rvs sendError_not_generated, of action]
  show ?thesis
  proof (cases "case admitted of Inl e \<Rightarrow> Some (ReservationFailed e) | Inr u \<Rightarrow> ou_fallback ou")
    case None
    show ?thesis unfolding run_fallback_def a prod.case None option.case using run by (simp add: step_settles_def)
  next
    case (Some t)
    then show ?thesis unfolding run_fallback_def a prod.case Some option.case
      by (cases t) (simp_all only: thrown.case undo)
  qed
qed

lemma output_settles:
  assumes "run_ok (ou_requestId ou) r db" "\<And>i. own_generation (ou_requestId ou) (ou_env ou i)" "a_reversal (ou_reverse ou)"
  shows "step_settles ou r (obtain_output ou tool action r db)"
proof (cases "race_error ou tool")
  case None
  then show ?thesis using assms(1) by (simp add: obtain_output_def step_settles_def)
next
  case (Some err)
  have sent: "step_settles ou r (case reversed_then ou action code (sendError status code') db of (db', x) \<Rightarrow> (db', Some x))"
    for code code' status by (rule reversed_step [OF assms sendError_not_generated])
  have raised: "step_settles ou r (case reversed_then ou action code (Raised t) db of (db', x) \<Rightarrow> (db', Some x))"
    for code t by (rule reversed_step [OF assms]) simp
  show ?thesis
    unfolding obtain_output_def Some option.case
    using fallback_settles [OF assms] sent raised by (cases err) (simp_all split: if_split)
qed

section \<open>The completion\<close>

lemma complete_row:
  assumes c: "completeStudioGeneration r creationId latency db = Inr db'" and run: "run_ok t r db"
  shows "studio_inv db'"
    "\<exists>e. event_of t db' = Some e \<and> se_status e = ''completed'' \<and>
       jsonb_get (se_metadata e) ''creationId'' = Some (JStr creationId)"
proof -
  have h: "studio_inv db" "granted db r" "sr_turnId r = t" using run by (simp_all add: run_ok_def)
  show "studio_inv db'" using complete_step [OF c h(1,2)] by simp
  obtain manna cost l where d: "list_ex (completable r) (sd_events db)"
    "db' = update_events (completable r) (completed_event r creationId manna cost l) db"
    using c by (auto simp: completeStudioGeneration_def ebind_Inr_iff split: if_splits)
  obtain e where e: "e \<in> set (sd_events db)" "completable r e" using d(1) by (auto simp: list_ex_iff)
  then have "event_of t db = Some e"
    using event_of_iff [of db t e] h by (simp add: studio_inv_def completable_def)
  then show "\<exists>e. event_of t db' = Some e \<and> se_status e = ''completed'' \<and>
       jsonb_get (se_metadata e) ''creationId'' = Some (JStr creationId)"
    using e(2) by (simp add: d(2) event_of_update completed_event_def jsonb_get_def member_def metadata_json_def)
qed

lemma finish_settles:
  assumes run: "run_ok (ou_requestId ou) r db" and env: "\<And>i. own_generation (ou_requestId ou) (ou_env ou i)"
    and rvs: "a_reversal (ou_reverse ou)"
  shows "step_settles ou r (case finish_output ou action r db of (db', x) \<Rightarrow> (db', Some x))"
proof -
  have undo: "step_settles ou r (case reversed_then ou action code (Raised t) d of (db', x) \<Rightarrow> (db', Some x))"
    if "run_ok (ou_requestId ou) r d \<or> studio_inv d \<and>
      (\<exists>e. event_of (ou_requestId ou) d = Some e \<and> se_status e = ''completed'')" for d code t
  proof -
    obtain db' x where x: "reversed_then ou action code (Raised t) d = (db', x)" by fastforce
    show ?thesis using reversed_settles [OF _ env rvs _ x, of r] that by (simp add: x step_settles_def)
  qed
  show ?thesis
  proof (cases "ou_ingest ou")
    case (IngestFails t)
    then show ?thesis using undo [OF disjI1 [OF run]] by (simp add: finish_output_def ingest_tx_def)
  next
    case (IngestFinalizes creation after)
    show ?thesis
    proof (cases creation)
      case None
      then show ?thesis using undo [OF disjI1 [OF run]] by (simp add: finish_output_def ingest_tx_def IngestFinalizes)
    next
      case (Some creationId)
      have run2: "run_ok (ou_requestId ou) r (ou_env ou 2 db)" by (rule run_env [OF run env])
      show ?thesis
      proof (cases "completeStudioGeneration r creationId (ou_completedMs ou) (ou_env ou 2 db)")
        case (Inl x)
        then show ?thesis using undo [OF disjI1 [OF run2]]
          by (simp add: finish_output_def ingest_tx_def IngestFinalizes Some)
      next
        case (Inr db')
        note c = complete_row [OF Inr run2]
        show ?thesis
        proof (cases after)
          case None
          then show ?thesis using c by (auto simp: finish_output_def ingest_tx_def IngestFinalizes Some Inr step_settles_def)
        next
          case (Some t)
          have "step_settles ou r (case reversed_then ou action ''ingest_failed'' (Raised t) db' of (d, x) \<Rightarrow> (d, Some x))"
            by (rule undo) (use c in blast)
          then show ?thesis
            by (simp add: finish_output_def ingest_tx_def IngestFinalizes \<open>creation = Some creationId\<close> Inr Some)
        qed
      qed
    qed
  qed
qed

lemma reserved_settles:
  assumes run: "run_ok (ou_requestId ou) r db" and env: "\<And>i. own_generation (ou_requestId ou) (ou_env ou i)"
    and rvs: "a_reversal (ou_reverse ou)"
  shows "step_settles ou r (case run_reserved ou tool action r db of (db', x) \<Rightarrow> (db', Some x))"
proof (cases "ou_claim ou")
  case (Some t)
  have "step_settles ou r (case reversed_then ou action ''watcher_start_failed'' (Raised t) db of (d, x) \<Rightarrow> (d, Some x))"
    by (rule reversed_step [OF run env rvs]) simp
  then show ?thesis by (simp add: run_reserved_def Some)
next
  case None
  obtain db1 x where x: "obtain_output ou tool action r db = (db1, x)" by fastforce
  note o = output_settles [OF assms, of tool action, unfolded x]
  show ?thesis
  proof (cases x)
    case None
    then have "run_ok (ou_requestId ou) r db1" using o by (simp add: step_settles_def)
    then show ?thesis using finish_settles [OF _ env rvs, of r db1 action]
      by (simp add: run_reserved_def \<open>ou_claim ou = None\<close> x None)
  next
    case (Some reply)
    then show ?thesis using o by (simp add: run_reserved_def \<open>ou_claim ou = None\<close> x)
  qed
qed

section \<open>The request\<close>

lemma reserved_run:
  assumes res: "reserveStudioGeneration rq now db = (db', Inr r)" and inv: "studio_inv db"
    and key: "rq_reservationKey rq = studioReservationKey (rq_turnId rq)"
    and cost: "finite_nonneg (sq_costUsd (rq_quote rq))" and fresh: "event_of (rq_turnId rq) db = None"
  shows "run_ok (rq_turnId rq) r db'"
proof -
  have tx: "reserve_studio_tx rq now db = Inr (db', r)"
    using res by (auto simp: reserveStudioGeneration_def studio_transaction_def split: sum.split_asm prod.split_asm)
  note s = reserve_generation_step [OF tx inv key cost]
  obtain m n s' where "db' = db\<lparr>sd_ledger := s', sd_events := sd_events db @ [pending_event rq m n now]\<rparr>"
    using tx by (auto simp: reserve_studio_tx_def ebind_Inr_iff on_studio_ledger_def Let_def
        split: prod.split_asm sum.split_asm if_split_asm)
  then have "event_of (rq_turnId rq) db' = Some (pending_event rq m n now)"
    using fresh by (simp add: event_of_def find_append pending_event_def)
  then show ?thesis using s by (simp add: run_ok_def pending_event_def)
qed

text \<open>A request ends settled, in every branch.\<close>

lemma request_settles:
  assumes inv: "studio_inv db" and fresh: "event_of (ou_requestId ou) db = None"
    and env: "\<And>i. own_generation (ou_requestId ou) (ou_env ou i)" and rvs: "a_reversal (ou_reverse ou)"
    and run: "studio_generate ou input db = (db', reply)"
  shows "studio_inv db' \<and> reply_settled reply (event_of (ou_requestId ou) db')"
proof -
  have sent: "reply_settled (sendError status code) None" "reply_settled (quote_reply e) None"
    "reply_settled (reservation_reply x) None" for status code e x
    by (auto simp: sendError_def quote_reply_def reservation_reply_def split: studio_error.split manna_error.split)
  show ?thesis
  proof (cases "ou_account ou")
    case None
    then show ?thesis using run inv fresh sent by (auto simp: studio_generate_def)
  next
    case acc: (Some accountId)
    show ?thesis
    proof (cases "parseStudioGenerationRequest input")
      case None
      then show ?thesis using run inv fresh acc by (auto simp: studio_generate_def)
    next
      case body: (Some body)
      show ?thesis
      proof (cases "quoteStudioGeneration (ou_quotedAt ou) (body_tool body) (body_args body)")
        case (Inl e)
        then show ?thesis using run inv fresh sent acc body by (auto simp: studio_generate_def)
      next
        case q: (Inr quote)
        define rq where "rq = request_of ou accountId body quote"
        have rq: "rq_turnId rq = ou_requestId ou" "rq_reservationKey rq = studioReservationKey (rq_turnId rq)"
          "finite_nonneg (sq_costUsd (rq_quote rq))"
          using quote_cost [OF q]
          by (simp_all add: rq_def request_of_def studioReservationKey_def authorized_quote_def)
        have e0: "studio_inv (ou_env ou 0 db)" "event_of (ou_requestId ou) (ou_env ou 0 db) = None"
          using own_generationD(1,3) [OF env inv] fresh by blast+
        show ?thesis
        proof (cases "reserve_studio_tx rq (ou_reservedAt ou) (ou_env ou 0 db)")
          case (Inl x)
          then have "reserveStudioGeneration rq (ou_reservedAt ou) (ou_env ou 0 db) = (ou_env ou 0 db, Inl x)"
            by (simp add: reserveStudioGeneration_def studio_transaction_def)
          then show ?thesis using run e0 sent acc body q by (auto simp: studio_generate_def rq_def)
        next
          case (Inr y)
          obtain db1 r where "y = (db1, r)" by (cases y)
          then have res: "reserveStudioGeneration rq (ou_reservedAt ou) (ou_env ou 0 db) = (db1, Inr r)"
            using Inr by (simp add: reserveStudioGeneration_def studio_transaction_def)
          have ok: "run_ok (ou_requestId ou) r db1"
            using reserved_run [OF res e0(1) rq(2,3)] e0(2) rq(1) by simp
          have "run_reserved ou (body_tool body) (gq_action quote) r db1 = (db', reply)"
            using run acc body q res by (simp add: studio_generate_def rq_def)
          then show ?thesis using reserved_settles [OF ok env rvs, of "body_tool body" "gq_action quote"]
            by (simp add: step_settles_def)
        qed
      qed
    qed
  qed
qed

end
