(* ===== verification/StudioRouteProperties.thy ===== *)
theory StudioRouteProperties
  imports StudioRouteFacts StudioProperties MeteringProperties
begin

text \<open>
  The properties of a studio request: what is priced is what is sent to the provider, and the
  reply tells the truth about the money.
\<close>

section \<open>What is priced\<close>

lemma body_members:
  "member (body_args (ImageBody p m)) ''model'' = map_option JStr m"
  "member (body_args (VideoBody p d)) ''duration'' = map_option JNum d"
  "member (body_args (VideoBody p d)) ''videoMode'' = None"
  "member (body_args (TtsBody t)) ''text'' = Some (JStr t)"
  by (cases m; simp add: member_def opt_field_def) (cases d; simp add: member_def opt_field_def)+

lemma image_options:
  "map_of IMAGE_MODEL_OPTIONS k = Some opt \<Longrightarrow>
     io_openclawModel opt = provider_name (io_provider opt) @ ''/'' @ io_model opt"
  by (auto simp: IMAGE_MODEL_OPTIONS_def split: if_split_asm)

lemma image_known:
  assumes "body_ok (ImageBody p m)"
  obtains opt where "map_of IMAGE_MODEL_OPTIONS (case m of None \<Rightarrow> DEFAULT_IMAGE_MODEL | Some k \<Rightarrow> k) = Some opt"
proof (cases m)
  case None
  then show thesis using that by (simp add: IMAGE_MODEL_OPTIONS_def DEFAULT_IMAGE_MODEL_def)
next
  case (Some k)
  then have "k \<in> fst ` set IMAGE_MODEL_OPTIONS" using assms by simp
  then obtain opt where "map_of IMAGE_MODEL_OPTIONS k = Some opt" by (metis map_of_eq_None_iff not_None_eq)
  then show thesis using that Some by simp
qed

text \<open>C12: A request that passes the schemas is priced as it is sent: the quote never fails for its arguments,
  the model it prices an image with is the one the provider gets, the seconds of a video and
  the characters of a speech it counts are exactly those of the payload, and a piece of music is
  one clip.\<close>
theorem priced_as_sent:
  assumes "parseStudioGenerationRequest input = Some body"
  shows "\<exists>wire spec quantity. studioProviderArgs body = Some wire \<and>
    priced_spec (body_tool body) (body_args body) = Inr spec \<and>
    quantityFromArgs (body_tool body) (body_args body) = Inr quantity \<and>
    quoteStudioGeneration now (body_tool body) (body_args body) =
      ebind (estimate_of now spec quantity) (quoteFromEstimate (body_tool body) spec) \<and>
    (case body of
       ImageBody p m \<Rightarrow> quantity = JFin 1 \<and>
         member wire ''model'' = Some (JStr (provider_name (ms_provider spec) @ ''/'' @ ms_model spec))
     | VideoBody p d \<Rightarrow> ms_model spec = VIDEO_TEXT_MODEL \<and> member wire ''duration'' = Some (JNum quantity)
     | MusicBody p d \<Rightarrow> quantity = JFin 1
     | TtsBody t \<Rightarrow> member wire ''text'' = Some (JStr t) \<and> quantity = JFin (of_nat (length t)))"
proof -
  have ok: "body_ok body" by (rule parse_ok [OF assms])
  have q: "quoteStudioGeneration now tool args = ebind (estimate_of now spec quantity) (quoteFromEstimate tool spec)"
    if "priced_spec tool args = Inr spec" "quantityFromArgs tool args = Inr quantity" for tool args spec quantity
    using that by (simp add: quoteStudioGeneration_def)
  show ?thesis
  proof (cases body)
    case (ImageBody p m)
    obtain opt where opt: "map_of IMAGE_MODEL_OPTIONS (case m of None \<Rightarrow> DEFAULT_IMAGE_MODEL | Some k \<Rightarrow> k) = Some opt"
      by (rule image_known [OF ok [unfolded ImageBody]])
    have "imageModelOption (body_args (ImageBody p m)) = Inr opt"
      using opt by (cases m) (simp_all add: imageModelOption_def body_members del: body_args.simps)
    then have s: "priced_spec ImageGenerate (body_args (ImageBody p m)) =
        Inr ((STUDIO_METERING ImageGenerate)\<lparr>ms_provider := io_provider opt, ms_model := io_model opt\<rparr>)"
      by (simp add: priced_spec_def)
    show ?thesis using s q [OF s] image_options [OF opt] opt
      by (simp add: ImageBody member_def)
  next
    case (VideoBody p d)
    have s: "priced_spec VideoGenerate (body_args (VideoBody p d)) = Inr (STUDIO_METERING VideoGenerate)"
      by (simp add: priced_spec_def body_members del: body_args.simps)
    have n: "quantityFromArgs VideoGenerate (body_args (VideoBody p d)) =
        Inr (case d of None \<Rightarrow> VIDEO_DEFAULT | Some v \<Rightarrow> v)"
      using ok unfolding VideoBody
      by (cases d) (simp_all add: numericDuration_def body_members VIDEO_DEFAULT_def VIDEO_MIN_def VIDEO_MAX_def
          del: body_args.simps)
    show ?thesis using s n q [OF s n] by (simp add: VideoBody member_def del: body_args.simps)
  next
    case (MusicBody p d)
    have s: "priced_spec MusicGenerate (body_args (MusicBody p d)) = Inr (STUDIO_METERING MusicGenerate)"
      by (simp add: priced_spec_def)
    have n: "quantityFromArgs MusicGenerate (body_args (MusicBody p d)) = Inr (JFin 1)" by simp
    show ?thesis using s q [OF s n] by (simp add: MusicBody del: body_args.simps)
  next
    case (TtsBody t)
    have s: "priced_spec TtsGenerate (body_args (TtsBody t)) = Inr (STUDIO_METERING TtsGenerate)"
      by (simp add: priced_spec_def)
    have n: "quantityFromArgs TtsGenerate (body_args (TtsBody t)) = Inr (JFin (of_nat (length t)))"
      using ok unfolding TtsBody by (simp add: textLength_def body_members del: body_args.simps)
    show ?thesis using s n q [OF s n] by (simp add: TtsBody member_def del: body_args.simps)
  qed
qed

text \<open>A video of eight seconds.\<close>

definition video_json :: json where
  "video_json = JObj [(''tool'', JStr ''video_generate''),
     (''args'', JObj [(''prompt'', JStr ''sea''), (''duration'', JNum (JFin 8))])]"

lemma priced_as_sent_witness:
  "\<exists>quantity. quantityFromArgs VideoGenerate (body_args (VideoBody ''sea'' (Some (JFin 8)))) = Inr quantity \<and>
     (\<exists>wire. studioProviderArgs (VideoBody ''sea'' (Some (JFin 8))) = Some wire \<and>
        member wire ''duration'' = Some (JNum quantity))"
proof -
  have "js_trim ''sea'' = ''sea''" by code_simp
  then have "parseStudioGenerationRequest video_json = Some (VideoBody ''sea'' (Some (JFin 8)))"
    by (simp add: video_json_def parseStudioGenerationRequest_def member_def STUDIO_TOOL_NAMES_def strict_members_def
        promptSchema_def durationSchema_def VIDEO_MIN_def VIDEO_MAX_def)
  from priced_as_sent [OF this, of 0] show ?thesis by auto
qed

section \<open>The reply and the money\<close>


text \<open>A request for 120 characters of speech on 2026-08-17.\<close>

definition speech_text :: string where
  "speech_text = replicate 120 CHR ''a''"

definition speech_json :: json where
  "speech_json = JObj [(''tool'', JStr ''tts''), (''args'', JObj [(''text'', JStr speech_text)])]"

definition speech_outside :: outside where
  "speech_outside =
     \<lparr>ou_account = Some ''u1'', ou_requestId = speech_id, ou_dailyCap = JFin 10000, ou_claim = None,
      ou_race = None, ou_timedOut = False, ou_hasFallback = True, ou_fallback = None,
      ou_ingest = IngestFinalizes (Some ''c1'') None, ou_completedMs = JFin 5, ou_failedMs = JFin 6,
      ou_stamp = ''now'', ou_quotedAt = 1787000000000, ou_reservedAt = T0, ou_refundedAt = T0,
      ou_evidence = (\<lambda>t db. (db, False)), ou_reverse = reverseReservation, ou_env = (\<lambda>i db. db)\<rparr>"

lemma speech_body: "parseStudioGenerationRequest speech_json = Some (TtsBody speech_text)"
proof -
  have "js_trim speech_text = speech_text" by (rule js_trim_id) (simp add: speech_text_def is_space_def)
  moreover have "speech_text \<noteq> []" by (simp add: speech_text_def)
  ultimately show ?thesis
    by (simp add: speech_json_def parseStudioGenerationRequest_def member_def STUDIO_TOOL_NAMES_def strict_members_def
        promptSchema_def)
qed

lemma speech_quoted:
  "\<exists>q. quoteStudioGeneration 1787000000000 TtsGenerate (body_args (TtsBody speech_text)) = Inr q \<and>
     authorized_quote q = speech_quote \<and> gq_action q = ''tts''"
proof -
  have d: "iso_day 1787000000000 = ''2026-08-17''" "''2026-07-06'' \<le> ''2026-08-17''"
    "iso_shape ''2026-08-17'' \<and> (case iso_fields ''2026-08-17'' of (y, m, k) \<Rightarrow> valid_date y m k)" by code_simp+
  have day: "strictUtcCalendarDay CostTable (iso_day 1787000000000) = Inr (iso_day 1787000000000)"
    "''2026-07-06'' \<le> iso_day 1787000000000"
    using d by (simp_all add: strict_day_Inr)
  have r: "\<bar>round64 (120 * round64 (1667 / 10000000)) - of_int 20004 / 1000000\<bar> \<le> of_int 20004 / 1000000 * (1 / 2 ^ 51)"
    "\<bar>120 * round64 (1667 / 10000000)\<bar> \<le> 2 ^ 40"
    using speech_cost_near round64_nonneg [of "1667 / 10000000"] round64_mono [of "1667 / 10000000" 1]
      round64_of_int [of 1] by (simp_all add: speech_cost_def)
  have c: "\<lceil>135027 / 5000 :: rat\<rceil> = 28" by code_simp
  have n: "normalizeModel ''elevenlabs'' ''tts'' = ''tts''" by code_simp
  note est = one_line_estimate [OF day default_rows(4), of "1667 / 10000000" 120]
  note price = one_line_price [OF day default_rows(4), of "1667 / 10000000" 120 20004, unfolded rel_def]
  define estimate where "estimate =
    \<lparr>es_tableVersion = COST_TABLE_VERSION, es_provider = Elevenlabs, es_model = ''tts'',
     es_totalCostUsd = JFin speech_cost,
     es_lineItems = [\<lparr>li_entry = cost_row Elevenlabs ''tts'' AudioCharacter (1667 / 10000000) ''2026-07-06'' RATE_SOURCE (Some True),
        li_quantity = JFin 120, li_costUsd = JFin speech_cost\<rparr>], es_estimated = True\<rparr>"
  have e: "costFromParams 1787000000000 \<lparr>cf_provider = Elevenlabs, cf_model = ''tts'',
      cf_units = [(AudioCharacter, Some (JFin 120))], cf_asOf = None\<rparr> = Inr estimate"
    using est r(2) by (simp add: cost_row_def estimate_def speech_cost_def n)
  have p: "mannaForEstimate estimate \<lparr>mc_mannaPerUsd = None, mc_markup = None\<rparr> = Inr (JFin 28)"
    using price r e by (simp add: cost_row_def c default_conversion_def)
  have len: "textLength (body_args (TtsBody speech_text)) = Inr (JFin 120)"
  proof -
    have "js_trim speech_text = speech_text" by (rule js_trim_id) (simp add: speech_text_def is_space_def)
    then show ?thesis by (simp add: textLength_def body_members del: body_args.simps) (simp add: speech_text_def)
  qed
  have s: "priced_spec TtsGenerate (body_args (TtsBody speech_text)) = Inr (STUDIO_METERING TtsGenerate)"
    by (simp add: priced_spec_def)
  show ?thesis using len s e p
    by (simp add: quoteStudioGeneration_def estimate_of_def quoteFromEstimate_def authorized_quote_def speech_quote_def
        estimate_def del: body_args.simps)
qed

lemma speech_generated:
  "studio_generate speech_outside speech_json \<lparr>sd_ledger = demo_ledger, sd_events = []\<rparr> = (done_db, Generated ''c1'')"
proof -
  obtain q where q: "quoteStudioGeneration 1787000000000 TtsGenerate (body_args (TtsBody speech_text)) = Inr q"
    "authorized_quote q = speech_quote" "gq_action q = ''tts''" using speech_quoted by blast
  have rq: "request_of speech_outside ''u1'' (TtsBody speech_text) q = speech"
    using q(2) by (simp add: request_of_def speech_outside_def speech_def studioReservationKey_def)
  have res: "reserveStudioGeneration speech T0 \<lparr>sd_ledger = demo_ledger, sd_events = []\<rparr> = (speech_db, Inr speech_reservation)"
    using speech_reserved by (simp add: reserveStudioGeneration_def studio_transaction_def)
  have missing: "contains ''POST /tools/invoke intentionally bypassed for exact tts'' ''/tools/invoke''" by code_simp
  have "obtain_output speech_outside TtsGenerate ''tts'' speech_reservation speech_db = (provider_db, None)"
    by (simp add: obtain_output_def race_error_def speech_outside_def isMissingTtsInvoke_def missing run_fallback_def speech_admit
        del: contains.simps)
  moreover have "finish_output speech_outside ''tts'' speech_reservation provider_db = (done_db, Generated ''c1'')"
    by (simp add: finish_output_def ingest_tx_def speech_outside_def speech_complete)
  ultimately have "run_reserved speech_outside TtsGenerate ''tts'' speech_reservation speech_db = (done_db, Generated ''c1'')"
    by (simp add: run_reserved_def) (simp add: speech_outside_def)
  moreover have "ou_account speech_outside = Some ''u1''" "ou_quotedAt speech_outside = 1787000000000"
    "ou_reservedAt speech_outside = T0" "ou_env speech_outside 0 db = db" for db
    by (simp_all add: speech_outside_def)
  ultimately show ?thesis
    using q(1,3) rq res by (simp add: studio_generate_def speech_body del: body_args.simps)
qed


end
