(* ===== verification/StudioEscrow.thy ===== *)
theory StudioEscrow
  imports StudioSamples
begin

text \<open>
  The contract of a generation, an escrow of an amount: a price is held, and then either kept for
  the artifact or given back, in two steps, and never changed. Every run of the platform refines
  it, with the amounts the ledger has.
\<close>

section \<open>The contract\<close>

datatype escrow = Absent | Held int | Kept int | Returning int | Returned int

inductive escrow_step :: "escrow \<Rightarrow> escrow \<Rightarrow> bool" where
  hold: "0 < p \<Longrightarrow> escrow_step Absent (Held p)"
| keep: "escrow_step (Held p) (Kept p)"
| withdraw: "escrow_step (Held p) (Returning p)"
| give_back: "escrow_step (Returning p) (Returned p)"

code_pred (modes: i \<Rightarrow> i \<Rightarrow> bool) escrow_step .

inductive_cases escrow_ends: "escrow_step (Kept p) y" "escrow_step (Returned p) y"

text \<open>An escrow that has ended stays as it is.\<close>

lemma escrow_final: "escrow_step\<^sup>*\<^sup>* x y \<Longrightarrow> x = Kept p \<or> x = Returned p \<Longrightarrow> y = x"
  by (induction rule: rtranclp_induct) (auto elim: escrow_ends)

text \<open>The escrow a row stands for at its price.\<close>

fun phase :: "int \<Rightarrow> studio_event option \<Rightarrow> escrow" where
  "phase p None = Absent"
| "phase p (Some e) =
     (if se_status e = ''completed'' then Kept p
      else if se_status e = ''refund_pending'' then Returning p
      else if se_status e = ''error'' then Returned p
      else Held p)"

text \<open>
  The escrow of a generation in the database: its price is what its debit took off the payer, the
  amount its metadata records; the refunds of the debit are nothing before it is returned and the
  whole price then. There is none where the row and the ledger disagree: a row without a debit,
  one that records another price, or one whose refunds do not fit its status.
\<close>

definition escrow_of :: "string \<Rightarrow> studio_db \<Rightarrow> escrow option" where
  "escrow_of t db =
     (case event_of t db of
        None \<Rightarrow> Some Absent
      | Some e \<Rightarrow>
          (case (findTransactionByKey (studioReservationKey t) (sd_ledger db), readReservationMetadata (se_metadata e)) of
             (Some tx, Inr m) \<Rightarrow>
               (let price = - tx_amount tx;
                    returned = refunded_units (tx_id tx) (sd_ledger db)
                in if 0 < price \<and> sp_reservedManna (sm_reservation m) = numericToNumber price \<and>
                      returned = (if se_status e = ''error'' then price else 0)
                   then Some (phase price (Some e)) else None)
           | _ \<Rightarrow> None))"

abbreviation refines :: "int \<Rightarrow> studio_event option \<Rightarrow> studio_event option \<Rightarrow> bool" where
  "refines p row row' \<equiv> escrow_step\<^sup>*\<^sup>* (phase p row) (phase p row')"

text \<open>The invariant has the row and the ledger agree.\<close>

lemma escrow_row:
  assumes "studio_inv db" "event_of t db = Some e"
  obtains tx where "findTransactionByKey (studioReservationKey t) (sd_ledger db) = Some tx" "tx_amount tx < 0"
    "escrow_of t db = Some (phase (- tx_amount tx) (Some e))"
proof -
  obtain tx m a where "findTransactionByKey (studioReservationKey t) (sd_ledger db) = Some tx"
    "readReservationMetadata (se_metadata e) = Inr m" "sp_reservedManna (sm_reservation m) = numericToNumber a"
    "tx_amount tx = - a" "0 < a" "refunded_units (tx_id tx) (sd_ledger db) = (if se_status e = ''error'' then a else 0)"
    by (rule generation_debit [OF assms]) (rule that)
  then show thesis using that assms(2) by (simp add: escrow_of_def del: phase.simps)
qed

lemma escrow_absent: "event_of t db = None \<Longrightarrow> escrow_of t db = Some Absent"
  by (simp add: escrow_of_def)

section \<open>Each transaction\<close>

lemma one_row:
  assumes "studio_inv db" "event_of t db = Some e" "e' \<in> set (sd_events db)" "se_turnId e' = Some t"
  shows "e' = e"
  using assms event_of_iff [of db t e'] by (simp add: studio_inv_def)

lemma refines_update:
  assumes "\<And>e. se_turnId (f e) = se_turnId e"
    and "\<And>e. event_of t db = Some e \<Longrightarrow> p e \<Longrightarrow> refines q (Some e) (Some (f e))"
  shows "refines q (event_of t db) (event_of t (update_events p f db))"
  using assms by (cases "event_of t db") (auto simp: event_of_update)

lemma reserve_refines:
  assumes "reserve_studio_tx rq now db = Inr (db', r)" "0 < q"
  shows "refines q (event_of t db) (event_of t db')"
proof -
  obtain m n s' where "db' = db\<lparr>sd_ledger := s', sd_events := sd_events db @ [pending_event rq m n now]\<rparr>"
    using assms by (auto simp: reserve_studio_tx_def ebind_Inr_iff on_studio_ledger_def Let_def
        split: prod.split_asm sum.split_asm if_split_asm)
  then have "event_of t db' = event_of t db \<or> event_of t db = None \<and> event_of t db' = Some (pending_event rq m n now)"
    by (auto simp: event_of_def find_append split: option.split)
  moreover have "phase q (Some (pending_event rq m n now)) = Held q" by (simp add: pending_event_def)
  ultimately show ?thesis using r_into_rtranclp [of escrow_step, OF hold [OF assms(2)]] by auto
qed

lemma admit_row_refines:
  "refines q (event_of t db) (event_of t (update_events (pending_with g j) (\<lambda>e. e\<lparr>se_status := ''provider_admitted''\<rparr>) db))"
  by (rule refines_update) (simp_all add: pending_with_def)

lemma admit_refines: "refines q (event_of t db) (event_of t (fst (admitStudioGeneration r db)))"
  using admit_row_refines by (simp add: admitStudioGeneration_def admittable_def)

lemma complete_refines:
  assumes "completeStudioGeneration r creationId latency db = Inr db'"
  shows "refines q (event_of t db) (event_of t db')"
proof -
  obtain manna cost l where d: "db' = update_events (completable r) (completed_event r creationId manna cost l) db"
    using assms by (auto simp: completeStudioGeneration_def ebind_Inr_iff split: if_splits)
  have k: "escrow_step\<^sup>*\<^sup>* (Held q) (Kept q)" using keep by blast
  show ?thesis unfolding d
    by (rule refines_update) (use k in \<open>auto simp: completable_def completed_event_def\<close>)
qed

lemma mark_refines:
  assumes "mark_compensation stamp p db = Inr (db', f)" "studio_inv db"
  shows "refines q (event_of t db) (event_of t db')"
proof -
  have w: "escrow_step\<^sup>*\<^sup>* (Held q) (Returning q)" using withdraw by blast
  consider "db' = db" | e x g where "event_of (cm_turnId p) db = Some e" "active_status (se_status e)"
    "db' = update_events (\<lambda>e. se_turnId e = Some (cm_turnId p)) (marked_event g x) db"
    using assms(1) by (auto simp: mark_compensation_def ebind_Inr_iff Let_def split: option.splits if_splits)
  then show ?thesis
  proof cases
    case (2 e x g)
    show ?thesis unfolding 2(3)
    proof (rule refines_update)
      fix e' assume e': "event_of t db = Some e'" "se_turnId e' = Some (cm_turnId p)"
      then have "e' = e" using one_row [OF assms(2) 2(1)] event_of_in [OF e'(1)] by simp
      then show "refines q (Some e') (Some (marked_event g x e'))"
        using 2(2) w by (auto simp: marked_event_def active_status_def)
    qed (simp add: marked_event_def)
  qed simp
qed

lemma finish_refines:
  assumes "finish_compensation rvs p f now db = Inr (db', out)" "a_reversal rvs"
  shows "refines q (event_of t db) (event_of t db')"
  using assms
proof (cases rule: finish_cases)
  case (2 e m userId tx ty s leg latency)
  have g: "escrow_step\<^sup>*\<^sup>* (Returning q) (Returned q)" using give_back by blast
  have "refines q (event_of t db) (event_of t (update_events (refundable (cm_turnId p)) (refunded_event f latency) db))"
    by (rule refines_update) (use g in \<open>auto simp: refundable_def refunded_event_def\<close>)
  then show ?thesis by (simp add: 2(10))
qed simp

lemma transaction_refines:
  assumes "\<And>db' r. body db = Inr (db', r) \<Longrightarrow> refines q (event_of t db) (event_of t db')"
  shows "refines q (event_of t db) (event_of t (fst (studio_transaction body db)))"
  using assms by (cases "body db") (auto simp: studio_transaction_def)

lemma studio_step_refines:
  assumes "studio_inv (sw_db w)" "studio_admitted N op" "0 < q"
  shows "refines q (event_of t (sw_db w)) (event_of t (sw_db (studio_step w op)))"
proof (cases op)
  case (ReserveGen rq now)
  have "refines q (event_of t (sw_db w)) (event_of t (fst (reserveStudioGeneration rq now (sw_db w))))"
    unfolding reserveStudioGeneration_def by (rule transaction_refines) (rule reserve_refines [OF _ assms(3)])
  then show ?thesis by (auto simp: ReserveGen split: prod.split sum.split)
next
  case (AdmitGen g)
  then show ?thesis using admit_refines by (simp split: option.split)
next
  case (AdmitRow g j)
  then show ?thesis using admit_row_refines by simp
next
  case (CompleteGen g creationId latency)
  then show ?thesis using complete_refines by (simp split: option.split sum.split)
next
  case (MarkGen stamp p)
  have "refines q (event_of t (sw_db w)) (event_of t (fst (studio_transaction (mark_compensation stamp p) (sw_db w))))"
    by (rule transaction_refines) (rule mark_refines [OF _ assms(1)])
  then show ?thesis by (simp add: MarkGen)
next
  case (RefundGen rvs p f now)
  have "a_reversal rvs" using assms(2) RefundGen by simp
  then have "refines q (event_of t (sw_db w)) (event_of t (fst (studio_transaction (finish_compensation rvs p f now) (sw_db w))))"
    by (intro transaction_refines) (rule finish_refines)
  then show ?thesis by (simp add: RefundGen)
qed

section \<open>Runs\<close>

lemma platform_step_refines:
  assumes "platform_inv plan w" "platform_admitted plan op" "0 < q"
  shows "refines q (event_of t (sw_db (snd w))) (event_of t (sw_db (snd (platform_step plan w op))))"
proof -
  have inv: "studio_inv (sw_db (snd w))" using platform_sides [OF assms(1)] by blast
  obtain u v where w: "w = (u, v)" by (cases w)
  show ?thesis
  proof (cases op)
    case (SecondOp g)
    have "studio_admitted (turn_keys plan) g" using assms(2) by (simp add: SecondOp platform_admitted_def)
    then show ?thesis using studio_step_refines [OF inv _ assms(3)] by (simp add: w SecondOp platform_step_def Let_def)
  qed (simp_all add: w platform_step_def Let_def put_studio_def)
qed

lemma platform_refines:
  assumes "platform_inv plan w" "list_all (platform_admitted plan) ops" "0 < q"
    and "w' = foldl (platform_step plan) w ops"
  shows "refines q (event_of t (sw_db (snd w))) (event_of t (sw_db (snd w')))"
  using assms
proof (induction ops arbitrary: w)
  case (Cons op ops)
  have a: "platform_admitted plan op" "list_all (platform_admitted plan) ops" using Cons.prems(2) by simp_all
  have "platform_inv plan (platform_step plan w op)"
    using platform_run(1) [OF Cons.prems(1), of "[op]"] a(1) by simp
  from Cons.IH [OF this a(2) Cons.prems(3)] have
    "refines q (event_of t (sw_db (snd (platform_step plan w op)))) (event_of t (sw_db (snd w')))"
    using Cons.prems(4) by simp
  with platform_step_refines [OF Cons.prems(1) a(1) Cons.prems(3), of t] show ?case by (rule rtranclp_trans)
qed simp

text \<open>C6: Every run of the platform refines the escrow, with the amounts of the ledger: at every moment
  the row of a generation and its debit agree on a price, nothing of which has been refunded
  while it is held, kept or being withdrawn, and all of which has been once it is returned; and
  seen from any generation, the interleaved transactions of turns, generations and ledger do
  nothing but hold that price, keep it, or withdraw and give back the same price, in this order;
  a kept or returned price stays as it is.\<close>
theorem generation_refines_escrow:
  assumes "platform_inv plan w" "list_all (platform_admitted plan) ops"
    and "w' = foldl (platform_step plan) w ops"
  shows "\<exists>x y. escrow_of t (sw_db (snd w)) = Some x \<and> escrow_of t (sw_db (snd w')) = Some y \<and> escrow_step\<^sup>*\<^sup>* x y"
proof -
  have run: "platform_inv plan w'" "studio_world_le (snd w) (snd w')"
    using platform_run [OF assms(1,2)] assms(3) by simp_all
  have inv: "studio_inv (sw_db (snd w))" "studio_inv (sw_db (snd w'))" "studio_le (sw_db (snd w)) (sw_db (snd w'))"
    using platform_sides [OF assms(1)] platform_sides [OF run(1)] run(2) by (simp_all add: studio_world_le_def)
  note moves = platform_refines [OF assms(1,2) _ assms(3), of _ t]
  show ?thesis
  proof (cases "event_of t (sw_db (snd w'))")
    case None
    then have "event_of t (sw_db (snd w)) = None" using event_stays [OF inv(2,3), of t] by (metis not_None_eq option.distinct(1))
    then show ?thesis using None by (auto simp: escrow_absent)
  next
    case (Some e')
    obtain tx' where tx': "findTransactionByKey (studioReservationKey t) (sd_ledger (sw_db (snd w'))) = Some tx'" "tx_amount tx' < 0"
      "escrow_of t (sw_db (snd w')) = Some (phase (- tx_amount tx') (Some e'))" by (rule escrow_row [OF inv(2) Some])
    have m: "refines (- tx_amount tx') (event_of t (sw_db (snd w))) (Some e')" using moves [of "- tx_amount tx'"] tx'(2) Some by simp
    show ?thesis
    proof (cases "event_of t (sw_db (snd w))")
      case None
      then show ?thesis using tx'(3) m by (auto simp: escrow_absent simp del: phase.simps(2))
    next
      case (Some e)
      obtain tx where tx: "findTransactionByKey (studioReservationKey t) (sd_ledger (sw_db (snd w))) = Some tx"
        "escrow_of t (sw_db (snd w)) = Some (phase (- tx_amount tx) (Some e))" by (rule escrow_row [OF inv(1) Some])
      have "tx' = tx" using extends_find [OF _ tx(1)] inv(3) tx'(1) by (simp add: studio_le_def)
      then show ?thesis using tx(2) tx'(3) m Some by (auto simp del: phase.simps)
    qed
  qed
qed

text \<open>The speech generation: 28 manna are held, then kept with the artifact.\<close>

lemma speech_escrow:
  "escrow_of speech_id (sw_db (snd speech_platform)) = Some (Held 280000)"
  "escrow_of speech_id (sw_db (snd finished_platform)) = Some (Kept 280000)"
proof -
  have find: "findTransactionByKey (studioReservationKey speech_id) speech_ledger = Some speech_tx" "tx_amount speech_tx = - 280000"
    by (simp_all add: findTransactionByKey_def speech_ledger_def speech_tx_def)
  obtain tx where tx: "findTransactionByKey (studioReservationKey speech_id) (sd_ledger speech_db) = Some tx"
    "escrow_of speech_id speech_db = Some (phase (- tx_amount tx) (Some speech_event))"
    using escrow_row [of speech_db speech_id speech_event] platform_sides [OF speech_inv] speech_rows(1,4) by metis
  then show "escrow_of speech_id (sw_db (snd speech_platform)) = Some (Held 280000)"
    using find speech_rows(2,4) by (simp add: speech_db_def)
  obtain tx where "findTransactionByKey (studioReservationKey speech_id) (sd_ledger (sw_db (snd finished_platform))) = Some tx"
    "escrow_of speech_id (sw_db (snd finished_platform)) = Some (phase (- tx_amount tx) (Some done_event))"
    using escrow_row [OF _ finished_event(1)] platform_sides [OF later_speech_inv(2)] by metis
  moreover have "sd_ledger (sw_db (snd finished_platform)) = speech_ledger"
    by (simp add: finished_platform_def platform_step_def speech_platform_def Let_def speech_complete done_db_def)
  ultimately show "escrow_of speech_id (sw_db (snd finished_platform)) = Some (Kept 280000)"
    using find finished_event(2) by simp
qed

lemma generation_refines_escrow_witness:
  "escrow_of speech_id (sw_db (snd (platform_start demo_ledger [''u1'']))) = Some Absent \<and>
   escrow_of speech_id (sw_db (snd speech_platform)) = Some (Held 280000) \<and>
   escrow_step\<^sup>*\<^sup>* Absent (Held 280000) \<and>
   escrow_of speech_id (sw_db (snd finished_platform)) = Some (Kept 280000) \<and>
   escrow_step\<^sup>*\<^sup>* (Held 280000) (Kept 280000)"
proof -
  have start: "escrow_of speech_id (sw_db (snd (platform_start demo_ledger [''u1'']))) = Some Absent"
    by (rule escrow_absent) (simp add: platform_start_def event_of_def)
  have "escrow_step\<^sup>*\<^sup>* Absent (Held 280000)"
    using generation_refines_escrow [where t = "speech_id",
        OF platform_start_inv [OF demo_start_inv, where live = "[''u1'']"] speech_admitted refl] start speech_escrow(1)
    unfolding speech_run by simp
  moreover have "escrow_step\<^sup>*\<^sup>* (Held 280000) (Kept 280000)"
    using generation_refines_escrow [where t = "speech_id" and ops = "[SecondOp (CompleteGen speech_id ''c1'' (JFin 5))]",
        OF speech_inv _ refl] speech_escrow
    by (simp add: platform_admitted_def flip: finished_platform_def)
  ultimately show ?thesis using start speech_escrow by simp
qed

end
