(* ===== verification/TurnRegistry.thy ===== *)
theory TurnRegistry
  imports JsText JsMap
begin

text \<open>
  The registry of recently active turns (apps/api/src/services/turn-registry.ts): a map
  from plain session keys to entries with a window. The clock is the argument \<open>now\<close>.
\<close>

record active_turn =
  tn_sessionId :: string
  tn_agentAccountId :: string
  tn_agentOpenclawId :: string
  tn_windowUntil :: int

type_synonym turn_registry = "(string \<times> active_turn) list"

definition DEFAULT_TURN_WINDOW_MS :: int where
  "DEFAULT_TURN_WINDOW_MS = 5 * 60000"

text \<open>
  \<open>/^agent:[^:]+:(.+)$/\<close>: the prefix, a part without a colon, and the rest, which the dot
  keeps on one line and which is not empty.
\<close>

definition line_break :: "char \<Rightarrow> bool" where
  "line_break c \<longleftrightarrow> c = CHR 0x0A \<or> c = CHR 0x0D"

definition scoped_rest :: "string \<Rightarrow> string option" where
  "scoped_rest key =
     (if \<not> starts_with key ''agent:'' then None
      else
        (let rest = drop 6 key;
             agent = takeWhile (\<lambda>c. c \<noteq> CHR '':'') rest;
             tail = drop (length agent) rest
         in if agent \<noteq> [] \<and> 2 \<le> length tail \<and> \<not> list_ex line_break (drop 1 tail)
            then Some (drop 1 tail) else None))"

definition plainSessionKey :: "string \<Rightarrow> string" where
  "plainSessionKey key = (case scoped_rest key of Some rest \<Rightarrow> rest | None \<Rightarrow> key)"

definition registry_register ::
  "int \<Rightarrow> string \<Rightarrow> string \<Rightarrow> string \<Rightarrow> string \<Rightarrow> int \<Rightarrow> turn_registry \<Rightarrow> active_turn \<times> turn_registry" where
  "registry_register now sessionKey sessionId agentAccountId agentOpenclawId windowMs reg =
     (let entry = \<lparr>tn_sessionId = sessionId, tn_agentAccountId = agentAccountId,
                   tn_agentOpenclawId = agentOpenclawId, tn_windowUntil = now + windowMs\<rparr>
      in (entry, map_set (plainSessionKey sessionKey) entry reg))"

definition registry_get :: "int \<Rightarrow> string \<Rightarrow> turn_registry \<Rightarrow> active_turn option \<times> turn_registry" where
  "registry_get now sessionKey reg =
     (let key = plainSessionKey sessionKey
      in case map_of reg key of
           None \<Rightarrow> (None, reg)
         | Some entry \<Rightarrow>
             if tn_windowUntil entry \<le> now then (None, map_delete key reg) else (Some entry, reg))"

definition registry_touch ::
  "int \<Rightarrow> string \<Rightarrow> int \<Rightarrow> turn_registry \<Rightarrow> active_turn option \<times> turn_registry" where
  "registry_touch now sessionKey windowMs reg =
     (case registry_get now sessionKey reg of
        (None, reg') \<Rightarrow> (None, reg')
      | (Some entry, reg') \<Rightarrow>
          (let entry' = entry\<lparr>tn_windowUntil := now + windowMs\<rparr>
           in (Some entry', map_set (plainSessionKey sessionKey) entry' reg')))"

definition registry_prune :: "int \<Rightarrow> turn_registry \<Rightarrow> nat \<times> turn_registry" where
  "registry_prune now reg =
     (let kept = filter (\<lambda>(k, e). \<not> tn_windowUntil e \<le> now) reg
      in (length reg - length kept, kept))"

definition registry_active :: "int \<Rightarrow> turn_registry \<Rightarrow> (string \<times> active_turn) list \<times> turn_registry" where
  "registry_active now reg = (let reg' = snd (registry_prune now reg) in (reg', reg'))"

definition registry_size :: "turn_registry \<Rightarrow> nat" where
  "registry_size reg = length reg"

end
