(* ===== verification/MediaAdmission.thy ===== *)
theory MediaAdmission
  imports StudioQuote TurnRegistry
begin

text \<open>
  The admission of a media tool at the gateway (apps/api/src/services/chat-media-authorization.ts):
  what the gateway's runtime asks for is priced again with the arguments it will really send,
  and a generation of the studio is admitted only when the price is the one its row was
  authorized with. The reservations of chat turns are not modelled.
\<close>

section \<open>Errors\<close>

datatype media_error =
    UnsupportedArgument string
  | NotAGeneration
  | InvalidTtsText
  | InvalidPrompt
  | CountNotOne
  | UnsupportedOutputFormat
  | UnsupportedImageRoute
  | UnsupportedAspectRatio
  | UnsupportedImageSize
  | AmbiguousGeometry
  | AmbiguousReference
  | InvalidReference
  | UnsupportedReference
  | AmbiguousDuration
  | InvalidDuration
  | UnsupportedMediaModel
  | MediaQuoteFailed quote_error
  | InvalidIdentity
  | UnsupportedStudioTool
  | PendingStudioUnavailable
  | StudioIdentityMismatch

section \<open>Image arguments\<close>

definition CHAT_VIDEO_TEXT_MODEL :: string where
  "CHAT_VIDEO_TEXT_MODEL = ''fal/'' @ VIDEO_TEXT_MODEL"

definition CHAT_VIDEO_IMAGE_MODEL :: string where
  "CHAT_VIDEO_IMAGE_MODEL = ''fal/'' @ VIDEO_IMAGE_MODEL"

definition CHAT_MUSIC_MODEL :: string where
  "CHAT_MUSIC_MODEL = ''google/lyria-3-clip-preview''"

definition CHAT_IMAGE_ASPECT_RATIOS :: "string list" where
  "CHAT_IMAGE_ASPECT_RATIOS =
     [''1:1'', ''2:1'', ''20:9'', ''19.5:9'', ''2:3'', ''3:2'', ''2.35:1'', ''3:4'', ''4:3'', ''4:5'',
      ''5:4'', ''9:16'', ''9:19.5'', ''9:20'', ''16:9'', ''21:9'', ''1:2'', ''4:1'', ''1:4'', ''8:1'', ''1:8'']"

definition CHAT_IMAGE_SIZE_ASPECT_RATIO :: "(string \<times> string) list" where
  "CHAT_IMAGE_SIZE_ASPECT_RATIO =
     [(''1024x1024'', ''1:1''), (''1536x1024'', ''3:2''), (''1024x1536'', ''2:3''),
      (''2048x2048'', ''1:1''), (''3840x2160'', ''16:9'')]"

definition CHAT_IMAGE_OUTPUT_FORMATS :: "string list" where
  "CHAT_IMAGE_OUTPUT_FORMATS = [''png'', ''jpeg'', ''webp'']"

definition imageModelKey :: "json option \<Rightarrow> string option" where
  "imageModelKey raw =
     (case raw of
        None \<Rightarrow> Some DEFAULT_IMAGE_MODEL
      | Some (JStr s) \<Rightarrow>
          map_option fst (find (\<lambda>(key, opt). s = key \<or> s = io_openclawModel opt \<or> s = io_model opt) IMAGE_MODEL_OPTIONS)
      | _ \<Rightarrow> None)"

definition chatImageAspectRatio :: "json_object \<Rightarrow> (media_error, string option) res" where
  "chatImageAspectRatio args =
     (let aspect = member args ''aspectRatio''; size = member args ''size'';
          aspectText = read_string aspect; sizeText = read_string size
      in if aspect \<noteq> None \<and> (case aspectText of None \<Rightarrow> True | Some a \<Rightarrow> a \<notin> set CHAT_IMAGE_ASPECT_RATIOS)
         then Inl UnsupportedAspectRatio
         else if size \<noteq> None \<and> (case sizeText of None \<Rightarrow> True | Some s \<Rightarrow> map_of CHAT_IMAGE_SIZE_ASPECT_RATIO s = None)
         then Inl UnsupportedImageSize
         else
           (let sizeAspect = (case sizeText of None \<Rightarrow> None | Some s \<Rightarrow> map_of CHAT_IMAGE_SIZE_ASPECT_RATIO s)
            in if aspect \<noteq> None \<and> sizeAspect \<noteq> None \<and> aspectText \<noteq> sizeAspect then Inl AmbiguousGeometry
               else Inr (if aspectText \<noteq> None then aspectText else sizeAspect)))"

section \<open>Video references\<close>

definition is_alnum :: "char \<Rightarrow> bool" where
  "is_alnum c \<longleftrightarrow> is_digit c \<or> is_lower c \<or> is_upper c"

text \<open>
  \<open>/^[A-Za-z0-9][A-Za-z0-9._-]{0,239}\.(?:png|jpe?g|webp)$/i\<close>: a stem of 1 to 240 characters
  before one of the endings.
\<close>

definition reference_stem :: "string \<Rightarrow> bool" where
  "reference_stem s \<longleftrightarrow> s \<noteq> [] \<and> length s \<le> 240 \<and> is_alnum (hd s) \<and>
     list_all (\<lambda>c. is_alnum c \<or> c = CHR ''.'' \<or> c = CHR ''_'' \<or> c = CHR ''-'') s"

definition reference_basename :: "string \<Rightarrow> bool" where
  "reference_basename s \<longleftrightarrow>
     list_ex (\<lambda>ending. suffix ending (to_lower s) \<and> reference_stem (take (length s - length ending) s))
       [''.png'', ''.jpg'', ''.jpeg'', ''.webp'']"

definition chatVideoImageReference :: "json_object \<Rightarrow> (media_error, string option) res" where
  "chatVideoImageReference args =
     (let image = member args ''image''; images = member args ''images''
      in if image \<noteq> None \<and> images \<noteq> None then Inl AmbiguousReference
         else
           (let raw = (if image = None \<or> image = Some JNull then images else image)
            in case raw of
                 None \<Rightarrow> Inr None
               | Some j \<Rightarrow>
                   (case (case j of JArr [JStr s] \<Rightarrow> Some s | JStr s \<Rightarrow> Some s | _ \<Rightarrow> None) of
                      None \<Rightarrow> Inl InvalidReference
                    | Some v \<Rightarrow>
                        if \<not> starts_with v ''/'' \<or> CHR 0x5C \<in> set v \<or> ''..'' \<in> set (js_split CHR ''/'' v) \<or>
                           \<not> contains v ''/media/tool-image-generation/'' \<or>
                           \<not> reference_basename (last (js_split CHR ''/'' v))
                        then Inl UnsupportedReference
                        else Inr (Some v))))"

section \<open>The quote of a tool call\<close>

fun allowed_arguments :: "studio_tool \<Rightarrow> string list" where
  "allowed_arguments ImageGenerate =
     [''action'', ''prompt'', ''model'', ''aspectRatio'', ''size'', ''count'', ''outputFormat'']"
| "allowed_arguments VideoGenerate =
     [''action'', ''prompt'', ''duration'', ''durationSeconds'', ''model'', ''image'', ''images'']"
| "allowed_arguments MusicGenerate = [''action'', ''prompt'', ''duration'', ''durationSeconds'', ''model'']"
| "allowed_arguments TtsGenerate = [''action'', ''text'']"

definition trimmed_text :: "json option \<Rightarrow> string" where
  "trimmed_text v = (case v of Some (JStr s) \<Rightarrow> js_trim s | _ \<Rightarrow> [])"

text \<open>\<open>a ?? b\<close> on optional members.\<close>

definition coalesce :: "json option \<Rightarrow> json option \<Rightarrow> json option" where
  "coalesce a b = (if a = None \<or> a = Some JNull then b else a)"

definition is_integer :: "jsnum \<Rightarrow> bool" where
  "is_integer v = (case v of JFin x \<Rightarrow> of_int \<lfloor>x\<rfloor> = x | _ \<Rightarrow> False)"

definition studio_quote_of :: "int \<Rightarrow> studio_tool \<Rightarrow> json_object \<Rightarrow> (media_error, generation_quote) res" where
  "studio_quote_of now tool args =
     (case quoteStudioGeneration now tool args of Inl e \<Rightarrow> Inl (MediaQuoteFailed e) | Inr q \<Rightarrow> Inr q)"

definition quote_image :: "int \<Rightarrow> string \<Rightarrow> json_object \<Rightarrow> (media_error, generation_quote) res" where
  "quote_image now prompt args =
     (if member args ''count'' \<noteq> None \<and> member args ''count'' \<noteq> Some (JNum (JFin 1)) then Inl CountNotOne
      else if member args ''outputFormat'' \<noteq> None \<and>
        (case read_string (member args ''outputFormat'') of None \<Rightarrow> True | Some f \<Rightarrow> f \<notin> set CHAT_IMAGE_OUTPUT_FORMATS)
      then Inl UnsupportedOutputFormat
      else
        (case imageModelKey (member args ''model'') of
           None \<Rightarrow> Inl UnsupportedImageRoute
         | Some key \<Rightarrow>
             ebind (chatImageAspectRatio args) (\<lambda>_.
               studio_quote_of now ImageGenerate [(''prompt'', JStr prompt), (''model'', JStr key)])))"

definition media_duration :: "studio_tool \<Rightarrow> json_object \<Rightarrow> json" where
  "media_duration tool args =
     (case coalesce (member args ''durationSeconds'') (member args ''duration'') of
        None \<Rightarrow> JNum (JFin (if tool = VideoGenerate then 5 else 30))
      | Some JNull \<Rightarrow> JNum (JFin (if tool = VideoGenerate then 5 else 30))
      | Some j \<Rightarrow> j)"

fun duration_bounds :: "studio_tool \<Rightarrow> jsnum \<times> jsnum" where
  "duration_bounds VideoGenerate = (JFin 2, JFin 10)"
| "duration_bounds tool = (JFin 5, JFin 120)"

definition valid_duration :: "studio_tool \<Rightarrow> json \<Rightarrow> bool" where
  "valid_duration tool j =
     (case j of
        JNum d \<Rightarrow> is_finite d \<and> is_integer d \<and>
          \<not> js_lt d (fst (duration_bounds tool)) \<and> \<not> js_lt (snd (duration_bounds tool)) d
      | _ \<Rightarrow> False)"

definition video_reference :: "studio_tool \<Rightarrow> json_object \<Rightarrow> (media_error, string option) res" where
  "video_reference tool args = (if tool = VideoGenerate then chatVideoImageReference args else Inr None)"

definition expected_model :: "studio_tool \<Rightarrow> string option \<Rightarrow> string" where
  "expected_model tool reference =
     (if tool = VideoGenerate
      then (if reference \<noteq> None \<and> reference \<noteq> Some [] then CHAT_VIDEO_IMAGE_MODEL else CHAT_VIDEO_TEXT_MODEL)
      else CHAT_MUSIC_MODEL)"

definition quote_timed :: "int \<Rightarrow> studio_tool \<Rightarrow> string \<Rightarrow> json_object \<Rightarrow> (media_error, generation_quote) res" where
  "quote_timed now tool prompt args =
     (if member args ''duration'' \<noteq> None \<and> member args ''durationSeconds'' \<noteq> None then Inl AmbiguousDuration
      else if \<not> valid_duration tool (media_duration tool args) then Inl InvalidDuration
      else
        ebind (video_reference tool args) (\<lambda>reference.
          if member args ''model'' \<noteq> None \<and> member args ''model'' \<noteq> Some (JStr (expected_model tool reference))
          then Inl UnsupportedMediaModel
          else
            studio_quote_of now tool
              ([(''prompt'', JStr prompt), (''duration'', media_duration tool args)] @
               (if reference \<noteq> None \<and> reference \<noteq> Some []
                then [(''videoMode'', JStr ''image-to-video'')] else []))))"

definition quoteChatMediaTool :: "int \<Rightarrow> studio_tool \<Rightarrow> json_object \<Rightarrow> (media_error, generation_quote) res" where
  "quoteChatMediaTool now tool args =
     (case find (\<lambda>m. fst m \<notin> set (allowed_arguments tool)) args of
        Some m \<Rightarrow> Inl (UnsupportedArgument (fst m))
      | None \<Rightarrow>
          if member args ''action'' \<noteq> None \<and> member args ''action'' \<noteq> Some (JStr ''generate'') then Inl NotAGeneration
          else if tool = TtsGenerate then
            (let text = trimmed_text (member args ''text'')
             in if text = [] \<or> 20000 < length text then Inl InvalidTtsText
                else studio_quote_of now tool [(''text'', JStr text)])
          else
            (let prompt = trimmed_text (member args ''prompt'')
             in if prompt = [] \<or> 20000 < length prompt then Inl InvalidPrompt
                else if tool = ImageGenerate then quote_image now prompt args
                else quote_timed now tool prompt args))"

text \<open>The arguments that are executed.\<close>

definition canonicalChatMediaProviderArgs :: "int \<Rightarrow> studio_tool \<Rightarrow> json_object \<Rightarrow> (media_error, json_object) res" where
  "canonicalChatMediaProviderArgs now tool args =
     ebind (quoteChatMediaTool now tool args) (\<lambda>_.
       if tool = TtsGenerate then Inr [(''text'', JStr (trimmed_text (member args ''text'')))]
       else
         (let prompt = trimmed_text (member args ''prompt'')
          in if tool = ImageGenerate then
               (case imageModelKey (member args ''model'') of
                  None \<Rightarrow> Inl UnsupportedImageRoute
                | Some key \<Rightarrow>
                    ebind (chatImageAspectRatio args) (\<lambda>aspect.
                      Inr ([(''prompt'', JStr prompt),
                            (''model'', JStr (case map_of IMAGE_MODEL_OPTIONS key of
                               None \<Rightarrow> [] | Some opt \<Rightarrow> io_openclawModel opt))] @
                           opt_field ''aspectRatio''
                             (case aspect of None \<Rightarrow> None | Some a \<Rightarrow> if a = [] then None else Some (JStr a)) @
                           (if member args ''count'' = Some (JNum (JFin 1)) then [(''count'', JNum (JFin 1))] else []) @
                           opt_field ''outputFormat'' (map_option JStr (read_string (member args ''outputFormat''))))))
             else
               ebind (video_reference tool args) (\<lambda>reference.
                 Inr ([(''prompt'', JStr prompt)] @
                      (case reference of None \<Rightarrow> [] | Some v \<Rightarrow> if v = [] then [] else [(''image'', JStr v)]) @
                      [(''durationSeconds'', media_duration tool args),
                       (''model'', JStr (expected_model tool reference))]))))"

section \<open>The context of a studio call\<close>

definition safeHostIdentity :: "string \<Rightarrow> (media_error, string) res" where
  "safeHostIdentity value =
     (let trimmed = js_trim value
      in if length trimmed < 1 \<or> 200 < length trimmed \<or>
            list_ex (\<lambda>c. (of_char c :: nat) < 32 \<or> (of_char c :: nat) = 127) trimmed
         then Inl InvalidIdentity else Inr trimmed)"

definition is_hex :: "char \<Rightarrow> bool" where
  "is_hex c \<longleftrightarrow> is_digit c \<or> 97 \<le> (of_char c :: nat) \<and> (of_char c :: nat) \<le> 102"

text \<open>A lower-case UUID of version 4.\<close>

definition uuid4_shape :: "string \<Rightarrow> bool" where
  "uuid4_shape s =
     (case js_split CHR ''-'' s of
        [a, b, c, d, e] \<Rightarrow>
          list_all (list_all is_hex) [a, b, c, d, e] \<and> map length [a, b, c, d, e] = [8, 4, 4, 4, 12] \<and>
          hd c = CHR ''4'' \<and> hd d \<in> {CHR ''8'', CHR ''9'', CHR ''a'', CHR ''b''}
      | _ \<Rightarrow> False)"

text \<open>The pattern \<open>eden3:studio:<uuid>\<close>, without regard to case.\<close>

definition studio_context :: "string \<Rightarrow> string option" where
  "studio_context key =
     (let low = to_lower key; pre = ''eden3:studio:''
      in if starts_with low pre \<and> uuid4_shape (drop (length pre) low) then Some (drop (length pre) low) else None)"

section \<open>The admission\<close>

record media_request =
  mr_sessionKey :: string
  mr_tool :: string
  mr_args :: json_object

record studio_media_authorization =
  sa_authorizationId :: string
  sa_tool :: studio_tool
  sa_action :: string
  sa_quote :: generation_quote

definition json_is_num :: "json option \<Rightarrow> jsnum \<Rightarrow> bool" where
  "json_is_num v n = (case v of Some (JNum x) \<Rightarrow> js_eq x n | _ \<Rightarrow> False)"

text \<open>The row with its payer's transaction.\<close>

definition studio_row :: "string \<Rightarrow> studio_db \<Rightarrow> (studio_event \<times> manna_transaction) option" where
  "studio_row turnId db =
     (case event_of turnId db of
        None \<Rightarrow> None
      | Some e \<Rightarrow>
          (case read_string (jsonb_get (jsonb_get (se_metadata e) ''reservation'') ''transactionId'') of
             None \<Rightarrow> None
           | Some k \<Rightarrow>
               map_option (Pair e)
                 (find (\<lambda>t. show_nat (tx_id t) = k \<and>
                    (case manna_row (tx_manna_account_id t) (sd_ledger db) of
                       None \<Rightarrow> False | Some r \<Rightarrow> se_userId e = Some (ma_account_id r)))
                  (manna_transactions (sd_ledger db)))))"

definition same_authorization :: "string \<Rightarrow> string \<Rightarrow> generation_quote \<Rightarrow> json option \<Rightarrow> manna_transaction \<Rightarrow> bool" where
  "same_authorization turnId tool q metadata t \<longleftrightarrow>
     (let quote = jsonb_get metadata ''quote''; reservation = jsonb_get metadata ''reservation'';
          key = ''studio:'' @ turnId @ '':reserve''
      in jsonb_text_is (jsonb_get metadata ''tool'') tool \<and>
         jsonb_text_is (jsonb_get quote ''action'') (gq_action q) \<and>
         jsonb_text_is (jsonb_get quote ''provider'') (provider_name (gq_provider q)) \<and>
         jsonb_text_is (jsonb_get quote ''model'') (gq_model q) \<and>
         jsonb_text_is (jsonb_get quote ''tableVersion'') (gq_tableVersion q) \<and>
         json_is_num (jsonb_get quote ''manna'') (gq_manna q) \<and>
         json_is_num (jsonb_get quote ''costUsd'') (gq_costUsd q) \<and>
         jsonb_text_is (jsonb_get reservation ''idempotencyKey'') key \<and>
         jsonb_text_is (jsonb_get reservation ''transactionId'') (show_nat (tx_id t)) \<and>
         json_is_num (jsonb_get reservation ''reservedManna'') (gq_manna q) \<and>
         tx_idempotency_key t = Some key \<and>
         js_eq (numericToNumber (tx_amount t)) (js_neg (gq_manna q)) \<and>
         tx_type t = Some (''spend:'' @ gq_action q))"

text \<open>\<open>env\<close> is what others commit between the statement that reads the row and the one that updates it.\<close>

definition verifyPendingStudioMedia ::
  "(studio_db \<Rightarrow> studio_db) \<Rightarrow> int \<Rightarrow> media_request \<Rightarrow> studio_db
     \<Rightarrow> studio_db \<times> (media_error, studio_media_authorization option) res" where
  "verifyPendingStudioMedia env now rq db =
     (case safeHostIdentity (mr_sessionKey rq) of
        Inl e \<Rightarrow> (db, Inl e)
      | Inr key \<Rightarrow>
          (case studio_context (plainSessionKey key) of
             None \<Rightarrow> (db, Inr None)
           | Some turnId \<Rightarrow>
               (case find (\<lambda>tool. tool_name tool = mr_tool rq) STUDIO_TOOL_NAMES of
                  None \<Rightarrow> (db, Inl UnsupportedStudioTool)
                | Some tool \<Rightarrow>
                    (case quoteChatMediaTool now tool (mr_args rq) of
                       Inl e \<Rightarrow> (db, Inl e)
                     | Inr q \<Rightarrow>
                         (case studio_row turnId db of
                            None \<Rightarrow> (db, Inl PendingStudioUnavailable)
                          | Some (e, t) \<Rightarrow>
                              if se_status e \<noteq> ''pending'' then (db, Inl PendingStudioUnavailable)
                              else if \<not> same_authorization turnId (mr_tool rq) q (se_metadata e) t
                              then (db, Inl StudioIdentityMismatch)
                              else
                                (case se_metadata e of
                                   None \<Rightarrow> (db, Inl StudioIdentityMismatch)
                                 | Some j \<Rightarrow>
                                     if list_ex (pending_with turnId j) (sd_events (env db))
                                     then
                                       (update_events (pending_with turnId j)
                                          (\<lambda>e. e\<lparr>se_status := ''provider_admitted''\<rparr>) (env db),
                                        Inr (Some \<lparr>sa_authorizationId = turnId, sa_tool = tool,
                                                   sa_action = gq_action q, sa_quote = q\<rparr>))
                                     else (env db, Inl PendingStudioUnavailable)))))))"

end
