(* ===== verification/MediaProperties.thy ===== *)
theory MediaProperties
  imports MediaAdmission StudioRouteProperties
begin

text \<open>
  The gateway's admission beside the studio: when it prices a call as the studio did, and when
  it admits it.
\<close>

section \<open>The same price\<close>

text \<open>What the gateway accepts of the bodies the schemas accept.\<close>

fun sendable :: "studio_body \<Rightarrow> bool" where
  "sendable (ImageBody p m) = (length p \<le> 20000)"
| "sendable (VideoBody p d) = (length p \<le> 20000 \<and> (case d of None \<Rightarrow> True | Some v \<Rightarrow> is_integer v))"
| "sendable (MusicBody p d) = (length p \<le> 20000 \<and> (case d of None \<Rightarrow> True | Some v \<Rightarrow> is_integer v))"
| "sendable (TtsBody t) = (length t \<le> 20000)"

fun refusal :: "studio_body \<Rightarrow> media_error" where
  "refusal (ImageBody p m) = InvalidPrompt"
| "refusal (VideoBody p d) = (if 20000 < length p then InvalidPrompt else InvalidDuration)"
| "refusal (MusicBody p d) = (if 20000 < length p then InvalidPrompt else InvalidDuration)"
| "refusal (TtsBody t) = InvalidTtsText"

lemma same_quote:
  "priced_spec tool a = priced_spec tool b \<Longrightarrow> quantityFromArgs tool a = quantityFromArgs tool b \<Longrightarrow>
     studio_quote_of now tool a = studio_quote_of now tool b"
  by (simp add: studio_quote_of_def quoteStudioGeneration_def)

lemma image_wire:
  assumes "body_ok (ImageBody p m)"
  obtains key opt where "map_of IMAGE_MODEL_OPTIONS key = Some opt"
    "key = (case m of None \<Rightarrow> DEFAULT_IMAGE_MODEL | Some k \<Rightarrow> k)"
    "studioProviderArgs (ImageBody p m) = Some [(''prompt'', JStr p), (''model'', JStr (io_openclawModel opt))]"
    "imageModelKey (Some (JStr (io_openclawModel opt))) = Some key"
proof -
  obtain opt where opt: "map_of IMAGE_MODEL_OPTIONS (case m of None \<Rightarrow> DEFAULT_IMAGE_MODEL | Some k \<Rightarrow> k) = Some opt"
    by (rule image_known [OF assms])
  have "imageModelKey (Some (JStr (io_openclawModel opt))) = Some (case m of None \<Rightarrow> DEFAULT_IMAGE_MODEL | Some k \<Rightarrow> k)"
    using opt by (auto simp: imageModelKey_def IMAGE_MODEL_OPTIONS_def split: if_split_asm)
  with that opt show thesis by simp
qed

lemma image_agrees:
  assumes ok: "body_ok (ImageBody p m)"
  shows "\<exists>wire. studioProviderArgs (ImageBody p m) = Some wire \<and>
    quoteChatMediaTool now ImageGenerate wire =
      (if length p \<le> 20000 then studio_quote_of now ImageGenerate (body_args (ImageBody p m)) else Inl InvalidPrompt)"
proof -
  obtain key opt where w: "map_of IMAGE_MODEL_OPTIONS key = Some opt"
    "key = (case m of None \<Rightarrow> DEFAULT_IMAGE_MODEL | Some k \<Rightarrow> k)"
    "studioProviderArgs (ImageBody p m) = Some [(''prompt'', JStr p), (''model'', JStr (io_openclawModel opt))]"
    "imageModelKey (Some (JStr (io_openclawModel opt))) = Some key" by (rule image_wire [OF ok])
  have p: "js_trim p = p" "p \<noteq> []" using ok by simp_all
  have "priced_spec ImageGenerate [(''prompt'', JStr p), (''model'', JStr key)] =
      priced_spec ImageGenerate (body_args (ImageBody p m))"
    using w(2) by (cases m) (simp_all add: priced_spec_def imageModelOption_def body_members member_def opt_field_def)
  then have "studio_quote_of now ImageGenerate [(''prompt'', JStr p), (''model'', JStr key)] =
      studio_quote_of now ImageGenerate (body_args (ImageBody p m))"
    by (rule same_quote) simp
  then show ?thesis using w(3,4) p
    by (simp add: quoteChatMediaTool_def member_def trimmed_text_def quote_image_def chatImageAspectRatio_def del: body_args.simps)
qed

lemma timed_agrees:
  assumes tool: "tool = VideoGenerate \<or> tool = MusicGenerate" and p: "js_trim p = p" "p \<noteq> []"
    and d: "is_finite v" "\<not> js_lt v (fst (duration_bounds tool))" "\<not> js_lt (snd (duration_bounds tool)) v"
  shows "quoteChatMediaTool now tool [(''prompt'', JStr p), (''duration'', JNum v)] =
    (if 20000 < length p then Inl InvalidPrompt
     else if is_integer v then studio_quote_of now tool [(''prompt'', JStr p), (''duration'', JNum v)]
     else Inl InvalidDuration)"
  using assms
  by (auto simp: quoteChatMediaTool_def member_def trimmed_text_def quote_timed_def media_duration_def coalesce_def
      valid_duration_def video_reference_def chatVideoImageReference_def)

lemma timed_quote:
  "studio_quote_of now VideoGenerate [(''prompt'', JStr p), (''duration'', JNum (case d of None \<Rightarrow> VIDEO_DEFAULT | Some v \<Rightarrow> v))] =
     studio_quote_of now VideoGenerate (body_args (VideoBody p d))"
  "studio_quote_of now MusicGenerate [(''prompt'', JStr p), (''duration'', JNum w)] =
     studio_quote_of now MusicGenerate (body_args (MusicBody p d))"
  by (rule same_quote; cases d; simp add: priced_spec_def member_def opt_field_def numericDuration_def VIDEO_DEFAULT_def)+

text \<open>C11: The gateway prices a call of the studio exactly as the studio did, for every body the schemas
  accept, as long as the text has at most 20000 characters and a duration is a whole number of
  seconds; every other body is refused there, although the schemas accepted it and its price has
  been debited.\<close>
theorem gateway_prices_as_studio:
  assumes "parseStudioGenerationRequest input = Some body"
  shows "\<exists>wire. studioProviderArgs body = Some wire \<and>
    quoteChatMediaTool now (body_tool body) wire =
      (if sendable body then studio_quote_of now (body_tool body) (body_args body) else Inl (refusal body))"
proof -
  have ok: "body_ok body" by (rule parse_ok [OF assms])
  show ?thesis
  proof (cases body)
    case (ImageBody p m)
    show ?thesis using image_agrees [OF ok [unfolded ImageBody]]
      unfolding ImageBody body_tool.simps sendable.simps refusal.simps .
  next
    case (VideoBody p d)
    define v where "v = (case d of None \<Rightarrow> VIDEO_DEFAULT | Some v \<Rightarrow> v)"
    have v: "is_finite v" "\<not> js_lt v (JFin 2)" "\<not> js_lt (JFin 10) v"
      using ok by (cases d; simp add: VideoBody v_def VIDEO_DEFAULT_def VIDEO_MIN_def VIDEO_MAX_def)+
    have i: "is_integer v \<longleftrightarrow> (case d of None \<Rightarrow> True | Some v \<Rightarrow> is_integer v)"
      by (cases d) (simp_all add: v_def VIDEO_DEFAULT_def is_integer_def)
    show ?thesis
      using timed_agrees [of VideoGenerate p v now] timed_quote(1) [of now p d] v i ok
      by (simp add: VideoBody v_def [symmetric] del: body_args.simps)
  next
    case (MusicBody p d)
    define v where "v = (case d of None \<Rightarrow> MUSIC_DEFAULT | Some v \<Rightarrow> v)"
    have v: "is_finite v" "\<not> js_lt v (JFin 5)" "\<not> js_lt (JFin 120) v"
      using ok by (cases d; simp add: MusicBody v_def MUSIC_DEFAULT_def MUSIC_MIN_def MUSIC_MAX_def)+
    have i: "is_integer v \<longleftrightarrow> (case d of None \<Rightarrow> True | Some v \<Rightarrow> is_integer v)"
      by (cases d) (simp_all add: v_def MUSIC_DEFAULT_def is_integer_def)
    show ?thesis
      using timed_agrees [of MusicGenerate p v now] timed_quote(2) [of now p v d] v i ok
      by (simp add: MusicBody v_def [symmetric] del: body_args.simps)
  next
    case (TtsBody t)
    then show ?thesis using ok by (simp add: quoteChatMediaTool_def member_def trimmed_text_def)
  qed
qed

text \<open>Two and a half seconds of video: accepted by the schemas and priced, refused by the gateway.\<close>

definition fraction_json :: json where
  "fraction_json = JObj [(''tool'', JStr ''video_generate''),
     (''args'', JObj [(''prompt'', JStr ''sea''), (''duration'', JNum (JFin (5 / 2)))])]"

lemma gateway_prices_as_studio_witness:
  "parseStudioGenerationRequest fraction_json = Some (VideoBody ''sea'' (Some (JFin (5 / 2)))) \<and>
   (\<exists>wire. studioProviderArgs (VideoBody ''sea'' (Some (JFin (5 / 2)))) = Some wire \<and>
     quoteChatMediaTool 1787000000000 VideoGenerate wire = Inl InvalidDuration)"
proof -
  have "js_trim ''sea'' = ''sea''" by code_simp
  then have p: "parseStudioGenerationRequest fraction_json = Some (VideoBody ''sea'' (Some (JFin (5 / 2))))"
    by (simp add: fraction_json_def parseStudioGenerationRequest_def member_def STUDIO_TOOL_NAMES_def strict_members_def
        promptSchema_def durationSchema_def VIDEO_MIN_def VIDEO_MAX_def)
  have "\<not> is_integer (JFin (5 / 2))" by code_simp
  then show ?thesis using p gateway_prices_as_studio [OF p, of 1787000000000] by simp
qed

section \<open>The admission\<close>

lemma read_string_iff: "read_string v = Some s \<longleftrightarrow> v = Some (JStr s)"
  by (cases v; simp; rename_tac j; case_tac j; simp)

lemma read_number_iff: "read_number v = Some n \<longleftrightarrow> v = Some (JNum n)"
  by (cases v; simp; rename_tac j; case_tac j; simp)

lemma read_quoteD:
  assumes "read_quote v = Some q"
  shows "jsonb_get v ''action'' = Some (JStr (sq_action q))" "jsonb_get v ''provider'' = Some (JStr (sq_provider q))"
    "jsonb_get v ''model'' = Some (JStr (sq_model q))" "jsonb_get v ''tableVersion'' = Some (JStr (sq_tableVersion q))"
    "jsonb_get v ''costUsd'' = Some (JNum (sq_costUsd q))" "jsonb_get v ''manna'' = Some (JNum (sq_manna q))"
  using assms by (auto simp: read_quote_def read_string_iff read_number_iff split: option.split_asm)

lemma read_splitD:
  assumes "read_split v = Some r"
  shows "jsonb_get v ''idempotencyKey'' = Some (JStr (sp_idempotencyKey r))"
    "jsonb_get v ''transactionId'' = Some (JStr (sp_transactionId r))"
    "jsonb_get v ''reservedManna'' = Some (JNum (sp_reservedManna r))"
  using assms by (auto simp: read_split_def read_string_iff read_number_iff split: option.split_asm)

lemma read_metadataD:
  assumes "readReservationMetadata v = Inr m"
  shows "jsonb_get v ''tool'' = Some (JStr (sm_tool m))" "read_quote (jsonb_get v ''quote'') = Some (sm_quote m)"
    "read_split (jsonb_get v ''reservation'') = Some (sm_reservation m)"
  using assms by (auto simp: readReservationMetadata_def read_string_iff split: option.split_asm if_split_asm)

text \<open>The price a row was authorized with, and one the gateway computes.\<close>

definition same_price :: "string \<Rightarrow> generation_quote \<Rightarrow> studio_metadata \<Rightarrow> bool" where
  "same_price tool q m \<longleftrightarrow> sm_tool m = tool \<and> sq_action (sm_quote m) = gq_action q \<and>
     sq_provider (sm_quote m) = provider_name (gq_provider q) \<and> sq_model (sm_quote m) = gq_model q \<and>
     sq_tableVersion (sm_quote m) = gq_tableVersion q \<and> js_eq (sq_manna (sm_quote m)) (gq_manna q) \<and>
     js_eq (sq_costUsd (sm_quote m)) (gq_costUsd q)"

lemma funded_authorization:
  assumes fu: "funds s turnId userId m t a" and read: "readReservationMetadata v = Inr m"
  shows "same_authorization turnId tool q v t \<longleftrightarrow> same_price tool q m"
proof -
  have f: "tx_idempotency_key t = Some (''studio:'' @ turnId @ '':reserve'')" "tx_amount t = - a" "0 < a" "a \<le> unit_bound"
    "tx_type t = Some (''spend:'' @ sq_action (sm_quote m))"
    "sp_idempotencyKey (sm_reservation m) = ''studio:'' @ turnId @ '':reserve''"
    "sp_transactionId (sm_reservation m) = show_nat (tx_id t)" "sp_reservedManna (sm_reservation m) = JFin (unit_val a)"
    "js_eq (sq_manna (sm_quote m)) (sp_reservedManna (sm_reservation m))"
    using fu unfolding funds_def pays_def studioReservationKey_def split_valid_def by blast+
  have manna: "sq_manna (sm_quote m) = JFin (unit_val a)"
    using f(8,9) by (cases "sq_manna (sm_quote m)") (simp_all add: js_eq_def)
  have amount: "js_eq (JFin (unit_val a)) n \<Longrightarrow> js_eq (numericToNumber (tx_amount t)) (js_neg n)" for n
    using f(2-4) by (cases n) (simp_all add: js_eq_def numericToNumber_def number_of_units_val unit_val_uminus)
  note fields = read_metadataD [OF read] read_quoteD [OF read_metadataD(2) [OF read]]
    read_splitD [OF read_metadataD(3) [OF read]]
  show ?thesis
    using amount by (auto simp: same_authorization_def same_price_def Let_def fields jsonb_text_is_def json_is_num_def
        f(1,5-8) manna)
qed

lemma studio_row_found:
  assumes inv: "studio_inv db" and e: "event_of t db = Some e"
  obtains tx userId m a where "studio_row t db = Some (e, tx)" "funds (sd_ledger db) t userId m tx a"
    "readReservationMetadata (se_metadata e) = Inr m"
proof -
  have mem: "e \<in> set (sd_events db)" "se_turnId e = Some t" using event_of_in [OF e] by simp_all
  have ok: "event_ok (sd_ledger db) e" and L: "ledger_inv (sd_ledger db)" using inv mem(1) by (simp_all add: studio_inv_def)
  obtain turnId userId obj m tx a where h: "se_turnId e = Some turnId" "se_userId e = Some userId"
    "se_metadata e = Some (JObj obj)" "readReservationMetadata (Some (JObj obj)) = Inr m"
    "funds (sd_ledger db) turnId userId m tx a"
    "refunded_units (tx_id tx) (sd_ledger db) = (if se_status e = ''error'' then a else 0)"
    by (rule event_okE [OF ok])
  have r: "jsonb_get (jsonb_get (se_metadata e) ''reservation'') ''transactionId'' = Some (JStr (show_nat (tx_id tx)))"
    using read_splitD(2) [OF read_metadataD(3) [OF h(4)]] h(3,5) by (simp add: funds_def pays_def)
  have tx: "tx \<in> set (manna_transactions (sd_ledger db))"
    "case manna_row (tx_manna_account_id tx) (sd_ledger db) of None \<Rightarrow> False | Some r \<Rightarrow> ma_account_id r = userId"
    using h(5) unfolding funds_def pays_def by blast+
  have ids: "distinct (map (\<lambda>t. show_nat (tx_id t)) (manna_transactions (sd_ledger db)))"
    using L show_nat_inj by (auto simp: ledger_inv_def txs_ok_def distinct_map inj_on_def)
  have part: "find (\<lambda>u. show_nat (tx_id u) = show_nat (tx_id tx) \<and> q u) xs = Some tx"
    if "find (\<lambda>u. show_nat (tx_id u) = show_nat (tx_id tx)) xs = Some tx" "q tx" for xs q
    using that by (induction xs) (auto split: if_split_asm)
  have found: "find (\<lambda>u. show_nat (tx_id u) = show_nat (tx_id tx) \<and>
      (case manna_row (tx_manna_account_id u) (sd_ledger db) of
         None \<Rightarrow> False | Some r \<Rightarrow> Some userId = Some (ma_account_id r))) (manna_transactions (sd_ledger db)) = Some tx"
    by (rule part [OF find_unique [OF ids tx(1)]]) (use tx(2) in \<open>auto split: option.splits\<close>)
  have "studio_row t db = Some (e, tx)"
    unfolding studio_row_def e option.case r read_string.simps h(2) found by simp
  then show thesis using that h mem(2) by simp
qed

text \<open>A value of a jsonb column has one member of each name, and equals itself.\<close>

function jsonb_ok :: "json \<Rightarrow> bool" where
  "jsonb_ok JNull = True"
| "jsonb_ok (JBool b) = True"
| "jsonb_ok (JNum v) = True"
| "jsonb_ok (JStr s) = True"
| "jsonb_ok (JArr xs) = list_all jsonb_ok xs"
| "jsonb_ok (JObj ms) = (distinct (map fst ms) \<and> list_all (\<lambda>m. jsonb_ok (snd m)) ms)"
  by pat_completeness auto
termination
proof (relation "measure size", goal_cases)
  case (2 xs x)
  then have "size x \<le> size_list size xs" by (intro size_list_estimation' [OF _ order_refl])
  then show ?case by simp
next
  case (3 ms m)
  then have "size_prod (\<lambda>x. 0) size m \<le> size_list (size_prod (\<lambda>x. 0) size) ms"
    by (intro size_list_estimation') auto
  then show ?case by (cases m) simp
qed simp

lemma jsonb_eq_refl: "jsonb_ok j \<Longrightarrow> jsonb_eq j j"
proof (induction j rule: jsonb_ok.induct)
  case (5 xs)
  then show ?case by (auto simp: list_all_iff set_zip)
next
  case (6 ms)
  then show ?case by (auto simp: list_all_iff member_def)
qed simp_all

text \<open>C10: The gateway admits the studio call of a pending generation exactly when the price it computes
  itself is the one the row was authorized with; when nothing else commits between its two
  statements, the row then moves from pending to its provider and nothing else changes, and
  otherwise nothing changes at all.\<close>
theorem studio_admission_exact:
  assumes "studio_inv db" "event_of t db = Some e" "se_status e = ''pending''"
    and "readReservationMetadata (se_metadata e) = Inr m"
    and "safeHostIdentity (mr_sessionKey rq) = Inr key" "studio_context (plainSessionKey key) = Some t"
    and "mr_tool rq = tool_name tool" "quoteChatMediaTool now tool (mr_args rq) = Inr q"
    and "jsonb_ok metadata" "se_metadata e = Some metadata"
  shows "verifyPendingStudioMedia (\<lambda>db. db) now rq db =
    (if same_price (tool_name tool) q m
     then (update_events (pending_with t metadata) (\<lambda>e. e\<lparr>se_status := ''provider_admitted''\<rparr>) db,
       Inr (Some \<lparr>sa_authorizationId = t, sa_tool = tool, sa_action = gq_action q, sa_quote = q\<rparr>))
     else (db, Inl StudioIdentityMismatch))"
proof -
  obtain tx userId m' a where row: "studio_row t db = Some (e, tx)" "funds (sd_ledger db) t userId m' tx a"
    "readReservationMetadata (se_metadata e) = Inr m'" by (rule studio_row_found [OF assms(1,2)])
  have "m' = m" using row(3) assms(4) by simp
  then have same: "same_authorization t (tool_name tool) q (se_metadata e) tx \<longleftrightarrow> same_price (tool_name tool) q m"
    using funded_authorization [OF row(2,3)] by simp
  have tool: "find (\<lambda>u. tool_name u = tool_name tool) STUDIO_TOOL_NAMES = Some tool"
    by (cases tool) (simp_all add: STUDIO_TOOL_NAMES_def)
  have "list_ex (pending_with t metadata) (sd_events db)"
    using event_of_in [OF assms(2)] assms(3,10) jsonb_eq_refl [OF assms(9)] by (auto simp: list_ex_iff pending_with_def)
  then show ?thesis
    using assms(3,5-8,10) row(1) same tool by (simp add: verifyPendingStudioMedia_def)
qed

text \<open>An admission commits nothing but the statement that is a step of the machine.\<close>

lemma admission_is_step:
  "fst (verifyPendingStudioMedia env now rq (sw_db w)) \<in> {sw_db w, env (sw_db w)} \<or>
   (\<exists>t j. fst (verifyPendingStudioMedia env now rq (sw_db w)) =
      sw_db (studio_step (w\<lparr>sw_db := env (sw_db w)\<rparr>) (AdmitRow t j)))"
  by (auto simp: verifyPendingStudioMedia_def split: sum.split option.split)

text \<open>The call for the speech that was reserved.\<close>

definition speech_call :: media_request where
  "speech_call = \<lparr>mr_sessionKey = ''eden3:studio:'' @ speech_id, mr_tool = ''tts'',
     mr_args = [(''text'', JStr speech_text)]\<rparr>"

lemma studio_admission_exact_witness:
  "\<exists>q. authorized_quote q = speech_quote \<and>
     verifyPendingStudioMedia (\<lambda>db. db) 1787000000000 speech_call speech_db =
       (provider_db, Inr (Some \<lparr>sa_authorizationId = speech_id, sa_tool = TtsGenerate, sa_action = ''tts'', sa_quote = q\<rparr>))"
proof -
  obtain q where q: "quoteStudioGeneration 1787000000000 TtsGenerate (body_args (TtsBody speech_text)) = Inr q"
    "authorized_quote q = speech_quote" "gq_action q = ''tts''" using speech_quoted by blast
  have len: "length speech_text = 120" by (simp add: speech_text_def)
  have t: "js_trim speech_text = speech_text" by (rule js_trim_id) (simp add: speech_text_def is_space_def)
  have price: "quoteChatMediaTool 1787000000000 TtsGenerate (mr_args speech_call) = Inr q"
    using q(1) t len by (auto simp: quoteChatMediaTool_def speech_call_def member_def trimmed_text_def studio_quote_of_def)
  have key: "safeHostIdentity (mr_sessionKey speech_call) = Inr (''eden3:studio:'' @ speech_id)"
    "studio_context (plainSessionKey (''eden3:studio:'' @ speech_id)) = Some speech_id"
    unfolding speech_call_def media_request.select_convs by code_simp+
  have inv: "studio_inv speech_db" using platform_sides [OF speech_inv] speech_rows(4) by simp
  have ok: "jsonb_ok (JObj (metadata_json speech_metadata))"
    by (simp add: metadata_json_def quote_json_def split_json_def stringify_num_def speech_metadata_def speech_quote_def)
  have meta: "se_metadata speech_event = Some (JObj (metadata_json speech_metadata))"
    by (simp add: speech_event_def pending_event_def)
  have "same_price ''tts'' q speech_metadata"
    using q(2) by (auto simp: same_price_def speech_metadata_def authorized_quote_def speech_quote_def js_eq_def)
  moreover have "update_events (pending_with speech_id (JObj (metadata_json speech_metadata)))
      (\<lambda>e. e\<lparr>se_status := ''provider_admitted''\<rparr>) speech_db = provider_db"
  proof -
    have "pending_with speech_id (JObj (metadata_json speech_metadata)) speech_event"
      using speech_admittable by (simp add: admittable_def speech_ids)
    then show ?thesis by (simp add: update_events_def speech_db_def provider_db_def)
  qed
  moreover have "mr_tool speech_call = tool_name TtsGenerate" by (simp add: speech_call_def)
  ultimately show ?thesis
    using studio_admission_exact [OF inv speech_rows(1,2,3) key _ price ok meta] q(2,3) by auto
qed

end
