(* ===== verification/HostPath.thy ===== *)
theory HostPath
  imports JsText
begin

text \<open>
  The map from the container paths of a gateway transcript to host paths
  (\<open>containerPathToHost\<close> of apps/api/src/workers/media-watcher.ts), with the operations of
  Node's \<open>path\<close> it uses, on a POSIX host. A symbolic link is not followed by the code either.
\<close>

section \<open>POSIX paths\<close>

text \<open>One step of \<open>normalizeString\<close>; \<open>climb\<close> allows to climb above a relative start.\<close>

definition norm_push :: "bool \<Rightarrow> string list \<Rightarrow> string \<Rightarrow> string list" where
  "norm_push climb stack seg =
     (if seg = [] \<or> seg = ''.'' then stack
      else if seg = ''..'' then
        (if stack \<noteq> [] \<and> last stack \<noteq> ''..'' then butlast stack
         else if climb then stack @ [''..''] else stack)
      else stack @ [seg])"

definition norm_segments :: "bool \<Rightarrow> string \<Rightarrow> string list" where
  "norm_segments climb path = foldl (norm_push climb) [] (js_split CHR ''/'' path)"

definition is_absolute :: "string \<Rightarrow> bool" where
  "is_absolute path = starts_with path ''/''"

text \<open>\<open>path.resolve\<close>: the last absolute argument counts, else the current directory.\<close>

definition resolve_from :: "string \<Rightarrow> string list \<Rightarrow> string" where
  "resolve_from cwd args =
     foldl (\<lambda>acc a. if a = [] then acc else if is_absolute a then a else acc @ ''/'' @ a) cwd args"

definition path_resolve :: "string \<Rightarrow> string list \<Rightarrow> string" where
  "path_resolve cwd args = CHR ''/'' # join_with CHR ''/'' (norm_segments False (resolve_from cwd args))"

definition path_normalize :: "string \<Rightarrow> string" where
  "path_normalize path =
     (if path = [] then ''.''
      else
        (let body = join_with CHR ''/'' (norm_segments (\<not> is_absolute path) path);
             trailing = last path = CHR ''/''
         in if body = [] then
              (if is_absolute path then ''/'' else if trailing then ''./'' else ''.'')
            else (if is_absolute path then ''/'' else []) @ body @ (if trailing then ''/'' else [])))"

definition path_join :: "string list \<Rightarrow> string" where
  "path_join args =
     (let parts = filter (\<lambda>a. a \<noteq> []) args
      in if parts = [] then ''.'' else path_normalize (join_with CHR ''/'' parts))"

text \<open>The last segment, after trailing separators.\<close>

definition path_basename :: "string \<Rightarrow> string" where
  "path_basename path =
     (case filter (\<lambda>s. s \<noteq> []) (js_split CHR ''/'' path) of [] \<Rightarrow> [] | s # ss \<Rightarrow> last (s # ss))"

text \<open>The last dot and what follows it, unless it starts the segment.\<close>

definition segment_ext :: "string \<Rightarrow> string" where
  "segment_ext base =
     (if base = ''..'' \<or> CHR ''.'' \<notin> set base then []
      else
        (let tail_part = rev (takeWhile (\<lambda>c. c \<noteq> CHR ''.'') (rev base))
         in if length base = Suc (length tail_part) then [] else CHR ''.'' # tail_part))"

definition path_extname :: "string \<Rightarrow> string" where
  "path_extname path = segment_ext (path_basename path)"

section \<open>The map\<close>

definition CONTAINER_DATA_ROOT :: string where
  "CONTAINER_DATA_ROOT = ''/home/node/.openclaw''"

definition CONTAINER_TMP_ROOT :: string where
  "CONTAINER_TMP_ROOT = ''/tmp/openclaw''"

record openclaw_dirs =
  od_dataDir :: string
  od_tmpDir :: string

definition INGESTIBLE_MEDIA_EXTENSIONS :: "string list" where
  "INGESTIBLE_MEDIA_EXTENSIONS =
     [''.png'', ''.jpg'', ''.jpeg'', ''.webp'', ''.gif'', ''.svg'', ''.mp4'', ''.webm'', ''.mov'',
      ''.mp3'', ''.wav'', ''.ogg'', ''.m4a'', ''.flac'', ''.aac'']"

definition isContainedIn :: "string \<Rightarrow> string \<Rightarrow> string \<Rightarrow> bool" where
  "isContainedIn cwd child within =
     (let resolvedRoot = path_resolve cwd [within]; resolvedChild = path_resolve cwd [child]
      in resolvedChild = resolvedRoot \<or> starts_with resolvedChild (resolvedRoot @ ''/''))"

definition mediaRoot :: "openclaw_dirs \<Rightarrow> string" where
  "mediaRoot dirs = path_join [od_dataDir dirs, ''media'']"

definition containMediaOutput :: "string \<Rightarrow> openclaw_dirs \<Rightarrow> string \<Rightarrow> string option" where
  "containMediaOutput cwd dirs host =
     (if isContainedIn cwd host (mediaRoot dirs) \<or> isContainedIn cwd host (od_tmpDir dirs) then Some host else None)"

definition containerPathToHost :: "string \<Rightarrow> openclaw_dirs \<Rightarrow> string \<Rightarrow> string option" where
  "containerPathToHost cwd dirs containerPath =
     (let p = js_trim containerPath
      in if to_lower (path_extname p) \<notin> set INGESTIBLE_MEDIA_EXTENSIONS then None
         else if starts_with p (CONTAINER_DATA_ROOT @ ''/'') then
           containMediaOutput cwd dirs
             (path_resolve cwd [od_dataDir dirs, drop (length CONTAINER_DATA_ROOT + 1) p])
         else if starts_with p (CONTAINER_TMP_ROOT @ ''/'') then
           (let mapped = path_resolve cwd [od_tmpDir dirs, drop (length CONTAINER_TMP_ROOT + 1) p]
            in if isContainedIn cwd mapped (od_tmpDir dirs) then Some mapped else None)
         else containMediaOutput cwd dirs (path_resolve cwd [p]))"

section \<open>Normal paths\<close>

text \<open>Segments without dots, separators or gaps.\<close>

definition plain_segment :: "string \<Rightarrow> bool" where
  "plain_segment s \<longleftrightarrow> s \<noteq> [] \<and> s \<noteq> ''.'' \<and> s \<noteq> ''..'' \<and> CHR ''/'' \<notin> set s"

lemma split_append:
  "js_split c (s @ c # t) = js_split c s @ js_split c t"
  by (induction s) (auto split: list.splits simp: append_eq_Cons_conv)

lemma split_join: "ws \<noteq> [] \<Longrightarrow> list_all (\<lambda>w. c \<notin> set w) ws \<Longrightarrow> js_split c (join_with c ws) = ws"
  by (induction c ws rule: join_with.induct) (auto simp: split_append_sep split_no_sep)

lemma foldl_push_plain: "list_all plain_segment ws \<Longrightarrow> foldl (norm_push climb) stack ws = stack @ ws"
  by (induction ws arbitrary: stack) (auto simp: norm_push_def plain_segment_def)

lemma push_plain: "list_all plain_segment stack \<Longrightarrow> CHR ''/'' \<notin> set seg \<Longrightarrow> list_all plain_segment (norm_push False stack seg)"
  by (auto simp: norm_push_def plain_segment_def list_all_iff dest: in_set_butlastD)

lemma foldl_plain:
  "list_all plain_segment stack \<Longrightarrow> list_all (\<lambda>s. CHR ''/'' \<notin> set s) ws \<Longrightarrow>
    list_all plain_segment (foldl (norm_push False) stack ws)"
  by (induction ws arbitrary: stack) (auto simp: push_plain)

lemma norm_segments_plain: "list_all plain_segment (norm_segments False path)"
  unfolding norm_segments_def
  by (rule foldl_plain) (auto simp: list_all_iff dest: split_parts_no_sep)

text \<open>A resolved path resolves to itself.\<close>

lemma norm_plain_path:
  assumes "list_all plain_segment ws"
  shows "norm_segments False (CHR ''/'' # join_with CHR ''/'' ws) = ws"
proof (cases ws)
  case (Cons w ws')
  have "js_split CHR ''/'' (CHR ''/'' # join_with CHR ''/'' ws) = [] # ws"
    using assms split_join [of ws "CHR ''/''"] by (simp add: Cons plain_segment_def list_all_iff)
  then show ?thesis using foldl_push_plain [OF assms, of False "[]"] by (simp add: norm_segments_def norm_push_def)
qed (simp add: norm_segments_def norm_push_def)

lemma resolve_plain:
  "list_all plain_segment ws \<Longrightarrow>
    path_resolve cwd [CHR ''/'' # join_with CHR ''/'' ws] = CHR ''/'' # join_with CHR ''/'' ws"
  using norm_plain_path [of ws] by (simp add: path_resolve_def resolve_from_def is_absolute_def starts_with_def)

lemma resolve_idem: "path_resolve cwd [path_resolve cwd' args] = path_resolve cwd' args"
  unfolding path_resolve_def [of cwd'] by (rule resolve_plain [OF norm_segments_plain])

section \<open>The extension of a mapped path\<close>

text \<open>The last segment with text decides, when it is a name.\<close>

lemma push_last:
  assumes "filter (\<lambda>s. s \<noteq> []) ws = us @ [b]" "plain_segment b"
  shows "\<exists>vs. foldl (norm_push climb) stack ws = vs @ [b]"
  using assms(1)
proof (induction ws arbitrary: stack us)
  case (Cons w ws)
  show ?case
  proof (cases "filter (\<lambda>s. s \<noteq> []) ws = []")
    case True
    then have w: "w = b" using Cons.prems by (cases us) (auto split: if_splits)
    have "foldl (norm_push climb) st ws = st" for st
      using True by (induction ws arbitrary: st) (auto simp: norm_push_def split: if_splits)
    moreover have "norm_push climb stack b = stack @ [b]" using assms(2) by (simp add: norm_push_def plain_segment_def)
    ultimately show ?thesis using w by simp
  next
    case False
    then obtain us' where "filter (\<lambda>s. s \<noteq> []) ws = us' @ [b]"
      using Cons.prems by (cases us) (auto split: if_splits)
    then show ?thesis using Cons.IH by simp
  qed
qed simp

lemma basename_last: "path_basename path = (if us = [] then [] else last us)"
  if "us = filter (\<lambda>s. s \<noteq> []) (js_split CHR ''/'' path)"
  using that by (simp add: path_basename_def split: list.split)

lemma ext_plain:
  assumes "path_extname p \<noteq> []"
  obtains us where "filter (\<lambda>s. s \<noteq> []) (js_split CHR ''/'' p) = us @ [path_basename p]"
    "plain_segment (path_basename p)"
proof -
  define us where "us = filter (\<lambda>s. s \<noteq> []) (js_split CHR ''/'' p)"
  have b: "path_basename p = (if us = [] then [] else last us)" by (rule basename_last [OF us_def])
  have ne: "us \<noteq> []" using assms by (auto simp: b path_extname_def segment_ext_def)
  then have "us = butlast us @ [path_basename p]" by (simp add: b)
  moreover have "plain_segment (path_basename p)"
  proof -
    have "last us \<in> set us" using ne by simp
    then have "last us \<noteq> []" "CHR ''/'' \<notin> set (last us)"
      unfolding us_def by (auto dest: split_parts_no_sep)
    moreover have "last us \<noteq> ''.''" "last us \<noteq> ''..''"
      using assms ne by (auto simp: b path_extname_def segment_ext_def)
    ultimately show ?thesis using ne by (simp add: plain_segment_def b)
  qed
  ultimately show thesis using that us_def by metis
qed

lemma basename_resolved:
  assumes "\<exists>us. filter (\<lambda>s. s \<noteq> []) (js_split CHR ''/'' (resolve_from cwd args)) = us @ [b]" "plain_segment b"
  shows "path_basename (path_resolve cwd args) = b"
proof -
  obtain vs where vs: "norm_segments False (resolve_from cwd args) = vs @ [b]"
    using push_last [OF _ assms(2)] assms(1) unfolding norm_segments_def by blast
  have pl: "list_all plain_segment (vs @ [b])" using norm_segments_plain [of "resolve_from cwd args"] vs by simp
  have "js_split CHR ''/'' (path_resolve cwd args) = [] # vs @ [b]"
    using pl split_join [of "vs @ [b]" "CHR ''/''"]
    by (simp add: path_resolve_def vs plain_segment_def list_all_iff)
  then have "filter (\<lambda>s. s \<noteq> []) (js_split CHR ''/'' (path_resolve cwd args)) = vs @ [b]"
    using pl by (auto simp: plain_segment_def list_all_iff)
  then show ?thesis by (simp add: basename_last)
qed

text \<open>An argument that ends in a name keeps its extension.\<close>

lemma resolve_ext:
  assumes "path_extname p \<noteq> []"
  shows "path_extname (path_resolve cwd [d, p]) = path_extname p" "path_extname (path_resolve cwd [p]) = path_extname p"
proof -
  obtain us where us: "filter (\<lambda>s. s \<noteq> []) (js_split CHR ''/'' p) = us @ [path_basename p]" "plain_segment (path_basename p)"
    by (rule ext_plain [OF assms])
  have p: "p \<noteq> []" using us by auto
  define ends where "ends q \<longleftrightarrow> (\<exists>vs. filter (\<lambda>s. s \<noteq> []) (js_split CHR ''/'' q) = vs @ [path_basename p])" for q
  have one: "ends p" "ends (q @ CHR ''/'' # p)" for q
    using us(1) by (auto simp: ends_def split_append)
  have "ends (resolve_from cwd [d, p])"
    using one(1) one(2) [of cwd] one(2) [of d] one(2) [of "cwd @ CHR ''/'' # d"] p
    by (simp add: resolve_from_def)
  then have "path_basename (path_resolve cwd [d, p]) = path_basename p"
    unfolding ends_def by (rule basename_resolved) (rule us(2))
  moreover have "ends (resolve_from cwd [p])" using one(1) one(2) [of cwd] p by (simp add: resolve_from_def)
  then have "path_basename (path_resolve cwd [p]) = path_basename p"
    unfolding ends_def by (rule basename_resolved) (rule us(2))
  ultimately show "path_extname (path_resolve cwd [d, p]) = path_extname p" "path_extname (path_resolve cwd [p]) = path_extname p"
    by (simp_all add: path_extname_def)
qed

text \<open>A path below one of the container's roots keeps its extension when the root is cut off.\<close>

lemma cut_ext:
  assumes p: "starts_with p (r @ ''/'')" and e: "path_extname p \<noteq> []" and r: "path_extname r = []"
  shows "path_extname (drop (length r + 1) p) = path_extname p"
proof -
  obtain q where q: "p = r @ CHR ''/'' # q" using p by (auto simp: starts_with_def prefix_def)
  have f: "filter (\<lambda>s. s \<noteq> []) (js_split CHR ''/'' p) =
      filter (\<lambda>s. s \<noteq> []) (js_split CHR ''/'' r) @ filter (\<lambda>s. s \<noteq> []) (js_split CHR ''/'' q)"
    by (simp add: q split_append)
  have "filter (\<lambda>s. s \<noteq> []) (js_split CHR ''/'' q) \<noteq> []"
    using e r f by (auto simp: path_extname_def path_basename_def)
  then have "path_basename p = path_basename q" using f by (simp add: basename_last [OF refl])
  then show ?thesis by (simp add: q path_extname_def)
qed

end
