(* ===== verification/MediaWatcher.thy ===== *)
theory MediaWatcher
  imports HostPath Json JsMap
begin

text \<open>
  The media watcher (apps/api/src/workers/media-watcher.ts): files the gateway writes are polled
  until their size holds, then handed to a claim, to the session a history lookup names, or
  parked; and the handler of attachment sightings. An event is what happens between two awaits
  of the process; the file system, the fence of quarantined outputs and the history lookup
  answer with events of their own.
\<close>

section \<open>Kinds of files\<close>

datatype attachment_kind = ImageFile | VideoFile | AudioFile | OtherFile

definition EXTENSION_MIMES :: "(string \<times> string) list" where
  "EXTENSION_MIMES =
     [(''.png'', ''image/png''), (''.jpg'', ''image/jpeg''), (''.jpeg'', ''image/jpeg''),
      (''.webp'', ''image/webp''), (''.gif'', ''image/gif''), (''.svg'', ''image/svg+xml''),
      (''.mp4'', ''video/mp4''), (''.webm'', ''video/webm''), (''.mov'', ''video/quicktime''),
      (''.mp3'', ''audio/mpeg''), (''.wav'', ''audio/wav''), (''.ogg'', ''audio/ogg''),
      (''.oga'', ''audio/ogg''), (''.m4a'', ''audio/mp4''), (''.aac'', ''audio/aac''),
      (''.flac'', ''audio/flac''), (''.opus'', ''audio/ogg''), (''.pdf'', ''application/pdf''),
      (''.json'', ''application/json''), (''.txt'', ''text/plain'')]"

definition mimeForPath :: "string \<Rightarrow> string" where
  "mimeForPath filePath =
     (case map_of EXTENSION_MIMES (to_lower (path_extname filePath)) of
        None \<Rightarrow> ''application/octet-stream'' | Some m \<Rightarrow> m)"

definition attachmentKindForMime :: "string \<Rightarrow> attachment_kind" where
  "attachmentKindForMime mime =
     (let normalized = to_lower mime
      in if starts_with normalized ''image/'' then ImageFile
         else if starts_with normalized ''video/'' then VideoFile
         else if starts_with normalized ''audio/'' then AudioFile
         else OtherFile)"

definition IGNORED_SUFFIXES :: "string list" where
  "IGNORED_SUFFIXES = [''.tmp'', ''.part'', ''.partial'', ''.crdownload'']"

definition isIgnoredPath :: "string \<Rightarrow> bool" where
  "isIgnoredPath filePath =
     (let base = path_basename filePath
      in starts_with base ''.'' \<or> list_ex (\<lambda>e. suffix e (to_lower base)) IGNORED_SUFFIXES)"

definition tool_segment :: "string \<Rightarrow> string option" where
  "tool_segment segment =
     (let s = to_lower segment
      in if \<not> starts_with s ''tool-'' then None
         else if contains s ''image'' then Some ''image_generate''
         else if contains s ''video'' then Some ''video_generate''
         else if contains s ''music'' \<or> contains s ''song'' then Some ''music_generate''
         else if contains s ''tts'' \<or> contains s ''speech'' \<or> contains s ''voice'' then Some ''tts''
         else None)"

definition toolFromPath :: "string \<Rightarrow> attachment_kind \<Rightarrow> string option" where
  "toolFromPath filePath kind =
     (case List.map_filter tool_segment (js_split CHR ''/'' filePath) of
        tool # rest \<Rightarrow> Some tool
      | [] \<Rightarrow> if kind = ImageFile then Some ''image_generate''
              else if kind = VideoFile then Some ''video_generate'' else None)"

section \<open>State\<close>

record media_file =
  mf_path :: string
  mf_basename :: string
  mf_mime :: string
  mf_kind :: attachment_kind

definition file_event :: "string \<Rightarrow> media_file" where
  "file_event filePath =
     \<lparr>mf_path = filePath, mf_basename = path_basename filePath, mf_mime = mimeForPath filePath,
      mf_kind = attachmentKindForMime (mimeForPath filePath)\<rparr>"

text \<open>
  The stability state of a file is an object that the snapshot of a tick shares with the map;
  \<open>po_ref\<close> is its identity.
\<close>

record poll =
  po_ref :: nat
  po_size :: int
  po_stable :: nat

text \<open>A claim is in the list exactly while its timer runs; \<open>pc_id\<close> is its identity.\<close>

record pending_claim =
  pc_id :: nat
  pc_kinds :: "attachment_kind list option"

datatype settlement = Resolved media_file | TimedOut

datatype route =
    ViaClaim nat media_file
  | ViaHistory media_file string "string option" "string option"
  | Parked media_file "string option"

text \<open>Where the loop waits, with the rest of its snapshot.\<close>

datatype stage =
    NotTicking
  | Scanning
  | Statting string poll "(string \<times> poll) list"
  | Fencing media_file "(string \<times> poll) list"
  | Correlating media_file "(string \<times> poll) list"
  | Handling "(string \<times> poll) list"

record watch_options =
  wo_cwd :: string
  wo_stablePolls :: nat
  wo_hasFence :: bool
  wo_hasHistory :: bool

record watcher =
  wk_started :: bool
  wk_stage :: stage
  wk_pending :: "(string \<times> poll) list"
  wk_processed :: "string set"
  wk_claims :: "pending_claim list"
  wk_settled :: "(nat \<times> settlement) list"
  wk_routes :: "route list"
  wk_claimed :: nat
  wk_polled :: nat

definition new_watcher :: watcher where
  "new_watcher =
     \<lparr>wk_started = False, wk_stage = NotTicking, wk_pending = [], wk_processed = {}, wk_claims = [],
      wk_settled = [], wk_routes = [], wk_claimed = 0, wk_polled = 0\<rparr>"

section \<open>Claims and marks\<close>

definition claimNext :: "attachment_kind list option \<Rightarrow> watcher \<Rightarrow> watcher" where
  "claimNext kinds w =
     w\<lparr>wk_claims := wk_claims w @ [\<lparr>pc_id = wk_claimed w, pc_kinds = kinds\<rparr>], wk_claimed := Suc (wk_claimed w)\<rparr>"

definition removeClaim :: "nat \<Rightarrow> watcher \<Rightarrow> watcher" where
  "removeClaim i w = w\<lparr>wk_claims := drop_first (\<lambda>c. pc_id c = i) (wk_claims w)\<rparr>"

definition claim_timeout :: "nat \<Rightarrow> watcher \<Rightarrow> watcher" where
  "claim_timeout i w =
     (if list_ex (\<lambda>c. pc_id c = i) (wk_claims w)
      then (removeClaim i w)\<lparr>wk_settled := wk_settled w @ [(i, TimedOut)]\<rparr> else w)"

definition markProcessed :: "string \<Rightarrow> string \<Rightarrow> watcher \<Rightarrow> watcher" where
  "markProcessed cwd hostPath w =
     (let abs = path_resolve cwd [hostPath]
      in w\<lparr>wk_processed := insert abs (wk_processed w), wk_pending := map_delete abs (wk_pending w)\<rparr>)"

definition enqueue :: "string \<Rightarrow> string \<Rightarrow> watcher \<Rightarrow> watcher" where
  "enqueue cwd filePath w =
     (let abs = path_resolve cwd [filePath]
      in if isIgnoredPath abs \<or> abs \<in> wk_processed w \<or> map_of (wk_pending w) abs \<noteq> None then w
         else w\<lparr>wk_pending := map_set abs \<lparr>po_ref = wk_polled w, po_size = -1, po_stable = 0\<rparr> (wk_pending w),
                wk_polled := Suc (wk_polled w)\<rparr>)"

section \<open>The stability loop\<close>

text \<open>From one file to the next await.\<close>

fun tick_next :: "(string \<times> poll) list \<Rightarrow> watcher \<Rightarrow> watcher" where
  "tick_next [] w = w\<lparr>wk_stage := NotTicking\<rparr>"
| "tick_next ((p, st) # rest) w =
     (if p \<in> wk_processed w then tick_next rest (w\<lparr>wk_pending := map_delete p (wk_pending w)\<rparr>)
      else w\<lparr>wk_stage := Statting p st rest\<rparr>)"

definition accepts :: "attachment_kind \<Rightarrow> pending_claim \<Rightarrow> bool" where
  "accepts kind c = (case pc_kinds c of None \<Rightarrow> True | Some ks \<Rightarrow> kind \<in> set ks)"

definition park :: "media_file \<Rightarrow> (string \<times> poll) list \<Rightarrow> watcher \<Rightarrow> watcher" where
  "park file rest w =
     w\<lparr>wk_routes := wk_routes w @ [Parked file (toolFromPath (mf_path file) (mf_kind file))],
       wk_stage := Handling rest\<rparr>"

text \<open>Past the fence: the first claim that accepts the kind, the history lookup, or parking.\<close>

definition offer :: "watch_options \<Rightarrow> media_file \<Rightarrow> (string \<times> poll) list \<Rightarrow> watcher \<Rightarrow> watcher" where
  "offer opts file rest w =
     (case find (accepts (mf_kind file)) (wk_claims w) of
        Some c \<Rightarrow>
          w\<lparr>wk_claims := drop_first (accepts (mf_kind file)) (wk_claims w),
            wk_settled := wk_settled w @ [(pc_id c, Resolved file)],
            wk_routes := wk_routes w @ [ViaClaim (pc_id c) file], wk_stage := Handling rest\<rparr>
      | None \<Rightarrow>
          if wo_hasHistory opts then w\<lparr>wk_stage := Correlating file rest\<rparr> else park file rest w)"

definition handleStableFile :: "watch_options \<Rightarrow> string \<Rightarrow> (string \<times> poll) list \<Rightarrow> watcher \<Rightarrow> watcher" where
  "handleStableFile opts filePath rest w =
     (if wo_hasFence opts then w\<lparr>wk_stage := Fencing (file_event filePath) rest\<rparr>
      else offer opts (file_event filePath) rest w)"

definition polled :: "int \<Rightarrow> poll \<Rightarrow> poll" where
  "polled n st =
     (if 0 < n \<and> n = po_size st then st\<lparr>po_stable := Suc (po_stable st)\<rparr>
      else st\<lparr>po_size := n, po_stable := 0\<rparr>)"

text \<open>The answer of \<open>stat\<close>: no size for a file that vanished or is not a regular one.\<close>

definition stat_reply :: "watch_options \<Rightarrow> int option \<Rightarrow> string \<Rightarrow> poll \<Rightarrow> (string \<times> poll) list \<Rightarrow> watcher \<Rightarrow> watcher" where
  "stat_reply opts sz p st rest w =
     (case sz of
        None \<Rightarrow> tick_next rest (w\<lparr>wk_pending := map_delete p (wk_pending w)\<rparr>)
      | Some n \<Rightarrow>
          (let st' = polled n st;
               w1 = w\<lparr>wk_pending := map (\<lambda>(q, x). (q, if po_ref x = po_ref st then st' else x)) (wk_pending w)\<rparr>
           in if wo_stablePolls opts \<le> po_stable st'
              then handleStableFile opts p rest
                     (w1\<lparr>wk_pending := map_delete p (wk_pending w1), wk_processed := insert p (wk_processed w1)\<rparr>)
              else tick_next rest w1))"

section \<open>Events\<close>

datatype watch_event =
    Start
  | Stop
  | MarkExisting "string list"
  | Enqueue string
  | ClaimNext "attachment_kind list option"
  | CancelClaim nat
  | ClaimTimeout nat
  | MarkProcessed string
  | TickTimer
  | ScanDone
  | StatReply "int option"
  | FenceReply "bool option"
  | HistoryReply "(string \<times> string option \<times> string option) option"
  | Handled

fun watch_step :: "watch_options \<Rightarrow> watcher \<Rightarrow> watch_event \<Rightarrow> watcher" where
  "watch_step opts w Start = w\<lparr>wk_started := True\<rparr>"
| "watch_step opts w Stop = w\<lparr>wk_started := False, wk_pending := [], wk_claims := []\<rparr>"
| "watch_step opts w (MarkExisting files) =
     w\<lparr>wk_processed := wk_processed w \<union>
        set (map (\<lambda>f. path_resolve (wo_cwd opts) [f]) (filter (\<lambda>f. \<not> isIgnoredPath f) files))\<rparr>"
| "watch_step opts w (Enqueue filePath) = enqueue (wo_cwd opts) filePath w"
| "watch_step opts w (ClaimNext kinds) = claimNext kinds w"
| "watch_step opts w (CancelClaim i) = removeClaim i w"
| "watch_step opts w (ClaimTimeout i) = claim_timeout i w"
| "watch_step opts w (MarkProcessed hostPath) = markProcessed (wo_cwd opts) hostPath w"
| "watch_step opts w TickTimer =
     (if wk_started w \<and> wk_stage w = NotTicking then w\<lparr>wk_stage := Scanning\<rparr> else w)"
| "watch_step opts w ScanDone =
     (case wk_stage w of Scanning \<Rightarrow> tick_next (wk_pending w) w | _ \<Rightarrow> w)"
| "watch_step opts w (StatReply sz) =
     (case wk_stage w of Statting p st rest \<Rightarrow> stat_reply opts sz p st rest w | _ \<Rightarrow> w)"
| "watch_step opts w (FenceReply quarantined) =
     (case wk_stage w of
        Fencing file rest \<Rightarrow> if quarantined = Some False then offer opts file rest w else park file rest w
      | _ \<Rightarrow> w)"
| "watch_step opts w (HistoryReply match) =
     (case wk_stage w of
        Correlating file rest \<Rightarrow>
          (case match of
             None \<Rightarrow> park file rest w
           | Some (sessionId, agent, tool) \<Rightarrow>
               w\<lparr>wk_routes := wk_routes w @
                   [ViaHistory file sessionId agent
                      (case tool of None \<Rightarrow> toolFromPath (mf_path file) (mf_kind file) | Some t \<Rightarrow> Some t)],
                 wk_stage := Handling rest\<rparr>)
      | _ \<Rightarrow> w)"
| "watch_step opts w Handled =
     (case wk_stage w of Handling rest \<Rightarrow> tick_next rest w | _ \<Rightarrow> w)"

section \<open>Attachment sightings\<close>

record sighting =
  si_sessionId :: string
  si_messageId :: string
  si_path :: string

text \<open>
  \<open>sv_remote\<close> is the lower-case extension of the URL when \<open>trustedGatewayMediaUrl\<close> accepts it,
  \<open>sv_stats\<close> the sizes the attempts to stat see, \<open>sv_fence\<close> the fence: absent, failing or answering.
\<close>

record sighting_env =
  sv_remote :: "string option"
  sv_tempDir :: string
  sv_downloadFails :: bool
  sv_retries :: nat
  sv_stats :: "int option list"
  sv_fence :: "bool option option"

record ingest_call =
  ic_path :: string
  ic_sessionId :: "string option"
  ic_messageId :: "string option"
  ic_tool :: "string option"

text \<open>The path it marks on the watcher and the call of the pipeline, if any.\<close>

definition attach_file :: "sighting_env \<Rightarrow> sighting \<Rightarrow> bool \<Rightarrow> string \<Rightarrow> string option \<times> ingest_call option" where
  "attach_file env s owned hostPath =
     (if \<not> list_ex (\<lambda>z. case z of None \<Rightarrow> False | Some n \<Rightarrow> 0 < n) (take (max 1 (sv_retries env)) (sv_stats env))
      then (None, None)
      else
        (let kind = attachmentKindForMime (mimeForPath hostPath);
             quarantined = (case sv_fence env of None \<Rightarrow> False | Some None \<Rightarrow> True | Some (Some b) \<Rightarrow> b)
         in (if owned then None else Some hostPath,
             Some \<lparr>ic_path = hostPath,
                   ic_sessionId = (if quarantined then None else Some (si_sessionId s)),
                   ic_messageId = (if quarantined then None else Some (si_messageId s)),
                   ic_tool = toolFromPath hostPath kind\<rparr>)))"

definition sighting_run ::
  "string \<Rightarrow> openclaw_dirs \<Rightarrow> sighting_env \<Rightarrow> sighting \<Rightarrow> string option \<times> ingest_call option" where
  "sighting_run cwd dirs env s =
     (case containerPathToHost cwd dirs (si_path s) of
        Some hostPath \<Rightarrow> attach_file env s False hostPath
      | None \<Rightarrow>
          (case sv_remote env of
             None \<Rightarrow> (None, None)
           | Some ext \<Rightarrow>
               if sv_downloadFails env then (None, None)
               else attach_file env s True (path_join [sv_tempDir env, ''artifact'' @ ext])))"

text \<open>\<open>mostRecentActiveTurn\<close> on the registered turns, each with the end of its window.\<close>

definition mostRecentActiveTurn :: "('t \<times> int option) list \<Rightarrow> ('t \<times> int option) option" where
  "mostRecentActiveTurn turns =
     foldl (\<lambda>best turn.
        case best of
          None \<Rightarrow> Some turn
        | Some b \<Rightarrow>
            if (case snd b of None \<Rightarrow> 0 | Some x \<Rightarrow> x) < (case snd turn of None \<Rightarrow> 0 | Some x \<Rightarrow> x)
            then Some turn else best) None turns"

end
