(* ===== verification/WatcherProperties.thy ===== *)
theory WatcherProperties
  imports MediaWatcher
begin

text \<open>
  What the watcher guarantees: no file is routed twice and no claim settles twice, a claim gets
  a file past the fence only, and a transcript publishes nothing outside the media directories;
  and what it does not: a claim may be given a file that is older than itself.
\<close>

section \<open>The invariant\<close>

fun route_path :: "route \<Rightarrow> string" where
  "route_path (ViaClaim i f) = mf_path f"
| "route_path (ViaHistory f sessionId agent tool) = mf_path f"
| "route_path (Parked f tool) = mf_path f"

definition routed :: "watcher \<Rightarrow> string set" where
  "routed w = route_path ` set (wk_routes w)"

text \<open>A file under way has left the map and is not routed yet.\<close>

fun stage_ok :: "string set \<Rightarrow> string set \<Rightarrow> stage \<Rightarrow> bool" where
  "stage_ok done_paths gone (Statting p st rest) \<longleftrightarrow> p \<notin> gone"
| "stage_ok done_paths gone (Fencing f rest) \<longleftrightarrow> mf_path f \<in> done_paths - gone"
| "stage_ok done_paths gone (Correlating f rest) \<longleftrightarrow> mf_path f \<in> done_paths - gone"
| "stage_ok done_paths gone _ = True"

definition claims_ok :: "watcher \<Rightarrow> bool" where
  "claims_ok w \<longleftrightarrow> distinct (map fst (wk_settled w) @ map pc_id (wk_claims w)) \<and>
     (\<forall>i \<in> set (map fst (wk_settled w) @ map pc_id (wk_claims w)). i < wk_claimed w) \<and>
     (\<forall>i f. (i, Resolved f) \<in> set (wk_settled w) \<longleftrightarrow> ViaClaim i f \<in> set (wk_routes w))"

definition routes_ok :: "watcher \<Rightarrow> bool" where
  "routes_ok w \<longleftrightarrow> distinct (map route_path (wk_routes w)) \<and> routed w \<subseteq> wk_processed w \<and>
     stage_ok (wk_processed w) (routed w) (wk_stage w)"

definition watch_inv :: "watcher \<Rightarrow> bool" where
  "watch_inv w \<longleftrightarrow> routes_ok w \<and> claims_ok w"

lemmas watch_defs = watch_inv_def routes_ok_def claims_ok_def routed_def

lemma new_watcher_inv: "watch_inv new_watcher"
  by (simp add: watch_defs new_watcher_def)

lemma stage_ok_more: "stage_ok P G s \<Longrightarrow> P \<subseteq> Q \<Longrightarrow> stage_ok Q G s"
  by (cases s) auto

text \<open>Events that only touch the map of polled files.\<close>

lemma inv_pending [simp]: "watch_inv (w\<lparr>wk_pending := m\<rparr>) = watch_inv w"
  "watch_inv (w\<lparr>wk_polled := n\<rparr>) = watch_inv w"
  "watch_inv (w\<lparr>wk_started := b\<rparr>) = watch_inv w"
  by (simp_all add: watch_defs)

lemma inv_processed: "watch_inv w \<Longrightarrow> wk_processed w \<subseteq> P \<Longrightarrow> watch_inv (w\<lparr>wk_processed := P\<rparr>)"
  using stage_ok_more by (auto simp: watch_defs)

lemma tick_next_inv: "watch_inv w \<Longrightarrow> watch_inv (tick_next rest w)"
proof (induction rest w rule: tick_next.induct)
  case (2 p st rest w)
  show ?case
  proof (cases "p \<in> wk_processed w")
    case False
    then have "p \<notin> routed w" using 2(2) by (auto simp: watch_defs)
    then show ?thesis using 2(2) False by (simp add: watch_inv_def routes_ok_def claims_ok_def routed_def)
  qed (use 2 in simp)
qed (simp add: watch_defs)

lemma route_inv:
  assumes "watch_inv w" "mf_path f \<in> wk_processed w - routed w" "route_path r = mf_path f" "\<And>i g. r \<noteq> ViaClaim i g"
  shows "watch_inv (w\<lparr>wk_routes := wk_routes w @ [r], wk_stage := Handling rest\<rparr>)"
  using assms by (auto simp: watch_defs)

lemma park_inv: "watch_inv w \<Longrightarrow> mf_path f \<in> wk_processed w - routed w \<Longrightarrow> watch_inv (park f rest w)"
  unfolding park_def by (rule route_inv) simp_all

lemma claim_ids_dropped:
  assumes "find p cs = Some c" "distinct (map pc_id cs)"
  shows "set (map pc_id (drop_first p cs)) = set (map pc_id cs) - {pc_id c}"
  using assms by (induction cs) (auto split: if_splits dest: find_SomeD)

lemma offer_inv:
  assumes w: "watch_inv w" and f: "mf_path f \<in> wk_processed w - routed w"
  shows "watch_inv (offer opts f rest w)"
proof (cases "find (accepts (mf_kind f)) (wk_claims w)")
  case None
  then show ?thesis using park_inv [OF w f] w f by (auto simp: offer_def watch_defs)
next
  case (Some c)
  have c: "c \<in> set (wk_claims w)" using find_SomeD [OF Some] by simp
  have d: "distinct (map fst (wk_settled w) @ map pc_id (wk_claims w))" using w by (simp add: watch_defs)
  then have ids: "set (map pc_id (drop_first (accepts (mf_kind f)) (wk_claims w))) = set (map pc_id (wk_claims w)) - {pc_id c}"
    using claim_ids_dropped [OF Some] by simp
  moreover have "distinct (map pc_id (drop_first (accepts (mf_kind f)) (wk_claims w)))"
    using d by (simp add: distinct_drop_first)
  moreover have "pc_id c \<notin> fst ` set (wk_settled w)" using d c by auto
  ultimately have "claims_ok (offer opts f rest w)"
    using w c d by (simp add: offer_def Some watch_inv_def claims_ok_def)
  moreover have "routes_ok (offer opts f rest w)" using w f by (auto simp: offer_def Some watch_defs)
  ultimately show ?thesis by (simp add: watch_inv_def)
qed

lemma stable_inv:
  assumes "watch_inv w" "p \<in> wk_processed w - routed w"
  shows "watch_inv (handleStableFile opts p rest w)"
proof -
  have f: "mf_path (file_event p) = p" by (simp add: file_event_def)
  have "watch_inv (w\<lparr>wk_stage := Fencing (file_event p) rest\<rparr>)" using assms f by (auto simp: watch_defs)
  moreover have "watch_inv (offer opts (file_event p) rest w)" using assms f by (intro offer_inv) simp_all
  ultimately show ?thesis by (simp add: handleStableFile_def)
qed

text \<open>Claims are withdrawn, and settled by their timer.\<close>

lemma drop_claims_ok:
  assumes "claims_ok w"
  shows "claims_ok (w\<lparr>wk_claims := drop_first q (wk_claims w)\<rparr>)"
proof -
  have s: "pc_id ` set (drop_first q (wk_claims w)) \<subseteq> pc_id ` set (wk_claims w)" using set_drop_first by fast
  have d: "distinct (map pc_id (drop_first q (wk_claims w)))"
    using assms by (intro distinct_drop_first) (simp add: claims_ok_def)
  have "i < wk_claimed w" if "i \<in> pc_id ` set (drop_first q (wk_claims w))" for i
    using that s assms by (auto simp: claims_ok_def)
  then show ?thesis using assms s d unfolding claims_ok_def by (auto simp: subset_iff)
qed

lemma timeout_ok:
  assumes "claims_ok w"
  shows "claims_ok (claim_timeout i w)"
proof (cases "list_ex (\<lambda>c. pc_id c = i) (wk_claims w)")
  case True
  define cs where "cs = drop_first (\<lambda>c. pc_id c = i) (wk_claims w)"
  obtain c where c: "find (\<lambda>c. pc_id c = i) (wk_claims w) = Some c"
    using True by (cases "find (\<lambda>c. pc_id c = i) (wk_claims w)") (auto simp: find_None_iff list_ex_iff)
  then have ci: "pc_id c = i" "c \<in> set (wk_claims w)" using find_SomeD by fastforce+
  have "distinct (map pc_id (wk_claims w))" using assms by (simp add: claims_ok_def)
  then have "set (map pc_id cs) = set (map pc_id (wk_claims w)) - {i}" "distinct (map pc_id cs)"
    using claim_ids_dropped [OF c] ci(1) by (simp_all add: cs_def distinct_drop_first)
  moreover have "i \<notin> fst ` set (wk_settled w)" "i < wk_claimed w" using assms ci by (auto simp: claims_ok_def)
  moreover have "claim_timeout i w = w\<lparr>wk_claims := cs, wk_settled := wk_settled w @ [(i, TimedOut)]\<rparr>"
    using True by (simp add: claim_timeout_def removeClaim_def cs_def)
  ultimately show ?thesis using assms by (auto simp: claims_ok_def)
qed (use assms in \<open>simp add: claim_timeout_def\<close>)

lemma routes_ok_claims: "routes_ok (w\<lparr>wk_claims := cs, wk_settled := ss\<rparr>) = routes_ok w" "routes_ok (w\<lparr>wk_claims := cs\<rparr>) = routes_ok w"
  "routes_ok (w\<lparr>wk_claims := cs, wk_claimed := n\<rparr>) = routes_ok w"
  by (simp_all add: routes_ok_def routed_def)

lemma stat_inv:
  assumes w: "watch_inv w" and st: "wk_stage w = Statting p st rest"
  shows "watch_inv (stat_reply opts z p st rest w)"
proof (cases z)
  case (Some n)
  define w1 where "w1 = w\<lparr>wk_pending :=
    map (\<lambda>(q, x). (q, if po_ref x = po_ref st then polled n st else x)) (wk_pending w)\<rparr>"
  define w2 where "w2 = w1\<lparr>wk_pending := map_delete p (wk_pending w1), wk_processed := insert p (wk_processed w1)\<rparr>"
  have w1: "watch_inv w1" using w by (simp add: w1_def)
  have "watch_inv (w1\<lparr>wk_pending := map_delete p (wk_pending w1)\<rparr>)" using w1 by simp
  from inv_processed [OF this, of "insert p (wk_processed w1)"] have w2: "watch_inv w2" by (simp add: w2_def subset_insertI)
  have "p \<in> wk_processed w2 - routed w2" using w st by (simp add: w2_def w1_def watch_inv_def routes_ok_def routed_def)
  then have "watch_inv (handleStableFile opts p rest w2)" by (rule stable_inv [OF w2])
  moreover have "stat_reply opts z p st rest w =
      (if wo_stablePolls opts \<le> po_stable (polled n st) then handleStableFile opts p rest w2 else tick_next rest w1)"
    by (simp add: stat_reply_def Some Let_def w1_def w2_def)
  ultimately show ?thesis using tick_next_inv [OF w1] by simp
qed (use w in \<open>simp add: stat_reply_def tick_next_inv\<close>)

lemma flight_file:
  assumes "watch_inv w"
  shows "wk_stage w = Fencing f rest \<Longrightarrow> mf_path f \<in> wk_processed w - routed w"
    "wk_stage w = Correlating f rest \<Longrightarrow> mf_path f \<in> wk_processed w - routed w"
  using assms by (auto simp: watch_inv_def routes_ok_def)

lemma watch_step_inv:
  assumes w: "watch_inv w"
  shows "watch_inv (watch_step opts w ev)"
proof (cases ev)
  case (MarkExisting files)
  then show ?thesis using inv_processed [OF w] by simp
next
  case (Enqueue p)
  have "watch_inv (w\<lparr>wk_pending := m, wk_polled := n\<rparr>)" for m n using w by (simp add: watch_defs)
  then show ?thesis using w by (simp add: Enqueue enqueue_def Let_def)
next
  case (ClaimNext kinds)
  have "claims_ok (claimNext kinds w)" using w by (auto simp: watch_inv_def claims_ok_def claimNext_def less_Suc_eq)
  then show ?thesis using w by (simp add: ClaimNext watch_inv_def claimNext_def routes_ok_claims)
next
  case (CancelClaim i)
  then show ?thesis using w drop_claims_ok by (simp add: removeClaim_def watch_inv_def routes_ok_claims)
next
  case (ClaimTimeout i)
  have "routes_ok (claim_timeout i w)" using w
    by (simp add: claim_timeout_def removeClaim_def watch_inv_def routes_ok_claims)
  then show ?thesis using w timeout_ok by (simp add: ClaimTimeout watch_inv_def)
next
  case (MarkProcessed p)
  have "watch_inv (w\<lparr>wk_processed := insert q (wk_processed w)\<rparr>)" for q
    by (rule inv_processed [OF w]) blast
  then have "watch_inv ((w\<lparr>wk_processed := insert q (wk_processed w)\<rparr>)\<lparr>wk_pending := m\<rparr>)" for q m by simp
  then show ?thesis by (simp add: MarkProcessed markProcessed_def Let_def)
next
  case TickTimer
  have "watch_inv (w\<lparr>wk_stage := Scanning\<rparr>)" using w by (simp add: watch_defs)
  then show ?thesis using w by (simp add: TickTimer)
next
  case ScanDone
  then show ?thesis using w tick_next_inv by (simp split: stage.split)
next
  case (StatReply z)
  then show ?thesis using w stat_inv by (simp split: stage.split)
next
  case (FenceReply b)
  then show ?thesis using w flight_file(1) [OF w] offer_inv [OF w] park_inv [OF w] by (simp split: stage.split)
next
  case (HistoryReply found)
  show ?thesis
  proof (cases "wk_stage w")
    case (Correlating f rest)
    note f = flight_file(2) [OF w Correlating]
    show ?thesis using park_inv [OF w f] route_inv [OF w f]
      by (simp add: HistoryReply Correlating split: option.split prod.split)
  qed (use w HistoryReply in simp_all)
next
  case Handled
  then show ?thesis using w tick_next_inv by (simp split: stage.split)
next
  case Stop
  define v where "v = w\<lparr>wk_started := False, wk_pending := []\<rparr>"
  have v: "watch_inv v" using w by (simp add: v_def)
  then have "claims_ok (v\<lparr>wk_claims := []\<rparr>)" by (auto simp: watch_inv_def claims_ok_def)
  then have "watch_inv (v\<lparr>wk_claims := []\<rparr>)" using v by (simp add: watch_inv_def routes_ok_claims)
  then show ?thesis by (simp add: Stop v_def)
qed (use w in simp_all)

interpretation wm: machine "watch_step opts" "\<lambda>ev. True" watch_inv for opts
  by unfold_locales (rule watch_step_inv)

section \<open>Routing\<close>

text \<open>C14: Whatever happens to the watcher, in any order of its events, every file is routed at most
  once, every claim settles at most once, and a claim resolves with a file exactly when that
  file was routed to it.\<close>
theorem watcher_routes_once:
  "distinct (map route_path (wk_routes (foldl (watch_step opts) new_watcher es))) \<and>
   distinct (map fst (wk_settled (foldl (watch_step opts) new_watcher es))) \<and>
   ((i, Resolved f) \<in> set (wk_settled (foldl (watch_step opts) new_watcher es)) \<longleftrightarrow>
     ViaClaim i f \<in> set (wk_routes (foldl (watch_step opts) new_watcher es)))"
proof -
  have "watch_inv (foldl (watch_step opts) new_watcher es)"
    using wm.run_inv [OF new_watcher_inv] by (simp add: list_all_iff)
  then show ?thesis by (simp add: watch_defs)
qed

lemma tick_next_routes [simp]: "wk_routes (tick_next rest w) = wk_routes w"
  by (induction rest w rule: tick_next.induct) auto

lemma offer_claim:
  "ViaClaim i f \<in> set (wk_routes (offer opts g rest w)) - set (wk_routes w) \<Longrightarrow>
    f = g \<and> (\<exists>c. find (accepts (mf_kind f)) (wk_claims w) = Some c \<and> pc_id c = i)"
  by (auto simp: offer_def park_def split: option.split_asm if_split_asm)

text \<open>A file goes to a claim only when the fence of quarantined outputs, if there is one, has
  just answered that the kind is not quarantined (a failing fence counts as closed), and then to
  the oldest waiting claim that accepts the kind of the file.\<close>
theorem claim_oldest_unfenced:
  assumes "ViaClaim i f \<in> set (wk_routes (watch_step opts w ev)) - set (wk_routes w)"
  shows "(wo_hasFence opts \<longrightarrow> ev = FenceReply (Some False)) \<and>
    (\<exists>c. find (accepts (mf_kind f)) (wk_claims w) = Some c \<and> pc_id c = i)"
proof (cases ev)
  case (StatReply z)
  then obtain p st rest n w2 where "\<not> wo_hasFence opts"
    "ViaClaim i f \<in> set (wk_routes (offer opts (file_event p) rest w2)) - set (wk_routes w)"
    "wk_claims w2 = wk_claims w" "wk_routes w2 = wk_routes w"
    using assms by (fastforce simp: stat_reply_def handleStableFile_def Let_def
        split: stage.split_asm option.split_asm if_split_asm)
  then show ?thesis using offer_claim [of i f opts "file_event p" rest w2] by auto
next
  case (FenceReply b)
  then show ?thesis using assms offer_claim by (fastforce simp: park_def split: stage.split_asm if_split_asm)
next
  case (HistoryReply found)
  then show ?thesis using assms by (auto simp: park_def split: stage.split_asm option.split_asm)
qed (use assms in \<open>auto simp: enqueue_def claimNext_def removeClaim_def claim_timeout_def markProcessed_def
      Let_def split: stage.split_asm if_split_asm\<close>)

lemma claim_oldest_unfenced_witness:
  "ViaClaim 0 (file_event ''/d/a.png'') \<in>
     set (wk_routes (watch_step \<lparr>wo_cwd = ''/'', wo_stablePolls = 2, wo_hasFence = True, wo_hasHistory = False\<rparr>
       (claimNext None (new_watcher\<lparr>wk_stage := Fencing (file_event ''/d/a.png'') []\<rparr>)) (FenceReply (Some False))))"
proof -
  have r: "ViaClaim 0 (file_event ''/d/a.png'') \<in>
     set (wk_routes (watch_step \<lparr>wo_cwd = ''/'', wo_stablePolls = 2, wo_hasFence = True, wo_hasHistory = False\<rparr>
       (claimNext None (new_watcher\<lparr>wk_stage := Fencing (file_event ''/d/a.png'') []\<rparr>)) (FenceReply (Some False)))) -
     set (wk_routes (claimNext None (new_watcher\<lparr>wk_stage := Fencing (file_event ''/d/a.png'') []\<rparr>)))"
    by (simp add: new_watcher_def claimNext_def offer_def accepts_def)
  show ?thesis using claim_oldest_unfenced [OF r] r by simp
qed

section \<open>Claims and older files\<close>

text \<open>C15: A claim need not wait for a file that lands after it: when the last poll of a file is under way,
  a claim made then is given that file, although the file was there and polled before, and even
  when a sighting attaches the file to its own session and marks it as processed meanwhile.\<close>
theorem claim_takes_earlier_file:
  assumes "wk_stage w = Statting p st rest" "0 < n" "po_size st = n" "wo_stablePolls opts \<le> Suc (po_stable st)"
    and "find (accepts (mf_kind (file_event p))) (wk_claims w) = None"
    and "accepts (mf_kind (file_event p)) \<lparr>pc_id = wk_claimed w, pc_kinds = kinds\<rparr>"
    and "marks = [] \<or> marks = [MarkProcessed p]"
  shows "(wk_claimed w, Resolved (file_event p)) \<in> set (wk_settled (foldl (watch_step opts) w
    ([ClaimNext kinds] @ marks @ [StatReply (Some n)] @ (if wo_hasFence opts then [FenceReply (Some False)] else []))))"
proof -
  have s: "po_stable (polled n st) = Suc (po_stable st)" using assms(2,3) by (simp add: polled_def)
  have given: "(wk_claimed w, Resolved (file_event p)) \<in> set (wk_settled (offer opts (file_event p) rest v))"
    if "wk_claims v = wk_claims w @ [\<lparr>pc_id = wk_claimed w, pc_kinds = kinds\<rparr>]" for v
    using that assms(5,6) by (simp add: offer_def find_append)
  define u where "u = foldl (watch_step opts) w ([ClaimNext kinds] @ marks)"
  have u: "wk_stage u = Statting p st rest" "wk_claims u = wk_claims w @ [\<lparr>pc_id = wk_claimed w, pc_kinds = kinds\<rparr>]"
    using assms(1,7) by (auto simp: u_def claimNext_def markProcessed_def Let_def)
  have run: "foldl (watch_step opts) w ([ClaimNext kinds] @ marks @ evs) = foldl (watch_step opts) u evs" for evs
    by (simp add: u_def)
  show ?thesis unfolding run using given u s assms(4) by (simp add: stat_reply_def handleStableFile_def Let_def)
qed

text \<open>A file of a chat is polled three times; then a request of the studio claims, and gets it.\<close>

definition demo_options :: watch_options where
  "demo_options = \<lparr>wo_cwd = ''/'', wo_stablePolls = 2, wo_hasFence = True, wo_hasHistory = False\<rparr>"

definition older_file :: watcher where
  "older_file = foldl (watch_step demo_options) new_watcher
     [Start, Enqueue ''/d/chat.png'', TickTimer, ScanDone, StatReply (Some 80), TickTimer, ScanDone,
      StatReply (Some 80), TickTimer, ScanDone]"

lemma older_file_simps:
  "wk_stage older_file = Statting ''/d/chat.png'' \<lparr>po_ref = 0, po_size = 80, po_stable = 1\<rparr> []"
  "wk_claims older_file = []" "wk_claimed older_file = 0"
  by code_simp+

lemma claim_takes_earlier_file_witness:
  "(0, Resolved (file_event ''/d/chat.png'')) \<in> set (wk_settled (foldl (watch_step demo_options) older_file
    [ClaimNext (Some [ImageFile]), MarkProcessed ''/d/chat.png'', StatReply (Some 80), FenceReply (Some False)]))"
proof -
  have k: "mf_kind (file_event ''/d/chat.png'') = ImageFile" by code_simp
  show ?thesis
    using claim_takes_earlier_file [OF older_file_simps(1), of 80 demo_options "Some [ImageFile]" "[MarkProcessed ''/d/chat.png'']"]
    by (simp add: older_file_simps k accepts_def demo_options_def)
qed

section \<open>Sightings\<close>

definition below :: "string \<Rightarrow> string \<Rightarrow> bool" where
  "below h r \<longleftrightarrow> h = r \<or> starts_with h (r @ ''/'')"

lemma contained_below: "isContainedIn cwd (path_resolve cwd args) r \<Longrightarrow> below (path_resolve cwd args) (path_resolve cwd [r])"
  by (simp add: isContainedIn_def Let_def resolve_idem below_def)

lemma root_exts: "path_extname CONTAINER_DATA_ROOT = []" "path_extname CONTAINER_TMP_ROOT = []"
  by code_simp+

lemma mapped_path:
  assumes "containerPathToHost cwd dirs t = Some h"
  shows "(below h (path_resolve cwd [mediaRoot dirs]) \<or> below h (path_resolve cwd [od_tmpDir dirs])) \<and>
    path_resolve cwd [h] = h \<and> to_lower (path_extname h) \<in> set INGESTIBLE_MEDIA_EXTENSIONS"
proof -
  define p where "p = js_trim t"
  have e: "to_lower (path_extname p) \<in> set INGESTIBLE_MEDIA_EXTENSIONS"
    using assms by (auto simp: containerPathToHost_def Let_def p_def split: if_split_asm)
  then have ne: "path_extname p \<noteq> []" by (auto simp: INGESTIBLE_MEDIA_EXTENSIONS_def to_lower_def)
  define mapped where "mapped d r = path_resolve cwd [d, drop (length r + 1) p]" for d and r :: string
  have cut: "path_extname (mapped d r) = path_extname p" if "starts_with p (r @ ''/'')" "path_extname r = []" for d r
    using cut_ext [OF that(1) ne that(2)] resolve_ext(1) ne by (simp add: mapped_def)
  have h: "h = (if starts_with p (CONTAINER_DATA_ROOT @ ''/'') then mapped (od_dataDir dirs) CONTAINER_DATA_ROOT
      else if starts_with p (CONTAINER_TMP_ROOT @ ''/'') then mapped (od_tmpDir dirs) CONTAINER_TMP_ROOT
      else path_resolve cwd [p])"
    and within: "isContainedIn cwd h (mediaRoot dirs) \<or> isContainedIn cwd h (od_tmpDir dirs)"
    using assms unfolding containerPathToHost_def Let_def p_def [symmetric] containMediaOutput_def mapped_def
    by (simp_all split: if_split_asm)
  have ext: "path_extname h = path_extname p" using cut root_exts resolve_ext(2) [OF ne] by (simp add: h)
  have "\<exists>args. h = path_resolve cwd args" unfolding h mapped_def by (auto split: if_split)
  then obtain args where args: "h = path_resolve cwd args" by blast
  show ?thesis using within contained_below [of cwd args] e ext resolve_idem unfolding args by metis
qed

text \<open>C13: Whatever text an agent writes into its transcript, a sighting that is not a trusted URL
  publishes only a file that lies in normal form below the media directory or the temporary
  directory and has a media extension; and a closed or failing fence strips its session.\<close>
theorem sighting_publishes_media_only:
  assumes "sighting_run cwd dirs env s = (mark, Some call)" "sv_remote env = None"
  shows "(below (ic_path call) (path_resolve cwd [mediaRoot dirs]) \<or> below (ic_path call) (path_resolve cwd [od_tmpDir dirs])) \<and>
    path_resolve cwd [ic_path call] = ic_path call \<and>
    to_lower (path_extname (ic_path call)) \<in> set INGESTIBLE_MEDIA_EXTENSIONS \<and>
    mark = Some (ic_path call) \<and>
    (ic_sessionId call = (if sv_fence env \<in> {None, Some (Some False)} then Some (si_sessionId s) else None))"
proof -
  obtain h where h: "containerPathToHost cwd dirs (si_path s) = Some h" "attach_file env s False h = (mark, Some call)"
    using assms by (auto simp: sighting_run_def split: option.split_asm)
  then have "ic_path call = h" "mark = Some h"
    "ic_sessionId call = (if sv_fence env \<in> {None, Some (Some False)} then Some (si_sessionId s) else None)"
    by (auto simp: attach_file_def Let_def split: if_split_asm option.split_asm)
  then show ?thesis using mapped_path [OF h(1)] by simp
qed

lemma sighting_publishes_media_only_witness:
  "path_resolve ''/'' [''/h/data/media/a.webp''] = ''/h/data/media/a.webp''"
proof -
  have r: "sighting_run ''/'' \<lparr>od_dataDir = ''/h/data'', od_tmpDir = ''/h/tmp''\<rparr>
      \<lparr>sv_remote = None, sv_tempDir = ''/tmp'', sv_downloadFails = False, sv_retries = 5,
       sv_stats = [None, Some 12], sv_fence = Some (Some False)\<rparr>
      \<lparr>si_sessionId = ''s'', si_messageId = ''m'', si_path = ''/home/node/.openclaw/media/x/../a.webp''\<rparr> =
    (Some ''/h/data/media/a.webp'', Some \<lparr>ic_path = ''/h/data/media/a.webp'', ic_sessionId = Some ''s'',
      ic_messageId = Some ''m'', ic_tool = Some ''image_generate''\<rparr>)"
    by code_simp
  show ?thesis using sighting_publishes_media_only [OF r] by simp
qed

end
