(* ===== verification/TurnLimiter.thy ===== *)
theory TurnLimiter
  imports JsMap JsNumber
begin

text \<open>
  The admission control of chat turns (apps/api/src/services/chat-limits.ts): a limiter
  with a global and a per-account concurrency bound and a bounded queue that is served
  round robin over accounts. One method call, one timer or one abort signal is one step.
  Closures are indices: \<open>handles\<close> holds what each \<open>release\<close> closure captures,
  \<open>waiters\<close> the queued-turn objects, \<open>resolved\<close> the promises that have a
  result, \<open>timers\<close> the timeouts that are set, \<open>listeners\<close> the abort listeners that
  are attached. The clock is read once per step.
\<close>

section \<open>State\<close>

datatype rejection = Closed | PerAccountLimit | RequestAborted | QueueFull | QueueTimeout

datatype admission =
    Admitted bool int nat
  | Rejected rejection

datatype abort_signal = NoSignal | LiveSignal | AbortedSignal

record waiter =
  w_id :: nat
  w_accountId :: string
  w_limit :: jsnum
  w_enqueuedAt :: int
  w_signal :: bool

record limiter_options =
  lo_globalLimit :: "jsnum option"
  lo_queueLimit :: "jsnum option"
  lo_queueTimeoutMs :: "jsnum option"

record limiter =
  globalLimit :: int
  queueLimit :: int
  queueTimeoutMs :: int
  active :: "(string \<times> int) list"
  queues :: "(string \<times> waiter list) list"
  queueOrder :: "string list"
  totalActive :: int
  totalQueued :: int
  closed :: bool
  granted :: int
  queuedGranted :: int
  rejectedPerAccount :: int
  rejectedQueueFull :: int
  timedOut :: int
  maxQueueWaitMs :: int
  handles :: "(string \<times> bool) list"
  waiters :: "waiter list"
  resolved :: "(nat \<times> admission) list"
  timers :: "nat list"
  listeners :: "nat list"

datatype limiter_config_error = GlobalLimitInvalid | QueueLimitInvalid | QueueTimeoutInvalid

definition MAX_SAFE_INTEGER :: jsnum where
  "MAX_SAFE_INTEGER = JFin 9007199254740991"

definition int_of_js :: "jsnum \<Rightarrow> int" where
  "int_of_js v = (case v of JFin x \<Rightarrow> \<lfloor>x\<rfloor> | _ \<Rightarrow> 0)"

definition new_limiter :: "limiter_options \<Rightarrow> (limiter_config_error, limiter) res" where
  "new_limiter options =
     (let gl = (case lo_globalLimit options of None \<Rightarrow> MAX_SAFE_INTEGER | Some v \<Rightarrow> v);
          ql = (case lo_queueLimit options of None \<Rightarrow> JFin 0 | Some v \<Rightarrow> v);
          qt = (case lo_queueTimeoutMs options of None \<Rightarrow> JFin 30000 | Some v \<Rightarrow> v)
      in if \<not> is_safe_integer gl \<or> js_lt gl (JFin 1) then Inl GlobalLimitInvalid
         else if \<not> is_safe_integer ql \<or> js_lt ql (JFin 0) then Inl QueueLimitInvalid
         else if \<not> is_safe_integer qt \<or> js_lt qt (JFin 1) then Inl QueueTimeoutInvalid
         else Inr \<lparr>globalLimit = int_of_js gl, queueLimit = int_of_js ql,
                   queueTimeoutMs = int_of_js qt, active = [], queues = [], queueOrder = [],
                   totalActive = 0, totalQueued = 0, closed = False, granted = 0,
                   queuedGranted = 0, rejectedPerAccount = 0, rejectedQueueFull = 0,
                   timedOut = 0, maxQueueWaitMs = 0, handles = [], waiters = [],
                   resolved = [], timers = [], listeners = []\<rparr>)"

definition activeCount :: "string \<Rightarrow> limiter \<Rightarrow> int" where
  "activeCount accountId s = (case map_of (active s) accountId of None \<Rightarrow> 0 | Some n \<Rightarrow> n)"

definition queuedCount :: "string \<Rightarrow> limiter \<Rightarrow> int" where
  "queuedCount accountId s =
     (case map_of (queues s) accountId of None \<Rightarrow> 0 | Some q \<Rightarrow> int (length q))"

text \<open>\<open>count >= limit\<close>: the limit of a call is any Number.\<close>

definition at_limit :: "int \<Rightarrow> jsnum \<Rightarrow> bool" where
  "at_limit n limit = js_le limit (JFin (of_int n))"

record limiter_snapshot =
  sn_active :: int
  sn_queued :: int
  sn_activeAccounts :: nat
  sn_queuedAccounts :: nat
  sn_globalLimit :: int
  sn_queueLimit :: int
  sn_granted :: int
  sn_queuedGranted :: int
  sn_rejectedPerAccount :: int
  sn_rejectedQueueFull :: int
  sn_timedOut :: int
  sn_maxQueueWaitMs :: int

definition snapshot :: "limiter \<Rightarrow> limiter_snapshot" where
  "snapshot s =
     \<lparr>sn_active = totalActive s, sn_queued = totalQueued s,
      sn_activeAccounts = length (active s), sn_queuedAccounts = length (queues s),
      sn_globalLimit = globalLimit s, sn_queueLimit = queueLimit s,
      sn_granted = granted s, sn_queuedGranted = queuedGranted s,
      sn_rejectedPerAccount = rejectedPerAccount s, sn_rejectedQueueFull = rejectedQueueFull s,
      sn_timedOut = timedOut s, sn_maxQueueWaitMs = maxQueueWaitMs s\<rparr>"

section \<open>Operations\<close>

definition grant :: "string \<Rightarrow> bool \<Rightarrow> int \<Rightarrow> int \<Rightarrow> limiter \<Rightarrow> limiter \<times> admission" where
  "grant accountId queued enqueuedAt now s =
     (let queueWaitMs = (if queued then max 0 (now - enqueuedAt) else 0)
      in (s\<lparr>active := map_set accountId (activeCount accountId s + 1) (active s),
            totalActive := totalActive s + 1,
            granted := granted s + 1,
            queuedGranted := (if queued then queuedGranted s + 1 else queuedGranted s),
            maxQueueWaitMs := (if queued then max (maxQueueWaitMs s) queueWaitMs else maxQueueWaitMs s),
            handles := handles s @ [(accountId, False)]\<rparr>,
          Admitted queued queueWaitMs (length (handles s))))"

definition removeAbortListener :: "waiter \<Rightarrow> limiter \<Rightarrow> limiter" where
  "removeAbortListener w s = s\<lparr>listeners := remove1 (w_id w) (listeners s)\<rparr>"

definition clear_timer :: "waiter \<Rightarrow> limiter \<Rightarrow> limiter" where
  "clear_timer w s = s\<lparr>timers := remove1 (w_id w) (timers s)\<rparr>"

definition resolve :: "waiter \<Rightarrow> admission \<Rightarrow> limiter \<Rightarrow> limiter" where
  "resolve w r s = s\<lparr>resolved := resolved s @ [(w_id w, r)]\<rparr>"

text \<open>
  One pass of the inner loop of \<open>drain\<close> over at most \<open>n\<close> accounts; the result says
  whether a waiter was granted. An empty account id ends the pass, as in the code.
\<close>

definition serve :: "string \<Rightarrow> waiter \<Rightarrow> waiter list \<Rightarrow> int \<Rightarrow> limiter \<Rightarrow> limiter" where
  "serve accountId w rest now s =
     (let s1 = s\<lparr>totalQueued := totalQueued s - 1\<rparr>;
          s2 = removeAbortListener w (clear_timer w s1);
          s3 = (if rest \<noteq> []
                then s2\<lparr>queueOrder := queueOrder s2 @ [accountId], queues := map_set accountId rest (queues s2)\<rparr>
                else s2\<lparr>queues := map_delete accountId (queues s2)\<rparr>);
          (s4, r) = grant accountId True (w_enqueuedAt w) now s3
      in resolve w r s4)"

fun try_accounts :: "nat \<Rightarrow> int \<Rightarrow> limiter \<Rightarrow> limiter \<times> bool" where
  "try_accounts 0 now s = (s, False)"
| "try_accounts (Suc n) now s =
     (case queueOrder s of
        [] \<Rightarrow> (s, False)
      | accountId # order \<Rightarrow>
          (let s1 = s\<lparr>queueOrder := order\<rparr> in
           if accountId = [] then (s1, False)
           else
             (case map_of (queues s1) accountId of
                None \<Rightarrow> try_accounts n now s1
              | Some [] \<Rightarrow> try_accounts n now s1
              | Some (w # rest) \<Rightarrow>
                  if at_limit (activeCount accountId s1) (w_limit w)
                  then try_accounts n now (s1\<lparr>queueOrder := order @ [accountId]\<rparr>)
                  else (serve accountId w rest now s1, True))))"

lemma serve_totalQueued [simp]: "totalQueued (serve a w rest now s) = totalQueued s - 1"
  by (simp add: serve_def Let_def grant_def resolve_def removeAbortListener_def clear_timer_def)

lemma try_accounts_totalQueued:
  "try_accounts n now s = (s', g) \<Longrightarrow> totalQueued s' = totalQueued s - (if g then 1 else 0)"
  by (induction n now s rule: try_accounts.induct)
    (auto simp: Let_def split: list.splits option.splits if_splits)

function drain_loop :: "int \<Rightarrow> limiter \<Rightarrow> limiter" where
  "drain_loop now s =
     (if totalActive s < globalLimit s \<and> 0 < totalQueued s then
        (case try_accounts (length (queueOrder s)) now s of
           (s', True) \<Rightarrow> drain_loop now s'
         | (s', False) \<Rightarrow> s')
      else s)"
  by pat_completeness auto
termination
  by (relation "measure (\<lambda>(now, s). nat (totalQueued s))")
    (auto dest: try_accounts_totalQueued [OF sym])

declare drain_loop.simps [simp del]

definition drain :: "int \<Rightarrow> limiter \<Rightarrow> limiter" where
  "drain now s = (if closed s then s else drain_loop now s)"

text \<open>The \<open>release\<close> closure of grant \<open>h\<close>.\<close>

definition release :: "nat \<Rightarrow> int \<Rightarrow> limiter \<Rightarrow> limiter" where
  "release h now s =
     (let (accountId, released) = handles s ! h in
      if released then s
      else
        (let s1 = s\<lparr>handles := (handles s)[h := (accountId, True)]\<rparr>;
             next = activeCount accountId s1 - 1;
             s2 = (if 0 < next then s1\<lparr>active := map_set accountId next (active s1)\<rparr>
                   else s1\<lparr>active := map_delete accountId (active s1)\<rparr>)
         in drain now (s2\<lparr>totalActive := totalActive s2 - 1\<rparr>)))"

definition acquire :: "string \<Rightarrow> jsnum \<Rightarrow> int \<Rightarrow> limiter \<Rightarrow> limiter \<times> nat option" where
  "acquire accountId limit now s =
     (if closed s \<or> js_le limit (JFin 0) \<or> globalLimit s \<le> totalActive s \<or> 0 < totalQueued s
      then (s, None)
      else if at_limit (activeCount accountId s) limit then (s, None)
      else
        (case grant accountId False now now s of
           (s', Admitted _ _ h) \<Rightarrow> (s', Some h)
         | (s', Rejected _) \<Rightarrow> (s', None)))"

text \<open>\<open>None\<close>: the promise is pending, its waiter is the last of \<open>waiters\<close>.\<close>

definition admit ::
  "string \<Rightarrow> jsnum \<Rightarrow> abort_signal \<Rightarrow> int \<Rightarrow> limiter \<Rightarrow> limiter \<times> admission option" where
  "admit accountId limit signal now s =
     (if closed s then (s, Some (Rejected Closed))
      else if signal = AbortedSignal then (s, Some (Rejected RequestAborted))
      else if js_le limit (JFin 0) \<or> at_limit (activeCount accountId s + queuedCount accountId s) limit
      then (s\<lparr>rejectedPerAccount := rejectedPerAccount s + 1\<rparr>, Some (Rejected PerAccountLimit))
      else if totalActive s < globalLimit s \<and> totalQueued s = 0
      then (let (s', r) = grant accountId False now now s in (s', Some r))
      else if queueLimit s = 0 \<or> queueLimit s \<le> totalQueued s
      then (s\<lparr>rejectedQueueFull := rejectedQueueFull s + 1\<rparr>, Some (Rejected QueueFull))
      else
        (let queue = (case map_of (queues s) accountId of None \<Rightarrow> [] | Some q \<Rightarrow> q);
             i = length (waiters s);
             w = \<lparr>w_id = i, w_accountId = accountId, w_limit = limit, w_enqueuedAt = now,
                  w_signal = (signal \<noteq> NoSignal)\<rparr>
         in (s\<lparr>waiters := waiters s @ [w],
               timers := timers s @ [i],
               listeners := (if w_signal w then listeners s @ [i] else listeners s),
               queueOrder := (if queue = [] then queueOrder s @ [accountId] else queueOrder s),
               queues := map_set accountId (queue @ [w]) (queues s),
               totalQueued := totalQueued s + 1\<rparr>, None)))"

definition close_waiter :: "waiter \<Rightarrow> limiter \<Rightarrow> limiter" where
  "close_waiter w s = resolve w (Rejected Closed) (removeAbortListener w (clear_timer w s))"

definition close :: "limiter \<Rightarrow> limiter" where
  "close s =
     (if closed s then s
      else
        (let s1 = fold close_waiter (concat (map snd (queues s))) (s\<lparr>closed := True\<rparr>)
         in s1\<lparr>queues := [], queueOrder := [], totalQueued := 0\<rparr>))"

text \<open>Taking a waiter out of its queue, the common part of \<open>expire\<close> and \<open>abort\<close>.\<close>

definition unqueue :: "waiter \<Rightarrow> waiter list \<Rightarrow> nat \<Rightarrow> limiter \<Rightarrow> limiter" where
  "unqueue w queue index s =
     (let queue' = take index queue @ drop (Suc index) queue;
          s1 = s\<lparr>totalQueued := totalQueued s - 1\<rparr>
      in if queue' = []
         then s1\<lparr>queues := map_delete (w_accountId w) (queues s1),
                 queueOrder := remove1 (w_accountId w) (queueOrder s1)\<rparr>
         else s1\<lparr>queues := map_set (w_accountId w) queue' (queues s1)\<rparr>)"

definition expire :: "waiter \<Rightarrow> limiter \<Rightarrow> limiter" where
  "expire w s =
     (case map_of (queues s) (w_accountId w) of
        None \<Rightarrow> s
      | Some queue \<Rightarrow>
          (case find_index (\<lambda>u. w_id u = w_id w) queue of
             None \<Rightarrow> s
           | Some index \<Rightarrow>
               (let s1 = unqueue w queue index s
                in resolve w (Rejected QueueTimeout)
                     (removeAbortListener w (s1\<lparr>timedOut := timedOut s1 + 1\<rparr>)))))"

definition abort :: "waiter \<Rightarrow> limiter \<Rightarrow> limiter" where
  "abort w s =
     (case map_of (queues s) (w_accountId w) of
        None \<Rightarrow> s
      | Some queue \<Rightarrow>
          (case find_index (\<lambda>u. w_id u = w_id w) queue of
             None \<Rightarrow> s
           | Some index \<Rightarrow>
               resolve w (Rejected RequestAborted)
                 (unqueue w queue index (removeAbortListener w (clear_timer w s)))))"

section \<open>Steps\<close>

datatype limiter_event =
    AcquireEv string jsnum int
  | AdmitEv string jsnum abort_signal int
  | ReleaseEv nat int
  | ExpireEv nat
  | AbortEv nat
  | CloseEv

text \<open>
  A timer that is set fires once and an attached listener is called once (\<open>once: true\<close>);
  cleared timers and removed listeners do nothing.
\<close>

fun limiter_step :: "limiter \<Rightarrow> limiter_event \<Rightarrow> limiter" where
  "limiter_step s (AcquireEv a limit now) = fst (acquire a limit now s)"
| "limiter_step s (AdmitEv a limit signal now) = fst (admit a limit signal now s)"
| "limiter_step s (ReleaseEv h now) = (if h < length (handles s) then release h now s else s)"
| "limiter_step s (ExpireEv i) =
     (if i \<in> set (timers s) \<and> i < length (waiters s)
      then expire (waiters s ! i) (s\<lparr>timers := remove1 i (timers s)\<rparr>) else s)"
| "limiter_step s (AbortEv i) =
     (if i \<in> set (listeners s) \<and> i < length (waiters s)
      then abort (waiters s ! i) (s\<lparr>listeners := remove1 i (listeners s)\<rparr>) else s)"
| "limiter_step s CloseEv = close s"

section \<open>Tiers\<close>

datatype subscription_tier = Basic | Pro | Believer

definition ACTIVE_SUBSCRIPTION_STATUSES :: "string list" where
  "ACTIVE_SUBSCRIPTION_STATUSES = [''active'', ''trialing'', ''checkout_completed'']"

fun tierRank :: "subscription_tier option \<Rightarrow> nat" where
  "tierRank (Some Believer) = 3"
| "tierRank (Some Pro) = 2"
| "tierRank (Some Basic) = 1"
| "tierRank None = 0"

definition parse_tier :: "string option \<Rightarrow> subscription_tier option" where
  "parse_tier t =
     (if t = Some ''basic'' then Some Basic else if t = Some ''pro'' then Some Pro
      else if t = Some ''believer'' then Some Believer else None)"

record turn_limit_env =
  MAX_CONCURRENT_TURNS_PER_USER :: int
  MAX_CONCURRENT_TURNS_BASIC :: "int option"
  MAX_CONCURRENT_TURNS_PRO :: "int option"
  MAX_CONCURRENT_TURNS_BELIEVER :: "int option"

definition tierLimit :: "turn_limit_env \<Rightarrow> subscription_tier option \<Rightarrow> int" where
  "tierLimit env tier =
     (let fallback = MAX_CONCURRENT_TURNS_PER_USER env;
          own = (case tier of None \<Rightarrow> None
                 | Some Basic \<Rightarrow> MAX_CONCURRENT_TURNS_BASIC env
                 | Some Pro \<Rightarrow> MAX_CONCURRENT_TURNS_PRO env
                 | Some Believer \<Rightarrow> MAX_CONCURRENT_TURNS_BELIEVER env)
      in case own of None \<Rightarrow> fallback | Some n \<Rightarrow> n)"

record billing_subscription =
  bs_account_id :: string
  bs_tier :: "string option"
  bs_status :: string
  bs_updated_at :: int
  bs_created_at :: int

text \<open>
  \<open>order by updated_at desc, created_at desc limit 20\<close>; rows that tie on both stay in
  table order.
\<close>

definition recent_subscriptions :: "string \<Rightarrow> billing_subscription list \<Rightarrow> billing_subscription list" where
  "recent_subscriptions accountId rows =
     take 20 (sort_key (\<lambda>r. - bs_updated_at r) (sort_key (\<lambda>r. - bs_created_at r)
       (filter (\<lambda>r. bs_account_id r = accountId \<and> bs_status r \<in> set ACTIVE_SUBSCRIPTION_STATUSES) rows)))"

definition better_tier :: "billing_subscription \<Rightarrow> subscription_tier option \<Rightarrow> subscription_tier option" where
  "better_tier row best =
     (let t = parse_tier (bs_tier row)
      in if t \<noteq> None \<and> tierRank best < tierRank t then t else best)"

definition activeSubscriptionTier :: "string \<Rightarrow> billing_subscription list \<Rightarrow> subscription_tier option" where
  "activeSubscriptionTier accountId rows = fold better_tier (recent_subscriptions accountId rows) None"

definition concurrentTurnLimit ::
  "turn_limit_env \<Rightarrow> string \<Rightarrow> billing_subscription list \<Rightarrow> int \<times> subscription_tier option" where
  "concurrentTurnLimit env accountId rows =
     (let tier = activeSubscriptionTier accountId rows in (tierLimit env tier, tier))"

end
