(* ===== verification/LimiterSafety.thy ===== *)
theory LimiterSafety
  imports TurnLimiter
begin

text \<open>
  The invariant of the turn limiter: the counters agree with the grants that are still
  held and with the waiters in the queues, the bounds hold, every promise is either
  pending in one queue or resolved once, and no queued waiter is blocked by its own
  account. Every step keeps it, and after every step no waiter is queued while a global
  slot is free.
\<close>

section \<open>The invariant\<close>

definition live :: "string \<Rightarrow> limiter \<Rightarrow> int" where
  "live a s = int (count (mset (handles s)) (a, False))"

definition held :: "limiter \<Rightarrow> int" where
  "held s = int (size (filter_mset (\<lambda>h. \<not> snd h) (mset (handles s))))"

definition active_ok :: "limiter \<Rightarrow> bool" where
  "active_ok s \<longleftrightarrow>
     map_ok (active s) \<and>
     (\<forall>a. map_of (active s) a = (if live a s = 0 then None else Some (live a s))) \<and>
     totalActive s = held s \<and> totalActive s \<le> globalLimit s"

definition queue_fits :: "int \<Rightarrow> waiter list \<Rightarrow> bool" where
  "queue_fits n q \<longleftrightarrow> (\<forall>i < length q. \<not> at_limit (n + int i) (w_limit (q ! i)))"

definition queues_ok :: "limiter \<Rightarrow> bool" where
  "queues_ok s \<longleftrightarrow>
     map_ok (queues s) \<and>
     (\<forall>a q. map_of (queues s) a = Some q \<longrightarrow>
        a \<noteq> [] \<and> q \<noteq> [] \<and> (\<forall>w \<in> set q. w_accountId w = a) \<and> queue_fits (live a s) q) \<and>
     distinct (queueOrder s) \<and> set (queueOrder s) = dom (map_of (queues s)) \<and>
     totalQueued s = int (size (stored (queues s))) \<and>
     0 \<le> queueLimit s \<and> totalQueued s \<le> queueLimit s \<and> (closed s \<longrightarrow> queues s = [])"

definition promises_ok :: "limiter \<Rightarrow> bool" where
  "promises_ok s \<longleftrightarrow>
     mset (map fst (resolved s)) + image_mset w_id (stored (queues s)) = mset [0..<length (waiters s)] \<and>
     mset (timers s) = image_mset w_id (stored (queues s)) \<and>
     mset (listeners s) = image_mset w_id (filter_mset w_signal (stored (queues s))) \<and>
     (\<forall>w \<in># stored (queues s). w_id w < length (waiters s) \<and> waiters s ! w_id w = w)"

definition limiter_inv :: "limiter \<Rightarrow> bool" where
  "limiter_inv s \<longleftrightarrow> active_ok s \<and> queues_ok s \<and> promises_ok s"

definition busy :: "limiter \<Rightarrow> bool" where
  "busy s \<longleftrightarrow> (totalActive s < globalLimit s \<longrightarrow> totalQueued s = 0)"

definition admitted_event :: "limiter_event \<Rightarrow> bool" where
  "admitted_event e = (case e of AdmitEv a _ _ _ \<Rightarrow> a \<noteq> [] | _ \<Rightarrow> True)"

lemmas limiter_ok_defs = limiter_inv_def active_ok_def queues_ok_def promises_ok_def

lemma at_limit_mono: "\<not> at_limit n l \<Longrightarrow> m \<le> n \<Longrightarrow> \<not> at_limit m l"
  by (cases l) (auto simp: at_limit_def)

lemma queue_fits_mono: "queue_fits n q \<Longrightarrow> m \<le> n \<Longrightarrow> queue_fits m q"
  unfolding queue_fits_def by (meson add_mono_thms_linordered_semiring(3) at_limit_mono)

lemma queue_fits_pred: "queue_fits n q \<Longrightarrow> queue_fits (n - 1) q"
  by (erule queue_fits_mono) simp

lemma queue_fits_Cons: "queue_fits n (w # q) \<longleftrightarrow> \<not> at_limit n (w_limit w) \<and> queue_fits (n + 1) q"
  unfolding queue_fits_def
  by (auto simp: All_less_Suc2 add.assoc nth_Cons split: nat.split)

lemma queue_fits_Nil [simp]: "queue_fits n []"
  by (simp add: queue_fits_def)

lemma queue_fits_remove: "queue_fits n (xs @ w # ys) \<Longrightarrow> queue_fits n (xs @ ys)"
proof (induction xs arbitrary: n)
  case Nil
  then show ?case by (auto simp: queue_fits_Cons intro: queue_fits_mono)
qed (simp add: queue_fits_Cons)

lemma queue_fits_snoc: "queue_fits n q \<Longrightarrow> \<not> at_limit (n + int (length q)) (w_limit w) \<Longrightarrow> queue_fits n (q @ [w])"
  by (auto simp: queue_fits_def nth_append less_Suc_eq)

lemma activeCount_live: "active_ok s \<Longrightarrow> activeCount a s = live a s"
  by (auto simp: active_ok_def activeCount_def)

lemma live_nonneg [simp]: "0 \<le> live a s"
  by (simp add: live_def)

section \<open>Grants\<close>

lemma grant_frame [simp]:
  "queues (fst (grant a b e now s)) = queues s" "queueOrder (fst (grant a b e now s)) = queueOrder s"
  "totalQueued (fst (grant a b e now s)) = totalQueued s" "queueLimit (fst (grant a b e now s)) = queueLimit s"
  "globalLimit (fst (grant a b e now s)) = globalLimit s" "closed (fst (grant a b e now s)) = closed s"
  "resolved (fst (grant a b e now s)) = resolved s" "timers (fst (grant a b e now s)) = timers s"
  "listeners (fst (grant a b e now s)) = listeners s" "waiters (fst (grant a b e now s)) = waiters s"
  "totalActive (fst (grant a b e now s)) = totalActive s + 1"
  "handles (fst (grant a b e now s)) = handles s @ [(a, False)]"
  "live c (fst (grant a b e now s)) = live c s + (if c = a then 1 else 0)"
  by (simp_all add: grant_def Let_def live_def)

lemma grant_active: "active_ok s \<Longrightarrow> totalActive s < globalLimit s \<Longrightarrow> active_ok (fst (grant a b e now s))"
  using activeCount_live [of s a]
  by (auto simp: active_ok_def grant_def Let_def live_def held_def)

lemma grant_promises: "promises_ok (fst (grant a b e now s)) \<longleftrightarrow> promises_ok s"
  by (simp add: promises_ok_def)

lemma grant_inv:
  "limiter_inv s \<Longrightarrow> totalActive s < globalLimit s \<Longrightarrow> queues s = [] \<Longrightarrow>
   limiter_inv (fst (grant a b e now s))"
  by (simp add: limiter_inv_def grant_active grant_promises) (simp add: queues_ok_def)

lemma no_queue: "queues_ok s \<Longrightarrow> totalQueued s = 0 \<longleftrightarrow> queues s = []"
proof
  assume q: "queues_ok s" "totalQueued s = 0"
  then have "stored (queues s) = {#}" by (simp add: queues_ok_def)
  show "queues s = []"
  proof (rule ccontr)
    assume "queues s \<noteq> []"
    then obtain a qs rest where e: "queues s = (a, qs) # rest" by (cases "queues s") auto
    then have "qs \<noteq> []" using q(1) by (auto simp: queues_ok_def split: if_splits)
    with \<open>stored (queues s) = {#}\<close> e show False by simp
  qed
qed (simp add: queues_ok_def)

section \<open>Taking a waiter out of its queue\<close>

text \<open>
  The state after a waiter has left: its promise resolved, its timer cleared, its
  listener removed, everything else of the other queues unchanged.
\<close>

lemma promises_take:
  assumes "promises_ok s" "stored (queues s) = {#w#} + stored (queues s')"
    and "map fst (resolved s') = map fst (resolved s) @ [w_id w]" "waiters s' = waiters s"
    and "mset (timers s') = mset (timers s) - {#w_id w#}"
    and "mset (listeners s') = mset (listeners s) - {#w_id w#}"
    and "w_signal w \<or> w_id w \<notin># mset (listeners s)"
  shows "promises_ok s'"
  using assms unfolding promises_ok_def by (auto simp: union_ac)

lemma listener_only_signal:
  assumes "promises_ok s" "w \<in># stored (queues s)" "\<not> w_signal w"
  shows "w_id w \<notin># mset (listeners s)"
proof
  assume "w_id w \<in># mset (listeners s)"
  then obtain u where "u \<in># stored (queues s)" "w_signal u" "w_id u = w_id w"
    using assms(1) by (auto simp: promises_ok_def simp flip: set_mset_mset)
  then have "u = w" using assms(1,2) unfolding promises_ok_def by metis
  then show False using \<open>w_signal u\<close> assms(3) by simp
qed

lemma take_mid:
  assumes "i < length q"
  shows "q = take i q @ q ! i # drop (Suc i) q"
  using assms by (rule id_take_nth_drop)

lemma queues_ok_drop:
  assumes q: "queues_ok s" and m: "map_of (queues s) a = Some queue" and mem: "\<forall>u \<in> set q'. w_accountId u = a"
    and fit: "queue_fits n q'" and n: "live a s' \<le> n" "\<And>c. c \<noteq> a \<Longrightarrow> live c s' = live c s"
    and st: "stored (queues s) = {#w#} + stored (queues s')"
    and qs: "queues s' = (if q' = [] then map_delete a (queues s) else map_set a q' (queues s))"
    and qo: "distinct (queueOrder s')"
      "set (queueOrder s') = (if q' = [] then set (queueOrder s) - {a} else set (queueOrder s))"
    and fr: "totalQueued s' = totalQueued s - 1" "queueLimit s' = queueLimit s" "closed s' = closed s"
  shows "queues_ok s'"
proof -
  have a: "a \<noteq> []" and ok: "map_ok (queues s)" and cl: "\<not> closed s" using q m by (auto simp: queues_ok_def)
  have each: "c \<noteq> [] \<and> qc \<noteq> [] \<and> (\<forall>w \<in> set qc. w_accountId w = c) \<and> queue_fits (live c s') qc"
    if "map_of (queues s') c = Some qc" for c qc
  proof (cases "c = a")
    case True
    with that qs have "qc = q'" "q' \<noteq> []" by (auto split: if_splits)
    then show ?thesis using True a mem queue_fits_mono [OF fit n(1)] by simp
  next
    case False
    then have "map_of (queues s) c = Some qc" using that qs by (auto split: if_splits)
    then show ?thesis using q n(2) [OF False] by (simp add: queues_ok_def)
  qed
  have "set (queueOrder s') = dom (map_of (queues s'))"
    using q qo(2) qs m by (auto simp: queues_ok_def)
  moreover have "map_ok (queues s')" using ok qs by simp
  moreover have "totalQueued s' = int (size (stored (queues s')))" "totalQueued s' \<le> queueLimit s'" "0 \<le> queueLimit s'"
    using q st fr by (simp_all add: queues_ok_def)
  ultimately show ?thesis unfolding queues_ok_def using each qo(1) fr(3) cl by blast
qed

lemma unqueue_queues_ok:
  assumes q: "queues_ok s" and m: "map_of (queues s) a = Some queue" and w: "w_accountId w = a"
    and i: "i < length queue" "w = queue ! i"
  shows "queues_ok (unqueue w queue i s)" "stored (queues s) = {#w#} + stored (queues (unqueue w queue i s))"
proof -
  define q' where "q' = take i queue @ drop (Suc i) queue"
  have e: "queue = take i queue @ w # drop (Suc i) queue" using take_mid [OF i(1)] i(2) by simp
  have "mset (take i queue @ w # drop (Suc i) queue) = {#w#} + mset q'" by (simp add: q'_def)
  with e have ms: "mset queue = {#w#} + mset q'" by simp
  have mo: "map_ok (queues s)" and fit: "queue_fits (live a s) queue"
    and mem: "\<forall>u \<in> set queue. w_accountId u = a"
    using q m by (auto simp: queues_ok_def)
  have fit': "queue_fits (live a s) q'" unfolding q'_def using fit queue_fits_remove e by metis
  have mem': "\<forall>u \<in> set q'. w_accountId u = a" using mem by (auto simp: q'_def dest: in_set_takeD in_set_dropD)
  have u: "unqueue w queue i s = (if q' = []
      then s\<lparr>totalQueued := totalQueued s - 1, queues := map_delete a (queues s), queueOrder := remove1 a (queueOrder s)\<rparr>
      else s\<lparr>totalQueued := totalQueued s - 1, queues := map_set a q' (queues s)\<rparr>)"
    unfolding unqueue_def Let_def q'_def [symmetric] w by simp
  have qs: "queues (unqueue w queue i s) = (if q' = [] then map_delete a (queues s) else map_set a q' (queues s))"
    by (simp add: u)
  show st: "stored (queues s) = {#w#} + stored (queues (unqueue w queue i s))"
    unfolding qs using stored_delete [OF mo m] stored_set_drop [OF m ms] ms by simp
  have "distinct (queueOrder s)" using q by (simp add: queues_ok_def)
  then show "queues_ok (unqueue w queue i s)"
    using st qs by (intro queues_ok_drop [OF q m mem' fit', where w = w]) (auto simp: u live_def)
qed

section \<open>Draining\<close>

lemma active_ok_cong:
  "active s' = active s \<Longrightarrow> handles s' = handles s \<Longrightarrow> totalActive s' = totalActive s \<Longrightarrow>
   globalLimit s' = globalLimit s \<Longrightarrow> active_ok s' \<longleftrightarrow> active_ok s"
  by (simp add: active_ok_def live_def held_def)

lemma resolve_frame [simp]:
  "queues (resolve w r s) = queues s" "queueOrder (resolve w r s) = queueOrder s"
  "totalQueued (resolve w r s) = totalQueued s" "queueLimit (resolve w r s) = queueLimit s"
  "globalLimit (resolve w r s) = globalLimit s" "closed (resolve w r s) = closed s"
  "timers (resolve w r s) = timers s" "listeners (resolve w r s) = listeners s"
  "waiters (resolve w r s) = waiters s" "totalActive (resolve w r s) = totalActive s"
  "handles (resolve w r s) = handles s" "active (resolve w r s) = active s"
  "resolved (resolve w r s) = resolved s @ [(w_id w, r)]" "live a (resolve w r s) = live a s"
  by (simp_all add: resolve_def live_def)

lemma serve_frame:
  "queues (serve a w rest now s) = (if rest = [] then map_delete a (queues s) else map_set a rest (queues s))"
  "queueOrder (serve a w rest now s) = (if rest = [] then queueOrder s else queueOrder s @ [a])"
  "queueLimit (serve a w rest now s) = queueLimit s" "closed (serve a w rest now s) = closed s"
  "globalLimit (serve a w rest now s) = globalLimit s"
  "totalActive (serve a w rest now s) = totalActive s + 1"
  "waiters (serve a w rest now s) = waiters s"
  "timers (serve a w rest now s) = remove1 (w_id w) (timers s)"
  "listeners (serve a w rest now s) = remove1 (w_id w) (listeners s)"
  "map fst (resolved (serve a w rest now s)) = map fst (resolved s) @ [w_id w]"
  "live c (serve a w rest now s) = live c s + (if c = a then 1 else 0)"
  "handles (serve a w rest now s) = handles s @ [(a, False)]"
  "granted (serve a w rest now s) = granted s + 1"
  by (simp_all add: serve_def Let_def grant_def resolve_def removeAbortListener_def clear_timer_def live_def)

lemma serve_active:
  assumes "active_ok s" "totalActive s < globalLimit s"
  shows "active_ok (serve a w rest now s)"
proof -
  obtain t where t: "active t = active s" "handles t = handles s" "totalActive t = totalActive s"
      "globalLimit t = globalLimit s"
    and e: "serve a w rest now s = resolve w (snd (grant a True (w_enqueuedAt w) now t))
        (fst (grant a True (w_enqueuedAt w) now t))"
  proof
    let ?s2 = "removeAbortListener w (clear_timer w (s\<lparr>totalQueued := totalQueued s - 1\<rparr>))"
    let ?t = "if rest \<noteq> []
      then ?s2\<lparr>queueOrder := queueOrder ?s2 @ [a], queues := map_set a rest (queues ?s2)\<rparr>
      else ?s2\<lparr>queues := map_delete a (queues ?s2)\<rparr>"
    show "active ?t = active s" "handles ?t = handles s" "totalActive ?t = totalActive s"
      "globalLimit ?t = globalLimit s"
      by (simp_all add: removeAbortListener_def clear_timer_def)
    show "serve a w rest now s = resolve w (snd (grant a True (w_enqueuedAt w) now ?t))
        (fst (grant a True (w_enqueuedAt w) now ?t))"
      unfolding serve_def Let_def by (simp add: split_def)
  qed
  have "active_ok t" using assms(1) active_ok_cong [OF t] by simp
  then have "active_ok (fst (grant a True (w_enqueuedAt w) now t))"
    using assms(2) t by (intro grant_active) simp_all
  then show ?thesis unfolding e by (subst active_ok_cong) simp_all
qed

lemma serve_inv:
  assumes inv: "limiter_inv s" and room: "totalActive s < globalLimit s"
    and o': "queueOrder s = a # order" and m: "map_of (queues s) a = Some (w # rest)"
  shows "limiter_inv (serve a w rest now (s\<lparr>queueOrder := order\<rparr>))"
proof -
  let ?s' = "serve a w rest now (s\<lparr>queueOrder := order\<rparr>)"
  have q: "queues_ok s" and p: "promises_ok s" using inv by (simp_all add: limiter_inv_def)
  have lv: "live c (s\<lparr>queueOrder := order\<rparr>) = live c s" for c by (simp add: live_def)
  have mo: "map_ok (queues s)" and fit: "queue_fits (live a s) (w # rest)"
    and mem: "\<forall>u \<in> set rest. w_accountId u = a" and d: "distinct (a # order)"
    using q m o' by (auto simp: queues_ok_def)
  have st: "stored (queues s) = {#w#} + stored (queues ?s')"
    using stored_delete [OF mo m] stored_set_drop [OF m, of w rest] by (simp add: serve_frame)
  have "active_ok (s\<lparr>queueOrder := order\<rparr>)" using inv by (subst active_ok_cong [of _ s]) (simp_all add: limiter_inv_def)
  then have "active_ok ?s'" using room by (intro serve_active) simp_all
  moreover have "queues_ok ?s'"
    using fit d o' by (intro queues_ok_drop [OF q m mem, where n = "live a s + 1" and w = w])
      (auto simp: queue_fits_Cons serve_frame lv st)
  moreover have "promises_ok ?s'"
    using listener_only_signal [OF p, of w] st
    by (intro promises_take [OF p st]) (auto simp: serve_frame)
  ultimately show ?thesis by (simp add: limiter_inv_def)
qed

text \<open>
  With the invariant no waiter is blocked by its account, so every pass of the loop
  grants the first waiter of the account at the front of the order.
\<close>

lemma try_accounts_serves:
  assumes inv: "limiter_inv s" and "0 < totalQueued s"
  obtains a order w rest where "queueOrder s = a # order" "map_of (queues s) a = Some (w # rest)"
    "try_accounts (length (queueOrder s)) now s = (serve a w rest now (s\<lparr>queueOrder := order\<rparr>), True)"
proof -
  have q: "queues_ok s" and ac: "active_ok s" using inv by (simp_all add: limiter_inv_def)
  have "queues s \<noteq> []" using no_queue [OF q] assms(2) by auto
  then have "dom (map_of (queues s)) \<noteq> {}" by (simp add: dom_map_of_conv_image_fst)
  then have "set (queueOrder s) \<noteq> {}" using q by (simp add: queues_ok_def)
  then obtain a order where o': "queueOrder s = a # order" by (cases "queueOrder s") auto
  then have "a \<in> dom (map_of (queues s))" using q by (simp add: queues_ok_def flip: set_mset_mset) auto
  then obtain qa where m: "map_of (queues s) a = Some qa" by auto
  then have "a \<noteq> []" "qa \<noteq> []" "queue_fits (live a s) qa" using q by (auto simp: queues_ok_def)
  then obtain w rest where qa: "qa = w # rest" by (cases qa) auto
  have "active_ok (s\<lparr>queueOrder := order\<rparr>)" using ac by (subst active_ok_cong [of _ s]) simp_all
  then have "activeCount a (s\<lparr>queueOrder := order\<rparr>) = live a s" by (simp add: activeCount_live live_def)
  then have "\<not> at_limit (activeCount a (s\<lparr>queueOrder := order\<rparr>)) (w_limit w)"
    using \<open>queue_fits (live a s) qa\<close> by (simp add: qa queue_fits_Cons)
  then show thesis using \<open>a \<noteq> []\<close> m o' qa by (intro that [OF o']) (simp_all add: Let_def)
qed

lemma drain_loop_inv:
  "limiter_inv s \<Longrightarrow> limiter_inv (drain_loop now s) \<and> busy (drain_loop now s) \<and>
     closed (drain_loop now s) = closed s"
proof (induction now s rule: drain_loop.induct)
  case (1 now s)
  show ?case
  proof (cases "totalActive s < globalLimit s \<and> 0 < totalQueued s")
    case False
    have "0 \<le> totalQueued s" using 1(2) by (simp add: limiter_inv_def queues_ok_def)
    with False 1(2) show ?thesis by (subst (1 2 3) drain_loop.simps) (auto simp: busy_def)
  next
    case True
    then have tq: "0 < totalQueued s" by simp
    obtain a order w rest where o': "queueOrder s = a # order" "map_of (queues s) a = Some (w # rest)"
      and t: "try_accounts (length (queueOrder s)) now s = (serve a w rest now (s\<lparr>queueOrder := order\<rparr>), True)"
      by (rule try_accounts_serves [OF 1(2) tq])
    let ?s' = "serve a w rest now (s\<lparr>queueOrder := order\<rparr>)"
    have "limiter_inv ?s'" using serve_inv [OF 1(2) _ o'] True by simp
    then have "limiter_inv (drain_loop now ?s') \<and> busy (drain_loop now ?s') \<and>
        closed (drain_loop now ?s') = closed ?s'"
      by (rule 1(1) [OF True t [symmetric] refl])
    moreover have "drain_loop now s = drain_loop now ?s'"
      by (subst drain_loop.simps) (simp only: True t if_True prod.case bool.case simp_thms)
    ultimately show ?thesis by (simp add: serve_frame)
  qed
qed

lemma drain_inv: "limiter_inv s \<Longrightarrow> limiter_inv (drain now s) \<and> busy (drain now s)"
proof (cases "closed s")
  case True
  moreover assume i: "limiter_inv s"
  ultimately have "queues_ok s" "queues s = []" by (simp_all add: limiter_inv_def queues_ok_def)
  with no_queue have "totalQueued s = 0" by blast
  with True i show ?thesis by (simp add: drain_def busy_def)
qed (simp add: drain_def drain_loop_inv)

section \<open>The steps\<close>

lemma live_release:
  assumes "h < length (handles s)" "handles s ! h = (a, False)"
  shows "live c (s\<lparr>handles := (handles s)[h := (a, True)]\<rparr>) = live c s - (if c = a then 1 else 0)"
    "held (s\<lparr>handles := (handles s)[h := (a, True)]\<rparr>) = held s - 1" "0 < live a s"
proof -
  have "(a, False) \<in># mset (handles s)" using assms nth_mem by fastforce
  then obtain M where M: "mset (handles s) = add_mset (a, False) M" by (blast dest: multi_member_split)
  then have "mset ((handles s)[h := (a, True)]) = add_mset (a, True) M"
    using assms by (simp add: mset_update)
  with M show "live c (s\<lparr>handles := (handles s)[h := (a, True)]\<rparr>) = live c s - (if c = a then 1 else 0)"
    "held (s\<lparr>handles := (handles s)[h := (a, True)]\<rparr>) = held s - 1" "0 < live a s"
    by (simp_all add: live_def held_def)
qed

text \<open>The state in which a release of an unreleased grant starts to drain.\<close>

definition freed :: "nat \<Rightarrow> string \<Rightarrow> limiter \<Rightarrow> limiter" where
  "freed h a s =
     (let s1 = s\<lparr>handles := (handles s)[h := (a, True)]\<rparr>;
          next = activeCount a s - 1;
          s2 = (if 0 < next then s1\<lparr>active := map_set a next (active s1)\<rparr>
                else s1\<lparr>active := map_delete a (active s1)\<rparr>)
      in s2\<lparr>totalActive := totalActive s2 - 1\<rparr>)"

lemma freed_frame [simp]:
  "handles (freed h a s) = (handles s)[h := (a, True)]" "totalActive (freed h a s) = totalActive s - 1"
  "queues (freed h a s) = queues s" "queueOrder (freed h a s) = queueOrder s"
  "totalQueued (freed h a s) = totalQueued s" "queueLimit (freed h a s) = queueLimit s"
  "globalLimit (freed h a s) = globalLimit s" "closed (freed h a s) = closed s"
  "resolved (freed h a s) = resolved s" "timers (freed h a s) = timers s"
  "listeners (freed h a s) = listeners s" "waiters (freed h a s) = waiters s"
  by (simp_all add: freed_def Let_def)

lemma release_eq:
  "handles s ! h = (a, False) \<Longrightarrow> release h now s = drain now (freed h a s)"
  "handles s ! h = (a, True) \<Longrightarrow> release h now s = s"
  by (simp_all add: release_def freed_def Let_def activeCount_def)

lemma freed_inv:
  assumes inv: "limiter_inv s" and h: "h < length (handles s)" and p: "handles s ! h = (a, False)"
  shows "limiter_inv (freed h a s)"
proof -
  have A: "active_ok s" and Q: "queues_ok s" and P: "promises_ok s" using inv by (simp_all add: limiter_inv_def)
  note l = live_release [OF h p]
  have lv: "live c (freed h a s) = live c s - (if c = a then 1 else 0)" "held (freed h a s) = held s - 1" for c
    using l by (simp_all add: live_def held_def)
  have "active_ok (freed h a s)"
    using A l(3) activeCount_live [OF A, of a] unfolding active_ok_def lv by (auto simp: freed_def Let_def)
  moreover have "queues_ok (freed h a s)"
    using Q unfolding queues_ok_def lv by (auto intro: queue_fits_pred)
  moreover have "promises_ok (freed h a s)" using P by (simp add: promises_ok_def)
  ultimately show ?thesis by (simp add: limiter_inv_def)
qed

lemma release_inv:
  assumes inv: "limiter_inv s" "busy s" and h: "h < length (handles s)"
  shows "limiter_inv (release h now s) \<and> busy (release h now s)"
proof (cases "handles s ! h")
  case (Pair a released)
  then show ?thesis using inv h freed_inv [OF inv(1) h] drain_inv
    by (cases released) (simp_all add: release_eq)
qed

lemma acquire_inv:
  assumes "limiter_inv s" "busy s"
  shows "limiter_inv (fst (acquire a limit now s)) \<and> busy (fst (acquire a limit now s))"
proof -
  have q: "queues_ok s" using assms(1) by (simp add: limiter_inv_def)
  have "fst (acquire a limit now s) = s \<or>
      fst (acquire a limit now s) = fst (grant a False now now s) \<and>
      totalActive s < globalLimit s \<and> totalQueued s \<le> 0"
    by (auto simp: acquire_def not_le split: prod.split admission.split)
  moreover have "0 \<le> totalQueued s" using q by (simp add: queues_ok_def)
  ultimately show ?thesis
    using assms grant_inv [OF assms(1)] no_queue [OF q] by (auto simp: busy_def)
qed

lemma admit_queue_inv:
  assumes inv: "limiter_inv s" and a: "a \<noteq> []" and cl: "\<not> closed s"
    and room: "\<not> at_limit (activeCount a s + queuedCount a s) limit" "totalQueued s < queueLimit s"
    and w: "w = \<lparr>w_id = length (waiters s), w_accountId = a, w_limit = limit, w_enqueuedAt = now, w_signal = sig\<rparr>"
    and queue: "queue = (case map_of (queues s) a of None \<Rightarrow> [] | Some q \<Rightarrow> q)"
    and s': "s' = s\<lparr>waiters := waiters s @ [w], timers := timers s @ [length (waiters s)],
               listeners := (if sig then listeners s @ [length (waiters s)] else listeners s),
               queueOrder := (if queue = [] then queueOrder s @ [a] else queueOrder s),
               queues := map_set a (queue @ [w]) (queues s),
               totalQueued := totalQueued s + 1\<rparr>"
  shows "limiter_inv s'"
proof -
  have A: "active_ok s" and Q: "queues_ok s" and P: "promises_ok s" using inv by (simp_all add: limiter_inv_def)
  have lv: "live c s' = live c s" for c by (simp add: s' live_def)
  have mq: "map_of (queues s) a = (if queue = [] then None else Some queue)"
    using Q queue by (auto simp: queues_ok_def split: option.splits)
  then have st: "stored (queues s') = {#w#} + stored (queues s)"
    using stored_set_new [of "queues s" a "queue @ [w]"] stored_set_old [of "queues s" a queue "queue @ [w]"]
    by (auto simp: s' split: if_splits)
  have "queue_fits (live a s) queue" "\<forall>u \<in> set queue. w_accountId u = a"
    using Q mq by (auto simp: queues_ok_def split: if_splits)
  moreover have "\<not> at_limit (live a s + int (length queue)) (w_limit w)"
    using room(1) mq activeCount_live [OF A] by (auto simp: w queuedCount_def split: if_splits)
  ultimately have new: "queue_fits (live a s) (queue @ [w])" "\<forall>u \<in> set (queue @ [w]). w_accountId u = a"
    by (auto simp: queue_fits_snoc w)
  have each: "c \<noteq> [] \<and> qc \<noteq> [] \<and> (\<forall>w \<in> set qc. w_accountId w = c) \<and> queue_fits (live c s') qc"
    if "map_of (queues s') c = Some qc" for c qc
  proof (cases "c = a")
    case True
    with that have "qc = queue @ [w]" by (simp add: s')
    then show ?thesis using True a new lv by simp
  next
    case False
    with that have "map_of (queues s) c = Some qc" by (simp add: s')
    then show ?thesis using Q lv by (simp add: queues_ok_def)
  qed
  have "distinct (queueOrder s')" "set (queueOrder s') = dom (map_of (queues s'))"
    using Q mq by (auto simp: s' queues_ok_def split: if_splits)
  moreover have "map_ok (queues s')" "0 \<le> queueLimit s'" "totalQueued s' \<le> queueLimit s'" "\<not> closed s'"
    "totalQueued s' = int (size (stored (queues s')))"
    using Q room(2) cl st by (simp_all add: s' queues_ok_def)
  ultimately have "queues_ok s'" unfolding queues_ok_def using each by blast
  moreover have "promises_ok s'"
    using P unfolding promises_ok_def st by (auto simp: s' w nth_append less_SucI)
  moreover have "active_ok s'" using A by (subst active_ok_cong [of s' s]) (simp_all add: s')
  ultimately show ?thesis by (simp add: limiter_inv_def)
qed

lemma admit_inv:
  assumes inv: "limiter_inv s" "busy s" and a: "a \<noteq> []"
  shows "limiter_inv (fst (admit a limit signal now s)) \<and> busy (fst (admit a limit signal now s))"
proof -
  have Q: "queues_ok s" using inv(1) by (simp add: limiter_inv_def)
  have keep: "limiter_inv (s\<lparr>rejectedPerAccount := n\<rparr>)" "limiter_inv (s\<lparr>rejectedQueueFull := n\<rparr>)"
    "busy (s\<lparr>rejectedPerAccount := n\<rparr>)" "busy (s\<lparr>rejectedQueueFull := n\<rparr>)" for n
    using inv by (simp_all add: limiter_inv_def active_ok_def queues_ok_def promises_ok_def
        live_def held_def busy_def)
  show ?thesis
  proof (cases "closed s \<or> signal = AbortedSignal \<or>
      js_le limit (JFin 0) \<or> at_limit (activeCount a s + queuedCount a s) limit")
    case True
    then show ?thesis using inv keep by (auto simp: admit_def)
  next
    case open_: False
    show ?thesis
    proof (cases "totalActive s < globalLimit s \<and> totalQueued s = 0")
      case True
      then have "fst (admit a limit signal now s) = fst (grant a False now now s)"
        using open_ by (simp add: admit_def split_def Let_def)
      then show ?thesis using True no_queue [OF Q] grant_inv [OF inv(1)] by (simp add: busy_def)
    next
      case full: False
      show ?thesis
      proof (cases "queueLimit s = 0 \<or> queueLimit s \<le> totalQueued s")
        case True
        then have "fst (admit a limit signal now s) = s\<lparr>rejectedQueueFull := rejectedQueueFull s + 1\<rparr>"
          using open_ full by (cases "totalActive s < globalLimit s") (auto simp: admit_def)
        then show ?thesis using keep by simp
      next
        case False
        then have room: "totalQueued s < queueLimit s" by simp
        define w where "w = \<lparr>w_id = length (waiters s), w_accountId = a, w_limit = limit, w_enqueuedAt = now,
            w_signal = (signal \<noteq> NoSignal)\<rparr>"
        define queue where "queue = (case map_of (queues s) a of None \<Rightarrow> [] | Some q \<Rightarrow> q)"
        define s' where "s' = s\<lparr>waiters := waiters s @ [w], timers := timers s @ [length (waiters s)],
               listeners := (if signal \<noteq> NoSignal then listeners s @ [length (waiters s)] else listeners s),
               queueOrder := (if queue = [] then queueOrder s @ [a] else queueOrder s),
               queues := map_set a (queue @ [w]) (queues s),
               totalQueued := totalQueued s + 1\<rparr>"
        have e: "fst (admit a limit signal now s) = s'"
          using open_ full False unfolding s'_def queue_def w_def
          by (cases "totalActive s < globalLimit s") (simp_all add: admit_def Let_def)
        have "limiter_inv s'"
          using open_ by (intro admit_queue_inv [OF inv(1) a _ _ room w_def queue_def s'_def]) simp_all
        moreover have "busy s'" using full inv(2) by (simp add: busy_def s'_def)
        ultimately show ?thesis by (simp add: e)
      qed
    qed
  qed
qed

lemma distinct_submset:
  assumes "mset xs \<subseteq># mset ys" "distinct ys"
  shows "distinct xs"
  unfolding distinct_count_atmost_1
proof
  fix a
  have "count (mset xs) a \<le> count (mset ys) a" using assms(1) by (rule mset_subset_eq_count)
  also have "\<dots> \<le> 1" using assms(2) unfolding distinct_count_atmost_1 by simp
  finally have "count (mset xs) a \<le> 1" .
  then show "count (mset xs) a = (if a \<in> set xs then 1 else 0)"
  proof (cases "a \<in> set xs")
    case True
    then have "count (mset xs) a \<noteq> 0" by (simp only: count_eq_zero_iff set_mset_mset not_not)
    with \<open>count (mset xs) a \<le> 1\<close> have "count (mset xs) a = 1" by linarith
    with True show ?thesis by (simp only: if_True)
  qed (simp add: count_eq_zero_iff)
qed

text \<open>A timer that fires, and an abort that is signalled.\<close>

lemma queued_waiter:
  assumes "limiter_inv s" "i \<in># image_mset w_id (stored (queues s))"
  obtains w queue k where "waiters s ! i = w" "w_id w = i" "w \<in># stored (queues s)"
    "map_of (queues s) (w_accountId w) = Some queue"
    "find_index (\<lambda>u. w_id u = w_id w) queue = Some k" "k < length queue" "queue ! k = w"
proof -
  have Q: "queues_ok s" and P: "promises_ok s" using assms(1) by (simp_all add: limiter_inv_def)
  obtain w where w: "w \<in># stored (queues s)" "w_id w = i" using assms(2) by auto
  then have wi: "waiters s ! i = w" using P by (auto simp: promises_ok_def)
  obtain c queue where q: "map_of (queues s) c = Some queue" "w \<in> set queue"
    using stored_inD [OF w(1)] Q by (auto simp: queues_ok_def)
  then have c: "c = w_accountId w" using Q by (auto simp: queues_ok_def)
  have same: "u = w" if "u \<in> set queue" "w_id u = w_id w" for u
    using P stored_in [OF q(1) that(1)] w that(2) unfolding promises_ok_def by metis
  obtain k where k: "find_index (\<lambda>u. w_id u = w_id w) queue = Some k"
    using q(2) by (cases "find_index (\<lambda>u. w_id u = w_id w) queue") (auto simp: find_index_None_iff)
  note f = find_index_SomeD [OF k]
  then have "queue ! k = w" using same by simp
  then show thesis using that wi w q c k f by simp
qed

lemma unqueue_frame [simp]:
  "active (unqueue w q k s) = active s" "handles (unqueue w q k s) = handles s"
  "totalActive (unqueue w q k s) = totalActive s" "globalLimit (unqueue w q k s) = globalLimit s"
  "totalQueued (unqueue w q k s) = totalQueued s - 1" "waiters (unqueue w q k s) = waiters s"
  "resolved (unqueue w q k s) = resolved s" "timers (unqueue w q k s) = timers s"
  "listeners (unqueue w q k s) = listeners s"
  by (simp_all add: unqueue_def Let_def)

lemma queues_ok_cong:
  "queues s' = queues s \<Longrightarrow> queueOrder s' = queueOrder s \<Longrightarrow> totalQueued s' = totalQueued s \<Longrightarrow>
   queueLimit s' = queueLimit s \<Longrightarrow> closed s' = closed s \<Longrightarrow> handles s' = handles s \<Longrightarrow>
   queues_ok s' \<longleftrightarrow> queues_ok s"
  by (simp add: queues_ok_def live_def)

lemma leave_inv:
  assumes inv: "limiter_inv s" "busy s" and w: "w \<in># stored (queues s)"
    and q: "map_of (queues s) (w_accountId w) = Some queue" "k < length queue" "queue ! k = w"
    and s0: "queues s0 = queues s" "queueOrder s0 = queueOrder s" "totalQueued s0 = totalQueued s"
      "queueLimit s0 = queueLimit s" "closed s0 = closed s" "handles s0 = handles s"
      "active s0 = active s" "totalActive s0 = totalActive s" "globalLimit s0 = globalLimit s"
      "waiters s0 = waiters s" "resolved s0 = resolved s"
    and s': "queues s' = queues (unqueue w queue k s0)" "queueOrder s' = queueOrder (unqueue w queue k s0)"
      "totalQueued s' = totalQueued s - 1"
      "queueLimit s' = queueLimit (unqueue w queue k s0)" "closed s' = closed (unqueue w queue k s0)"
      "handles s' = handles s" "active s' = active s" "totalActive s' = totalActive s"
      "globalLimit s' = globalLimit s" "waiters s' = waiters s"
      "map fst (resolved s') = map fst (resolved s) @ [w_id w]"
      "mset (timers s') = mset (timers s) - {#w_id w#}" "mset (listeners s') = mset (listeners s) - {#w_id w#}"
  shows "limiter_inv s' \<and> busy s'"
proof -
  have A: "active_ok s" and Q: "queues_ok s" and P: "promises_ok s" using inv(1) by (simp_all add: limiter_inv_def)
  have Q0: "queues_ok s0" using Q by (subst queues_ok_cong [of s0 s]) (simp_all add: s0)
  note u = unqueue_queues_ok [OF Q0 _ refl q(2) q(3) [symmetric], unfolded s0, OF q(1)]
  have "queues_ok s'" using u(1) by (subst queues_ok_cong [of s' "unqueue w queue k s0"]) (simp_all add: s' s0)
  moreover have "promises_ok s'"
    using listener_only_signal [OF P w] by (intro promises_take [OF P, of w]) (auto simp: s' u(2))
  moreover have "active_ok s'" using A by (subst active_ok_cong [of s' s]) (simp_all add: s')
  moreover have "busy s'"
  proof -
    have "0 < size (stored (queues s))" using w by (auto simp: nonempty_has_size [symmetric])
    then have "0 < totalQueued s" using Q by (simp add: queues_ok_def)
    then show ?thesis using inv(2) by (simp add: busy_def s')
  qed
  ultimately show ?thesis by (simp add: limiter_inv_def)
qed

lemma expire_step_inv:
  assumes inv: "limiter_inv s" "busy s" and i: "i \<in> set (timers s)"
  shows "limiter_inv (expire (waiters s ! i) (s\<lparr>timers := remove1 i (timers s)\<rparr>)) \<and>
    busy (expire (waiters s ! i) (s\<lparr>timers := remove1 i (timers s)\<rparr>))"
proof -
  have P: "promises_ok s" using inv(1) by (simp add: limiter_inv_def)
  then have i': "i \<in># image_mset w_id (stored (queues s))" using i by (simp add: promises_ok_def flip: set_mset_mset)
  obtain w queue k where w: "waiters s ! i = w" "w_id w = i" "w \<in># stored (queues s)"
    "map_of (queues s) (w_accountId w) = Some queue"
    "find_index (\<lambda>u. w_id u = w_id w) queue = Some k" "k < length queue" "queue ! k = w"
    by (rule queued_waiter [OF inv(1) i'])
  show ?thesis
    unfolding w(1)
    by (rule leave_inv [OF inv w(3,4,6,7), of "s\<lparr>timers := remove1 i (timers s)\<rparr>"])
      (simp_all add: expire_def w(2,4) w(5) [unfolded w(2)] Let_def removeAbortListener_def unqueue_def)
qed

lemma abort_step_inv:
  assumes inv: "limiter_inv s" "busy s" and i: "i \<in> set (listeners s)"
  shows "limiter_inv (abort (waiters s ! i) (s\<lparr>listeners := remove1 i (listeners s)\<rparr>)) \<and>
    busy (abort (waiters s ! i) (s\<lparr>listeners := remove1 i (listeners s)\<rparr>))"
proof -
  have P: "promises_ok s" using inv(1) by (simp add: limiter_inv_def)
  then have li: "mset (listeners s) = image_mset w_id (filter_mset w_signal (stored (queues s)))"
    by (simp add: promises_ok_def)
  then have i': "i \<in># image_mset w_id (stored (queues s))" using i by (auto simp flip: set_mset_mset)
  obtain w queue k where w: "waiters s ! i = w" "w_id w = i" "w \<in># stored (queues s)"
    "map_of (queues s) (w_accountId w) = Some queue"
    "find_index (\<lambda>u. w_id u = w_id w) queue = Some k" "k < length queue" "queue ! k = w"
    by (rule queued_waiter [OF inv(1) i'])
  have "distinct (listeners s)"
  proof -
    have "image_mset w_id (stored (queues s)) \<subseteq># mset [0..<length (waiters s)]"
      using P unfolding promises_ok_def by (metis mset_subset_eq_add_right)
    moreover have "mset (listeners s) \<subseteq># image_mset w_id (stored (queues s))"
      unfolding li by (intro image_mset_subseteq_mono) simp
    ultimately have "mset (listeners s) \<subseteq># mset [0..<length (waiters s)]" by (rule subset_mset.order_trans [rotated])
    then show ?thesis by (rule distinct_submset) simp
  qed
  then have twice: "remove1 i (remove1 i (listeners s)) = remove1 i (listeners s)"
    by (simp add: remove1_idem distinct_remove1_removeAll)
  show ?thesis
    unfolding w(1)
    by (rule leave_inv [OF inv w(3,4,6,7), of "removeAbortListener w (clear_timer w (s\<lparr>listeners := remove1 i (listeners s)\<rparr>))"])
      (simp_all add: abort_def w(2,4) w(5) [unfolded w(2)] Let_def removeAbortListener_def clear_timer_def unqueue_def twice)
qed

lemma close_fold:
  "resolved (fold close_waiter ws s) = resolved s @ map (\<lambda>w. (w_id w, Rejected Closed)) ws"
  "mset (timers (fold close_waiter ws s)) = mset (timers s) - image_mset w_id (mset ws)"
  "mset (listeners (fold close_waiter ws s)) = mset (listeners s) - image_mset w_id (mset ws)"
  "active (fold close_waiter ws s) = active s" "handles (fold close_waiter ws s) = handles s"
  "totalActive (fold close_waiter ws s) = totalActive s" "globalLimit (fold close_waiter ws s) = globalLimit s"
  "waiters (fold close_waiter ws s) = waiters s" "queueLimit (fold close_waiter ws s) = queueLimit s"
  "closed (fold close_waiter ws s) = closed s"
  by (induction ws arbitrary: s)
    (simp_all add: close_waiter_def removeAbortListener_def clear_timer_def resolve_def)

lemma close_inv:
  assumes inv: "limiter_inv s" "busy s"
  shows "limiter_inv (close s) \<and> busy (close s)"
proof (cases "closed s")
  case False
  have A: "active_ok s" and Q: "queues_ok s" and P: "promises_ok s" using inv(1) by (simp_all add: limiter_inv_def)
  have st: "mset (concat (map snd (queues s))) = stored (queues s)" by (simp add: stored_def)
  note c = close_def [of s] close_fold st False Let_def
  have "active_ok (close s)" using A by (subst active_ok_cong [of "close s" s]) (simp_all add: c)
  moreover have "queues_ok (close s)" using Q by (simp add: queues_ok_def c)
  moreover have "promises_ok (close s)"
  proof -
    have "image_mset w_id (filter_mset w_signal (stored (queues s))) \<subseteq># image_mset w_id (stored (queues s))"
      by (intro image_mset_subseteq_mono) simp
    then have "image_mset w_id (filter_mset w_signal (stored (queues s))) - image_mset w_id (stored (queues s)) = {#}"
      by (simp only: Diff_eq_empty_iff_mset)
    moreover have "mset (map fst (resolved (close s))) = mset (map fst (resolved s)) + image_mset w_id (stored (queues s))"
      by (simp add: c o_def flip: st mset_map)
    ultimately show ?thesis using P by (simp add: promises_ok_def c)
  qed
  moreover have "busy (close s)" by (simp add: busy_def c)
  ultimately show ?thesis by (simp add: limiter_inv_def)
qed (use inv in \<open>simp add: close_def\<close>)

definition limiter_ok :: "limiter \<Rightarrow> bool" where
  "limiter_ok s \<longleftrightarrow> limiter_inv s \<and> busy s"

lemma limiter_step_ok:
  "limiter_ok s \<Longrightarrow> admitted_event e \<Longrightarrow> limiter_ok (limiter_step s e)"
  unfolding limiter_ok_def
  by (cases e) (simp_all add: acquire_inv admit_inv release_inv expire_step_inv abort_step_inv close_inv
      admitted_event_def)

interpretation tl: machine limiter_step admitted_event limiter_ok
  by unfold_locales (rule limiter_step_ok)

lemma new_limiter_ok:
  assumes "new_limiter options = Inr s"
  shows "limiter_ok s" "1 \<le> globalLimit s" "handles s = []" "waiters s = []" "resolved s = []"
proof -
  obtain gl ql qt where b: "\<not> js_lt gl (JFin 1)" "\<not> js_lt ql (JFin 0)" "is_safe_integer gl" "is_safe_integer ql"
    and s: "s = \<lparr>globalLimit = int_of_js gl, queueLimit = int_of_js ql,
                   queueTimeoutMs = int_of_js qt, active = [], queues = [], queueOrder = [],
                   totalActive = 0, totalQueued = 0, closed = False, granted = 0,
                   queuedGranted = 0, rejectedPerAccount = 0, rejectedQueueFull = 0,
                   timedOut = 0, maxQueueWaitMs = 0, handles = [], waiters = [],
                   resolved = [], timers = [], listeners = []\<rparr>"
    using assms by (auto simp: new_limiter_def Let_def split: if_splits)
  have "1 \<le> int_of_js gl" "0 \<le> int_of_js ql"
    using b by (cases gl; cases ql; simp add: int_of_js_def is_safe_integer_def le_floor_iff)+
  then show "limiter_ok s" "1 \<le> globalLimit s" "handles s = []" "waiters s = []" "resolved s = []"
    by (simp_all add: s limiter_ok_def limiter_inv_def active_ok_def queues_ok_def promises_ok_def
        busy_def live_def held_def)
qed

end
