(* ===== verification/LimiterProperties.thy ===== *)
theory LimiterProperties
  imports LimiterSafety
begin

text \<open>
  The properties of the turn limiter, over any sequence of calls, timeouts and aborts on
  a limiter that the constructor returned.
\<close>

section \<open>A sample limiter\<close>

text \<open>One global slot, two queue places.\<close>

definition sample_options :: limiter_options where
  "sample_options = \<lparr>lo_globalLimit = Some (JFin 1), lo_queueLimit = Some (JFin 2), lo_queueTimeoutMs = None\<rparr>"

definition sample_limiter :: limiter where
  "sample_limiter =
     \<lparr>globalLimit = 1, queueLimit = 2, queueTimeoutMs = 30000, active = [], queues = [], queueOrder = [],
      totalActive = 0, totalQueued = 0, closed = False, granted = 0,
      queuedGranted = 0, rejectedPerAccount = 0, rejectedQueueFull = 0,
      timedOut = 0, maxQueueWaitMs = 0, handles = [], waiters = [],
      resolved = [], timers = [], listeners = []\<rparr>"

definition sample_events :: "limiter_event list" where
  "sample_events =
     [AdmitEv ''a'' (JFin 2) NoSignal 0, AdmitEv ''a'' (JFin 2) NoSignal 1, AdmitEv ''b'' (JFin 2) LiveSignal 2]"

lemma sample_limiter_new: "new_limiter sample_options = Inr sample_limiter"
  by (simp add: new_limiter_def sample_options_def sample_limiter_def is_safe_integer_def int_of_js_def)

lemma sample_events_admitted: "list_all admitted_event sample_events"
  by (simp add: sample_events_def admitted_event_def)

definition sample_queued :: limiter where
  "sample_queued = foldl limiter_step sample_limiter sample_events"

lemma sample_queued_eq:
  "sample_queued = sample_limiter\<lparr>active := [(''a'', 1)],
     queues := [(''a'', [\<lparr>w_id = 0, w_accountId = ''a'', w_limit = JFin 2, w_enqueuedAt = 1, w_signal = False\<rparr>]),
                (''b'', [\<lparr>w_id = 1, w_accountId = ''b'', w_limit = JFin 2, w_enqueuedAt = 2, w_signal = True\<rparr>])],
     queueOrder := [''a'', ''b''], totalActive := 1, totalQueued := 2, granted := 1,
     handles := [(''a'', False)],
     waiters := [\<lparr>w_id = 0, w_accountId = ''a'', w_limit = JFin 2, w_enqueuedAt = 1, w_signal = False\<rparr>,
                 \<lparr>w_id = 1, w_accountId = ''b'', w_limit = JFin 2, w_enqueuedAt = 2, w_signal = True\<rparr>],
     timers := [0, 1], listeners := [1]\<rparr>"
  by (simp add: sample_queued_def sample_events_def sample_limiter_def admit_def grant_def Let_def
      activeCount_def queuedCount_def at_limit_def)

lemma sample_queued_ok: "limiter_ok sample_queued"
  unfolding sample_queued_def
  by (rule tl.run_inv [OF new_limiter_ok(1) [OF sample_limiter_new] sample_events_admitted])

section \<open>Bounds\<close>

lemma run_ok:
  "new_limiter options = Inr s0 \<Longrightarrow> list_all admitted_event es \<Longrightarrow> limiter_ok (foldl limiter_step s0 es)"
  using tl.run_inv new_limiter_ok(1) by blast

text \<open>C27: The counters are the truth and the bounds hold: after any sequence of calls (each \<open>admit\<close>
  with an account id that is not empty, as its callers have), timeouts and aborts the number of grants not yet released is the limiter's active count, in total and per
  account, and is at most the global limit; the number of waiters is the queued count and at most
  the queue limit; the rotation order holds each account with waiters once.\<close>
theorem limiter_counts_exact:
  assumes "new_limiter options = Inr s0" "list_all admitted_event es"
    and "s = foldl limiter_step s0 es"
  shows "totalActive s = held s \<and> held s \<le> globalLimit s \<and>
    (\<forall>a. activeCount a s = live a s) \<and>
    totalQueued s = int (length (concat (map snd (queues s)))) \<and> totalQueued s \<le> queueLimit s \<and>
    distinct (queueOrder s) \<and> set (queueOrder s) = {a. 0 < queuedCount a s}"
proof -
  have i: "active_ok s" "queues_ok s"
    unfolding assms(3) using run_ok [OF assms(1,2)] by (simp_all add: limiter_ok_def limiter_inv_def)
  have "set (queueOrder s) = {a. 0 < queuedCount a s}"
    using i(2) by (auto simp: queues_ok_def queuedCount_def split: option.splits)
  then show ?thesis
    using i activeCount_live [OF i(1)] by (simp add: active_ok_def queues_ok_def stored_def)
qed

lemma limiter_counts_exact_witness:
  "totalQueued sample_queued \<le> queueLimit sample_queued \<and> held sample_queued \<le> 1"
  using limiter_counts_exact [OF sample_limiter_new sample_events_admitted sample_queued_def]
  by (simp add: sample_queued_eq sample_limiter_def)

text \<open>C28: No slot is idle while somebody waits: after any sequence of calls (each \<open>admit\<close> with an
  account id that is not empty, as its callers have), releases, timeouts and aborts, a limiter
  with fewer active turns than its global limit has an empty queue.\<close>
theorem limiter_work_conserving:
  assumes "new_limiter options = Inr s0" "list_all admitted_event es"
    and "s = foldl limiter_step s0 es" "held s < globalLimit s"
  shows "queues s = [] \<and> totalQueued s = 0"
proof -
  have i: "active_ok s" "queues_ok s" "busy s"
    unfolding assms(3) using run_ok [OF assms(1,2)] by (simp_all add: limiter_ok_def limiter_inv_def)
  then have "totalQueued s = 0" using assms(4) by (simp add: busy_def active_ok_def)
  then show ?thesis using no_queue [OF i(2)] by simp
qed

text \<open>
  The one slot of the sample is handed from the first turn to the two that wait, and then freed.
\<close>

definition drained_events :: "limiter_event list" where
  "drained_events = sample_events @ [ReleaseEv 0 3, ReleaseEv 1 4, ReleaseEv 2 5]"

lemma drained_events_admitted: "list_all admitted_event drained_events"
  by (simp add: drained_events_def sample_events_def admitted_event_def)

lemma drained_counts:
  "totalQueued sample_queued = 2"
  "held (foldl limiter_step sample_limiter drained_events) = 0"
  "granted (foldl limiter_step sample_limiter drained_events) = 3"
  "map fst (resolved (foldl limiter_step sample_limiter drained_events)) = [0, 1]"
  by (simp add: sample_queued_eq) (code_simp+)

lemma limiter_work_conserving_witness:
  "totalQueued sample_queued = 2 \<and> granted (foldl limiter_step sample_limiter drained_events) = 3 \<and>
   map fst (resolved (foldl limiter_step sample_limiter drained_events)) = [0, 1] \<and>
   queues (foldl limiter_step sample_limiter drained_events) = []"
proof -
  have "held (foldl limiter_step sample_limiter drained_events) < globalLimit sample_limiter"
    using drained_counts(2) by (simp add: sample_limiter_def)
  moreover have "globalLimit (foldl limiter_step sample_limiter drained_events) = globalLimit sample_limiter" by code_simp
  ultimately show ?thesis
    using limiter_work_conserving [OF sample_limiter_new drained_events_admitted refl] drained_counts by simp
qed

text \<open>No admission promise is lost and none is settled twice: each queued turn either waits in
  exactly one queue with its timeout set, or has exactly one result.\<close>
theorem limiter_promises_settle_once:
  assumes "new_limiter options = Inr s0" "list_all admitted_event es"
    and "s = foldl limiter_step s0 es" "i < length (waiters s)"
  shows "count (mset (map fst (resolved s))) i + count (image_mset w_id (mset (concat (map snd (queues s))))) i = 1 \<and>
    (count (mset (map fst (resolved s))) i = 0 \<longleftrightarrow> i \<in> set (timers s))"
proof -
  have P: "promises_ok s"
    unfolding assms(3) using run_ok [OF assms(1,2)] by (simp_all add: limiter_ok_def limiter_inv_def)
  have "count (mset [0..<length (waiters s)]) i = 1"
    using assms(4) distinct_upt [of 0 "length (waiters s)"] unfolding distinct_count_atmost_1 by simp
  then have one: "count (mset (map fst (resolved s))) i + count (image_mset w_id (stored (queues s))) i = 1"
    using P by (simp only: promises_ok_def count_union [symmetric])
  have "i \<in> set (timers s) \<longleftrightarrow> count (image_mset w_id (stored (queues s))) i \<noteq> 0"
    using P by (simp only: promises_ok_def count_eq_zero_iff set_mset_mset [symmetric] not_not)
  then show ?thesis using one unfolding stored_def by linarith
qed

lemma limiter_promises_settle_once_witness:
  "count (mset (map fst (resolved sample_queued))) 1 +
     count (image_mset w_id (mset (concat (map snd (queues sample_queued))))) 1 = 1"
  using limiter_promises_settle_once [OF sample_limiter_new sample_events_admitted sample_queued_def, of 1]
  by (simp add: sample_queued_eq)

section \<open>Release\<close>

lemma try_accounts_handles: "\<exists>hs. handles (fst (try_accounts n now s)) = handles s @ hs"
  by (induction n now s rule: try_accounts.induct)
    (auto simp: Let_def serve_frame split: list.splits option.splits)

lemma drain_loop_stop:
  "\<not> (totalActive s < globalLimit s \<and> 0 < totalQueued s) \<Longrightarrow> drain_loop now s = s"
  by (subst drain_loop.simps) (rule if_not_P)

lemma drain_loop_handles: "\<exists>hs. handles (drain_loop now s) = handles s @ hs"
proof (induction now s rule: drain_loop.induct)
  case (1 now s)
  show ?case
  proof (cases "totalActive s < globalLimit s \<and> 0 < totalQueued s")
    case True
    obtain s' g where t: "try_accounts (length (queueOrder s)) now s = (s', g)" by fastforce
    obtain hs where hs: "handles s' = handles s @ hs"
      using try_accounts_handles [of "length (queueOrder s)" now s] t by auto
    have eq: "drain_loop now s = (if g then drain_loop now s' else s')"
      using True t by (subst drain_loop.simps) simp
    show ?thesis
    proof (cases g)
      case g: True
      from 1 [OF True t [symmetric]] g hs show ?thesis unfolding eq by auto
    qed (use eq hs in simp)
  qed (simp add: drain_loop_stop)
qed

text \<open>A slot is given back once: calling a release closure a second time, at any later moment,
  changes nothing.\<close>
theorem release_once:
  assumes "h < length (handles s)"
  shows "release h now' (release h now s) = release h now s"
proof (cases "handles s ! h")
  case (Pair a r)
  have "\<exists>hs. handles (drain now t) = handles t @ hs" for t
    using drain_loop_handles by (simp add: drain_def)
  then obtain hs where hs: "handles (drain now (freed h a s)) = (handles s)[h := (a, True)] @ hs"
    by (metis freed_frame(1))
  show ?thesis
  proof (cases r)
    case False
    then have "handles (release h now s) ! h = (a, True)"
      using Pair assms by (simp add: release_eq hs nth_append)
    then show ?thesis by (rule release_eq)
  qed (use Pair in \<open>simp add: release_eq\<close>)
qed

lemma release_once_witness: "release 0 5 (release 0 4 sample_queued) = release 0 4 sample_queued"
  by (rule release_once) (simp add: sample_queued_eq)

text \<open>A released slot goes straight to the next account in the rotation: when turns are queued,
  exactly one waiter is served, the first one of the account at the front of the order, with its
  waiting time; that account moves to the back if it still has waiters, and the number of active
  turns does not change.\<close>
theorem release_hands_over:
  assumes "limiter_ok s" "h < length (handles s)" "handles s ! h = (b, False)"
    and "queueOrder s = a # order" "map_of (queues s) a = Some (w # rest)"
  shows "let s' = release h now s in
    totalActive s' = totalActive s \<and> totalQueued s' = totalQueued s - 1 \<and>
    resolved s' = resolved s @ [(w_id w, Admitted True (max 0 (now - w_enqueuedAt w)) (length (handles s)))] \<and>
    handles s' = (handles s)[h := (b, True)] @ [(a, False)] \<and>
    queueOrder s' = (if rest = [] then order else order @ [a])"
proof -
  have A: "active_ok s" and Q: "queues_ok s" and bs: "busy s"
    using assms(1) by (simp_all add: limiter_ok_def limiter_inv_def)
  have fi: "limiter_inv (freed h b s)"
    using assms(1-3) by (intro freed_inv) (simp_all add: limiter_ok_def)
  have cl: "\<not> closed s" using Q assms(5) by (auto simp: queues_ok_def)
  have "w \<in># stored (queues s)" using stored_in [OF assms(5)] by simp
  then have "0 < size (stored (queues s))" by (auto simp: nonempty_has_size [symmetric])
  then have tq: "0 < totalQueued s" using Q by (simp add: queues_ok_def)
  then have full: "totalActive s = globalLimit s" using bs A by (simp add: busy_def active_ok_def)
  define t where "t = serve a w rest now (freed h b s\<lparr>queueOrder := order\<rparr>)"
  have t: "try_accounts (length (queueOrder (freed h b s))) now (freed h b s) = (t, True)"
  proof (rule try_accounts_serves [OF fi, of now])
    fix a' order' w' rest'
    assume "queueOrder (freed h b s) = a' # order'" "map_of (queues (freed h b s)) a' = Some (w' # rest')"
      "try_accounts (length (queueOrder (freed h b s))) now (freed h b s) =
         (serve a' w' rest' now (freed h b s\<lparr>queueOrder := order'\<rparr>), True)"
    with assms(4,5) show ?thesis by (simp add: t_def del: try_accounts.simps)
  qed (use tq in simp)
  have "drain_loop now t = t" using full by (intro drain_loop_stop) (simp add: t_def serve_frame)
  then have "release h now s = t"
    using t full tq cl by (simp add: release_eq(1) [OF assms(3)] drain_def drain_loop.simps [of now "freed h b s"] del: try_accounts.simps)
  moreover have "resolved t = resolved s @ [(w_id w, Admitted True (max 0 (now - w_enqueuedAt w)) (length (handles s)))]"
    by (simp add: t_def serve_def Let_def grant_def removeAbortListener_def clear_timer_def)
  ultimately show ?thesis by (simp add: t_def serve_frame Let_def)
qed

lemma release_hands_over_witness:
  "queueOrder (release 0 9 sample_queued) = [''b''] \<and>
   resolved (release 0 9 sample_queued) = [(0, Admitted True 8 1)]"
  using release_hands_over [OF sample_queued_ok, of 0 "''a''" "''a''" "[''b'']" _ "[]" 9]
  by (simp add: sample_queued_eq sample_limiter_def Let_def)

section \<open>The per-account limit\<close>

text \<open>When every call for an account passes the same limit, the limit is kept.\<close>

definition uniform_event :: "(string \<Rightarrow> int) \<Rightarrow> limiter_event \<Rightarrow> bool" where
  "uniform_event cap e =
     (case e of
        AdmitEv a l _ _ \<Rightarrow> a \<noteq> [] \<and> l = JFin (of_int (cap a))
      | AcquireEv a l _ \<Rightarrow> l = JFin (of_int (cap a))
      | _ \<Rightarrow> True)"

definition within_limits :: "(string \<Rightarrow> int) \<Rightarrow> limiter \<Rightarrow> bool" where
  "within_limits cap s \<longleftrightarrow>
     limiter_ok s \<and> (\<forall>a. live a s \<le> max 0 (cap a)) \<and>
     (\<forall>w \<in> set (waiters s). w_limit w = JFin (of_int (cap (w_accountId w))))"

lemma grant_within:
  "(\<forall>a. live a s \<le> max 0 (cap a)) \<Longrightarrow> live b s < cap b \<Longrightarrow>
   \<forall>a. live a (fst (grant b q e now s)) \<le> max 0 (cap a)"
  by auto

lemma drain_within:
  "limiter_inv s \<Longrightarrow> (\<forall>a. live a s \<le> max 0 (cap a)) \<Longrightarrow>
   (\<forall>w \<in> set (waiters s). w_limit w = JFin (of_int (cap (w_accountId w)))) \<Longrightarrow>
   (\<forall>a. live a (drain_loop now s) \<le> max 0 (cap a)) \<and> waiters (drain_loop now s) = waiters s"
proof (induction now s rule: drain_loop.induct)
  case (1 now s)
  show ?case
  proof (cases "totalActive s < globalLimit s \<and> 0 < totalQueued s")
    case False
    then show ?thesis using 1(3) by (subst (1 2) drain_loop.simps) auto
  next
    case True
    then have tq: "0 < totalQueued s" by simp
    obtain a order w rest where o': "queueOrder s = a # order" "map_of (queues s) a = Some (w # rest)"
      and t: "try_accounts (length (queueOrder s)) now s = (serve a w rest now (s\<lparr>queueOrder := order\<rparr>), True)"
      by (rule try_accounts_serves [OF 1(2) tq])
    let ?s' = "serve a w rest now (s\<lparr>queueOrder := order\<rparr>)"
    have i: "limiter_inv ?s'" using serve_inv [OF 1(2) _ o'] True by simp
    have "queue_fits (live a s) (w # rest)" "w_accountId w = a"
      using 1(2) o'(2) by (auto simp: limiter_inv_def queues_ok_def)
    moreover have "w \<in># stored (queues s)" using stored_in [OF o'(2)] by simp
    then have "w \<in> set (waiters s)" using 1(2) unfolding limiter_inv_def promises_ok_def by (metis nth_mem)
    ultimately have "live a s < cap a"
      using 1(4) by (auto simp: queue_fits_Cons at_limit_def not_le)
    then have "\<forall>c. live c ?s' \<le> max 0 (cap c)" using 1(3) by (auto simp: serve_frame live_def)
    then have "(\<forall>c. live c (drain_loop now ?s') \<le> max 0 (cap c)) \<and> waiters (drain_loop now ?s') = waiters ?s'"
      using 1(4) by (intro 1(1) [OF True t [symmetric] refl i]) (simp_all add: serve_frame)
    moreover have "drain_loop now s = drain_loop now ?s'"
      by (subst drain_loop.simps) (simp only: True t if_True prod.case bool.case simp_thms)
    ultimately show ?thesis by (simp add: serve_frame)
  qed
qed

lemma leave_frame:
  "handles (expire w s) = handles s" "waiters (expire w s) = waiters s"
  "handles (abort w s) = handles s" "waiters (abort w s) = waiters s"
  "handles (close s) = handles s" "waiters (close s) = waiters s"
  by (simp_all add: expire_def abort_def close_def Let_def removeAbortListener_def clear_timer_def
      close_fold resolve_def split: option.split)

lemma within_frame:
  "limiter_ok s' \<Longrightarrow> handles s' = handles s \<Longrightarrow> waiters s' = waiters s \<Longrightarrow> within_limits cap s \<Longrightarrow>
   within_limits cap s'"
  by (simp add: within_limits_def live_def)

lemma acquire_within:
  assumes "within_limits cap s"
  shows "within_limits cap (fst (acquire a (JFin (of_int (cap a))) now s))"
proof -
  have ok: "limiter_ok (limiter_step s (AcquireEv a (JFin (of_int (cap a))) now))"
    using assms by (intro limiter_step_ok) (simp_all add: within_limits_def admitted_event_def)
  have ac: "activeCount a s = live a s"
    using assms by (intro activeCount_live) (simp add: within_limits_def limiter_ok_def limiter_inv_def)
  have "fst (acquire a (JFin (of_int (cap a))) now s) = s \<or>
      fst (acquire a (JFin (of_int (cap a))) now s) = fst (grant a False now now s) \<and> live a s < cap a"
    by (auto simp: acquire_def at_limit_def ac not_le split: prod.split admission.split)
  then show ?thesis using assms ok by (auto simp: within_limits_def)
qed

lemma admit_within:
  assumes "within_limits cap s" "a \<noteq> []"
  shows "within_limits cap (fst (admit a (JFin (of_int (cap a))) sig now s))"
proof -
  let ?s' = "fst (admit a (JFin (of_int (cap a))) sig now s)"
  have ok: "limiter_ok (limiter_step s (AdmitEv a (JFin (of_int (cap a))) sig now))"
    using assms by (intro limiter_step_ok) (simp_all add: within_limits_def admitted_event_def)
  have ac: "activeCount a s = live a s"
    using assms by (intro activeCount_live) (simp add: within_limits_def limiter_ok_def limiter_inv_def)
  have q0: "0 \<le> queuedCount a s" by (simp add: queuedCount_def split: option.split)
  have "handles ?s' = handles s \<and> (\<forall>w \<in> set (waiters ?s'). w \<in> set (waiters s) \<or>
        w_limit w = JFin (of_int (cap (w_accountId w)))) \<or>
      ?s' = fst (grant a False now now s) \<and> live a s < cap a"
    using q0 by (auto simp: admit_def at_limit_def ac not_le Let_def split_def)
  then show ?thesis using assms ok by (auto simp: within_limits_def live_def)
qed

lemma release_within:
  assumes "within_limits cap s" "h < length (handles s)"
  shows "within_limits cap (release h now s)"
proof (cases "handles s ! h")
  case (Pair a r)
  have ok: "limiter_ok (limiter_step s (ReleaseEv h now))"
    using assms(1) by (intro limiter_step_ok) (simp_all add: within_limits_def admitted_event_def)
  show ?thesis
  proof (cases r)
    case False
    then have p: "handles s ! h = (a, False)" using Pair by simp
    have fi: "limiter_inv (freed h a s)"
      using assms p by (intro freed_inv) (simp_all add: within_limits_def limiter_ok_def)
    have "live c (freed h a s) \<le> live c s" for c
      using live_release(1) [OF assms(2) p, of c] by (simp add: live_def)
    then have l: "\<forall>c. live c (freed h a s) \<le> max 0 (cap c)"
      using assms(1) unfolding within_limits_def by (meson order_trans)
    have "(\<forall>c. live c (drain now (freed h a s)) \<le> max 0 (cap c)) \<and> waiters (drain now (freed h a s)) = waiters s"
      using drain_within [OF fi l] assms(1) l by (auto simp: drain_def within_limits_def)
    then show ?thesis using ok assms by (simp add: within_limits_def release_eq(1) [OF p])
  qed (use Pair assms in \<open>simp add: release_eq\<close>)
qed

lemma uniform_step:
  assumes "within_limits cap s" "uniform_event cap e"
  shows "within_limits cap (limiter_step s e)"
proof -
  have "admitted_event e" using assms(2) by (cases e) (simp_all add: uniform_event_def admitted_event_def)
  then have ok: "limiter_ok (limiter_step s e)" using assms(1) limiter_step_ok by (simp add: within_limits_def)
  show ?thesis
  proof (cases e)
    case (ExpireEv i)
    then show ?thesis using within_frame [OF ok _ _ assms(1)] by (simp add: leave_frame)
  next
    case (AbortEv i)
    then show ?thesis using within_frame [OF ok _ _ assms(1)] by (simp add: leave_frame)
  next
    case CloseEv
    then show ?thesis using within_frame [OF ok _ _ assms(1)] by (simp add: leave_frame)
  qed (use assms in \<open>auto simp: uniform_event_def acquire_within admit_within release_within\<close>)
qed

interpretation tu: machine limiter_step "uniform_event cap" "within_limits cap" for cap
  by unfold_locales (rule uniform_step)

text \<open>When all calls for an account name the same limit, the account never has more active turns
  than that limit, whether its turns were admitted at once or from the queue.\<close>
theorem per_account_limit_kept:
  assumes "new_limiter options = Inr s0" "list_all (uniform_event cap) es"
    and "s = foldl limiter_step s0 es"
  shows "activeCount a s \<le> max 0 (cap a)"
proof -
  have "within_limits cap s0"
    using new_limiter_ok [OF assms(1)] by (simp add: within_limits_def live_def)
  then have "within_limits cap s" unfolding assms(3) using assms(2) by (rule tu.run_inv)
  then show ?thesis
    using activeCount_live [of s a] by (simp add: within_limits_def limiter_ok_def limiter_inv_def)
qed

lemma per_account_limit_kept_witness:
  "activeCount ''a'' (foldl limiter_step sample_limiter (sample_events @ [ReleaseEv 0 7])) \<le> 2"
proof -
  have "list_all (uniform_event (\<lambda>_. 2)) (sample_events @ [ReleaseEv 0 7])"
    by (simp add: sample_events_def uniform_event_def)
  from per_account_limit_kept [OF sample_limiter_new this refl, of "''a''"] show ?thesis by simp
qed

section \<open>Tiers\<close>

lemma better_tier_facts:
  "tierRank best \<le> tierRank (better_tier r best)" "tierRank (parse_tier (bs_tier r)) \<le> tierRank (better_tier r best)"
  "better_tier r best = best \<or> better_tier r best = parse_tier (bs_tier r)"
  by (auto simp: better_tier_def Let_def)

lemma fold_better_tier_ge:
  "tierRank best \<le> tierRank (fold better_tier rows best)"
  "r \<in> set rows \<Longrightarrow> tierRank (parse_tier (bs_tier r)) \<le> tierRank (fold better_tier rows best)"
proof (induction rows arbitrary: best)
  case (Cons q rows)
  {
    case 1
    show ?case using better_tier_facts(1) Cons(1) order_trans by (simp add: o_def) blast
  next
    case 2
    then show ?case using better_tier_facts(2) [of q best] Cons(1) [of "better_tier q best"] Cons(2) [of "better_tier q best"]
      by (auto intro: order_trans)
  }
qed simp_all

lemma fold_better_tier_from:
  "fold better_tier rows best = best \<or> (\<exists>r \<in> set rows. parse_tier (bs_tier r) = fold better_tier rows best)"
proof (induction rows arbitrary: best)
  case (Cons q rows)
  from Cons [of "better_tier q best"] better_tier_facts(3) [of q best] show ?case by auto
qed simp

text \<open>The tier that sets the turn limit is the highest one among the account's latest active
  subscriptions: no such row has a higher tier, and a tier is only reported when a row has it.\<close>
theorem best_active_tier:
  "(\<forall>r \<in> set (recent_subscriptions acct rows).
      tierRank (parse_tier (bs_tier r)) \<le> tierRank (activeSubscriptionTier acct rows)) \<and>
   (activeSubscriptionTier acct rows = None \<or>
    (\<exists>r \<in> set rows. bs_account_id r = acct \<and> bs_status r \<in> set ACTIVE_SUBSCRIPTION_STATUSES \<and>
       parse_tier (bs_tier r) = activeSubscriptionTier acct rows))"
proof -
  have "r \<in> set rows \<and> bs_account_id r = acct \<and> bs_status r \<in> set ACTIVE_SUBSCRIPTION_STATUSES"
    if "r \<in> set (recent_subscriptions acct rows)" for r
    using that by (auto simp: recent_subscriptions_def dest!: in_set_takeD)
  with fold_better_tier_from [of "recent_subscriptions acct rows" None]
  have "activeSubscriptionTier acct rows = None \<or>
    (\<exists>r \<in> set rows. bs_account_id r = acct \<and> bs_status r \<in> set ACTIVE_SUBSCRIPTION_STATUSES \<and>
       parse_tier (bs_tier r) = activeSubscriptionTier acct rows)"
    unfolding activeSubscriptionTier_def by meson
  then show ?thesis by (simp add: activeSubscriptionTier_def fold_better_tier_ge(2))
qed

lemma best_active_tier_witness:
  "tierRank (parse_tier (Some ''pro'')) \<le> tierRank (activeSubscriptionTier ''u''
     [\<lparr>bs_account_id = ''u'', bs_tier = Some ''pro'', bs_status = ''active'', bs_updated_at = 1, bs_created_at = 1\<rparr>])"
  using best_active_tier [of "''u''"
     "[\<lparr>bs_account_id = ''u'', bs_tier = Some ''pro'', bs_status = ''active'', bs_updated_at = 1, bs_created_at = 1\<rparr>]"]
  by (simp add: recent_subscriptions_def ACTIVE_SUBSCRIPTION_STATUSES_def)

end
