(* ===== verification/SessionEvents.thy ===== *)
theory SessionEvents
  imports JsNumber JsText
begin

text \<open>
  The event model of a session channel (packages/shared/src/events.ts): the events, what
  their schemas accept, and the framing of an event as one server-sent-events frame. The
  test for a UUID is zod's, and JSON texts are written and read by the host; both are arguments:
  \<open>is_uuid\<close>, \<open>stringify\<close> (\<open>JSON.stringify\<close> of an event), \<open>parse\<close> (\<open>JSON.parse\<close>, no value
  when it throws) and \<open>schema\<close> (\<open>sessionEventSchema.safeParse\<close>, no value on a mismatch).
\<close>

section \<open>Events\<close>

record usage =
  us_promptTokens :: "int option"
  us_completionTokens :: "int option"
  us_totalTokens :: "int option"

datatype notification_kind = AgentBuildReady | AgentBuildFailed | ScheduledTaskCompleted

text \<open>The payload of \<open>media.attached\<close>.\<close>

record media_attached =
  ma_sessionId :: string
  ma_messageId :: string
  ma_url :: string
  ma_mime :: string
  ma_creationId :: string
  ma_width :: "int option"
  ma_height :: "int option"

text \<open>
  The arguments are, in this order: \<open>TurnStarted\<close> session turn, \<open>Token\<close> turn delta,
  \<open>TurnCompleted\<close> turn message usage, \<open>MediaPendingEv\<close> session tool,
  \<open>MediaFailed\<close> session tool code message, \<open>MannaUpdated\<close> account balance,
  \<open>MessagesChanged\<close> session message, \<open>ErrorEv\<close> turn code message.
\<close>

datatype session_event =
    TurnStarted string string
  | Token string string
  | TurnCompleted string string "usage option"
  | MediaPendingEv string string
  | MediaAttached media_attached
  | MediaFailed string string string string
  | MannaUpdated string jsnum
  | MessagesChanged string string
  | NotificationCreated string notification_kind
  | NotificationChanged
  | ErrorEv "string option" string string

fun event_type :: "session_event \<Rightarrow> string" where
  "event_type (TurnStarted _ _) = ''turn.started''"
| "event_type (Token _ _) = ''token''"
| "event_type (TurnCompleted _ _ _) = ''turn.completed''"
| "event_type (MediaPendingEv _ _) = ''media.pending''"
| "event_type (MediaAttached _) = ''media.attached''"
| "event_type (MediaFailed _ _ _ _) = ''media.failed''"
| "event_type (MannaUpdated _ _) = ''manna.updated''"
| "event_type (MessagesChanged _ _) = ''session.messages.changed''"
| "event_type (NotificationCreated _ _) = ''notification.created''"
| "event_type NotificationChanged = ''notification.changed''"
| "event_type (ErrorEv _ _ _) = ''error''"

definition SESSION_EVENT_TYPES :: "string list" where
  "SESSION_EVENT_TYPES =
     [''turn.started'', ''token'', ''turn.completed'', ''media.pending'', ''media.attached'',
      ''media.failed'', ''manna.updated'', ''session.messages.changed'', ''notification.created'',
      ''notification.changed'', ''error'']"

section \<open>Schemas\<close>

definition opt_ok :: "('a \<Rightarrow> bool) \<Rightarrow> 'a option \<Rightarrow> bool" where
  "opt_ok p v = (case v of None \<Rightarrow> True | Some x \<Rightarrow> p x)"

definition usage_ok :: "usage \<Rightarrow> bool" where
  "usage_ok u \<longleftrightarrow> opt_ok ((\<le>) 0) (us_promptTokens u) \<and> opt_ok ((\<le>) 0) (us_completionTokens u) \<and>
     opt_ok ((\<le>) 0) (us_totalTokens u)"

definition media_attached_ok :: "(string \<Rightarrow> bool) \<Rightarrow> media_attached \<Rightarrow> bool" where
  "media_attached_ok is_uuid m \<longleftrightarrow>
     is_uuid (ma_sessionId m) \<and> is_uuid (ma_messageId m) \<and> ma_url m \<noteq> [] \<and> ma_mime m \<noteq> [] \<and>
     is_uuid (ma_creationId m) \<and> opt_ok ((<) 0) (ma_width m) \<and> opt_ok ((<) 0) (ma_height m)"

fun session_event_ok :: "(string \<Rightarrow> bool) \<Rightarrow> session_event \<Rightarrow> bool" where
  "session_event_ok is_uuid (TurnStarted s t) \<longleftrightarrow> is_uuid s \<and> is_uuid t"
| "session_event_ok is_uuid (Token t d) \<longleftrightarrow> is_uuid t"
| "session_event_ok is_uuid (TurnCompleted t m u) \<longleftrightarrow> is_uuid t \<and> is_uuid m \<and> opt_ok usage_ok u"
| "session_event_ok is_uuid (MediaPendingEv s tool) \<longleftrightarrow> is_uuid s \<and> tool \<noteq> []"
| "session_event_ok is_uuid (MediaAttached m) \<longleftrightarrow> media_attached_ok is_uuid m"
| "session_event_ok is_uuid (MediaFailed s tool c m) \<longleftrightarrow> is_uuid s \<and> tool \<noteq> [] \<and> c \<noteq> []"
| "session_event_ok is_uuid (MannaUpdated a b) \<longleftrightarrow> is_uuid a \<and> is_finite b"
| "session_event_ok is_uuid (MessagesChanged s m) \<longleftrightarrow> is_uuid s \<and> is_uuid m"
| "session_event_ok is_uuid (NotificationCreated n k) \<longleftrightarrow> is_uuid n"
| "session_event_ok is_uuid NotificationChanged \<longleftrightarrow> True"
| "session_event_ok is_uuid (ErrorEv t c m) \<longleftrightarrow> opt_ok is_uuid t \<and> c \<noteq> []"

section \<open>Frames\<close>

abbreviation LF :: char where "LF \<equiv> CHR 0x0A"
abbreviation CR :: char where "CR \<equiv> CHR 0x0D"

datatype sse_error = InvalidEvent | NotADataFrame | InvalidJson

definition encodeSseEvent ::
  "(string \<Rightarrow> bool) \<Rightarrow> (session_event \<Rightarrow> string) \<Rightarrow> session_event \<Rightarrow> (sse_error, string) res" where
  "encodeSseEvent is_uuid stringify event =
     (if session_event_ok is_uuid event then Inr (''data: '' @ stringify event @ [LF, LF])
      else Inl InvalidEvent)"

text \<open>\<open>comment.replace(/[\r\n]+/g, ' ')\<close>.\<close>

fun squash_breaks :: "string \<Rightarrow> string" where
  "squash_breaks [] = []"
| "squash_breaks (c # s) =
     (if c = CR \<or> c = LF then
        (case s of [] \<Rightarrow> '' ''
         | d # _ \<Rightarrow> if d = CR \<or> d = LF then squash_breaks s else CHR '' '' # squash_breaks s)
      else c # squash_breaks s)"

definition encodeSseComment :: "string \<Rightarrow> string" where
  "encodeSseComment cmt = '': '' @ squash_breaks cmt @ [LF, LF]"

text \<open>\<open>frame.split(/\r\n|\r|\n/)\<close>.\<close>

fun split_lines :: "string \<Rightarrow> string list" where
  "split_lines [] = [[]]"
| "split_lines (c # s) =
     (if c = LF then [] # split_lines s
      else if c = CR then
        (case s of [] \<Rightarrow> [[], []] | d # s' \<Rightarrow> if d = LF then [] # split_lines s' else [] # split_lines s)
      else (case split_lines s of [] \<Rightarrow> [[c]] | w # ws \<Rightarrow> (c # w) # ws))"

definition data_line :: "string \<Rightarrow> string option" where
  "data_line line =
     (if line = ''data'' then Some []
      else if starts_with line ''data:'' then
        (let value = drop 5 line in Some (if starts_with value '' '' then drop 1 value else value))
      else None)"

definition extractSseData :: "string \<Rightarrow> string option" where
  "extractSseData frame =
     (let dataLines = List.map_filter data_line (split_lines frame)
      in if dataLines = [] then None else Some (join_with LF dataLines))"

definition parseSessionEvent ::
  "(string \<Rightarrow> 'j option) \<Rightarrow> ('j \<Rightarrow> session_event option) \<Rightarrow> string \<Rightarrow> (sse_error, session_event) res" where
  "parseSessionEvent parse schema json =
     (case parse json of
        None \<Rightarrow> Inl InvalidJson
      | Some value \<Rightarrow> (case schema value of None \<Rightarrow> Inl InvalidEvent | Some e \<Rightarrow> Inr e))"

definition tryParseSessionEvent ::
  "(string \<Rightarrow> 'j option) \<Rightarrow> ('j \<Rightarrow> session_event option) \<Rightarrow> string \<Rightarrow> session_event option" where
  "tryParseSessionEvent parse schema json =
     (case parse json of None \<Rightarrow> None | Some value \<Rightarrow> schema value)"

definition decodeSseEvent ::
  "(string \<Rightarrow> 'j option) \<Rightarrow> ('j \<Rightarrow> session_event option) \<Rightarrow> string \<Rightarrow> (sse_error, session_event) res" where
  "decodeSseEvent parse schema frame =
     (case extractSseData frame of
        None \<Rightarrow> Inl NotADataFrame
      | Some payload \<Rightarrow> parseSessionEvent parse schema payload)"

definition tryDecodeSseEvent ::
  "(string \<Rightarrow> 'j option) \<Rightarrow> ('j \<Rightarrow> session_event option) \<Rightarrow> string \<Rightarrow> session_event option" where
  "tryDecodeSseEvent parse schema frame =
     (case extractSseData frame of
        None \<Rightarrow> None
      | Some payload \<Rightarrow> tryParseSessionEvent parse schema payload)"

section \<open>Facts\<close>

lemma event_type_listed: "event_type e \<in> set SESSION_EVENT_TYPES"
  by (cases e) (simp_all add: SESSION_EVENT_TYPES_def)

lemma split_lines_not_Nil [simp]: "split_lines s \<noteq> []"
proof (cases s)
  case (Cons c t)
  have "split_lines (c # t) \<noteq> []"
    by (subst split_lines.simps) (simp del: split_lines.simps split: list.split)
  then show ?thesis unfolding Cons .
qed simp

definition one_line :: "string \<Rightarrow> bool" where
  "one_line s = (LF \<notin> set s \<and> CR \<notin> set s)"

lemma one_line_simps [simp]: "one_line []" "one_line (c # s) \<longleftrightarrow> c \<noteq> LF \<and> c \<noteq> CR \<and> one_line s"
  by (auto simp: one_line_def)

lemma split_lines_one: "one_line s \<Longrightarrow> split_lines (s @ LF # t) = s # split_lines t"
  by (induction s) auto

lemma one_line_append [simp]: "one_line (s @ t) \<longleftrightarrow> one_line s \<and> one_line t"
  by (auto simp: one_line_def)

lemma extract_payload:
  assumes "one_line p"
  shows "extractSseData (''data: '' @ p @ [LF, LF]) = Some p"
proof -
  have "split_lines ((''data: '' @ p) @ LF # [LF]) = (''data: '' @ p) # split_lines [LF]"
    using assms by (intro split_lines_one) simp
  then have "split_lines (''data: '' @ p @ [LF, LF]) = [''data: '' @ p, [], []]" by simp
  then show ?thesis by (simp add: extractSseData_def data_line_def starts_with_def map_filter_simps)
qed

lemma squash_one_line: "one_line (squash_breaks s)"
proof (induction s)
  case (Cons c s)
  then show ?case
    by (subst squash_breaks.simps) (simp del: squash_breaks.simps split: list.split)
qed simp

lemma comment_no_data: "extractSseData (encodeSseComment c) = None"
proof -
  have "split_lines (('': '' @ squash_breaks c) @ LF # [LF]) = ('': '' @ squash_breaks c) # split_lines [LF]"
    by (intro split_lines_one) (simp add: squash_one_line)
  then have "split_lines (encodeSseComment c) = ['': '' @ squash_breaks c, [], []]"
    by (simp add: encodeSseComment_def)
  then show ?thesis by (simp add: extractSseData_def data_line_def starts_with_def map_filter_simps)
qed

end
