(* ===== verification/Conversation.thy ===== *)
theory Conversation
  imports JsText JsMap JsSort SessionEvents
begin

text \<open>
  The conversation view's state machine (apps/web/components/chat/conversation-state.ts):
  the persisted rows, the live tail, and the reducer over user actions, the events of the
  active POST stream and the events of the session channel. \<open>Date.parse\<close>, whose value on
  texts outside the ISO format the language leaves to the host, is the argument \<open>ms\<close> (no
  value stands for NaN). A field that may be null or absent is an option: the reducer never
  tells the two apart. The module counters \<open>mediaKeySeq\<close> and \<open>shimmerSeq\<close> are two more
  fields of the state. The fields of a message that the reducer never reads (tool calls,
  reactions, the embedded sender) are left out.
\<close>

section \<open>Data\<close>

record attachment =
  at_url :: string
  at_mime :: "string option"
  at_creationId :: "string option"
  at_width :: "int option"
  at_height :: "int option"
  at_durationMs :: "int option"
  at_voiceExecutionId :: "string option"

record message_dto =
  md_id :: string
  md_externalId :: "string option"
  md_sessionId :: string
  md_senderId :: "string option"
  md_role :: "string option"
  md_content :: "string option"
  md_attachments :: "attachment list"
  md_createdAt :: string

record composer_attachment =
  cp_objectId :: string
  cp_attachment :: attachment

datatype stream_phase = Streaming | Done | Stopped | Failed

record user_echo_item =
  ue_clientId :: string
  ue_content :: string
  ue_attachments :: "attachment list"
  ue_at :: string

record assistant_stream_item =
  as_clientId :: string
  as_turnId :: "string option"
  as_messageId :: "string option"
  as_text :: string
  as_phase :: stream_phase
  as_remote :: bool
  as_at :: string

record media_pending_item =
  mp_clientId :: string
  mp_tool :: string
  mp_at :: string

record media_item =
  mi_clientId :: string
  mi_messageId :: string
  mi_attachments :: "attachment list"
  mi_at :: string

record error_item =
  er_clientId :: string
  er_code :: string
  er_message :: string
  er_retryContent :: "string option"
  er_retryAttachments :: "composer_attachment list"
  er_at :: string

datatype local_item =
    UserEcho user_echo_item
  | AssistantStream assistant_stream_item
  | MediaPending media_pending_item
  | MediaBubble media_item
  | ErrorRow error_item

fun clientId :: "local_item \<Rightarrow> string" where
  "clientId (UserEcho i) = ue_clientId i"
| "clientId (AssistantStream i) = as_clientId i"
| "clientId (MediaPending i) = mp_clientId i"
| "clientId (MediaBubble i) = mi_clientId i"
| "clientId (ErrorRow i) = er_clientId i"

record conversation_state =
  serverMessages :: "message_dto list"
  olderCursor :: "string option"
  historyLoaded :: bool
  local_items :: "local_item list"
  seenMedia :: "string list"
  activeStreamId :: "string option"
  mediaKeySeq :: nat
  shimmerSeq :: nat

definition initialConversationState :: "nat \<Rightarrow> nat \<Rightarrow> conversation_state" where
  "initialConversationState mediaSeq pendingSeq =
     \<lparr>serverMessages = [], olderCursor = None, historyLoaded = False, local_items = [],
      seenMedia = [], activeStreamId = None, mediaKeySeq = mediaSeq, shimmerSeq = pendingSeq\<rparr>"

datatype history_position = HistoryInit | HistoryOlder | HistoryRefresh

text \<open>
  The arguments are those of the code's actions, in the order: \<open>HistoryMerge\<close> messages
  olderCursor position, \<open>Send\<close> clientId content attachments at, \<open>Adopt\<close> clientId content
  text turnId at, \<open>StreamEvent\<close> clientId event retryContent retryAttachments at,
  \<open>StreamFailed\<close> clientId code message retryContent retryAttachments at,
  \<open>PendingReconcile\<close> the tools with their times, \<open>ChannelEvent\<close> event at.
\<close>

datatype conversation_action =
    HistoryMerge "message_dto list" "string option" history_position
  | Send string string "attachment list" string
  | Adopt string string string "string option" string
  | StreamEvent string session_event "string option" "composer_attachment list" string
  | StreamAborted string
  | SendRejected string
  | StreamFailed string string string "string option" "composer_attachment list" string
  | PendingReconcile "(string \<times> string) list"
  | StreamFinished string
  | ChannelEvent session_event string
  | ErrorDismiss string

section \<open>Helpers\<close>

definition echoClientId :: "string \<Rightarrow> string" where
  "echoClientId streamClientId = streamClientId @ '':echo''"

definition messageOrder :: "(string \<Rightarrow> int option) \<Rightarrow> message_dto \<Rightarrow> message_dto \<Rightarrow> int" where
  "messageOrder ms a b =
     (case (ms (md_createdAt a), ms (md_createdAt b)) of
        (Some x, Some y) \<Rightarrow>
          if x \<noteq> y then x - y
          else if md_id a < md_id b then - 1 else if md_id b < md_id a then 1 else 0
      | _ \<Rightarrow> 0)"

definition mergeMessages ::
  "(string \<Rightarrow> int option) \<Rightarrow> message_dto list \<Rightarrow> message_dto list \<Rightarrow> message_dto list" where
  "mergeMessages ms existing incoming =
     (let byId = fold (\<lambda>m. map_set (md_id m) m) existing [];
          byId' = fold (\<lambda>m. map_set (md_id m) m) incoming byId
      in js_sort (messageOrder ms) (map snd byId'))"

fun is_stream :: "(assistant_stream_item \<Rightarrow> bool) \<Rightarrow> local_item \<Rightarrow> bool" where
  "is_stream p (AssistantStream i) = p i"
| "is_stream p _ = False"

fun on_stream :: "(assistant_stream_item \<Rightarrow> assistant_stream_item) \<Rightarrow> local_item \<Rightarrow> local_item" where
  "on_stream f (AssistantStream i) = AssistantStream (f i)"
| "on_stream f x = x"

definition hasLocalTurn :: "conversation_state \<Rightarrow> string \<Rightarrow> bool" where
  "hasLocalTurn s turnId =
     list_ex (is_stream (\<lambda>i. \<not> as_remote i \<and> as_turnId i = Some turnId)) (local_items s)"

definition updateStream ::
  "conversation_state \<Rightarrow> (assistant_stream_item \<Rightarrow> bool)
     \<Rightarrow> (assistant_stream_item \<Rightarrow> assistant_stream_item) \<Rightarrow> conversation_state" where
  "updateStream s match upd =
     s\<lparr>local_items := update_first (is_stream match) (on_stream upd) (local_items s)\<rparr>"

text \<open>Whether \<open>updateStream\<close> returned another object than its argument.\<close>

definition touches :: "conversation_state \<Rightarrow> (assistant_stream_item \<Rightarrow> bool) \<Rightarrow> bool" where
  "touches s match = list_ex (is_stream match) (local_items s)"

definition pruneEmptyStream :: "conversation_state \<Rightarrow> conversation_state" where
  "pruneEmptyStream s =
     s\<lparr>local_items := filter (\<lambda>x. \<not> is_stream (\<lambda>i. as_text i = [] \<and>
        (as_phase i = Failed \<or> as_phase i = Stopped)) x) (local_items s)\<rparr>"

definition ECHO_MATCH_WINDOW_MS :: int where
  "ECHO_MATCH_WINDOW_MS = 10 * 60000"

text \<open>\<open>Math.abs(Date.parse(a) - Date.parse(b)) < ECHO_MATCH_WINDOW_MS\<close>.\<close>

definition close_in_time :: "(string \<Rightarrow> int option) \<Rightarrow> string \<Rightarrow> string \<Rightarrow> bool" where
  "close_in_time ms a b =
     (case (ms a, ms b) of (Some x, Some y) \<Rightarrow> \<bar>x - y\<bar> < ECHO_MATCH_WINDOW_MS | _ \<Rightarrow> False)"

definition content_of :: "message_dto \<Rightarrow> string" where
  "content_of m = (case md_content m of None \<Rightarrow> [] | Some c \<Rightarrow> c)"

definition persisted_creations :: "conversation_state \<Rightarrow> string set" where
  "persisted_creations s =
     set (concat (map (\<lambda>m. List.map_filter at_creationId (md_attachments m)) (serverMessages s)))"

text \<open>Whether the server now owns a local item.\<close>

fun server_owns :: "(string \<Rightarrow> int option) \<Rightarrow> conversation_state \<Rightarrow> local_item \<Rightarrow> bool" where
  "server_owns ms s (AssistantStream i) =
     ((as_phase i \<noteq> Streaming \<and> as_messageId i \<noteq> None \<and>
         the (as_messageId i) \<in> set (map md_id (serverMessages s))) \<or>
      ((as_phase i = Stopped \<or> as_phase i = Failed) \<and> as_text i \<noteq> [] \<and>
         list_ex (\<lambda>m. md_role m \<noteq> Some ''user'' \<and> starts_with (content_of m) (as_text i) \<and>
            close_in_time ms (md_createdAt m) (as_at i)) (serverMessages s)))"
| "server_owns ms s (MediaBubble i) =
     (mi_messageId i \<in> set (map md_id (serverMessages s)) \<or>
      list_ex (\<lambda>a. case at_creationId a of
          None \<Rightarrow> False
        | Some c \<Rightarrow> c \<noteq> [] \<and> c \<in> persisted_creations s) (mi_attachments i))"
| "server_owns ms s (UserEcho i) =
     list_ex (\<lambda>m. md_role m = Some ''user'' \<and> content_of m = ue_content i \<and>
       close_in_time ms (md_createdAt m) (ue_at i)) (serverMessages s)"
| "server_owns ms s _ = False"

definition reconcile :: "(string \<Rightarrow> int option) \<Rightarrow> conversation_state \<Rightarrow> conversation_state" where
  "reconcile ms s = s\<lparr>local_items := filter (\<lambda>x. \<not> server_owns ms s x) (local_items s)\<rparr>"

fun is_media :: "(media_item \<Rightarrow> bool) \<Rightarrow> local_item \<Rightarrow> bool" where
  "is_media p (MediaBubble i) = p i"
| "is_media p _ = False"

fun is_pending :: "(media_pending_item \<Rightarrow> bool) \<Rightarrow> local_item \<Rightarrow> bool" where
  "is_pending p (MediaPending i) = p i"
| "is_pending p _ = False"

fun is_error :: "(error_item \<Rightarrow> bool) \<Rightarrow> local_item \<Rightarrow> bool" where
  "is_error p (ErrorRow i) = p i"
| "is_error p _ = False"

definition carries :: "string \<Rightarrow> attachment list \<Rightarrow> bool" where
  "carries c as = list_ex (\<lambda>a. at_creationId a = Some c) as"

definition creationOnScreen :: "conversation_state \<Rightarrow> string \<Rightarrow> bool" where
  "creationOnScreen s c \<longleftrightarrow>
     list_ex (is_media (\<lambda>i. carries c (mi_attachments i))) (local_items s) \<or>
     list_ex (\<lambda>m. carries c (md_attachments m)) (serverMessages s)"

definition event_attachment :: "media_attached \<Rightarrow> attachment" where
  "event_attachment e =
     \<lparr>at_url = ma_url e, at_mime = Some (ma_mime e), at_creationId = Some (ma_creationId e),
      at_width = ma_width e, at_height = ma_height e, at_durationMs = None, at_voiceExecutionId = None\<rparr>"

text \<open>The attachments of a row or bubble with the one of the event, unless it has it already.\<close>

definition attach_once :: "media_attached \<Rightarrow> attachment list \<Rightarrow> attachment list" where
  "attach_once e as =
     (if list_ex (\<lambda>a. at_url a = ma_url e \<or> at_creationId a = Some (ma_creationId e)) as then as
      else as @ [event_attachment e])"

definition media_key :: "media_attached \<Rightarrow> string" where
  "media_key e = ma_messageId e @ '':'' @ ma_creationId e"

fun on_media :: "(media_item \<Rightarrow> media_item) \<Rightarrow> local_item \<Rightarrow> local_item" where
  "on_media f (MediaBubble i) = MediaBubble (f i)"
| "on_media f x = x"

definition applyMediaAttached :: "conversation_state \<Rightarrow> media_attached \<Rightarrow> string \<Rightarrow> conversation_state" where
  "applyMediaAttached s e time =
     (if media_key e \<in> set (seenMedia s) then s
      else
        (let s1 = s\<lparr>seenMedia := seenMedia s @ [media_key e]\<rparr>
         in if creationOnScreen s (ma_creationId e) then s1
            else
              (let s2 = s1\<lparr>local_items := drop_first (is_pending (\<lambda>_. True)) (local_items s1)\<rparr>;
                   row = (\<lambda>m. md_id m = ma_messageId e \<or> carries (ma_creationId e) (md_attachments m));
                   bubble = is_media (\<lambda>i. mi_messageId i = ma_messageId e \<or>
                     carries (ma_creationId e) (mi_attachments i))
               in if list_ex row (serverMessages s2) then
                    s2\<lparr>serverMessages := update_first row
                      (\<lambda>m. m\<lparr>md_attachments := attach_once e (md_attachments m)\<rparr>) (serverMessages s2)\<rparr>
                  else if list_ex bubble (local_items s2) then
                    s2\<lparr>local_items := update_first bubble
                      (on_media (\<lambda>i. i\<lparr>mi_attachments := attach_once e (mi_attachments i)\<rparr>)) (local_items s2)\<rparr>
                  else
                    s2\<lparr>mediaKeySeq := mediaKeySeq s2 + 1,
                       local_items := local_items s2 @ [MediaBubble
                         \<lparr>mi_clientId = ''media:'' @ ma_creationId e @ '':'' @ show_nat (mediaKeySeq s2 + 1),
                          mi_messageId = ma_messageId e, mi_attachments = [event_attachment e],
                          mi_at = time\<rparr>]\<rparr>)))"

definition appendShimmer :: "conversation_state \<Rightarrow> string \<Rightarrow> string \<Rightarrow> conversation_state" where
  "appendShimmer s tool time =
     (if list_ex (is_pending (\<lambda>i. mp_tool i = tool \<or> mp_tool i = ''unknown'' \<or> tool = ''unknown''))
           (local_items s) then s
      else s\<lparr>shimmerSeq := shimmerSeq s + 1,
             local_items := local_items s @ [MediaPending
               \<lparr>mp_clientId = ''pending:'' @ show_nat (shimmerSeq s + 1), mp_tool = tool, mp_at = time\<rparr>]\<rparr>)"

definition appendError :: "conversation_state \<Rightarrow> error_item \<Rightarrow> conversation_state" where
  "appendError s e =
     (if list_ex (is_error (\<lambda>i. er_clientId i = er_clientId e)) (local_items s) then s
      else s\<lparr>local_items := local_items s @ [ErrorRow e]\<rparr>)"

definition applyMediaFailed ::
  "conversation_state \<Rightarrow> string \<Rightarrow> string \<Rightarrow> string \<Rightarrow> string \<Rightarrow> string \<Rightarrow> conversation_state" where
  "applyMediaFailed s sessionId tool code msg time =
     appendError
       (s\<lparr>local_items := drop_first (is_pending (\<lambda>i. mp_tool i = tool \<or> mp_tool i = ''unknown''))
            (local_items s)\<rparr>)
       \<lparr>er_clientId = ''error:media:'' @ sessionId @ '':'' @ tool @ '':'' @ code,
        er_code = code, er_message = msg, er_retryContent = None, er_retryAttachments = [], er_at = time\<rparr>"

section \<open>Reducer\<close>

definition append_turn ::
  "conversation_state \<Rightarrow> string \<Rightarrow> string \<Rightarrow> attachment list \<Rightarrow> string option \<Rightarrow> string \<Rightarrow> string
     \<Rightarrow> conversation_state" where
  "append_turn s cid content atts turnId text time =
     s\<lparr>local_items := local_items s @
         [UserEcho \<lparr>ue_clientId = echoClientId cid, ue_content = content, ue_attachments = atts, ue_at = time\<rparr>,
          AssistantStream \<lparr>as_clientId = cid, as_turnId = turnId, as_messageId = None, as_text = text,
            as_phase = Streaming, as_remote = False, as_at = time\<rparr>],
       activeStreamId := Some cid\<rparr>"

definition remote_bubble :: "string \<Rightarrow> string \<Rightarrow> string \<Rightarrow> local_item" where
  "remote_bubble turnId text time =
     AssistantStream \<lparr>as_clientId = ''remote:'' @ turnId, as_turnId = Some turnId, as_messageId = None,
       as_text = text, as_phase = Streaming, as_remote = True, as_at = time\<rparr>"

fun stream_event ::
  "conversation_state \<Rightarrow> string \<Rightarrow> session_event \<Rightarrow> string option \<Rightarrow> composer_attachment list \<Rightarrow> string
     \<Rightarrow> conversation_state" where
  "stream_event s cid (TurnStarted _ turn) rc ra time =
     (let claimed = updateStream s (\<lambda>i. as_clientId i = cid) (\<lambda>i. i\<lparr>as_turnId := Some turn\<rparr>)
      in claimed\<lparr>local_items := filter (\<lambda>x. \<not> is_stream (\<lambda>i. as_remote i \<and> as_turnId i = Some turn) x)
           (local_items claimed)\<rparr>)"
| "stream_event s cid (Token _ delta) rc ra time =
     updateStream s (\<lambda>i. as_clientId i = cid) (\<lambda>i. i\<lparr>as_text := as_text i @ delta\<rparr>)"
| "stream_event s cid (TurnCompleted _ message _) rc ra time =
     updateStream s (\<lambda>i. as_clientId i = cid) (\<lambda>i. i\<lparr>as_phase := Done, as_messageId := Some message\<rparr>)"
| "stream_event s cid (MediaPendingEv _ tool) rc ra time = appendShimmer s tool time"
| "stream_event s cid (MediaAttached e) rc ra time = applyMediaAttached s e time"
| "stream_event s cid (MediaFailed session tool code msg) rc ra time = applyMediaFailed s session tool code msg time"
| "stream_event s cid (ErrorEv _ code msg) rc ra time =
     appendError
       (pruneEmptyStream (updateStream s (\<lambda>i. as_clientId i = cid) (\<lambda>i. i\<lparr>as_phase := Failed\<rparr>)))
       \<lparr>er_clientId = ''error:'' @ cid @ '':'' @ code, er_code = code, er_message = msg,
        er_retryContent = rc, er_retryAttachments = ra, er_at = time\<rparr>"
| "stream_event s cid _ rc ra time = s"

fun channel_event :: "conversation_state \<Rightarrow> session_event \<Rightarrow> string \<Rightarrow> conversation_state" where
  "channel_event s (TurnStarted _ turn) time =
     (if hasLocalTurn s turn then s
      else if list_ex (is_stream (\<lambda>i. as_turnId i = Some turn)) (local_items s) then s
      else s\<lparr>local_items := local_items s @ [remote_bubble turn [] time]\<rparr>)"
| "channel_event s (Token turn delta) time =
     (if hasLocalTurn s turn then s
      else if touches s (\<lambda>i. as_remote i \<and> as_turnId i = Some turn) then
        updateStream s (\<lambda>i. as_remote i \<and> as_turnId i = Some turn) (\<lambda>i. i\<lparr>as_text := as_text i @ delta\<rparr>)
      else s\<lparr>local_items := local_items s @ [remote_bubble turn delta time]\<rparr>)"
| "channel_event s (TurnCompleted turn message _) time =
     (if hasLocalTurn s turn then s
      else updateStream s (\<lambda>i. as_remote i \<and> as_turnId i = Some turn)
             (\<lambda>i. i\<lparr>as_phase := Done, as_messageId := Some message\<rparr>))"
| "channel_event s (MediaPendingEv _ tool) time = appendShimmer s tool time"
| "channel_event s (MediaAttached e) time = applyMediaAttached s e time"
| "channel_event s (MediaFailed session tool code msg) time = applyMediaFailed s session tool code msg time"
| "channel_event s (ErrorEv turnId code msg) time =
     (let scoped = (turnId \<noteq> None \<and> turnId \<noteq> Some [])
      in if scoped \<and> hasLocalTurn s (the turnId) then s
         else
           appendError
             (if scoped then
                pruneEmptyStream (updateStream s (\<lambda>i. as_remote i \<and> as_turnId i = turnId)
                  (\<lambda>i. i\<lparr>as_phase := Failed\<rparr>))
              else s)
             \<lparr>er_clientId = ''error:channel:'' @
                (case turnId of None \<Rightarrow> ''session'' | Some t \<Rightarrow> t) @ '':'' @ code,
              er_code = code, er_message = msg, er_retryContent = None, er_retryAttachments = [],
              er_at = time\<rparr>)"
| "channel_event s _ time = s"

fun conversationReducer ::
  "(string \<Rightarrow> int option) \<Rightarrow> conversation_state \<Rightarrow> conversation_action \<Rightarrow> conversation_state" where
  "conversationReducer ms s (PendingReconcile pending) =
     fold (\<lambda>(tool, createdAt) st. appendShimmer st tool createdAt) pending
       (s\<lparr>local_items := filter (\<lambda>x. \<not> is_pending (\<lambda>_. True) x) (local_items s)\<rparr>)"
| "conversationReducer ms s (HistoryMerge msgs cursor pos) =
     reconcile ms
       (s\<lparr>serverMessages := mergeMessages ms (if pos = HistoryInit then [] else serverMessages s) msgs,
          olderCursor := (if pos = HistoryRefresh then olderCursor s else cursor),
          historyLoaded := True\<rparr>)"
| "conversationReducer ms s (Send cid content atts time) = append_turn s cid content atts None [] time"
| "conversationReducer ms s (Adopt cid content text turnId time) = append_turn s cid content [] turnId text time"
| "conversationReducer ms s (StreamEvent cid e rc ra time) = stream_event s cid e rc ra time"
| "conversationReducer ms s (StreamAborted cid) =
     pruneEmptyStream (updateStream s (\<lambda>i. as_clientId i = cid \<and> as_phase i = Streaming)
       (\<lambda>i. i\<lparr>as_phase := Stopped\<rparr>))"
| "conversationReducer ms s (SendRejected cid) =
     s\<lparr>local_items := filter (\<lambda>x. clientId x \<noteq> cid \<and> clientId x \<noteq> echoClientId cid) (local_items s),
       activeStreamId := (if activeStreamId s = Some cid then None else activeStreamId s)\<rparr>"
| "conversationReducer ms s (StreamFailed cid code msg rc ra time) =
     appendError
       (pruneEmptyStream (updateStream s (\<lambda>i. as_clientId i = cid \<and> as_phase i = Streaming)
         (\<lambda>i. i\<lparr>as_phase := Failed\<rparr>)))
       \<lparr>er_clientId = ''error:'' @ cid @ '':'' @ code, er_code = code, er_message = msg,
        er_retryContent = rc, er_retryAttachments = ra, er_at = time\<rparr>"
| "conversationReducer ms s (StreamFinished cid) =
     (let finished = updateStream s (\<lambda>i. as_clientId i = cid \<and> as_phase i = Streaming)
            (\<lambda>i. i\<lparr>as_phase := Done\<rparr>)
      in if activeStreamId finished = Some cid then finished\<lparr>activeStreamId := None\<rparr> else finished)"
| "conversationReducer ms s (ChannelEvent e time) = channel_event s e time"
| "conversationReducer ms s (ErrorDismiss cid) =
     s\<lparr>local_items := filter (\<lambda>x. \<not> is_error (\<lambda>i. er_clientId i = cid) x) (local_items s)\<rparr>"

end
