(* ===== verification/ConversationFacts.thy ===== *)
theory ConversationFacts
  imports Conversation
begin

text \<open>
  What each operation of the conversation reducer does to the parts of the state that the
  well-formedness \<open>conversation_ok\<close> is about, and that every action keeps it.
\<close>

section \<open>Projections of the live tail\<close>

fun remote_turn :: "local_item \<Rightarrow> string option" where
  "remote_turn (AssistantStream i) = (if as_remote i then as_turnId i else None)"
| "remote_turn _ = None"

fun pending_tool :: "local_item \<Rightarrow> string option" where
  "pending_tool (MediaPending i) = Some (mp_tool i)"
| "pending_tool _ = None"

fun error_id :: "local_item \<Rightarrow> string option" where
  "error_id (ErrorRow i) = Some (er_clientId i)"
| "error_id _ = None"

fun remote_named :: "local_item \<Rightarrow> bool" where
  "remote_named (AssistantStream i) =
     (as_remote i \<longrightarrow> (\<exists>t. as_turnId i = Some t \<and> as_clientId i = ''remote:'' @ t))"
| "remote_named _ = True"

lemma map_filter_in: "y \<in> set (List.map_filter f xs) \<longleftrightarrow> (\<exists>x \<in> set xs. f x = Some y)"
  by (induction xs) (auto simp: map_filter_simps split: option.splits)

lemma distinct_map_filter_filter:
  "distinct (List.map_filter f xs) \<Longrightarrow> distinct (List.map_filter f (filter p xs))"
  by (induction xs) (auto simp: map_filter_simps map_filter_in split: option.splits)

lemma map_filter_filter_keep:
  "(\<And>x. \<not> p x \<Longrightarrow> f x = None) \<Longrightarrow> List.map_filter f (filter p xs) = List.map_filter f xs"
  by (induction xs) (auto simp: map_filter_simps split: option.splits)

lemma map_filter_update_first:
  "(\<And>x. x \<in> set xs \<Longrightarrow> p x \<Longrightarrow> f (g x) = f x) \<Longrightarrow>
     List.map_filter f (update_first p g xs) = List.map_filter f xs"
  by (induction xs) (auto simp: map_filter_simps split: option.splits)

lemma distinct_map_filter_drop_first:
  "distinct (List.map_filter f xs) \<Longrightarrow> distinct (List.map_filter f (drop_first p xs))"
  by (induction xs)
    (auto simp: map_filter_simps map_filter_in split: option.splits dest: set_drop_first [THEN subsetD])

lemma map_filter_drop_first_keep:
  "(\<And>x. p x \<Longrightarrow> f x = None) \<Longrightarrow> List.map_filter f (drop_first p xs) = List.map_filter f xs"
  by (induction xs) (auto simp: map_filter_simps split: option.splits)

lemma map_filter_append [simp]: "List.map_filter f (xs @ ys) = List.map_filter f xs @ List.map_filter f ys"
  by (induction xs) (auto simp: map_filter_simps split: option.splits)

lemma map_filter_Nil [simp]: "List.map_filter f [] = []"
  by (simp add: map_filter_simps)

lemma map_filter_single [simp]: "List.map_filter f [x] = (case f x of None \<Rightarrow> [] | Some y \<Rightarrow> [y])"
  by (simp add: map_filter_simps split: option.split)

lemma is_streamE: "is_stream p x \<Longrightarrow> (\<And>i. x = AssistantStream i \<Longrightarrow> p i \<Longrightarrow> thesis) \<Longrightarrow> thesis"
  by (cases x) auto

lemma is_pendingE: "is_pending p x \<Longrightarrow> (\<And>i. x = MediaPending i \<Longrightarrow> p i \<Longrightarrow> thesis) \<Longrightarrow> thesis"
  by (cases x) auto

lemma is_mediaE: "is_media p x \<Longrightarrow> (\<And>i. x = MediaBubble i \<Longrightarrow> p i \<Longrightarrow> thesis) \<Longrightarrow> thesis"
  by (cases x) auto

lemma is_errorE: "is_error p x \<Longrightarrow> (\<And>i. x = ErrorRow i \<Longrightarrow> p i \<Longrightarrow> thesis) \<Longrightarrow> thesis"
  by (cases x) auto

section \<open>Well-formed tails\<close>

text \<open>
  One remote bubble per turn, named after it; one shimmer per tool, and a shimmer of an
  unknown tool only on its own; one error row per identity.
\<close>

definition shimmers_ok :: "string list \<Rightarrow> bool" where
  "shimmers_ok tools \<longleftrightarrow> distinct tools \<and> (''unknown'' \<in> set tools \<longrightarrow> tools = [''unknown''])"

definition tail_ok :: "local_item list \<Rightarrow> bool" where
  "tail_ok xs \<longleftrightarrow>
     distinct (List.map_filter remote_turn xs) \<and> list_all remote_named xs \<and>
     shimmers_ok (List.map_filter pending_tool xs) \<and>
     distinct (List.map_filter error_id xs)"

lemma shimmers_ok_sub:
  assumes "shimmers_ok ts" "distinct us" "set us \<subseteq> set ts"
  shows "shimmers_ok us"
proof (cases "''unknown'' \<in> set us")
  case True
  then have "ts = [''unknown'']" using assms(1,3) by (auto simp: shimmers_ok_def)
  then have "set us = {''unknown''}" using True assms(3) by auto
  then have "us = [''unknown'']" using assms(2)
    by (metis distinct.simps(2) distinct_length_2_or_more insertI1 list.exhaust list.set(1) list.set_intros(1)
        list.set_intros(2) insert_not_empty singletonD)
  then show ?thesis by (simp add: shimmers_ok_def)
qed (use assms(2) in \<open>simp add: shimmers_ok_def\<close>)

lemma tail_ok_filter:
  assumes "tail_ok xs"
  shows "tail_ok (filter p xs)"
proof -
  have "shimmers_ok (List.map_filter pending_tool (filter p xs))"
  proof (rule shimmers_ok_sub)
    show "shimmers_ok (List.map_filter pending_tool xs)" using assms by (simp add: tail_ok_def)
    show "distinct (List.map_filter pending_tool (filter p xs))"
      using assms by (simp add: tail_ok_def shimmers_ok_def distinct_map_filter_filter)
    show "set (List.map_filter pending_tool (filter p xs)) \<subseteq> set (List.map_filter pending_tool xs)"
      by (auto simp: map_filter_in)
  qed
  then show ?thesis using assms by (simp add: tail_ok_def distinct_map_filter_filter list_all_iff)
qed

lemma tail_ok_drop_first:
  assumes "tail_ok xs"
  shows "tail_ok (drop_first p xs)"
proof -
  have "shimmers_ok (List.map_filter pending_tool (drop_first p xs))"
  proof (rule shimmers_ok_sub)
    show "shimmers_ok (List.map_filter pending_tool xs)" using assms by (simp add: tail_ok_def)
    show "distinct (List.map_filter pending_tool (drop_first p xs))"
      using assms by (simp add: tail_ok_def shimmers_ok_def distinct_map_filter_drop_first)
    show "set (List.map_filter pending_tool (drop_first p xs)) \<subseteq> set (List.map_filter pending_tool xs)"
      using set_drop_first [of p xs] by (fastforce simp: map_filter_in)
  qed
  then show ?thesis using assms
    by (auto simp: tail_ok_def distinct_map_filter_drop_first list_all_iff dest: set_drop_first [THEN subsetD])
qed

lemma tail_ok_update_first:
  assumes "tail_ok xs"
    and "\<And>x. x \<in> set xs \<Longrightarrow> p x \<Longrightarrow> remote_turn (f x) = remote_turn x \<and> pending_tool (f x) = pending_tool x \<and> error_id (f x) = error_id x"
    and "\<And>x. x \<in> set xs \<Longrightarrow> p x \<Longrightarrow> remote_named x \<Longrightarrow> remote_named (f x)"
  shows "tail_ok (update_first p f xs)"
proof -
  have "list_all remote_named (update_first p f xs)"
    using assms(1,3) set_update_first [of p f xs] by (fastforce simp: tail_ok_def list_all_iff)
  then show ?thesis using assms(1,2) by (simp add: tail_ok_def map_filter_update_first)
qed

lemma tail_ok_append_plain:
  "tail_ok xs \<Longrightarrow> remote_turn x = None \<Longrightarrow> pending_tool x = None \<Longrightarrow> error_id x = None \<Longrightarrow> remote_named x
     \<Longrightarrow> tail_ok (xs @ [x])"
  by (simp add: tail_ok_def)

lemma tail_ok_update_stream:
  assumes "tail_ok (local_items s)"
    and "\<And>i. as_remote (f i) = as_remote i \<and> as_turnId (f i) = as_turnId i \<and> as_clientId (f i) = as_clientId i"
  shows "tail_ok (local_items (updateStream s p f))"
proof -
  have "tail_ok (update_first (is_stream p) (on_stream f) (local_items s))"
    using assms by (intro tail_ok_update_first) (auto elim!: is_streamE)
  then show ?thesis by (simp add: updateStream_def)
qed

section \<open>Operations on the tail\<close>

lemma tail_ok_prune: "tail_ok (local_items s) \<Longrightarrow> tail_ok (local_items (pruneEmptyStream s))"
  by (simp add: pruneEmptyStream_def tail_ok_filter)

lemma tail_ok_error: "tail_ok (local_items s) \<Longrightarrow> tail_ok (local_items (appendError s e))"
  by (auto simp: appendError_def tail_ok_def list_ex_iff map_filter_in elim!: error_id.elims)

lemma tail_ok_shimmer: "tail_ok (local_items s) \<Longrightarrow> tail_ok (local_items (appendShimmer s tool time))"
proof -
  assume ok: "tail_ok (local_items s)"
  let ?ts = "List.map_filter pending_tool (local_items s)"
  have pend: "list_ex (is_pending q) (local_items s) \<longleftrightarrow> (\<exists>i. MediaPending i \<in> set (local_items s) \<and> q i)" for q
    by (force simp: list_ex_iff elim!: is_pendingE)
  have tools: "t \<in> set ?ts \<longleftrightarrow> (\<exists>i. MediaPending i \<in> set (local_items s) \<and> mp_tool i = t)" for t
    by (auto simp: map_filter_in elim!: pending_tool.elims) force
  show ?thesis
  proof (cases "list_ex (is_pending (\<lambda>i. mp_tool i = tool \<or> mp_tool i = ''unknown'' \<or> tool = ''unknown'')) (local_items s)")
    case False
    then have "tool \<notin> set ?ts" "''unknown'' \<notin> set ?ts" "tool = ''unknown'' \<longrightarrow> ?ts = []"
      unfolding pend using tools by (auto, metis list.set_intros(1) list.exhaust)
    then have "shimmers_ok (?ts @ [tool])" using ok by (auto simp: tail_ok_def shimmers_ok_def)
    then show ?thesis using False ok by (simp add: appendShimmer_def tail_ok_def)
  qed (use ok in \<open>simp add: appendShimmer_def\<close>)
qed

lemma tail_ok_media_failed:
  "tail_ok (local_items s) \<Longrightarrow> tail_ok (local_items (applyMediaFailed s ses tool code msg time))"
  unfolding applyMediaFailed_def by (rule tail_ok_error) (simp add: tail_ok_drop_first)

lemma tail_ok_media_attached:
  assumes "tail_ok (local_items s)"
  shows "tail_ok (local_items (applyMediaAttached s e time))"
proof -
  have "tail_ok (update_first (is_media p) (on_media f) xs)" if "tail_ok xs" for p f xs
    using that by (intro tail_ok_update_first) (auto elim!: is_mediaE)
  moreover have "tail_ok (drop_first p (local_items s))" for p using assms by (rule tail_ok_drop_first)
  ultimately show ?thesis using assms
    by (simp add: applyMediaAttached_def Let_def tail_ok_append_plain)
qed

lemma tail_ok_turn: "tail_ok (local_items s) \<Longrightarrow> tail_ok (local_items (append_turn s cid c a t x time))"
  by (simp add: append_turn_def tail_ok_def)

lemma tail_ok_remote:
  assumes "tail_ok xs" "turn \<notin> set (List.map_filter remote_turn xs)"
  shows "tail_ok (xs @ [remote_bubble turn text time])"
  using assms by (simp add: tail_ok_def remote_bubble_def)

lemma remote_turn_iff:
  "turn \<in> set (List.map_filter remote_turn xs) \<longleftrightarrow> list_ex (is_stream (\<lambda>i. as_remote i \<and> as_turnId i = Some turn)) xs"
proof -
  have "remote_turn x = Some turn \<longleftrightarrow> is_stream (\<lambda>i. as_remote i \<and> as_turnId i = Some turn) x" for x
    by (cases x) auto
  then show ?thesis by (simp add: map_filter_in list_ex_iff)
qed

section \<open>Persisted rows\<close>

definition rows_ok :: "(string \<Rightarrow> int option) \<Rightarrow> message_dto list \<Rightarrow> bool" where
  "rows_ok ms rows \<longleftrightarrow>
     distinct (map md_id rows) \<and> list_all (\<lambda>m. ms (md_createdAt m) \<noteq> None) rows \<and>
     ordered (messageOrder ms) rows"

lemma messageOrder_le:
  assumes "ms (md_createdAt a) = Some x" "ms (md_createdAt b) = Some y"
  shows "messageOrder ms a b \<le> 0 \<longleftrightarrow> x < y \<or> x = y \<and> md_id a \<le> md_id b"
  using assms by (auto simp: messageOrder_def)

lemma messageOrder_consistent:
  assumes "\<forall>m \<in> A. ms (md_createdAt m) \<noteq> None"
  shows "consistent (messageOrder ms) A"
proof -
  define t where "t m = the (ms (md_createdAt m))" for m :: message_dto
  have "messageOrder ms a b \<le> 0 \<longleftrightarrow> t a < t b \<or> t a = t b \<and> md_id a \<le> md_id b"
    if "a \<in> A" "b \<in> A" for a b
    using that assms by (intro messageOrder_le) (auto simp: t_def)
  then show ?thesis unfolding consistent_def by (smt (verit) order_trans linorder_linear)
qed

lemma ordered_same_keys:
  assumes "map (\<lambda>m. (md_id m, md_createdAt m)) rows = map (\<lambda>m. (md_id m, md_createdAt m)) rows'"
  shows "rows_ok ms rows \<longleftrightarrow> rows_ok ms rows'"
proof -
  let ?k = "\<lambda>m :: message_dto. (md_id m, md_createdAt m)"
  define le where "le p q \<longleftrightarrow> (case (ms (snd p), ms (snd q)) of
        (Some x, Some y) \<Rightarrow> if x \<noteq> y then x \<le> y else \<not> fst q < fst p
      | _ \<Rightarrow> True)" for p q :: "string \<times> string"
  have "(messageOrder ms a b \<le> 0) = le (?k a) (?k b)" for a b
    by (auto simp: le_def messageOrder_def split: option.split)
  then have "ordered (messageOrder ms) xs = sorted_wrt le (map ?k xs)" for xs
    unfolding ordered_def sorted_wrt_map by simp
  moreover have "map md_id rows = map md_id rows'" using arg_cong [OF assms, of "map fst"] by (simp add: comp_def)
  moreover have "list_all (\<lambda>m. ms (md_createdAt m) \<noteq> None) xs = list_all (\<lambda>p. ms (snd p) \<noteq> None) (map ?k xs)" for xs
    by (simp add: list.pred_map comp_def)
  ultimately show ?thesis unfolding rows_ok_def using assms by simp
qed

text \<open>The rows of a message list as a map by id, the last of several winning.\<close>

definition row_of :: "message_dto list \<Rightarrow> string \<Rightarrow> message_dto option" where
  "row_of rows k = map_of (map (\<lambda>m. (md_id m, m)) (rev rows)) k"

definition by_id :: "message_dto list \<Rightarrow> (string \<times> message_dto) list \<Rightarrow> (string \<times> message_dto) list" where
  "by_id rows m = fold (\<lambda>x. map_set (md_id x) x) rows m"

definition keyed :: "(string \<times> message_dto) list \<Rightarrow> bool" where
  "keyed m \<longleftrightarrow> map_ok m \<and> (\<forall>p \<in> set m. fst p = md_id (snd p))"

lemma set_map_set: "set (map_set k v m) \<subseteq> insert (k, v) (set m)"
  by (induction m) auto

lemma keyed_by_id: "keyed m \<Longrightarrow> keyed (by_id rows m)"
  unfolding by_id_def
proof (induction rows arbitrary: m)
  case (Cons r rows)
  have "keyed (map_set (md_id r) r m)"
    using Cons.prems set_map_set [of "md_id r" r m] unfolding keyed_def by fastforce
  with Cons.IH show ?case by simp
qed simp

lemma map_of_by_id: "map_of (by_id rows m) k = (case row_of rows k of Some v \<Rightarrow> Some v | None \<Rightarrow> map_of m k)"
proof (induction rows arbitrary: m)
  case (Cons r rows)
  then show ?case by (auto simp: by_id_def row_of_def map_add_def split: option.splits)
qed (simp add: by_id_def row_of_def)

lemma merge_by_id: "mergeMessages ms ex inc = js_sort (messageOrder ms) (map snd (by_id (ex @ inc) []))"
  by (simp add: mergeMessages_def by_id_def)

lemma keyed_ids: "keyed m \<Longrightarrow> map md_id (map snd m) = map fst m"
  by (auto simp: keyed_def)

lemma merged_rows: "m \<in> set (mergeMessages ms ex inc) \<longleftrightarrow> row_of (ex @ inc) (md_id m) = Some m"
proof -
  let ?b = "by_id (ex @ inc) []"
  have k: "keyed ?b" by (rule keyed_by_id) (simp add: keyed_def)
  have "m \<in> set (mergeMessages ms ex inc) \<longleftrightarrow> (md_id m, m) \<in> set ?b"
    using k by (force simp: merge_by_id keyed_def)
  also have "\<dots> \<longleftrightarrow> map_of ?b (md_id m) = Some m" using k by (simp add: keyed_def map_in_iff)
  also have "\<dots> \<longleftrightarrow> row_of (ex @ inc) (md_id m) = Some m"
    by (simp add: map_of_by_id split: option.split)
  finally show ?thesis .
qed

lemma row_of_in: "row_of rows k = Some m \<Longrightarrow> m \<in> set rows \<and> md_id m = k"
  by (auto simp: row_of_def dest!: map_of_SomeD)

lemma merged_ok:
  assumes "\<forall>m \<in> set ex \<union> set inc. ms (md_createdAt m) \<noteq> None"
  shows "rows_ok ms (mergeMessages ms ex inc)"
proof -
  let ?b = "by_id (ex @ inc) []"
  have k: "keyed ?b" by (rule keyed_by_id) (simp add: keyed_def)
  have "distinct (map md_id (mergeMessages ms ex inc))"
    unfolding merge_by_id distinct_map_js_sort keyed_ids [OF k] using k by (simp add: keyed_def map_ok_def)
  moreover have p: "\<forall>m \<in> set (mergeMessages ms ex inc). ms (md_createdAt m) \<noteq> None"
    using assms by (auto simp: merged_rows dest!: row_of_in)
  moreover have "ordered (messageOrder ms) (mergeMessages ms ex inc)"
    using p unfolding merge_by_id by (intro ordered_js_sort messageOrder_consistent) simp
  ultimately show ?thesis by (simp add: rows_ok_def list_all_iff)
qed

section \<open>The whole state\<close>

definition conversation_ok :: "(string \<Rightarrow> int option) \<Rightarrow> conversation_state \<Rightarrow> bool" where
  "conversation_ok ms s \<longleftrightarrow>
     rows_ok ms (serverMessages s) \<and> distinct (seenMedia s) \<and> tail_ok (local_items s)"

text \<open>
  The actions the view dispatches: fetched rows have a readable time stamp, and the client
  ids are UUIDs, so without a colon.
\<close>

fun action_ok :: "(string \<Rightarrow> int option) \<Rightarrow> conversation_action \<Rightarrow> bool" where
  "action_ok ms (HistoryMerge msgs _ _) = list_all (\<lambda>m. ms (md_createdAt m) \<noteq> None) msgs"
| "action_ok ms (StreamEvent cid _ _ _ _) = (CHR '':'' \<notin> set cid)"
| "action_ok ms _ = True"

lemma frame_simps_conversation [frame_simps]:
  "serverMessages (updateStream s p f) = serverMessages s" "seenMedia (updateStream s p f) = seenMedia s"
  "serverMessages (pruneEmptyStream s) = serverMessages s" "seenMedia (pruneEmptyStream s) = seenMedia s"
  "serverMessages (appendError s e) = serverMessages s" "seenMedia (appendError s e) = seenMedia s"
  "serverMessages (appendShimmer s tool tm) = serverMessages s" "seenMedia (appendShimmer s tool tm) = seenMedia s"
  "serverMessages (applyMediaFailed s ses tool code msg tm) = serverMessages s"
  "seenMedia (applyMediaFailed s ses tool code msg tm) = seenMedia s"
  "serverMessages (append_turn s cid c a t x tm) = serverMessages s"
  "seenMedia (append_turn s cid c a t x tm) = seenMedia s"
  by (simp_all add: updateStream_def pruneEmptyStream_def appendError_def appendShimmer_def
      applyMediaFailed_def append_turn_def)

lemma media_attached_ok:
  assumes "conversation_ok ms s"
  shows "conversation_ok ms (applyMediaAttached s e tm)"
proof -
  let ?s = "applyMediaAttached s e tm"
  have "map (\<lambda>m. (md_id m, md_createdAt m)) (serverMessages ?s) =
      map (\<lambda>m. (md_id m, md_createdAt m)) (serverMessages s)"
    by (simp add: applyMediaAttached_def Let_def map_update_first)
  from ordered_same_keys [OF this] have "rows_ok ms (serverMessages ?s)"
    using assms unfolding conversation_ok_def by blast
  moreover have "distinct (seenMedia ?s)"
    using assms by (simp add: applyMediaAttached_def Let_def conversation_ok_def)
  ultimately show ?thesis using assms tail_ok_media_attached by (simp add: conversation_ok_def)
qed

lemma claim_turn_ok:
  assumes "tail_ok (local_items s)" "CHR '':'' \<notin> set cid"
  shows "tail_ok (local_items (updateStream s (\<lambda>i. as_clientId i = cid) (\<lambda>i. i\<lparr>as_turnId := Some turn\<rparr>)))"
proof -
  have plain: "\<not> as_remote i" if "AssistantStream i \<in> set (local_items s)" "as_clientId i = cid" for i
  proof -
    have "remote_named (AssistantStream i)" using that(1) assms(1) by (auto simp: tail_ok_def list_all_iff)
    then show ?thesis using that(2) assms(2) by auto
  qed
  have "tail_ok (update_first (is_stream (\<lambda>i. as_clientId i = cid))
      (on_stream (\<lambda>i. i\<lparr>as_turnId := Some turn\<rparr>)) (local_items s))"
    using plain by (intro tail_ok_update_first assms(1)) (auto elim!: is_streamE)
  then show ?thesis by (simp add: updateStream_def)
qed

lemma stream_event_ok:
  assumes "conversation_ok ms s" "CHR '':'' \<notin> set cid"
  shows "conversation_ok ms (stream_event s cid e rc ra tm)"
proof (cases e)
  case (MediaAttached m)
  then show ?thesis using media_attached_ok [OF assms(1)] by simp
next
  case (TurnStarted ses turn)
  then show ?thesis using assms claim_turn_ok
    by (simp add: conversation_ok_def Let_def frame_simps tail_ok_filter)
qed (use assms in \<open>simp_all add: conversation_ok_def frame_simps tail_ok_update_stream tail_ok_prune
       tail_ok_error tail_ok_shimmer tail_ok_media_failed\<close>)

lemma channel_event_ok:
  assumes "conversation_ok ms s"
  shows "conversation_ok ms (channel_event s e tm)"
proof (cases e)
  case (MediaAttached m)
  then show ?thesis using media_attached_ok [OF assms] by simp
next
  case (TurnStarted ses turn)
  have "turn \<notin> set (List.map_filter remote_turn (local_items s))"
    if "\<not> list_ex (is_stream (\<lambda>i. as_turnId i = Some turn)) (local_items s)"
    using that by (auto simp: remote_turn_iff list_ex_iff elim!: is_streamE)
  then show ?thesis using assms TurnStarted by (simp add: conversation_ok_def tail_ok_remote)
next
  case (Token turn delta)
  then show ?thesis using assms
    by (simp add: conversation_ok_def frame_simps tail_ok_remote remote_turn_iff touches_def tail_ok_update_stream)
qed (use assms in \<open>simp_all add: conversation_ok_def Let_def frame_simps tail_ok_update_stream tail_ok_prune
       tail_ok_error tail_ok_shimmer tail_ok_media_failed\<close>)

lemma shimmers_fold_ok:
  "conversation_ok ms s \<Longrightarrow> conversation_ok ms (fold (\<lambda>(tool, tm) st. appendShimmer st tool tm) ps s)"
proof (induction ps arbitrary: s)
  case (Cons p ps)
  have "conversation_ok ms (appendShimmer s (fst p) (snd p))"
    using Cons.prems by (simp add: conversation_ok_def frame_simps tail_ok_shimmer)
  with Cons.IH show ?case by (simp add: case_prod_beta)
qed simp

lemma history_ok:
  assumes "conversation_ok ms s" "list_all (\<lambda>m. ms (md_createdAt m) \<noteq> None) msgs"
  shows "conversation_ok ms (conversationReducer ms s (HistoryMerge msgs c pos))"
proof -
  have "list_all (\<lambda>m. ms (md_createdAt m) \<noteq> None) (serverMessages s)"
    using assms(1) by (simp add: conversation_ok_def rows_ok_def)
  then have "rows_ok ms (mergeMessages ms (if pos = HistoryInit then [] else serverMessages s) msgs)"
    using assms(2) by (intro merged_ok) (auto simp: list_all_iff)
  then show ?thesis using assms(1) by (simp add: conversation_ok_def reconcile_def tail_ok_filter)
qed

lemma reducer_ok:
  assumes "conversation_ok ms s" "action_ok ms a"
  shows "conversation_ok ms (conversationReducer ms s a)"
proof (cases a)
  case (HistoryMerge msgs c pos)
  then show ?thesis using assms history_ok by simp
next
  case (StreamEvent cid e rc ra tm)
  then show ?thesis using assms stream_event_ok by simp
next
  case (ChannelEvent e tm)
  then show ?thesis using assms channel_event_ok by simp
next
  case (PendingReconcile ps)
  have "conversation_ok ms (s\<lparr>local_items := filter (\<lambda>x. \<not> is_pending (\<lambda>_. True) x) (local_items s)\<rparr>)"
    using assms(1) by (simp add: conversation_ok_def tail_ok_filter)
  then show ?thesis using PendingReconcile by (simp add: shimmers_fold_ok)
qed (use assms in \<open>simp_all add: conversation_ok_def Let_def frame_simps tail_ok_filter tail_ok_turn
       tail_ok_update_stream tail_ok_prune tail_ok_error\<close>)

lemma initial_ok: "conversation_ok ms (initialConversationState m p)"
  by (simp add: conversation_ok_def initialConversationState_def rows_ok_def ordered_def tail_ok_def shimmers_ok_def)

interpretation cv: machine "conversationReducer ms" "action_ok ms" "conversation_ok ms" for ms
  by unfold_locales (rule reducer_ok)

end
