(* ===== verification/ConversationProperties.thy ===== *)
theory ConversationProperties
  imports ConversationFacts
begin

text \<open>
  The properties of the conversation reducer: its state stays well formed, a turn of the
  POST stream is rendered once whatever the channel repeats, a creation is shown once, a
  rejected send leaves no trace, and history merges drop only what the server has.
\<close>

section \<open>A sample state\<close>

text \<open>Time stamps are read as the length of their text in the samples.\<close>

definition sample_ms :: "string \<Rightarrow> int option" where
  "sample_ms t = Some (int (length t))"

definition sample_row :: "string \<Rightarrow> string \<Rightarrow> message_dto" where
  "sample_row i t =
     \<lparr>md_id = i, md_externalId = None, md_sessionId = ''s'', md_senderId = None, md_role = Some ''user'',
      md_content = Some ''hi'', md_attachments = [], md_createdAt = t\<rparr>"

definition sample_state :: conversation_state where
  "sample_state = initialConversationState 0 0"

section \<open>Well-formedness\<close>

text \<open>C34: The state of a conversation stays well formed: after any sequence of actions the persisted
  rows have distinct ids and are in time order, no media key is recorded twice, and in the live
  tail there is one remote bubble per turn, one shimmer per tool and one error row per identity.\<close>
theorem conversation_stays_ok:
  assumes "list_all (action_ok ms) acts"
  shows "conversation_ok ms (foldl (conversationReducer ms) (initialConversationState m p) acts)"
  using cv.run_inv [OF initial_ok assms] .

lemma conversation_stays_ok_witness:
  "conversation_ok sample_ms (foldl (conversationReducer sample_ms) sample_state
     [HistoryMerge [sample_row ''b'' ''22'', sample_row ''a'' ''1''] None HistoryInit,
      ChannelEvent (TurnStarted ''s'' ''t'') ''x'', ChannelEvent (Token ''t'' ''hey'') ''x''])"
  unfolding sample_state_def by (rule conversation_stays_ok) (simp add: sample_ms_def)

section \<open>History\<close>

text \<open>A history merge is a union by id in which the fetched copy wins: a row is shown after a merge
  exactly when it is the last with its id among the old rows followed by the fetched ones.\<close>
theorem history_union:
  assumes "pos \<noteq> HistoryInit"
  shows "m \<in> set (serverMessages (conversationReducer ms s (HistoryMerge msgs c pos))) \<longleftrightarrow>
    row_of (serverMessages s @ msgs) (md_id m) = Some m"
  using assms by (simp add: reconcile_def merged_rows)

lemma history_union_witness:
  "sample_row ''a'' ''333'' \<in> set (serverMessages (conversationReducer sample_ms
     (sample_state\<lparr>serverMessages := [sample_row ''a'' ''1'']\<rparr>)
     (HistoryMerge [sample_row ''a'' ''333''] None HistoryRefresh)))"
  by (subst history_union) (simp_all add: row_of_def sample_row_def)

section \<open>The POST stream owns its turn\<close>

text \<open>The channel's copies of the events of a turn.\<close>

fun channel_copy :: "string \<Rightarrow> conversation_action \<Rightarrow> bool" where
  "channel_copy turn (ChannelEvent (TurnStarted _ t) _) = (t = turn)"
| "channel_copy turn (ChannelEvent (Token t _) _) = (t = turn)"
| "channel_copy turn (ChannelEvent (TurnCompleted t _ _) _) = (t = turn)"
| "channel_copy turn _ = False"

lemma channel_copy_ignored:
  "channel_copy turn a \<Longrightarrow> hasLocalTurn s turn \<Longrightarrow> conversationReducer ms s a = s"
  by (cases "(turn, a)" rule: channel_copy.cases) simp_all

text \<open>The bubble of a turn: the last item, and the only one with its client id.\<close>

definition turn_bubble :: "string \<Rightarrow> string \<Rightarrow> string \<Rightarrow> stream_phase \<Rightarrow> string option \<Rightarrow> string \<Rightarrow> local_item" where
  "turn_bubble cid turn said phase message time =
     AssistantStream \<lparr>as_clientId = cid, as_turnId = Some turn, as_messageId = message, as_text = said,
       as_phase = phase, as_remote = False, as_at = time\<rparr>"

definition no_stream :: "string \<Rightarrow> local_item list \<Rightarrow> bool" where
  "no_stream cid xs \<longleftrightarrow> \<not> list_ex (is_stream (\<lambda>i. as_clientId i = cid)) xs"

lemma no_stream_update:
  "no_stream cid xs \<Longrightarrow> (\<And>i. p i \<Longrightarrow> as_clientId i = cid) \<Longrightarrow> \<not> list_ex (is_stream p) xs"
  by (auto simp: no_stream_def list_ex_iff elim!: is_streamE)

lemma update_last_stream:
  assumes "no_stream cid xs" "\<And>i. p i \<Longrightarrow> as_clientId i = cid" "p i"
  shows "update_first (is_stream p) (on_stream f) (xs @ [AssistantStream i]) = xs @ [AssistantStream (f i)]"
  using no_stream_update [OF assms(1,2)] assms(3) by (simp add: update_first_append)

text \<open>The state while the turn streams: some tail, and the turn's bubble at its end.\<close>

definition streaming_state ::
  "conversation_state \<Rightarrow> local_item list \<Rightarrow> string \<Rightarrow> string \<Rightarrow> string \<Rightarrow> stream_phase \<Rightarrow> string option
     \<Rightarrow> string \<Rightarrow> conversation_state" where
  "streaming_state s xs cid turn said phase message time =
     s\<lparr>local_items := xs @ [turn_bubble cid turn said phase message time]\<rparr>"

lemma streaming_owns: "hasLocalTurn (streaming_state s xs cid turn said phase message time) turn"
  by (simp add: hasLocalTurn_def streaming_state_def turn_bubble_def)

lemma streaming_token:
  assumes "no_stream cid xs"
  shows "conversationReducer ms (streaming_state s xs cid turn said phase message time)
      (StreamEvent cid (Token t delta) rc ra tm) = streaming_state s xs cid turn (said @ delta) phase message time"
  using assms by (simp add: streaming_state_def turn_bubble_def updateStream_def update_last_stream [where cid = cid])

lemma streaming_completed:
  assumes "no_stream cid xs"
  shows "conversationReducer ms (streaming_state s xs cid turn said phase message time)
      (StreamEvent cid (TurnCompleted t m u) rc ra tm) = streaming_state s xs cid turn said Done (Some m) time"
  using assms by (simp add: streaming_state_def turn_bubble_def updateStream_def update_last_stream [where cid = cid])

fun is_token_of :: "string \<Rightarrow> conversation_action \<Rightarrow> bool" where
  "is_token_of cid (StreamEvent c (Token _ _) _ _ _) = (c = cid)"
| "is_token_of cid _ = False"

fun delta_of :: "conversation_action \<Rightarrow> string" where
  "delta_of (StreamEvent _ (Token _ d) _ _ _) = d"
| "delta_of _ = []"

lemma streaming_run:
  assumes "no_stream cid xs" "list_all (\<lambda>a. channel_copy turn a \<or> is_token_of cid a) acts"
  shows "foldl (conversationReducer ms) (streaming_state s xs cid turn said phase message time) acts =
    streaming_state s xs cid turn (said @ concat (map delta_of (filter (is_token_of cid) acts))) phase message time"
  using assms(2)
proof (induction acts arbitrary: said)
  case (Cons a acts)
  show ?case
  proof (cases "is_token_of cid a")
    case True
    then obtain t d rc ra tm where "a = StreamEvent cid (Token t d) rc ra tm"
      by (cases "(cid, a)" rule: is_token_of.cases) auto
    with Cons show ?thesis by (simp add: streaming_token [OF assms(1)] del: conversationReducer.simps)
  next
    case False
    then have "channel_copy turn a" using Cons.prems by simp
    then have "conversationReducer ms (streaming_state s xs cid turn said phase message time) a =
        streaming_state s xs cid turn said phase message time"
      by (rule channel_copy_ignored) (rule streaming_owns)
    with False Cons show ?thesis by (simp del: conversationReducer.simps)
  qed
qed simp

text \<open>The transcript with the remote bubbles of a turn absorbed.\<close>

definition without_remote :: "string \<Rightarrow> local_item list \<Rightarrow> local_item list" where
  "without_remote turn xs = filter (\<lambda>x. \<not> is_stream (\<lambda>i. as_remote i \<and> as_turnId i = Some turn) x) xs"

definition user_echo :: "string \<Rightarrow> string \<Rightarrow> attachment list \<Rightarrow> string \<Rightarrow> local_item" where
  "user_echo cid content atts time =
     UserEcho \<lparr>ue_clientId = echoClientId cid, ue_content = content, ue_attachments = atts, ue_at = time\<rparr>"

lemma send_started:
  assumes "no_stream cid (local_items s)"
  shows "foldl (conversationReducer ms) s
      [Send cid content atts time, StreamEvent cid (TurnStarted ses turn) rc ra tm] =
    streaming_state (s\<lparr>activeStreamId := Some cid\<rparr>)
      (without_remote turn (local_items s) @ [user_echo cid content atts time]) cid turn [] Streaming None time"
proof -
  have e: "no_stream cid (local_items s @ [user_echo cid content atts time])"
    using assms by (simp add: no_stream_def user_echo_def)
  show ?thesis
    using update_last_stream [OF e, where p = "\<lambda>i. as_clientId i = cid"
        and f = "\<lambda>i. i\<lparr>as_turnId := Some turn\<rparr>"]
    by (simp add: append_turn_def updateStream_def streaming_state_def turn_bubble_def without_remote_def
        user_echo_def)
qed

lemma streaming_finished:
  assumes "no_stream cid xs"
  shows "conversationReducer ms (streaming_state (s\<lparr>activeStreamId := Some cid\<rparr>) xs cid turn said Done message time)
      (StreamFinished cid) = streaming_state (s\<lparr>activeStreamId := None\<rparr>) xs cid turn said Done message time"
proof -
  let ?b = "turn_bubble cid turn said Done message time"
  let ?p = "\<lambda>i. as_clientId i = cid \<and> as_phase i = Streaming"
  have "\<not> list_ex (is_stream ?p) (xs @ [?b])"
    using no_stream_update [OF assms, of ?p] by (simp add: turn_bubble_def)
  then have "update_first (is_stream ?p) f (xs @ [?b]) = xs @ [?b]" for f
    by (intro update_first_none) (simp add: list_ex_iff)
  then show ?thesis by (simp add: streaming_state_def updateStream_def Let_def)
qed

text \<open>C32: A turn sent from this view is rendered once: whatever copies of its events the channel
  delivers in between, the POST stream leaves the transcript followed by the user's echo and one
  finished bubble holding exactly the concatenated tokens, and every remote bubble that the
  channel had opened for the turn before is absorbed.\<close>
theorem turn_rendered_once:
  assumes "no_stream cid (local_items s)"
    and "list_all (\<lambda>a. channel_copy turn a \<or> is_token_of cid a) acts"
    and "list_all (channel_copy turn) bs"
  shows "foldl (conversationReducer ms) s
     ([Send cid content atts time, StreamEvent cid (TurnStarted ses turn) rc ra tm] @ acts @
      [StreamEvent cid (TurnCompleted turn message u) rc ra tm'] @ bs @ [StreamFinished cid]) =
    s\<lparr>local_items := without_remote turn (local_items s) @ [user_echo cid content atts time,
        turn_bubble cid turn (concat (map delta_of (filter (is_token_of cid) acts))) Done (Some message) time],
      activeStreamId := None\<rparr>"
proof -
  let ?xs = "without_remote turn (local_items s) @ [user_echo cid content atts time]"
  let ?said = "concat (map delta_of (filter (is_token_of cid) acts))"
  let ?s = "s\<lparr>activeStreamId := Some cid\<rparr>"
  have n: "no_stream cid ?xs"
    using assms(1) by (auto simp: no_stream_def without_remote_def user_echo_def list_ex_iff)
  have kept: "foldl (conversationReducer ms) (streaming_state ?s ?xs cid turn ?said Done (Some message) time) bs =
      streaming_state ?s ?xs cid turn ?said Done (Some message) time"
    using assms(3)
  proof (induction bs)
    case (Cons b bs)
    then show ?case using channel_copy_ignored [OF _ streaming_owns] by simp
  qed simp
  have "foldl (conversationReducer ms) s
      ([Send cid content atts time, StreamEvent cid (TurnStarted ses turn) rc ra tm] @ acts) =
    streaming_state ?s ?xs cid turn ?said Streaming None time"
    unfolding foldl_append send_started [OF assms(1)] using streaming_run [OF n assms(2)] by simp
  then show ?thesis
    using streaming_completed [OF n] kept streaming_finished [OF n]
    by (simp only: foldl_append foldl.simps append_assoc [symmetric])
      (simp add: streaming_state_def)
qed

lemma turn_rendered_once_witness:
  "foldl (conversationReducer sample_ms) (sample_state\<lparr>local_items := [remote_bubble ''t'' ''he'' ''0'']\<rparr>)
     ([Send ''c'' ''hi'' [] ''0'', StreamEvent ''c'' (TurnStarted ''s'' ''t'') None [] ''0''] @
      [StreamEvent ''c'' (Token ''t'' ''hel'') None [] ''0'', ChannelEvent (Token ''t'' ''hel'') ''0'',
       StreamEvent ''c'' (Token ''t'' ''lo'') None [] ''0''] @
      [StreamEvent ''c'' (TurnCompleted ''t'' ''m'' None) None [] ''0''] @
      [ChannelEvent (Token ''t'' ''lo'') ''0''] @ [StreamFinished ''c'']) =
   sample_state\<lparr>local_items := [user_echo ''c'' ''hi'' [] ''0'',
     turn_bubble ''c'' ''t'' ''hello'' Done (Some ''m'') ''0'']\<rparr>"
  by (subst turn_rendered_once)
    (simp_all add: no_stream_def remote_bubble_def without_remote_def sample_state_def initialConversationState_def)

section \<open>A rejected send\<close>

text \<open>A rejected send leaves no trace: sending a message and having it rejected before any event
  restores the transcript exactly, whatever arrived before.\<close>
theorem rejected_send_undone:
  assumes "\<forall>x \<in> set (local_items s). clientId x \<noteq> cid \<and> clientId x \<noteq> echoClientId cid"
  shows "foldl (conversationReducer ms) s [Send cid content atts time, SendRejected cid] = s\<lparr>activeStreamId := None\<rparr>"
proof -
  have "filter (\<lambda>x. clientId x \<noteq> cid \<and> clientId x \<noteq> echoClientId cid) (local_items s) = local_items s"
    using assms by (simp add: filter_id_conv)
  then show ?thesis by (simp add: append_turn_def)
qed

lemma rejected_send_undone_witness:
  "foldl (conversationReducer sample_ms) (sample_state\<lparr>local_items := [remote_bubble ''t'' ''he'' ''0'']\<rparr>)
     [Send ''c'' ''hi'' [] ''0'', SendRejected ''c''] =
   sample_state\<lparr>local_items := [remote_bubble ''t'' ''he'' ''0'']\<rparr>"
  by (subst rejected_send_undone)
    (simp_all add: remote_bubble_def echoClientId_def sample_state_def initialConversationState_def)

section \<open>A failure before the first token\<close>

text \<open>The error rows the two transports append.\<close>

definition stream_error_row :: "string \<Rightarrow> string \<Rightarrow> string \<Rightarrow> string \<Rightarrow> local_item" where
  "stream_error_row cid code msg time =
     ErrorRow \<lparr>er_clientId = ''error:'' @ cid @ '':'' @ code, er_code = code, er_message = msg,
       er_retryContent = None, er_retryAttachments = [], er_at = time\<rparr>"

definition channel_error_row :: "string \<Rightarrow> string \<Rightarrow> string \<Rightarrow> string \<Rightarrow> local_item" where
  "channel_error_row turn code msg time =
     ErrorRow \<lparr>er_clientId = ''error:channel:'' @ turn @ '':'' @ code, er_code = code, er_message = msg,
       er_retryContent = None, er_retryAttachments = [], er_at = time\<rparr>"

text \<open>A turn that is sent and then fails, its error delivered by both transports; \<open>mid\<close> is what the
  stream delivers in between.\<close>

definition failing_turn :: "string \<Rightarrow> string \<Rightarrow> string \<Rightarrow> string \<Rightarrow> conversation_action list \<Rightarrow> conversation_action list" where
  "failing_turn cid turn code msg mid =
     [Send cid ''hi'' [] ''0'', StreamEvent cid (TurnStarted ''s'' turn) None [] ''0''] @ mid @
     [StreamEvent cid (ErrorEv (Some turn) code msg) None [] ''0'', ChannelEvent (ErrorEv (Some turn) code msg) ''0'']"

text \<open>C35: A turn that fails before its first token is reported twice: the empty bubble is pruned with the
  error of the POST stream, so the channel's copy of the same error no longer finds the turn and
  adds a second row with the same code and message; when a token came first the copy is ignored.\<close>
theorem empty_failure_shown_twice:
  assumes "local_items s = []" "turn \<noteq> []" "cid \<noteq> ''channel:'' @ turn" "delta \<noteq> []"
  shows "local_items (foldl (conversationReducer ms) s (failing_turn cid turn code msg [])) =
      [user_echo cid ''hi'' [] ''0'', stream_error_row cid code msg ''0'', channel_error_row turn code msg ''0''] \<and>
    local_items (foldl (conversationReducer ms) s
        (failing_turn cid turn code msg [StreamEvent cid (Token turn delta) None [] ''0''])) =
      [user_echo cid ''hi'' [] ''0'', turn_bubble cid turn delta Failed None ''0'', stream_error_row cid code msg ''0'']"
proof -
  have e: "''error:'' @ cid @ '':'' @ code \<noteq> ''error:channel:'' @ turn @ '':'' @ code"
  proof
    assume "''error:'' @ cid @ '':'' @ code = ''error:channel:'' @ turn @ '':'' @ code"
    then have "cid @ ('':'' @ code) = (''channel:'' @ turn) @ ('':'' @ code)" by simp
    then have "cid = ''channel:'' @ turn" by (simp only: append_same_eq)
    with assms(3) show False by contradiction
  qed
  show ?thesis using assms(1,2,4) e
    by (simp add: failing_turn_def append_turn_def updateStream_def pruneEmptyStream_def appendError_def
        hasLocalTurn_def user_echo_def stream_error_row_def channel_error_row_def turn_bubble_def Let_def)
qed

lemma empty_failure_shown_twice_witness:
  "local_items (foldl (conversationReducer sample_ms) sample_state (failing_turn ''c'' ''t'' ''gateway_error'' ''x'' [])) =
     [user_echo ''c'' ''hi'' [] ''0'', stream_error_row ''c'' ''gateway_error'' ''x'' ''0'',
      channel_error_row ''t'' ''gateway_error'' ''x'' ''0'']"
  by (rule empty_failure_shown_twice [where delta = "''d''", THEN conjunct1])
    (simp_all add: sample_state_def initialConversationState_def)

section \<open>Media\<close>

lemma list_ex_update_first:
  "list_ex p xs \<Longrightarrow> (\<And>x. x \<in> set xs \<Longrightarrow> p x \<Longrightarrow> q (f x)) \<Longrightarrow> list_ex q (update_first p f xs)"
  by (induction xs) auto

text \<open>No attachment shows the event's URL under another creation.\<close>

definition url_free :: "media_attached \<Rightarrow> attachment list \<Rightarrow> bool" where
  "url_free e atts = list_all (\<lambda>a. at_url a = ma_url e \<longrightarrow> at_creationId a = Some (ma_creationId e)) atts"

definition url_unused :: "media_attached \<Rightarrow> conversation_state \<Rightarrow> bool" where
  "url_unused e s \<longleftrightarrow>
     list_all (\<lambda>m. url_free e (md_attachments m)) (serverMessages s) \<and>
     (\<forall>i. MediaBubble i \<in> set (local_items s) \<longrightarrow> url_free e (mi_attachments i))"

lemma carries_attach_once: "url_free e atts \<Longrightarrow> carries (ma_creationId e) (attach_once e atts)"
  by (auto simp: attach_once_def carries_def url_free_def event_attachment_def list_ex_iff list_all_iff)

lemma attached_on_screen:
  assumes "media_key e \<notin> set (seenMedia s)" "url_unused e s"
  shows "creationOnScreen (applyMediaAttached s e time) (ma_creationId e)"
proof (cases "creationOnScreen s (ma_creationId e)")
  case True
  then show ?thesis using assms(1) by (simp add: applyMediaAttached_def creationOnScreen_def)
next
  case False
  let ?c = "ma_creationId e"
  let ?row = "\<lambda>m. md_id m = ma_messageId e \<or> carries ?c (md_attachments m)"
  let ?bubble = "is_media (\<lambda>i. mi_messageId i = ma_messageId e \<or> carries ?c (mi_attachments i))"
  let ?xs = "drop_first (is_pending (\<lambda>_. True)) (local_items s)"
  have row: "list_ex (\<lambda>m. carries ?c (md_attachments m)) (update_first ?row
      (\<lambda>m. m\<lparr>md_attachments := attach_once e (md_attachments m)\<rparr>) (serverMessages s))"
    if "list_ex ?row (serverMessages s)"
    using that assms(2)
    by (intro list_ex_update_first) (auto simp: carries_attach_once url_unused_def list_all_iff)
  have free: "url_free e (mi_attachments i)" if "MediaBubble i \<in> set ?xs" for i
    using that assms(2) set_drop_first [of "is_pending (\<lambda>_. True)" "local_items s"] by (auto simp: url_unused_def)
  have bubble: "list_ex (is_media (\<lambda>i. carries ?c (mi_attachments i))) (update_first ?bubble
      (on_media (\<lambda>i. i\<lparr>mi_attachments := attach_once e (mi_attachments i)\<rparr>)) ?xs)"
    if "list_ex ?bubble ?xs"
    using that by (intro list_ex_update_first) (auto elim!: is_mediaE simp: carries_attach_once free)
  have new: "carries ?c [event_attachment e]" by (simp add: carries_def event_attachment_def)
  consider (row) "list_ex ?row (serverMessages s)"
    | (bubble) "\<not> list_ex ?row (serverMessages s)" "list_ex ?bubble ?xs"
    | (fresh) "\<not> list_ex ?row (serverMessages s)" "\<not> list_ex ?bubble ?xs" by blast
  then show ?thesis
  proof cases
    case row
    then show ?thesis using False assms(1) \<open>list_ex ?row (serverMessages s) \<Longrightarrow> _\<close>
      by (simp add: applyMediaAttached_def Let_def creationOnScreen_def)
  next
    case bubble
    then show ?thesis using False assms(1) \<open>list_ex ?bubble ?xs \<Longrightarrow> _\<close>
      by (simp add: applyMediaAttached_def Let_def creationOnScreen_def)
  next
    case fresh
    then show ?thesis using False assms(1) new
      by (simp add: applyMediaAttached_def Let_def creationOnScreen_def)
  qed
qed

text \<open>The actions that deliver an attached event.\<close>

fun delivers :: "media_attached \<Rightarrow> conversation_action \<Rightarrow> bool" where
  "delivers e (ChannelEvent (MediaAttached m) _) = (m = e)"
| "delivers e (StreamEvent _ (MediaAttached m) _ _ _) = (m = e)"
| "delivers e _ = False"

lemma delivers_apply: "delivers e a \<Longrightarrow> \<exists>time. conversationReducer ms s a = applyMediaAttached s e time"
  by (cases "(e, a)" rule: delivers.cases) auto

text \<open>A creation is shown once: after an attached event has been applied, the same event from the
  other transport, or a later one that re-homes the creation onto another message, leaves the rows
  and the live tail as they are.\<close>
theorem media_shown_once:
  assumes "media_key e \<notin> set (seenMedia s)" "url_unused e s"
    and "delivers e a" "delivers e' b" "ma_creationId e' = ma_creationId e"
  shows "local_items (foldl (conversationReducer ms) s [a, b]) = local_items (conversationReducer ms s a) \<and>
    serverMessages (foldl (conversationReducer ms) s [a, b]) = serverMessages (conversationReducer ms s a)"
proof -
  obtain t where a: "conversationReducer ms s a = applyMediaAttached s e t" using delivers_apply [OF assms(3)] by blast
  let ?s = "applyMediaAttached s e t"
  obtain t' where b: "conversationReducer ms ?s b = applyMediaAttached ?s e' t'"
    using delivers_apply [OF assms(4)] by blast
  have "creationOnScreen ?s (ma_creationId e')" using attached_on_screen [OF assms(1,2)] assms(5) by simp
  then have "local_items (applyMediaAttached ?s e' t') = local_items ?s \<and>
      serverMessages (applyMediaAttached ?s e' t') = serverMessages ?s"
    by (simp add: applyMediaAttached_def [of ?s])
  then show ?thesis using a b by simp
qed

definition sample_media :: "string \<Rightarrow> media_attached" where
  "sample_media m = \<lparr>ma_sessionId = ''s'', ma_messageId = m, ma_url = ''/a.png'', ma_mime = ''image/png'',
     ma_creationId = ''k'', ma_width = None, ma_height = None\<rparr>"

lemma media_shown_once_witness:
  "local_items (foldl (conversationReducer sample_ms) sample_state
     [StreamEvent ''c'' (MediaAttached (sample_media ''m1'')) None [] ''0'',
      ChannelEvent (MediaAttached (sample_media ''m2'')) ''0'']) =
   local_items (conversationReducer sample_ms sample_state
     (StreamEvent ''c'' (MediaAttached (sample_media ''m1'')) None [] ''0''))"
  by (rule media_shown_once [THEN conjunct1, of "sample_media ''m1''" _ _ "sample_media ''m2''"])
    (simp_all add: sample_state_def initialConversationState_def url_unused_def sample_media_def)

section \<open>What a merge drops\<close>

text \<open>Whether a persisted row stands for a live item.\<close>

fun covered_by :: "(string \<Rightarrow> int option) \<Rightarrow> local_item \<Rightarrow> message_dto \<Rightarrow> bool" where
  "covered_by ms (UserEcho i) m \<longleftrightarrow>
     md_role m = Some ''user'' \<and> content_of m = ue_content i \<and> close_in_time ms (md_createdAt m) (ue_at i)"
| "covered_by ms (AssistantStream i) m \<longleftrightarrow>
     as_phase i \<noteq> Streaming \<and>
     (as_messageId i = Some (md_id m) \<or>
      as_text i \<noteq> [] \<and> md_role m \<noteq> Some ''user'' \<and> starts_with (content_of m) (as_text i) \<and>
      close_in_time ms (md_createdAt m) (as_at i))"
| "covered_by ms (MediaBubble i) m \<longleftrightarrow>
     mi_messageId i = md_id m \<or>
     (\<exists>a \<in> set (mi_attachments i). at_creationId a \<noteq> None \<and>
        (\<exists>b \<in> set (md_attachments m). at_creationId b = at_creationId a))"
| "covered_by ms _ m \<longleftrightarrow> False"

lemma owned_covered: "server_owns ms s x \<Longrightarrow> \<exists>m \<in> set (serverMessages s). covered_by ms x m"
proof (cases x)
  case (MediaBubble i)
  assume o: "server_owns ms s x"
  then consider "mi_messageId i \<in> set (map md_id (serverMessages s))"
    | a c where "a \<in> set (mi_attachments i)" "at_creationId a = Some c" "c \<in> persisted_creations s"
    using MediaBubble by (auto simp: list_ex_iff split: option.splits)
  then show ?thesis
  proof cases
    case 2
    then obtain m b where "m \<in> set (serverMessages s)" "b \<in> set (md_attachments m)" "at_creationId b = Some c"
      by (auto simp: persisted_creations_def map_filter_in)
    with 2 show ?thesis unfolding MediaBubble covered_by.simps by (metis option.distinct(1))
  qed (use MediaBubble in auto)
qed (fastforce simp: list_ex_iff)+

text \<open>A merge of fetched history drops only what the server has: an item that disappears from the
  live tail is covered by a row of the merged history, so a streaming bubble, a shimmer or an error
  row always survives, and nothing that is kept changes place.\<close>
theorem merge_drops_covered:
  assumes "t = conversationReducer ms s (HistoryMerge msgs c pos)"
  shows "\<exists>keep. local_items t = filter keep (local_items s) \<and>
    (\<forall>x. \<not> keep x \<longrightarrow> (\<exists>m \<in> set (serverMessages t). covered_by ms x m))"
proof -
  let ?s = "s\<lparr>serverMessages := mergeMessages ms (if pos = HistoryInit then [] else serverMessages s) msgs,
    olderCursor := (if pos = HistoryRefresh then olderCursor s else c), historyLoaded := True\<rparr>"
  have "local_items t = filter (\<lambda>x. \<not> server_owns ms ?s x) (local_items s)" "serverMessages t = serverMessages ?s"
    using assms by (simp_all add: reconcile_def)
  then show ?thesis using owned_covered [of ms ?s] by (intro exI [of _ "\<lambda>x. \<not> server_owns ms ?s x"]) simp
qed

lemma merge_drops_covered_witness:
  "\<exists>keep. local_items (conversationReducer sample_ms
      (sample_state\<lparr>local_items := [user_echo ''c'' ''hi'' [] ''0'', remote_bubble ''t'' ''he'' ''0'']\<rparr>)
      (HistoryMerge [sample_row ''a'' ''1''] None HistoryRefresh)) =
      filter keep [user_echo ''c'' ''hi'' [] ''0'', remote_bubble ''t'' ''he'' ''0''] \<and>
    keep (remote_bubble ''t'' ''he'' ''0'')"
proof -
  let ?s = "sample_state\<lparr>local_items := [user_echo ''c'' ''hi'' [] ''0'', remote_bubble ''t'' ''he'' ''0'']\<rparr>"
  obtain keep where k: "local_items (conversationReducer sample_ms ?s
      (HistoryMerge [sample_row ''a'' ''1''] None HistoryRefresh)) = filter keep (local_items ?s)"
    "\<And>x. \<not> keep x \<Longrightarrow> \<exists>m. covered_by sample_ms x m"
    using merge_drops_covered [OF refl, of sample_ms ?s "[sample_row ''a'' ''1'']" None HistoryRefresh] by blast
  have "keep (remote_bubble ''t'' ''he'' ''0'')" using k(2) by (force simp: remote_bubble_def)
  then show ?thesis using k(1) by auto
qed

end
