(* ===== verification/TurnPump.thy ===== *)
theory TurnPump
  imports Conversation
begin

text \<open>
  The module-owned turn streams of the web client (apps/web/components/chat/turn-pump.ts)
  and how the conversation view attaches to them (conversation.tsx, \<open>attachPump\<close>). A pump
  keeps an append-only log; a view replays what it has not seen and then follows. One view
  and one pump are modelled, a listener being a numbered handle of the view's sink. The
  time text a view stamps on an entry is the argument \<open>stamp\<close>; what a sink does outside the
  reducer (the composer notice, the canonical id, the history refetch) is left out.
\<close>

section \<open>Pumps\<close>

datatype pump_kind =
    PumpEvent session_event
  | PumpRejected string bool
  | PumpFailed string string
  | PumpAborted
  | PumpFinished

record pump_entry =
  pe_seq :: nat
  pe_kind :: pump_kind

datatype acceptance = NotSettled | Accepted | Refused string

record pump =
  pu_clientId :: string
  pu_content :: string
  pu_attachments :: "attachment list"
  pu_retryAttachments :: "composer_attachment list"
  pu_sessionId :: "string option"
  pu_done :: bool
  pu_seq :: nat
  pu_log :: "pump_entry list"
  pu_listeners :: "nat list"
  pu_nextHandle :: nat
  pu_accepted :: acceptance

definition new_pump :: "string \<Rightarrow> string \<Rightarrow> composer_attachment list \<Rightarrow> string option \<Rightarrow> pump" where
  "new_pump cid content attachments sessionId =
     \<lparr>pu_clientId = cid, pu_content = content, pu_attachments = map cp_attachment attachments,
      pu_retryAttachments = attachments, pu_sessionId = sessionId, pu_done = False, pu_seq = 0,
      pu_log = [], pu_listeners = [], pu_nextHandle = 0, pu_accepted = NotSettled\<rparr>"

fun settle :: "acceptance \<Rightarrow> pump_kind \<Rightarrow> acceptance" where
  "settle NotSettled (PumpEvent (TurnStarted _ _)) = Accepted"
| "settle NotSettled (PumpRejected message _) = Refused message"
| "settle NotSettled (PumpFailed _ message) = Refused message"
| "settle NotSettled PumpAborted = Refused ''Turn was not accepted.''"
| "settle NotSettled PumpFinished = Refused ''Turn was not accepted.''"
| "settle a _ = a"

definition next_entry :: "pump \<Rightarrow> pump_kind \<Rightarrow> pump_entry" where
  "next_entry p k = \<lparr>pe_seq = pu_seq p + 1, pe_kind = k\<rparr>"

text \<open>\<open>sink\<close> is the effect on the view of delivering one entry to a listener.\<close>

definition push :: "('v \<Rightarrow> pump_entry \<Rightarrow> 'v) \<Rightarrow> pump_kind \<Rightarrow> pump \<times> 'v \<Rightarrow> pump \<times> 'v" where
  "push sink k pv =
     (case pv of (p, v) \<Rightarrow>
        let sequenced = next_entry p k
        in (p\<lparr>pu_accepted := settle (pu_accepted p) k, pu_seq := pu_seq p + 1,
              pu_log := pu_log p @ [sequenced]\<rparr>,
            foldl (\<lambda>v _. sink v sequenced) v (pu_listeners p)))"

definition attach :: "('v \<Rightarrow> pump_entry \<Rightarrow> 'v) \<Rightarrow> nat \<Rightarrow> pump \<times> 'v \<Rightarrow> (pump \<times> 'v) \<times> nat" where
  "attach sink fromSeq pv =
     (case pv of (p, v) \<Rightarrow>
        ((p\<lparr>pu_listeners := pu_listeners p @ [pu_nextHandle p], pu_nextHandle := pu_nextHandle p + 1\<rparr>,
          foldl sink v (filter (\<lambda>e. fromSeq < pe_seq e) (pu_log p))),
         pu_nextHandle p))"

definition detach :: "nat \<Rightarrow> pump \<Rightarrow> pump" where
  "detach h p = p\<lparr>pu_listeners := filter (\<lambda>g. g \<noteq> h) (pu_listeners p)\<rparr>"

section \<open>Registry\<close>

text \<open>The pump of a session, by its client id.\<close>

definition register :: "pump \<Rightarrow> (string \<times> string) list \<Rightarrow> (string \<times> string) list" where
  "register p registry =
     (case pu_sessionId p of
        Some s \<Rightarrow> if s \<noteq> [] then map_set s (pu_clientId p) registry else registry
      | None \<Rightarrow> registry)"

text \<open>The timer of \<open>scheduleUnregister\<close>, when it fires.\<close>

definition unregister :: "pump \<Rightarrow> (string \<times> string) list \<Rightarrow> (string \<times> string) list" where
  "unregister p registry =
     (case pu_sessionId p of
        Some s \<Rightarrow>
          if s \<noteq> [] \<and> map_of registry s = Some (pu_clientId p) then map_delete s registry else registry
      | None \<Rightarrow> registry)"

definition getTurnPump :: "(string \<times> string) list \<Rightarrow> string \<Rightarrow> string option" where
  "getTurnPump registry sessionId = map_of registry sessionId"

definition startSessionTurn ::
  "string \<Rightarrow> string \<Rightarrow> string \<Rightarrow> composer_attachment list \<Rightarrow> (string \<times> string) list
     \<Rightarrow> pump \<times> (string \<times> string) list" where
  "startSessionTurn cid sessionId content attachments registry =
     (let p = new_pump cid content attachments (Some sessionId) in (p, register p registry))"

section \<open>Consuming the stream\<close>

text \<open>
  How the event generator ends: it is exhausted, or it throws. Of the error the code reads
  whether it is an abort (or the controller was aborted), the HTTP status of an \<open>ApiError\<close>,
  the text to show and whether manna is missing.
\<close>

datatype stream_end = StreamClosed | StreamBroke bool "nat option" string bool

definition consume_event :: "('v \<Rightarrow> pump_entry \<Rightarrow> 'v) \<Rightarrow> session_event \<Rightarrow> pump \<times> 'v \<Rightarrow> pump \<times> 'v" where
  "consume_event sink e pv =
     push sink (PumpEvent e)
       (case e of
          TurnStarted sessionId _ \<Rightarrow>
            (case pu_sessionId (fst pv) of
               Some s \<Rightarrow> if s = [] then ((fst pv)\<lparr>pu_sessionId := Some sessionId\<rparr>, snd pv) else pv
             | None \<Rightarrow> ((fst pv)\<lparr>pu_sessionId := Some sessionId\<rparr>, snd pv))
        | _ \<Rightarrow> pv)"

fun failure_kind :: "bool \<Rightarrow> stream_end \<Rightarrow> pump_kind option" where
  "failure_kind sawEvent StreamClosed = None"
| "failure_kind sawEvent (StreamBroke aborted status message manna) =
     Some (if aborted then PumpAborted
           else if \<not> sawEvent then PumpRejected message manna
           else PumpFailed (case status of None \<Rightarrow> ''stream_error'' | Some n \<Rightarrow> show_nat n) message)"

definition consume ::
  "('v \<Rightarrow> pump_entry \<Rightarrow> 'v) \<Rightarrow> session_event list \<Rightarrow> stream_end \<Rightarrow> pump \<times> 'v \<Rightarrow> pump \<times> 'v" where
  "consume sink events ending pv =
     (let pv1 = fold (consume_event sink) events pv;
          pv2 = (case failure_kind (events \<noteq> []) ending of None \<Rightarrow> pv1 | Some k \<Rightarrow> push sink k pv1)
      in push sink PumpFinished ((fst pv2)\<lparr>pu_done := True\<rparr>, snd pv2))"

section \<open>The view\<close>

text \<open>\<open>vw_detach\<close> is the detach function held: the pump's client id and the handle.\<close>

record view =
  vw_cursor :: "string \<times> nat"
  vw_detach :: "(string \<times> nat) option"
  vw_streaming :: bool
  vw_conversation :: conversation_state

fun entry_action :: "pump \<Rightarrow> string \<Rightarrow> pump_kind \<Rightarrow> conversation_action" where
  "entry_action p time (PumpEvent e) =
     StreamEvent (pu_clientId p) e (Some (pu_content p)) (pu_retryAttachments p) time"
| "entry_action p time (PumpRejected _ _) = SendRejected (pu_clientId p)"
| "entry_action p time (PumpFailed code message) =
     StreamFailed (pu_clientId p) code message (Some (pu_content p)) (pu_retryAttachments p) time"
| "entry_action p time PumpAborted = StreamAborted (pu_clientId p)"
| "entry_action p time PumpFinished = StreamFinished (pu_clientId p)"

text \<open>
  The reducer's action is stamped with the clock when the entry is applied; a view applies an
  entry once, so \<open>stamp\<close> gives that instant by the entry.
\<close>

definition view_sink ::
  "(string \<Rightarrow> int option) \<Rightarrow> (pump_entry \<Rightarrow> string) \<Rightarrow> pump \<Rightarrow> view \<Rightarrow> pump_entry \<Rightarrow> view" where
  "view_sink ms stamp p v entry =
     v\<lparr>vw_cursor := (fst (vw_cursor v), pe_seq entry),
       vw_streaming := (if pe_kind entry = PumpFinished then False else vw_streaming v),
       vw_conversation := conversationReducer ms (vw_conversation v)
         (entry_action p (stamp entry) (pe_kind entry))\<rparr>"

definition detachView :: "pump \<times> view \<Rightarrow> pump \<times> view" where
  "detachView pv =
     (case pv of (p, v) \<Rightarrow>
        (case vw_detach v of
           Some (cid, h) \<Rightarrow> (if cid = pu_clientId p then detach h p else p, v\<lparr>vw_detach := None\<rparr>)
         | None \<Rightarrow> (p, v)))"

definition attachPump ::
  "(string \<Rightarrow> int option) \<Rightarrow> (pump_entry \<Rightarrow> string) \<Rightarrow> pump \<times> view \<Rightarrow> pump \<times> view" where
  "attachPump ms stamp pv =
     (case detachView pv of (p, v) \<Rightarrow>
        let v1 = (if fst (vw_cursor v) \<noteq> pu_clientId p then v\<lparr>vw_cursor := (pu_clientId p, 0)\<rparr> else v);
            v2 = (if \<not> pu_done p then v1\<lparr>vw_streaming := True\<rparr> else v1)
        in (case attach (view_sink ms stamp p) (snd (vw_cursor v2)) (p, v2) of
              ((p', v3), h) \<Rightarrow> (p', v3\<lparr>vw_detach := Some (pu_clientId p, h)\<rparr>)))"

text \<open>What can happen to a pump and its view: an entry is logged, the view attaches, or it detaches.\<close>

datatype pump_op = Push pump_kind | AttachView | DetachView

fun pump_step ::
  "(string \<Rightarrow> int option) \<Rightarrow> (pump_entry \<Rightarrow> string) \<Rightarrow> pump \<times> view \<Rightarrow> pump_op \<Rightarrow> pump \<times> view" where
  "pump_step ms stamp pv (Push k) = push (view_sink ms stamp (fst pv)) k pv"
| "pump_step ms stamp pv AttachView = attachPump ms stamp pv"
| "pump_step ms stamp pv DetachView = detachView pv"

end
