(* ===== verification/PumpProperties.thy ===== *)
theory PumpProperties
  imports TurnPump TurnRegistry SessionEvents
begin

text \<open>
  The properties of the turn pump, of the frames the events travel in, and of the registry
  of active turns.
\<close>

section \<open>The log\<close>

definition log_ok :: "pump \<Rightarrow> bool" where
  "log_ok p \<longleftrightarrow> map pe_seq (pu_log p) = [1..<Suc (length (pu_log p))] \<and> pu_seq p = length (pu_log p)"

lemma log_ok_new: "log_ok (new_pump cid c a s)"
  by (simp add: log_ok_def new_pump_def)

lemma push_log: "pu_log (fst (push sink k (p, v))) = pu_log p @ [next_entry p k]"
  by (simp add: push_def Let_def)

lemma log_ok_push: "log_ok p \<Longrightarrow> log_ok (fst (push sink k (p, v)))"
  by (simp add: push_def Let_def log_ok_def next_entry_def)

lemma log_after:
  assumes "log_ok p" "n \<le> length (pu_log p)"
  shows "filter (\<lambda>e. n < pe_seq e) (pu_log p) = drop n (pu_log p)"
proof -
  have seq: "pe_seq (pu_log p ! i) = Suc i" if "i < length (pu_log p)" for i
  proof -
    have "map pe_seq (pu_log p) ! i = [1..<Suc (length (pu_log p))] ! i" using assms(1) by (simp add: log_ok_def)
    then show ?thesis using that by (simp del: upt_Suc)
  qed
  have "filter (\<lambda>e. n < pe_seq e) (take n (pu_log p)) = []"
    using seq by (auto simp: filter_empty_conv in_set_conv_nth)
  moreover have "filter (\<lambda>e. n < pe_seq e) (drop n (pu_log p)) = drop n (pu_log p)"
    using seq assms(2) by (auto simp: filter_id_conv in_set_conv_nth)
  ultimately show ?thesis using filter_append [of _ "take n (pu_log p)" "drop n (pu_log p)"]
    by (metis append_Nil append_take_drop_id)
qed

section \<open>One view on one pump\<close>

text \<open>The effect of an entry on the conversation.\<close>

definition apply_entry ::
  "(string \<Rightarrow> int option) \<Rightarrow> (pump_entry \<Rightarrow> string) \<Rightarrow> pump \<Rightarrow> conversation_state \<Rightarrow> pump_entry
     \<Rightarrow> conversation_state" where
  "apply_entry ms stamp p c e = conversationReducer ms c (entry_action p (stamp e) (pe_kind e))"

text \<open>What identifies a pump to its view never changes.\<close>

definition same_pump :: "pump \<Rightarrow> pump \<Rightarrow> bool" where
  "same_pump p q \<longleftrightarrow> pu_clientId p = pu_clientId q \<and> pu_content p = pu_content q \<and>
     pu_retryAttachments p = pu_retryAttachments q"

lemma apply_same: "same_pump p q \<Longrightarrow> apply_entry ms stamp p = apply_entry ms stamp q"
proof (intro ext)
  fix c e
  assume "same_pump p q"
  then show "apply_entry ms stamp p c e = apply_entry ms stamp q c e"
    by (cases "pe_kind e") (simp_all add: apply_entry_def same_pump_def)
qed

text \<open>
  The view has applied exactly the entries up to its cursor; it is attached by one listener
  and up to date, or by none.
\<close>

definition view_ok ::
  "(string \<Rightarrow> int option) \<Rightarrow> (pump_entry \<Rightarrow> string) \<Rightarrow> pump \<Rightarrow> conversation_state \<Rightarrow> pump \<times> view \<Rightarrow> bool" where
  "view_ok ms stamp p0 c0 pv \<longleftrightarrow>
     (case pv of (p, v) \<Rightarrow>
        same_pump p p0 \<and> log_ok p \<and>
        (let n = (if fst (vw_cursor v) = pu_clientId p then snd (vw_cursor v) else 0)
         in n \<le> length (pu_log p) \<and>
            vw_conversation v = foldl (apply_entry ms stamp p0) c0 (take n (pu_log p)) \<and>
            (case vw_detach v of
               None \<Rightarrow> pu_listeners p = []
             | Some (cid, h) \<Rightarrow> cid = pu_clientId p \<and> fst (vw_cursor v) = cid \<and> pu_listeners p = [h] \<and>
                 n = length (pu_log p))))"

lemma view_ok_attached:
  assumes "view_ok ms stamp p0 c0 (p, v)" "vw_detach v = Some (cid, h)"
  shows "same_pump p p0" "log_ok p" "cid = pu_clientId p" "fst (vw_cursor v) = pu_clientId p"
    "pu_listeners p = [h]" "snd (vw_cursor v) = length (pu_log p)"
    "vw_conversation v = foldl (apply_entry ms stamp p0) c0 (pu_log p)"
  using assms by (auto simp: view_ok_def Let_def)

lemma view_ok_push:
  assumes "view_ok ms stamp p0 c0 (p, v)"
  shows "view_ok ms stamp p0 c0 (push (view_sink ms stamp p) k (p, v))"
proof -
  have s: "same_pump p p0" "log_ok p" using assms by (simp_all add: view_ok_def)
  have a: "conversationReducer ms c (entry_action p (stamp e) (pe_kind e)) = apply_entry ms stamp p0 c e" for c e
    using apply_same [OF s(1)] by (metis apply_entry_def)
  have l: "log_ok (fst (push (view_sink ms stamp p) k (p, v)))" using s(2) by (rule log_ok_push)
  show ?thesis
  proof (cases "vw_detach v")
    case None
    then show ?thesis using assms l
      by (auto simp: view_ok_def push_def Let_def same_pump_def split: if_splits)
  next
    case (Some ch)
    obtain cid h where ch: "ch = (cid, h)" by (cases ch)
    note c = view_ok_attached [OF assms Some [unfolded ch]]
    have n: "pe_seq (next_entry p k) = Suc (length (pu_log p))"
      using s(2) by (simp add: next_entry_def log_ok_def)
    show ?thesis using s l c n Some ch
      by (simp add: view_ok_def push_def Let_def same_pump_def view_sink_def a)
  qed
qed

lemma view_ok_detach:
  assumes "view_ok ms stamp p0 c0 pv"
  shows "view_ok ms stamp p0 c0 (detachView pv) \<and> vw_detach (snd (detachView pv)) = None \<and>
    vw_cursor (snd (detachView pv)) = vw_cursor (snd pv)"
proof -
  obtain p v where pv: "pv = (p, v)" by (cases pv)
  show ?thesis
  proof (cases "vw_detach v")
    case None
    then show ?thesis using assms pv by (simp add: detachView_def)
  next
    case (Some ch)
    obtain cid h where ch: "ch = (cid, h)" by (cases ch)
    note a = view_ok_attached [OF assms [unfolded pv] Some [unfolded ch]]
    show ?thesis using a Some pv ch
      by (simp add: detachView_def detach_def view_ok_def same_pump_def log_ok_def)
  qed
qed

lemma sink_parts:
  "vw_conversation (view_sink ms stamp p v e) = apply_entry ms stamp p (vw_conversation v) e"
  "vw_cursor (view_sink ms stamp p v e) = (fst (vw_cursor v), pe_seq e)"
  by (simp_all add: view_sink_def apply_entry_def)

lemma sink_run:
  "vw_conversation (foldl (view_sink ms stamp p) v es) = foldl (apply_entry ms stamp p) (vw_conversation v) es \<and>
   vw_cursor (foldl (view_sink ms stamp p) v es) =
     (fst (vw_cursor v), if es = [] then snd (vw_cursor v) else pe_seq (last es))"
  by (induction es arbitrary: v) (simp_all add: sink_parts)

lemma view_ok_attach:
  assumes "view_ok ms stamp p0 c0 pv"
  shows "view_ok ms stamp p0 c0 (attachPump ms stamp pv)"
proof -
  obtain p v where pv: "detachView pv = (p, v)" by (cases "detachView pv")
  note d = view_ok_detach [OF assms, unfolded pv snd_conv]
  define n where "n = (if fst (vw_cursor v) = pu_clientId p then snd (vw_cursor v) else 0)"
  have i: "same_pump p p0" "log_ok p" "n \<le> length (pu_log p)" "pu_listeners p = []"
    "vw_conversation v = foldl (apply_entry ms stamp p0) c0 (take n (pu_log p))"
    using d by (auto simp: view_ok_def n_def Let_def)
  define w where "w = v\<lparr>vw_cursor := (pu_clientId p, n), vw_streaming := (vw_streaming v \<or> \<not> pu_done p)\<rparr>"
  let ?es = "drop n (pu_log p)"
  have last: "(if ?es = [] then n else pe_seq (last ?es)) = length (pu_log p)"
  proof (cases "?es = []")
    case False
    then have "n < length (pu_log p)" by simp
    then have "last ?es = pu_log p ! (length (pu_log p) - 1)" by (simp add: last_drop last_conv_nth)
    moreover have "map pe_seq (pu_log p) ! (length (pu_log p) - 1) = length (pu_log p)"
      using i(2) \<open>n < length (pu_log p)\<close> by (simp add: log_ok_def del: upt_Suc)
    ultimately show ?thesis using False \<open>n < length (pu_log p)\<close> by simp
  qed (use i(3) in simp)
  have e: "attachPump ms stamp pv =
      (p\<lparr>pu_listeners := pu_listeners p @ [pu_nextHandle p], pu_nextHandle := pu_nextHandle p + 1\<rparr>,
       (foldl (view_sink ms stamp p) w ?es)\<lparr>vw_detach := Some (pu_clientId p, pu_nextHandle p)\<rparr>)"
  proof -
    have "(let v1 = (if fst (vw_cursor v) \<noteq> pu_clientId p then v\<lparr>vw_cursor := (pu_clientId p, 0)\<rparr> else v)
        in if \<not> pu_done p then v1\<lparr>vw_streaming := True\<rparr> else v1) = w"
      by (cases "vw_cursor v") (auto simp: w_def n_def Let_def)
    then show ?thesis using log_after [OF i(2,3)]
      by (simp add: attachPump_def pv attach_def Let_def w_def)
  qed
  have conv: "foldl (apply_entry ms stamp p) (vw_conversation w) ?es =
      foldl (apply_entry ms stamp p0) c0 (pu_log p)"
    unfolding apply_same [OF i(1)] w_def using i(5) by (simp flip: foldl_append)
  have w: "fst (vw_cursor w) = pu_clientId p" "snd (vw_cursor w) = n" by (simp_all add: w_def)
  note r = sink_run [of ms stamp p w ?es, unfolded w last conv]
  show ?thesis using i r unfolding e by (simp add: view_ok_def same_pump_def log_ok_def)
qed

lemma view_ok_step: "view_ok ms stamp p0 c0 pv \<Longrightarrow> view_ok ms stamp p0 c0 (pump_step ms stamp pv opn)"
proof (cases opn)
  case (Push k)
  assume "view_ok ms stamp p0 c0 pv"
  then show ?thesis using Push view_ok_push [of ms stamp p0 c0 "fst pv" "snd pv" k] by simp
qed (simp_all add: view_ok_attach view_ok_detach)

interpretation pm: machine "pump_step ms stamp" "\<lambda>_. True" "view_ok ms stamp p0 c0" for ms stamp p0 c0
  by unfold_locales (rule view_ok_step)

definition fresh_view :: "conversation_state \<Rightarrow> view" where
  "fresh_view c = \<lparr>vw_cursor = ([], 0), vw_detach = None, vw_streaming = False, vw_conversation = c\<rparr>"

lemma fresh_view_ok:
  "cid \<noteq> [] \<Longrightarrow> view_ok ms stamp (new_pump cid content atts sid) c (new_pump cid content atts sid, fresh_view c)"
  by (simp add: view_ok_def fresh_view_def new_pump_def same_pump_def log_ok_def)

text \<open>C33: Leaving a session in mid-turn and coming back loses and repeats nothing: after any sequence of
  logged entries, attachments and detachments that ends attached, the conversation is the one of a
  view that applied every entry of the pump's log once, in order.\<close>
theorem reattach_exact:
  assumes "cid \<noteq> []"
    and "(p, v) = foldl (pump_step ms stamp) (new_pump cid content atts sid, fresh_view c) (ops @ [AttachView])"
  shows "vw_conversation v = foldl (apply_entry ms stamp (new_pump cid content atts sid)) c (pu_log p)"
proof -
  let ?p = "new_pump cid content atts sid"
  let ?pv = "foldl (pump_step ms stamp) (?p, fresh_view c) ops"
  have "view_ok ms stamp ?p c ?pv"
    using pm.run_inv [OF fresh_view_ok [OF assms(1)]] by (simp add: list_all_iff)
  then have ok: "view_ok ms stamp ?p c (attachPump ms stamp ?pv)" by (rule view_ok_attach)
  have pv: "(p, v) = attachPump ms stamp ?pv" using assms(2) by simp
  have "vw_detach (snd (attachPump ms stamp ?pv)) \<noteq> None"
    by (simp add: attachPump_def Let_def attach_def split: prod.split)
  then obtain ch where "vw_detach v = Some ch" unfolding pv [symmetric] by auto
  then show ?thesis using ok view_ok_attached(7) unfolding pv [symmetric] by (cases ch) blast
qed

definition sample_ops :: "pump_op list" where
  "sample_ops = [AttachView, Push (PumpEvent (TurnStarted ''s'' ''t'')), DetachView,
     Push (PumpEvent (Token ''t'' ''hel'')), AttachView, Push (PumpEvent (Token ''t'' ''lo'')), DetachView,
     Push PumpFinished]"

lemma reattach_exact_witness:
  "\<exists>p v. (p, v) = foldl (pump_step (\<lambda>_. None) (\<lambda>_. ''0''))
      (new_pump ''c'' ''hi'' [] (Some ''s''), fresh_view (initialConversationState 0 0)) (sample_ops @ [AttachView]) \<and>
    length (pu_log p) = 4 \<and>
    vw_conversation v = foldl (apply_entry (\<lambda>_. None) (\<lambda>_. ''0'') (new_pump ''c'' ''hi'' [] (Some ''s'')))
      (initialConversationState 0 0) (pu_log p)"
proof -
  define pv where "pv = foldl (pump_step (\<lambda>_. None) (\<lambda>_. ''0''))
      (new_pump ''c'' ''hi'' [] (Some ''s''), fresh_view (initialConversationState 0 0)) (sample_ops @ [AttachView])"
  obtain p v where e: "pv = (p, v)" by (cases pv)
  have "length (pu_log (fst pv)) = 4" unfolding pv_def by code_simp
  then have "length (pu_log p) = 4" by (simp add: e)
  moreover have r: "(p, v) = foldl (pump_step (\<lambda>_. None) (\<lambda>_. ''0''))
      (new_pump ''c'' ''hi'' [] (Some ''s''), fresh_view (initialConversationState 0 0)) (sample_ops @ [AttachView])"
    using e pv_def by simp
  ultimately show ?thesis using reattach_exact [OF _ r] by blast
qed

section \<open>Frames\<close>

text \<open>C36: An event that is framed is read back: whenever the JSON text is on one line and is parsed and
  validated to the event it was written from, decoding the frame gives the event, and a comment
  frame never yields an event, whatever the comment holds.\<close>
theorem sse_round_trip:
  assumes "session_event_ok is_uuid e" "one_line (stringify e)"
    and "parse (stringify e) = Some j" "schema j = Some e"
  shows "\<exists>frame. encodeSseEvent is_uuid stringify e = Inr frame \<and> decodeSseEvent parse schema frame = Inr e \<and>
      tryDecodeSseEvent parse schema frame = Some e \<and>
      decodeSseEvent parse schema (encodeSseComment comment) = Inl NotADataFrame"
  using assms extract_payload [OF assms(2)] comment_no_data
  by (simp add: encodeSseEvent_def decodeSseEvent_def tryDecodeSseEvent_def parseSessionEvent_def
      tryParseSessionEvent_def)

lemma sse_round_trip_witness:
  "\<exists>frame. encodeSseEvent (\<lambda>_. True) (\<lambda>_. ''{}'') NotificationChanged = Inr frame \<and>
     decodeSseEvent Some (\<lambda>_. Some NotificationChanged) frame = Inr NotificationChanged"
  using sse_round_trip [of "\<lambda>_. True" NotificationChanged "\<lambda>_. ''{}''" Some "''{}''"
      "\<lambda>_. Some NotificationChanged" "''ping''"] by auto

section \<open>The registry of active turns\<close>

lemma plain_of_scoped:
  assumes "agent \<noteq> []" "CHR '':'' \<notin> set agent" "key \<noteq> []" "\<not> list_ex line_break key"
  shows "plainSessionKey (''agent:'' @ agent @ '':'' @ key) = key"
proof -
  have "takeWhile (\<lambda>c. c \<noteq> CHR '':'') (agent @ '':'' @ key) = agent"
    using assms(2) by (subst takeWhile_append2) auto
  then show ?thesis using assms
    by (cases key) (simp_all add: plainSessionKey_def scoped_rest_def starts_with_def Let_def)
qed

text \<open>A session counts as active exactly during its window: a registered turn is found, under its
  plain key and under the key scoped to any agent, until its window ends and no longer, and the
  list of active turns is exactly the entries whose window has not ended.\<close>
theorem active_window_exact:
  assumes "plainSessionKey key = key" "agent \<noteq> []" "CHR '':'' \<notin> set agent" "key \<noteq> []" "\<not> list_ex line_break key"
    and "(entry, reg') = registry_register now key sid account openclaw window reg"
  shows "fst (registry_get t key reg') = (if t < now + window then Some entry else None) \<and>
    fst (registry_get t (''agent:'' @ agent @ '':'' @ key) reg') = fst (registry_get t key reg') \<and>
    fst (registry_active t reg') = filter (\<lambda>(k, e). t < tn_windowUntil e) reg'"
  using assms plain_of_scoped [OF assms(2-5)]
  by (auto simp: registry_register_def registry_get_def registry_active_def registry_prune_def Let_def not_le)

lemma active_window_exact_witness:
  "fst (registry_get 299999 ''agent:eve:eden3'' (snd (registry_register 0 ''eden3'' ''s'' ''a'' ''o'' DEFAULT_TURN_WINDOW_MS []))) \<noteq> None \<and>
   fst (registry_get 300000 ''agent:eve:eden3'' (snd (registry_register 0 ''eden3'' ''s'' ''a'' ''o'' DEFAULT_TURN_WINDOW_MS []))) = None"
proof -
  obtain entry reg where r: "(entry, reg) = registry_register 0 ''eden3'' ''s'' ''a'' ''o'' DEFAULT_TURN_WINDOW_MS []"
    by (metis surj_pair)
  have k: "plainSessionKey ''eden3'' = ''eden3''" "\<not> list_ex line_break ''eden3''" by code_simp+
  note w = active_window_exact [OF k(1) _ _ _ k(2) r, of "''eve''"]
  from w [of 299999] w [of 300000] show ?thesis unfolding r [symmetric] by (simp add: DEFAULT_TURN_WINDOW_MS_def)
qed

end
