(* ===== verification/CronSync.thy ===== *)
theory CronSync
  imports Json
begin

text \<open>
  Translating schedules to cron lines and reconciling the gateway's cron jobs
  (packages/gateway/src/cron-sync.ts). The gateway's command line is not part of the
  repository: \<open>execJson\<close> and \<open>exec\<close>, functions on the gateway's state \<open>'g\<close>, are
  parameters. Waiting between attempts has no effect on the state and is left out.
\<close>

section \<open>Errors\<close>

record cli_error =
  ce_message :: string

datatype cron_error =
    InvalidDayOfWeekNumber jsnum
  | UnsupportedDayOfWeek string
  | CronFieldRequired string
  | CronNumberOutOfRange string jsnum
  | NotACronField string string
  | CronPartOutOfRange string string
  | InvalidTriggerId string
  | UnexpectedListShape
  | CliFailed cli_error
  | NoAttempt

section \<open>Schedules\<close>

datatype field_value = FieldNum jsnum | FieldText string

record eden_schedule =
  es_minute :: "field_value option"
  es_hour :: "field_value option"
  es_day :: "field_value option"
  es_month :: "field_value option"
  es_day_of_week :: "field_value option"
  es_timezone :: "string option"

definition day_names :: "string list" where
  "day_names = [''mon'', ''tue'', ''wed'', ''thu'', ''fri'', ''sat'', ''sun'']"

text \<open>\<open>DOW_NAME_RE\<close>, and the pattern \<open>/^[0-6]([,-][0-6])*$/\<close>.\<close>

definition dow_names :: "string \<Rightarrow> bool" where
  "dow_names s = list_all (\<lambda>w. w \<in> set day_names) (split_class '',-'' s)"

definition dow_digit :: "char \<Rightarrow> bool" where
  "dow_digit c \<longleftrightarrow> is_digit c \<and> digit_val c \<le> 6"

definition dow_digits :: "string \<Rightarrow> bool" where
  "dow_digits s = list_all (\<lambda>w. length w = 1 \<and> list_all dow_digit w) (split_class '',-'' s)"

definition shift_dow :: "char \<Rightarrow> char" where
  "shift_dow c = (if dow_digit c then digit_char ((digit_val c + 1) mod 7) else c)"

definition apschedulerDowToCron :: "field_value \<Rightarrow> (cron_error, string) res" where
  "apschedulerDowToCron dow =
     (case dow of
        FieldNum v \<Rightarrow>
          (case int_of_num v of
             None \<Rightarrow> Inl (InvalidDayOfWeekNumber v)
           | Some d \<Rightarrow>
               if d < 0 \<or> 6 < d then Inl (InvalidDayOfWeekNumber v) else Inr (show_int ((d + 1) mod 7)))
      | FieldText s \<Rightarrow>
          (let t = to_lower (js_trim s)
           in if t = ''*'' then Inr ''*''
              else if dow_names t then Inr t
              else if \<not> dow_digits t then Inl (UnsupportedDayOfWeek s)
              else Inr (map shift_dow t)))"

definition cron_char :: "char \<Rightarrow> bool" where
  "cron_char c \<longleftrightarrow> is_digit c \<or> c \<in> set ''*/,-''"

fun parts_in_range :: "string \<Rightarrow> int \<Rightarrow> int \<Rightarrow> string list \<Rightarrow> (cron_error, unit) res" where
  "parts_in_range name lo hi [] = Inr ()"
| "parts_in_range name lo hi (token # ts) =
     (if token = [] \<or> token = ''*'' then parts_in_range name lo hi ts
      else
        (case number_of_text token of
           None \<Rightarrow> Inl (CronPartOutOfRange name token)
         | Some n \<Rightarrow>
             if n < lo \<or> hi < n then Inl (CronPartOutOfRange name token)
             else parts_in_range name lo hi ts))"

definition fieldToCron ::
  "field_value option \<Rightarrow> string \<Rightarrow> int \<Rightarrow> int \<Rightarrow> bool \<Rightarrow> (cron_error, string) res" where
  "fieldToCron value name lo hi required =
     (case value of
        None \<Rightarrow> if required then Inl (CronFieldRequired name) else Inr ''*''
      | Some (FieldNum v) \<Rightarrow>
          (case int_of_num v of
             None \<Rightarrow> Inl (CronNumberOutOfRange name v)
           | Some n \<Rightarrow>
               if n < lo \<or> hi < n then Inl (CronNumberOutOfRange name v) else Inr (show_int n))
      | Some (FieldText s) \<Rightarrow>
          (let t = js_trim s
           in if t = ''*'' then Inr ''*''
              else if t = [] \<or> \<not> list_all cron_char t then Inl (NotACronField name s)
              else ebind (parts_in_range name lo hi (split_class '',/-'' t)) (\<lambda>_. Inr t)))"

definition scheduleToCron :: "eden_schedule \<Rightarrow> (cron_error, string \<times> string option) res" where
  "scheduleToCron s =
     ebind (fieldToCron (es_minute s) ''minute'' 0 59 True) (\<lambda>minute.
     ebind (fieldToCron (es_hour s) ''hour'' 0 23 True) (\<lambda>hour.
     ebind (fieldToCron (es_day s) ''day'' 1 31 False) (\<lambda>dom.
     ebind (fieldToCron (es_month s) ''month'' 1 12 False) (\<lambda>month.
     ebind (case es_day_of_week s of None \<Rightarrow> Inr ''*'' | Some v \<Rightarrow> apschedulerDowToCron v) (\<lambda>dow.
       Inr (minute @ '' '' @ hour @ '' '' @ dom @ '' '' @ month @ '' '' @ dow,
            case es_timezone s of None \<Rightarrow> None | Some tz \<Rightarrow> if tz = [] then None else Some tz))))))"

section \<open>Jobs\<close>

definition CRON_NAME_PREFIX :: string where
  "CRON_NAME_PREFIX = ''eden3:''"

definition cronJobName :: "string \<Rightarrow> (cron_error, string) res" where
  "cronJobName triggerId =
     (if triggerId = [] \<or> list_ex is_space triggerId then Inl (InvalidTriggerId triggerId)
      else Inr (CRON_NAME_PREFIX @ triggerId))"

record cron_job =
  cj_id :: string
  cj_name :: "string option"
  cj_enabled :: "bool option"
  cj_disabled :: "bool option"
  cj_fields :: json_object

text \<open>\<open>cronJobSchema\<close> and \<open>cronListSchema\<close>: optional members may be missing but not null.\<close>

fun opt_string :: "json option \<Rightarrow> string option option" where
  "opt_string None = Some None"
| "opt_string (Some (JStr s)) = Some (Some s)"
| "opt_string (Some _) = None"

fun opt_bool :: "json option \<Rightarrow> bool option option" where
  "opt_bool None = Some None"
| "opt_bool (Some (JBool b)) = Some (Some b)"
| "opt_bool (Some _) = None"

fun parse_job :: "json \<Rightarrow> cron_job option" where
  "parse_job (JObj ms) =
     (case (member ms ''id'', opt_string (member ms ''name''), opt_bool (member ms ''enabled''),
            opt_bool (member ms ''disabled'')) of
        (Some (JStr i), Some n, Some e, Some d) \<Rightarrow>
          Some \<lparr>cj_id = i, cj_name = n, cj_enabled = e, cj_disabled = d, cj_fields = ms\<rparr>
      | _ \<Rightarrow> None)"
| "parse_job _ = None"

fun parse_jobs :: "json list \<Rightarrow> cron_job list option" where
  "parse_jobs [] = Some []"
| "parse_jobs (j # js) =
     (case (parse_job j, parse_jobs js) of (Some a, Some as) \<Rightarrow> Some (a # as) | _ \<Rightarrow> None)"

fun parse_list :: "json \<Rightarrow> cron_job list option" where
  "parse_list (JObj ms) =
     (case member ms ''jobs'' of None \<Rightarrow> Some [] | Some (JArr js) \<Rightarrow> parse_jobs js | Some _ \<Rightarrow> None)"
| "parse_list _ = None"

fun firstString :: "json option list \<Rightarrow> string option" where
  "firstString [] = None"
| "firstString (Some (JStr s) # vs) = Some s"
| "firstString (_ # vs) = firstString vs"

definition asRecord :: "json option \<Rightarrow> json_object option" where
  "asRecord v = (case v of None \<Rightarrow> None | Some j \<Rightarrow> as_object j)"

text \<open>\<open>r?.k\<close>.\<close>

definition opt_member :: "json_object option \<Rightarrow> string \<Rightarrow> json option" where
  "opt_member r k = (case r of None \<Rightarrow> None | Some ms \<Rightarrow> member ms k)"

definition extractJobId :: "json \<Rightarrow> string option" where
  "extractJobId raw =
     (case as_object raw of
        None \<Rightarrow> None
      | Some r \<Rightarrow>
          firstString [member r ''id'', member r ''jobId'',
            opt_member (asRecord (member r ''job'')) ''id''])"

record sync_params =
  sp_triggerId :: string
  sp_openclawAgentId :: string
  sp_cronExpr :: string
  sp_tz :: "string option"
  sp_prompt :: string
  sp_enabled :: bool

datatype sync_action = JobCreated | JobReplaced | JobUnchanged | JobRemoved | JobAbsent

record sync_result =
  sr_name :: string
  sr_action :: sync_action
  sr_jobId :: "string option"

definition wants_tz :: "sync_params \<Rightarrow> bool" where
  "wants_tz p = (case sp_tz p of None \<Rightarrow> False | Some tz \<Rightarrow> tz \<noteq> [])"

definition jobMatches :: "cron_job \<Rightarrow> sync_params \<Rightarrow> bool" where
  "jobMatches job p =
     (if cj_enabled job = Some False \<or> cj_disabled job = Some True then False
      else
        (let r = cj_fields job;
             schedule = asRecord (member r ''schedule'');
             payload = asRecord (member r ''payload'')
         in firstString [member r ''cron'', opt_member schedule ''expr'', opt_member schedule ''cron'',
              member r ''schedule''] = Some (sp_cronExpr p) \<and>
            (wants_tz p \<longrightarrow>
               firstString [member r ''tz'', member r ''timezone'', opt_member schedule ''tz'',
                 opt_member schedule ''timezone''] = sp_tz p) \<and>
            firstString [member r ''message'', opt_member payload ''message'', opt_member payload ''text''] =
              Some (sp_prompt p) \<and>
            firstString [member r ''agentId'', member r ''agent'', opt_member payload ''agentId'',
              opt_member payload ''agent''] = Some (sp_openclawAgentId p)))"

section \<open>The gateway\<close>

record 'g cron_cli =
  execJson :: "string list \<Rightarrow> 'g \<Rightarrow> (cli_error, json) res \<times> 'g"
  exec :: "string list \<Rightarrow> 'g \<Rightarrow> (cli_error, unit) res \<times> 'g"
  retryAttempts :: nat

definition isTransientConfigReadError :: "cli_error \<Rightarrow> bool" where
  "isTransientConfigReadError e =
     (let m = to_lower (ce_message e)
      in contains m ''failed to read config'' \<and>
         (contains m ''openclaw.json'' \<or> contains m ''json5: invalid end of input''))"

fun withConfigReadRetry ::
  "nat \<Rightarrow> ('g \<Rightarrow> (cli_error, 'a) res \<times> 'g) \<Rightarrow> 'g \<Rightarrow> (cron_error, 'a) res \<times> 'g" where
  "withConfigReadRetry 0 f g = (Inl NoAttempt, g)"
| "withConfigReadRetry (Suc n) f g =
     (case f g of
        (Inr a, g') \<Rightarrow> (Inr a, g')
      | (Inl e, g') \<Rightarrow>
          if \<not> isTransientConfigReadError e \<or> n = 0 then (Inl (CliFailed e), g')
          else withConfigReadRetry n f g')"

definition execJsonWithConfigRetry ::
  "'g cron_cli \<Rightarrow> string list \<Rightarrow> 'g \<Rightarrow> (cron_error, json) res \<times> 'g" where
  "execJsonWithConfigRetry cli args g = withConfigReadRetry (retryAttempts cli) (execJson cli args) g"

definition execWithConfigRetry ::
  "'g cron_cli \<Rightarrow> string list \<Rightarrow> 'g \<Rightarrow> (cron_error, unit) res \<times> 'g" where
  "execWithConfigRetry cli args g = withConfigReadRetry (retryAttempts cli) (exec cli args) g"

definition gbind ::
  "(cron_error, 'a) res \<times> 'g \<Rightarrow> ('a \<Rightarrow> 'g \<Rightarrow> (cron_error, 'b) res \<times> 'g) \<Rightarrow> (cron_error, 'b) res \<times> 'g" where
  "gbind m f = (case m of (Inl e, g) \<Rightarrow> (Inl e, g) | (Inr a, g) \<Rightarrow> f a g)"

definition listJobs :: "'g cron_cli \<Rightarrow> 'g \<Rightarrow> (cron_error, cron_job list) res \<times> 'g" where
  "listJobs cli g =
     gbind (execJsonWithConfigRetry cli [''cron'', ''list''] g) (\<lambda>raw g'.
       (case parse_list raw of None \<Rightarrow> Inl UnexpectedListShape | Some js \<Rightarrow> Inr js, g'))"

definition eden_named :: "cron_job \<Rightarrow> bool" where
  "eden_named job = (case cj_name job of None \<Rightarrow> False | Some n \<Rightarrow> starts_with n CRON_NAME_PREFIX)"

definition listEdenJobs :: "'g cron_cli \<Rightarrow> 'g \<Rightarrow> (cron_error, cron_job list) res \<times> 'g" where
  "listEdenJobs cli g = gbind (listJobs cli g) (\<lambda>js g'. (Inr (filter eden_named js), g'))"

definition removeJob :: "'g cron_cli \<Rightarrow> string \<Rightarrow> 'g \<Rightarrow> (cron_error, unit) res \<times> 'g" where
  "removeJob cli jobId g = execWithConfigRetry cli [''cron'', ''rm'', jobId, ''--json''] g"

fun removeJobs :: "'g cron_cli \<Rightarrow> cron_job list \<Rightarrow> 'g \<Rightarrow> (cron_error, unit) res \<times> 'g" where
  "removeJobs cli [] g = (Inr (), g)"
| "removeJobs cli (j # js) g = gbind (removeJob cli (cj_id j) g) (\<lambda>_ g'. removeJobs cli js g')"

definition add_args :: "string \<Rightarrow> sync_params \<Rightarrow> string list" where
  "add_args name p =
     [''cron'', ''add'', ''--name'', name, ''--agent'', sp_openclawAgentId p, ''--cron'', sp_cronExpr p,
      ''--message'', sp_prompt p, ''--no-deliver''] @
     (if wants_tz p then [''--tz'', the (sp_tz p)] else [])"

definition addJob ::
  "'g cron_cli \<Rightarrow> string \<Rightarrow> sync_params \<Rightarrow> 'g \<Rightarrow> (cron_error, string option) res \<times> 'g" where
  "addJob cli name p g =
     gbind (execJsonWithConfigRetry cli (add_args name p) g) (\<lambda>raw g'. (Inr (extractJobId raw), g'))"

definition syncTrigger ::
  "'g cron_cli \<Rightarrow> sync_params \<Rightarrow> 'g \<Rightarrow> (cron_error, sync_result) res \<times> 'g" where
  "syncTrigger cli p g =
     (case cronJobName (sp_triggerId p) of
        Inl e \<Rightarrow> (Inl e, g)
      | Inr name \<Rightarrow>
          gbind (listJobs cli g) (\<lambda>js g1.
            let existing = filter (\<lambda>j. cj_name j = Some name) js
            in if \<not> sp_enabled p then
                 gbind (removeJobs cli existing g1) (\<lambda>_ g2.
                   (Inr \<lparr>sr_name = name, sr_action = (if existing \<noteq> [] then JobRemoved else JobAbsent),
                         sr_jobId = None\<rparr>, g2))
               else if length existing = 1 \<and> jobMatches (hd existing) p then
                 (Inr \<lparr>sr_name = name, sr_action = JobUnchanged, sr_jobId = Some (cj_id (hd existing))\<rparr>, g1)
               else
                 gbind (removeJobs cli existing g1) (\<lambda>_ g2.
                 gbind (addJob cli name p g2) (\<lambda>jobId g3.
                   (Inr \<lparr>sr_name = name, sr_action = (if existing \<noteq> [] then JobReplaced else JobCreated),
                         sr_jobId = jobId\<rparr>, g3)))))"

definition removeTrigger :: "'g cron_cli \<Rightarrow> string \<Rightarrow> 'g \<Rightarrow> (cron_error, sync_result) res \<times> 'g" where
  "removeTrigger cli triggerId g =
     syncTrigger cli \<lparr>sp_triggerId = triggerId, sp_openclawAgentId = [], sp_cronExpr = [], sp_tz = None,
       sp_prompt = [], sp_enabled = False\<rparr> g"

definition removeAllEden3Jobs :: "'g cron_cli \<Rightarrow> 'g \<Rightarrow> (cron_error, nat) res \<times> 'g" where
  "removeAllEden3Jobs cli g =
     gbind (listEdenJobs cli g) (\<lambda>js g1. gbind (removeJobs cli js g1) (\<lambda>_ g2. (Inr (length js), g2)))"

end
