(* ===== verification/TaskSchedule.thy ===== *)
theory TaskSchedule
  imports CronSync JsDate "HOL-Library.While_Combinator"
begin

text \<open>
  The next run of a scheduled task (apps/api/src/services/task-schedule.ts). Instants are
  milliseconds since the epoch. The time zone data of \<open>Intl\<close> is the argument \<open>zone\<close>: the
  offset in minutes of a zone at an instant, no value for a name that is not a zone; the
  local calendar is computed from it. \<open>Date.parse\<close> is the argument \<open>ms\<close>. A \<open>Set\<close> of numbers
  is a list read through membership only. The quotient of an instant by a minute is taken
  exactly, as it is for the dates before the year 10000.
\<close>

section \<open>Errors\<close>

datatype task_error =
    TaskFieldRequired string
  | TaskNumberOutOfRange string jsnum
  | TaskFieldType string
  | TaskNotACronField string string
  | TaskPartInvalid string string
  | TaskPartOutOfRange string string
  | TaskDayOfWeekInvalid cron_error
  | TaskTimezoneInvalid string
  | TaskAtNotText
  | TaskAtInvalid string
  | TaskNotAnObject

section \<open>Fields\<close>

definition isOneTimeSchedule :: "json \<Rightarrow> bool" where
  "isOneTimeSchedule schedule =
     (case as_object schedule of None \<Rightarrow> False | Some ms \<Rightarrow> member ms ''at'' \<noteq> None)"

definition SCAN_CAP_DAYS :: int where
  "SCAN_CAP_DAYS = 400"

definition MINUTE_MS :: int where
  "MINUTE_MS = 60000"

definition DAY_MS :: int where
  "DAY_MS = 86400000"

text \<open>\<open>for (let v = lo; v <= hi; v += step)\<close>.\<close>

function steps :: "int \<Rightarrow> int \<Rightarrow> int \<Rightarrow> int list" where
  "steps lo hi step = (if hi < lo \<or> step < 1 then [] else lo # steps (lo + step) hi step)"
  by pat_completeness auto
termination by (relation "measure (\<lambda>(lo, hi, step). nat (hi - lo + 1))") auto

declare steps.simps [simp del]

definition item_bounds :: "string \<Rightarrow> int \<Rightarrow> int \<Rightarrow> bool \<Rightarrow> (int option \<times> int option) option" where
  "item_bounds base lo hi stepped =
     (if base = ''*'' then Some (Some lo, Some hi)
      else if CHR ''-'' \<in> set base then
        (case js_split CHR ''-'' base of
           [a, b] \<Rightarrow> Some (number_of_text a, number_of_text b)
         | _ \<Rightarrow> None)
      else Some (number_of_text base, if stepped then Some hi else number_of_text base))"

definition item_values ::
  "string \<Rightarrow> string \<Rightarrow> int \<Rightarrow> int \<Rightarrow> bool \<Rightarrow> int \<Rightarrow> int \<Rightarrow> int \<Rightarrow> (task_error, int list) res" where
  "item_values item name least most allowWrap lo hi step =
     (if lo < least \<or> most < lo \<or> hi < least \<or> most < hi then Inl (TaskPartOutOfRange name item)
      else if lo \<le> hi then Inr (steps lo hi step)
      else if allowWrap then Inr (steps lo most step @ steps least hi step)
      else Inl (TaskPartInvalid name item))"

definition addFieldItem ::
  "string \<Rightarrow> string \<Rightarrow> int \<Rightarrow> int \<Rightarrow> bool \<Rightarrow> (task_error, int list) res" where
  "addFieldItem item name least most allowWrap =
     (let bad = Inl (TaskPartInvalid name item);
          parts = js_split CHR ''/'' item;
          base = hd parts;
          stepRaw = (if 2 \<le> length parts then Some (parts ! 1) else None)
      in if 2 < length parts \<or> base = [] then bad
         else
           (case (case stepRaw of None \<Rightarrow> Some 1 | Some r \<Rightarrow> number_of_text r) of
              None \<Rightarrow> bad
            | Some step \<Rightarrow>
                if step < 1 then bad
                else
                  (case item_bounds base least most (stepRaw \<noteq> None) of
                     Some (Some lo, Some hi) \<Rightarrow> item_values item name least most allowWrap lo hi step
                   | _ \<Rightarrow> bad)))"

fun add_items ::
  "string list \<Rightarrow> string \<Rightarrow> int \<Rightarrow> int \<Rightarrow> bool \<Rightarrow> (task_error, int list) res" where
  "add_items [] name least most allowWrap = Inr []"
| "add_items (item # items) name least most allowWrap =
     ebind (addFieldItem item name least most allowWrap) (\<lambda>vs.
     ebind (add_items items name least most allowWrap) (\<lambda>ws. Inr (vs @ ws)))"

text \<open>No value stands for the unrestricted field.\<close>

definition parseField ::
  "json option \<Rightarrow> string \<Rightarrow> int \<Rightarrow> int \<Rightarrow> bool \<Rightarrow> (task_error, int list option) res" where
  "parseField value name least most required =
     (case value of
        None \<Rightarrow> if required then Inl (TaskFieldRequired name) else Inr None
      | Some JNull \<Rightarrow> if required then Inl (TaskFieldRequired name) else Inr None
      | Some (JNum v) \<Rightarrow>
          (case int_of_num v of
             None \<Rightarrow> Inl (TaskNumberOutOfRange name v)
           | Some n \<Rightarrow>
               if n < least \<or> most < n then Inl (TaskNumberOutOfRange name v) else Inr (Some [n]))
      | Some (JStr s) \<Rightarrow>
          (let t = js_trim s
           in if t = ''*'' then Inr None
              else if t = [] \<or> \<not> list_all cron_char t then Inl (TaskNotACronField name s)
              else ebind (add_items (js_split CHR '','' t) name least most False) (\<lambda>vs. Inr (Some vs)))
      | Some _ \<Rightarrow> Inl (TaskFieldType name))"

definition DAY_NAME_INDEX :: "(string \<times> int) list" where
  "DAY_NAME_INDEX =
     [(''sun'', 0), (''mon'', 1), (''tue'', 2), (''wed'', 3), (''thu'', 4), (''fri'', 5), (''sat'', 6)]"

text \<open>\<open>item.replace(/[a-z]+/g, ...)\<close>: no value when a name is unknown.\<close>

function replace_names :: "string \<Rightarrow> string option" where
  "replace_names [] = Some []"
| "replace_names (c # s) =
     (if is_lower c then
        (case map_of DAY_NAME_INDEX (c # takeWhile is_lower s) of
           None \<Rightarrow> None
         | Some i \<Rightarrow> map_option (\<lambda>r. show_int i @ r) (replace_names (dropWhile is_lower s)))
      else map_option (Cons c) (replace_names s))"
  by pat_completeness auto
termination
  by (relation "measure length") (auto simp: le_imp_less_Suc length_dropWhile_le)

fun add_dow_items :: "string list \<Rightarrow> (task_error, int list) res" where
  "add_dow_items [] = Inr []"
| "add_dow_items (item # items) =
     (case replace_names item of
        None \<Rightarrow> Inl (TaskPartInvalid ''day_of_week'' item)
      | Some digits \<Rightarrow>
          ebind (addFieldItem digits ''day_of_week'' 0 6 True) (\<lambda>vs.
          ebind (add_dow_items items) (\<lambda>ws. Inr (vs @ ws))))"

definition dow_value :: "json \<Rightarrow> field_value option" where
  "dow_value v = (case v of JNum n \<Rightarrow> Some (FieldNum n) | JStr s \<Rightarrow> Some (FieldText s) | _ \<Rightarrow> None)"

definition parseDayOfWeek :: "json option \<Rightarrow> (task_error, int list option) res" where
  "parseDayOfWeek value =
     (case value of
        None \<Rightarrow> Inr None
      | Some JNull \<Rightarrow> Inr None
      | Some v \<Rightarrow>
          (case dow_value v of
             None \<Rightarrow> Inl (TaskFieldType ''day_of_week'')
           | Some f \<Rightarrow>
               (case apschedulerDowToCron f of
                  Inl e \<Rightarrow> Inl (TaskDayOfWeekInvalid e)
                | Inr cronDow \<Rightarrow>
                    if cronDow = ''*'' then Inr None
                    else ebind (add_dow_items (js_split CHR '','' cronDow)) (\<lambda>vs. Inr (Some vs)))))"

section \<open>Wall clock\<close>

record local_parts =
  lp_minute :: int
  lp_hour :: int
  lp_day :: int
  lp_month :: int
  lp_dow :: int

text \<open>The parts of a local minute, counted from the epoch; day 0 is a Thursday.\<close>

definition parts_at :: "int \<Rightarrow> local_parts" where
  "parts_at m =
     (case civil_of (m div 1440) of
        (_, month, day) \<Rightarrow>
          \<lparr>lp_minute = m mod 60, lp_hour = m div 60 mod 24, lp_day = day, lp_month = month,
           lp_dow = (m div 1440 + 4) mod 7\<rparr>)"

definition localParts :: "(int \<Rightarrow> int) \<Rightarrow> int \<Rightarrow> local_parts" where
  "localParts off t = parts_at (t div MINUTE_MS + off t)"

section \<open>The next occurrence\<close>

definition oneTimeNext ::
  "(string \<Rightarrow> int option) \<Rightarrow> json_object \<Rightarrow> int \<Rightarrow> (task_error, int option) res" where
  "oneTimeNext ms obj frm =
     (case member obj ''at'' of
        Some (JStr s) \<Rightarrow>
          (case ms s of
             None \<Rightarrow> Inl (TaskAtInvalid s)
           | Some t \<Rightarrow> Inr (if frm < t then Some t else None))
      | _ \<Rightarrow> Inl TaskAtNotText)"

record field_sets =
  fs_minute :: "int list option"
  fs_hour :: "int list option"
  fs_day :: "int list option"
  fs_month :: "int list option"
  fs_dow :: "int list option"

definition matches :: "int list option \<Rightarrow> int \<Rightarrow> bool" where
  "matches st v = (case st of None \<Rightarrow> True | Some vs \<Rightarrow> v \<in> set vs)"

definition dateMatches :: "field_sets \<Rightarrow> local_parts \<Rightarrow> bool" where
  "dateMatches f p =
     (if \<not> matches (fs_month f) (lp_month p) then False
      else if fs_day f \<noteq> None \<and> fs_dow f \<noteq> None then
        matches (fs_day f) (lp_day p) \<or> matches (fs_dow f) (lp_dow p)
      else matches (fs_day f) (lp_day p) \<and> matches (fs_dow f) (lp_dow p))"

text \<open>One round of the loop: the next instant to try, and the match when there is one.\<close>

definition scan_round :: "(int \<Rightarrow> int) \<Rightarrow> field_sets \<Rightarrow> int \<times> int option \<Rightarrow> int \<times> int option" where
  "scan_round off f st =
     (case st of (t, _) \<Rightarrow>
        let p = localParts off t
        in if \<not> dateMatches f p \<or> \<not> matches (fs_hour f) (lp_hour p)
           then (t + (60 - lp_minute p) * MINUTE_MS, None)
           else if matches (fs_minute f) (lp_minute p) then (t, Some t)
           else (t + MINUTE_MS, None))"

text \<open>No value when the loop never ends.\<close>

definition scan :: "(int \<Rightarrow> int) \<Rightarrow> field_sets \<Rightarrow> int \<Rightarrow> int \<Rightarrow> int option option" where
  "scan off f cap t =
     map_option snd (while_option (\<lambda>(t, found). found = None \<and> t \<le> cap) (scan_round off f) (t, None))"

definition first_minute :: "int \<Rightarrow> int" where
  "first_minute frm =
     (let t = - ((- frm) div MINUTE_MS) * MINUTE_MS in if t = frm then t + MINUTE_MS else t)"

definition parse_fields :: "json_object \<Rightarrow> (task_error, field_sets) res" where
  "parse_fields dict =
     ebind (parseField (member dict ''minute'') ''minute'' 0 59 True) (\<lambda>minuteSet.
     ebind (parseField (member dict ''hour'') ''hour'' 0 23 True) (\<lambda>hourSet.
     ebind (parseField (member dict ''day'') ''day'' 1 31 False) (\<lambda>daySet.
     ebind (parseField (member dict ''month'') ''month'' 1 12 False) (\<lambda>monthSet.
     ebind (parseDayOfWeek (member dict ''day_of_week'')) (\<lambda>dowSet.
       Inr \<lparr>fs_minute = minuteSet, fs_hour = hourSet, fs_day = daySet, fs_month = monthSet,
            fs_dow = dowSet\<rparr>)))))"

definition timezone_of :: "json_object \<Rightarrow> string" where
  "timezone_of dict =
     (case member dict ''timezone'' of Some (JStr s) \<Rightarrow> if s \<noteq> [] then s else ''UTC'' | _ \<Rightarrow> ''UTC'')"

definition formatterFor :: "(string \<Rightarrow> (int \<Rightarrow> int) option) \<Rightarrow> string \<Rightarrow> (task_error, int \<Rightarrow> int) res" where
  "formatterFor zone timezone =
     (case zone timezone of None \<Rightarrow> Inl (TaskTimezoneInvalid timezone) | Some off \<Rightarrow> Inr off)"

text \<open>No value when the scan never ends; a null answer is \<open>Inr None\<close>.\<close>

definition nextOccurrence ::
  "(string \<Rightarrow> int option) \<Rightarrow> (string \<Rightarrow> (int \<Rightarrow> int) option) \<Rightarrow> json \<Rightarrow> int
     \<Rightarrow> (task_error, int option) res option" where
  "nextOccurrence ms zone schedule frm =
     (case as_object schedule of
        None \<Rightarrow> Some (Inl TaskNotAnObject)
      | Some dict \<Rightarrow>
          if isOneTimeSchedule schedule then Some (oneTimeNext ms dict frm)
          else
            (case ebind (parse_fields dict) (\<lambda>f.
                    ebind (formatterFor zone (timezone_of dict)) (\<lambda>off. Inr (f, off))) of
               Inl e \<Rightarrow> Some (Inl e)
             | Inr (f, off) \<Rightarrow>
                 map_option Inr (scan off f (frm + SCAN_CAP_DAYS * DAY_MS) (first_minute frm))))"

end
