(* ===== verification/ScheduleFacts.thy ===== *)
theory ScheduleFacts
  imports TaskSchedule
begin

text \<open>
  The number sets the field parser yields, and the scan for the next occurrence: it ends,
  and under stable hours it stops at the first instant that fires.
\<close>

section \<open>Value sets\<close>

lemma set_steps: "1 \<le> step \<Longrightarrow> set (steps lo hi step) = {v. lo \<le> v \<and> v \<le> hi \<and> step dvd v - lo}"
proof (induction lo hi step rule: steps.induct)
  case (1 lo hi step)
  show ?case
  proof (cases "hi < lo")
    case True
    then show ?thesis by (subst steps.simps) auto
  next
    case False
    then have ih: "set (steps (lo + step) hi step) = {v. lo + step \<le> v \<and> v \<le> hi \<and> step dvd v - (lo + step)}"
      using 1 by simp
    have dvd: "step dvd v - (lo + step) \<longleftrightarrow> step dvd v - lo" for v
    proof -
      have "v - (lo + step) = v - lo - step" by simp
      then show ?thesis by (simp only: dvd_diff_left_iff [OF dvd_refl])
    qed
    have later: "lo + step \<le> v \<or> v = lo" if "lo \<le> v" "step dvd v - lo" for v
    proof (cases "v = lo")
      case False
      then have "step \<le> v - lo" using that by (intro zdvd_imp_le) simp_all
      then show ?thesis by simp
    qed simp
    show ?thesis using False "1.prems" ih dvd later by (subst steps.simps) auto
  qed
qed

definition field_ok :: "int \<Rightarrow> int \<Rightarrow> int list option \<Rightarrow> bool" where
  "field_ok lo hi st = (case st of None \<Rightarrow> True | Some vs \<Rightarrow> vs \<noteq> [] \<and> set vs \<subseteq> {lo..hi})"

lemma steps_ok:
  assumes "1 \<le> step" "lo \<le> hi"
  shows "steps lo hi step \<noteq> []" "set (steps lo hi step) \<subseteq> {lo..hi}"
proof -
  show "steps lo hi step \<noteq> []" using assms by (subst steps.simps) simp
  show "set (steps lo hi step) \<subseteq> {lo..hi}" using set_steps [OF assms(1)] by auto
qed

lemma item_values_ok:
  assumes "item_values item name least most allowWrap lo hi step = Inr vs" "1 \<le> step"
  shows "vs \<noteq> [] \<and> set vs \<subseteq> {least..most}"
proof -
  have r: "least \<le> lo" "lo \<le> most" "least \<le> hi" "hi \<le> most"
    "lo \<le> hi \<and> vs = steps lo hi step \<or> hi < lo \<and> vs = steps lo most step @ steps least hi step"
    using assms(1) by (auto simp: item_values_def not_le not_less split: if_splits)
  from r(5) show ?thesis
  proof (elim disjE conjE)
    assume "lo \<le> hi" "vs = steps lo hi step"
    then show ?thesis using steps_ok [OF assms(2)] r by fastforce
  next
    assume "hi < lo" "vs = steps lo most step @ steps least hi step"
    then show ?thesis using steps_ok [OF assms(2) r(2)] steps_ok [OF assms(2) r(3)] r by fastforce
  qed
qed

lemma addFieldItem_values:
  "addFieldItem item name least most w = Inr vs \<Longrightarrow>
     \<exists>lo hi step. 1 \<le> step \<and> item_values item name least most w lo hi step = Inr vs"
  by (simp add: addFieldItem_def Let_def not_less split: if_splits option.splits prod.splits)
    (metis le_numeral_extra(4))+

lemma addFieldItem_ok: "addFieldItem item name least most w = Inr vs \<Longrightarrow> vs \<noteq> [] \<and> set vs \<subseteq> {least..most}"
  using addFieldItem_values item_values_ok by blast

lemma add_items_ok:
  "add_items items name least most w = Inr vs \<Longrightarrow> items \<noteq> [] \<Longrightarrow> vs \<noteq> [] \<and> set vs \<subseteq> {least..most}"
proof (induction items arbitrary: vs)
  case (Cons item items)
  then obtain as bs where r: "addFieldItem item name least most w = Inr as" "add_items items name least most w = Inr bs"
    "vs = as @ bs" by (auto simp: ebind_Inr_iff)
  then have "as \<noteq> []" "set as \<subseteq> {least..most}" by (simp_all add: addFieldItem_ok)
  moreover have "set bs \<subseteq> {least..most}"
    using Cons.IH [OF r(2)] r(2) by (cases items) auto
  ultimately show ?case using r(3) by simp
qed simp

lemma parseField_ok:
  assumes "parseField v0 name least most required = Inr st"
  shows "field_ok least most st \<and> (required \<longrightarrow> v0 \<noteq> None)"
proof (cases v0)
  case None
  then show ?thesis using assms by (auto simp: parseField_def field_ok_def split: if_splits)
next
  case (Some v)
  show ?thesis
  proof (cases v)
    case (JStr s)
    have "add_items (js_split CHR '','' (js_trim s)) name least most False = Inr vs \<Longrightarrow>
        vs \<noteq> [] \<and> set vs \<subseteq> {least..most}" for vs
      by (erule add_items_ok) (rule js_split_not_Nil)
    then show ?thesis using assms Some JStr
      by (auto simp: parseField_def field_ok_def Let_def ebind_Inr_iff split: if_splits)
  qed (use assms Some in \<open>auto simp: parseField_def field_ok_def not_less split: if_splits option.splits\<close>)
qed

lemma add_dow_items_ok:
  "add_dow_items items = Inr vs \<Longrightarrow> items \<noteq> [] \<Longrightarrow> vs \<noteq> [] \<and> set vs \<subseteq> {0..6}"
proof (induction items arbitrary: vs)
  case (Cons item items)
  then obtain digits as bs where r: "replace_names item = Some digits"
    "addFieldItem digits ''day_of_week'' 0 6 True = Inr as" "add_dow_items items = Inr bs" "vs = as @ bs"
    by (auto simp: ebind_Inr_iff split: option.splits)
  then have "as \<noteq> []" "set as \<subseteq> {0..6}" using addFieldItem_ok [OF r(2)] by simp_all
  moreover have "set bs \<subseteq> {0..6}" using Cons.IH [OF r(3)] r(3) by (cases items) auto
  ultimately show ?case using r(4) by simp
qed simp

lemma parseDayOfWeek_ok:
  assumes "parseDayOfWeek v0 = Inr st"
  shows "field_ok 0 6 st"
proof -
  have "add_dow_items (js_split CHR '','' t) = Inr vs \<Longrightarrow> vs \<noteq> [] \<and> set vs \<subseteq> {0..6}" for t vs
    by (erule add_dow_items_ok) (rule js_split_not_Nil)
  then show ?thesis using assms
    by (auto simp: parseDayOfWeek_def field_ok_def ebind_Inr_iff
        split: option.splits json.splits sum.splits if_splits)
qed

section \<open>The scan ends\<close>

lemma minute_range: "0 \<le> lp_minute (localParts off t)" "lp_minute (localParts off t) < 60"
  by (simp_all add: localParts_def parts_at_def split: prod.split)

lemma round_advances:
  assumes "scan_round off f (t, found) = (t', found')"
  shows "t < t' \<and> found' = None \<or> t' = t \<and> found' = Some t"
proof -
  have "0 < (60 - lp_minute (localParts off t)) * MINUTE_MS" using minute_range [of off t] by (simp add: MINUTE_MS_def)
  then show ?thesis using assms by (auto simp: scan_round_def Let_def MINUTE_MS_def split: if_splits)
qed

lemma scan_ends: "\<exists>r. scan off f cap t = Some r"
proof -
  let ?m = "\<lambda>(t :: int, found :: int option). 2 * nat (cap + 1 - t) + (if found = None then 1 else 0)"
  have "\<exists>st. while_option (\<lambda>(t, found). found = None \<and> t \<le> cap) (scan_round off f) (t, None) = Some st"
  proof (rule measure_while_option_Some [where P = "\<lambda>_. True" and f = ?m])
    fix st :: "int \<times> int option"
    assume b: "case st of (t, found) \<Rightarrow> found = None \<and> t \<le> cap"
    obtain t found where st: "st = (t, found)" by (cases st)
    obtain t' found' where r: "scan_round off f (t, found) = (t', found')" by (cases "scan_round off f (t, found)")
    from round_advances [OF r] b show "True \<and> ?m (scan_round off f st) < ?m st" unfolding st r by auto
  qed simp
  then show ?thesis unfolding scan_def by auto
qed

section \<open>The scan finds the first match\<close>

definition fires :: "(int \<Rightarrow> int) \<Rightarrow> field_sets \<Rightarrow> int \<Rightarrow> bool" where
  "fires off f t \<longleftrightarrow>
     (let p = localParts off t
      in dateMatches f p \<and> matches (fs_hour f) (lp_hour p) \<and> matches (fs_minute f) (lp_minute p))"

text \<open>The offset does not change within what is left of a local hour.\<close>

definition hour_stable :: "(int \<Rightarrow> int) \<Rightarrow> bool" where
  "hour_stable off \<longleftrightarrow>
     (\<forall>t k. MINUTE_MS dvd t \<longrightarrow> 0 \<le> k \<longrightarrow> k < 60 - lp_minute (localParts off t) \<longrightarrow>
        off (t + k * MINUTE_MS) = off t)"

lemma parts_at_later:
  assumes "0 \<le> k" "m mod 60 + k < 60"
  shows "parts_at (m + k) = (parts_at m)\<lparr>lp_minute := m mod 60 + k\<rparr>"
proof -
  have small: "0 \<le> m mod 60 + k" "m mod 60 + k < 60" using assms by simp_all
  have e: "m + k = (m mod 60 + k) + (m div 60) * 60" by simp
  have aux: "(r + a * 60) div 60 = a" "(r + a * 60) mod 60 = r" if "0 \<le> r" "r < 60" for r a :: int
    using that by simp_all
  have h: "(m + k) div 60 = m div 60" "(m + k) mod 60 = m mod 60 + k"
    using aux [OF small, of "m div 60"] unfolding e [symmetric] .
  have d: "x div 1440 = x div 60 div 24" for x :: int by (simp add: zdiv_zmult2_eq [symmetric])
  have "(m + k) div 1440 = m div 1440" unfolding d h(1) ..
  then show ?thesis unfolding parts_at_def h by (simp split: prod.split)
qed

lemma same_hour:
  assumes "hour_stable off" "MINUTE_MS dvd t" "0 \<le> k" "k < 60 - lp_minute (localParts off t)"
  shows "localParts off (t + k * MINUTE_MS) =
    (localParts off t)\<lparr>lp_minute := lp_minute (localParts off t) + k\<rparr>"
proof -
  have off: "off (t + k * MINUTE_MS) = off t" using assms unfolding hour_stable_def by blast
  define m where "m = t div MINUTE_MS + off t"
  have p: "localParts off t = parts_at m" by (simp add: localParts_def m_def)
  have min: "lp_minute (parts_at m) = m mod 60" by (simp add: parts_at_def split: prod.split)
  have "(t + k * MINUTE_MS) div MINUTE_MS = t div MINUTE_MS + k" by (simp add: MINUTE_MS_def)
  then have "localParts off (t + k * MINUTE_MS) = parts_at (m + k)"
    unfolding localParts_def off m_def by (simp add: ac_simps)
  then show ?thesis using parts_at_later [OF assms(3), of m] assms(4) unfolding p min by simp
qed

lemma skipped_hour:
  assumes "hour_stable off" "MINUTE_MS dvd t"
    and "\<not> (dateMatches f (localParts off t) \<and> matches (fs_hour f) (lp_hour (localParts off t)))"
    and "MINUTE_MS dvd u" "t \<le> u" "u < t + (60 - lp_minute (localParts off t)) * MINUTE_MS"
  shows "\<not> fires off f u"
proof -
  obtain a b where ab: "t = MINUTE_MS * a" "u = MINUTE_MS * b" using assms(2,4) by (auto elim!: dvdE)
  define k where "k = b - a"
  have u: "u = t + k * MINUTE_MS" by (simp add: ab k_def algebra_simps)
  have "0 \<le> k" "k < 60 - lp_minute (localParts off t)"
    using assms(5,6) unfolding u by (simp_all add: MINUTE_MS_def)
  then have "localParts off u = (localParts off t)\<lparr>lp_minute := lp_minute (localParts off t) + k\<rparr>"
    unfolding u by (rule same_hour [OF assms(1,2)])
  then have "dateMatches f (localParts off u) = dateMatches f (localParts off t)"
    "lp_hour (localParts off u) = lp_hour (localParts off t)" by (simp_all add: dateMatches_def)
  then show ?thesis using assms(3) unfolding fires_def Let_def by metis
qed

text \<open>The whole minutes after \<open>frm\<close> and before \<open>t\<close> do not fire.\<close>

definition quiet :: "(int \<Rightarrow> int) \<Rightarrow> field_sets \<Rightarrow> int \<Rightarrow> int \<Rightarrow> bool" where
  "quiet off f frm t \<longleftrightarrow> (\<forall>u. MINUTE_MS dvd u \<longrightarrow> frm < u \<longrightarrow> u < t \<longrightarrow> \<not> fires off f u)"

lemma next_minute:
  assumes "MINUTE_MS dvd t" "MINUTE_MS dvd u" "t < u"
  shows "t + MINUTE_MS \<le> u"
proof -
  have "MINUTE_MS \<le> u - t" using assms by (intro zdvd_imp_le dvd_diff) simp_all
  then show ?thesis by simp
qed

lemma quiet_round:
  assumes "hour_stable off" "MINUTE_MS dvd t" "quiet off f frm t" "scan_round off f (t, found) = (t', found')"
  shows "MINUTE_MS dvd t' \<and> quiet off f frm t' \<and> (\<forall>u. found' = Some u \<longrightarrow> u = t' \<and> t' = t \<and> fires off f u)"
proof -
  let ?p = "localParts off t"
  consider (hour) "\<not> (dateMatches f ?p \<and> matches (fs_hour f) (lp_hour ?p))"
      "t' = t + (60 - lp_minute ?p) * MINUTE_MS" "found' = None"
    | (found) "fires off f t" "t' = t" "found' = Some t"
    | (minute) "\<not> fires off f t" "t' = t + MINUTE_MS" "found' = None"
    using assms(4) by (auto simp: scan_round_def fires_def Let_def split: if_splits)
  then show ?thesis
  proof cases
    case hour
    have "\<not> fires off f u" if "MINUTE_MS dvd u" "frm < u" "u < t'" for u
    proof (cases "u < t")
      case True
      then show ?thesis using assms(3) that unfolding quiet_def by blast
    next
      case False
      then show ?thesis using skipped_hour [OF assms(1,2) hour(1) that(1)] that(3) hour(2) by simp
    qed
    then show ?thesis using hour assms(2) by (simp add: quiet_def)
  next
    case minute
    have "\<not> fires off f u" if "MINUTE_MS dvd u" "frm < u" "u < t'" for u
    proof (cases u t rule: linorder_cases)
      case less
      then show ?thesis using assms(3) that unfolding quiet_def by blast
    next
      case greater
      then show ?thesis using next_minute [OF assms(2) that(1)] that(3) minute(2) by simp
    qed (use minute in simp)
    then show ?thesis using minute assms(2) by (simp add: quiet_def)
  qed (use assms in simp)
qed

lemma scan_first:
  assumes "hour_stable off" "MINUTE_MS dvd t" "frm < t" "quiet off f frm t" "scan off f cap t = Some r"
  shows "(\<forall>u. r = Some u \<longrightarrow> MINUTE_MS dvd u \<and> frm < u \<and> u \<le> cap \<and> fires off f u \<and> quiet off f frm u) \<and>
    (r = None \<longrightarrow> quiet off f frm (cap + 1))"
proof -
  let ?b = "\<lambda>(t, found). found = None \<and> t \<le> cap"
  let ?P = "\<lambda>(t, found). MINUTE_MS dvd t \<and> frm < t \<and> quiet off f frm t \<and>
    (\<forall>u. found = Some u \<longrightarrow> u = t \<and> t \<le> cap \<and> fires off f u)"
  obtain st where st: "while_option ?b (scan_round off f) (t, None) = Some st" "r = snd st"
    using assms(5) by (auto simp: scan_def)
  have keep: "?P (scan_round off f s)" if P: "?P s" and b: "?b s" for s
  proof -
    obtain v found where s: "s = (v, found)" by (cases s)
    obtain v' found' where r: "scan_round off f (v, found) = (v', found')" by (cases "scan_round off f (v, found)")
    have "v \<le> v'" using round_advances [OF r] by auto
    then show ?thesis using quiet_round [OF assms(1) _ _ r] P b unfolding s r by auto
  qed
  have "?P st" using while_option_rule [where P = ?P, OF keep st(1)] assms(2-4) by simp
  moreover have "\<not> ?b st" by (rule while_option_stop [OF st(1)])
  ultimately show ?thesis using st(2) by (cases st) (auto simp: quiet_def)
qed

lemma first_minute_spec:
  "MINUTE_MS dvd first_minute frm" "frm < first_minute frm" "quiet off f frm (first_minute frm)"
proof -
  define q where "q = frm div 60000"
  define r where "r = frm mod 60000"
  have frm: "frm = q * 60000 + r" "0 \<le> r" "r < 60000" by (simp_all add: q_def r_def)
  have e: "first_minute frm = (q + 1) * MINUTE_MS"
  proof (cases "r = 0")
    case True
    then show ?thesis by (simp add: first_minute_def MINUTE_MS_def Let_def frm(1))
  next
    case False
    have "(- frm) div 60000 = - q - 1"
      using False by (simp add: zdiv_zminus1_eq_if q_def r_def)
    then show ?thesis using False frm by (simp add: first_minute_def MINUTE_MS_def Let_def)
  qed
  show "MINUTE_MS dvd first_minute frm" unfolding e by simp
  show "frm < first_minute frm" unfolding e MINUTE_MS_def using frm by simp
  have "\<not> (frm < u \<and> u < first_minute frm)" if dvd: "MINUTE_MS dvd u" for u
  proof
    assume a: "frm < u \<and> u < first_minute frm"
    obtain b where b: "u = MINUTE_MS * b" using dvd by (elim dvdE)
    have "q * 60000 < 60000 * b" "60000 * b < (q + 1) * 60000"
      using a frm unfolding e b MINUTE_MS_def by linarith+
    then show False by simp
  qed
  then show "quiet off f frm (first_minute frm)" unfolding quiet_def by blast
qed

end
