(* ===== verification/ScheduleProperties.thy ===== *)
theory ScheduleProperties
  imports ScheduleFacts
begin

text \<open>
  The properties of task schedules and of the cron reconciliation: the next occurrence is
  computed and is the first one, fields are in range, the two weekday conventions agree,
  and reconciling leaves the gateway with exactly the wanted jobs.
\<close>

section \<open>Samples\<close>

text \<open>A zone two hours ahead of UTC.\<close>

definition sample_zone :: "string \<Rightarrow> (int \<Rightarrow> int) option" where
  "sample_zone name = (if name = ''Etc/GMT-2'' then Some (\<lambda>_. 120) else None)"

definition sample_schedule :: json where
  "sample_schedule = JObj [(''minute'', JStr ''*/30''), (''hour'', JNum (JFin 9)), (''day_of_week'', JStr ''0-4''),
     (''timezone'', JStr ''Etc/GMT-2'')]"

lemma sample_stable: "hour_stable (\<lambda>_. n)"
  by (simp add: hour_stable_def)

section \<open>Next occurrence\<close>

text \<open>C38: The next occurrence is always computed: whatever the schedule, the zone data and the instant,
  the scan ends, because every round moves at least one minute towards the cap.\<close>
theorem nextOccurrence_returns: "\<exists>r. nextOccurrence ms zone schedule frm = Some r"
proof (cases "as_object schedule")
  case (Some dict)
  obtain x where x: "x = ebind (parse_fields dict) (\<lambda>f. ebind (formatterFor zone (timezone_of dict)) (\<lambda>off. Inr (f, off)))"
    by simp
  show ?thesis
  proof (cases x)
    case (Inr y)
    obtain f off where "y = (f, off)" by (cases y)
    moreover obtain r where "scan off f (frm + SCAN_CAP_DAYS * DAY_MS) (first_minute frm) = Some r"
      using scan_ends by blast
    ultimately show ?thesis using Some Inr x by (simp add: nextOccurrence_def)
  qed (use Some x in \<open>simp add: nextOccurrence_def\<close>)
qed (simp add: nextOccurrence_def)

text \<open>C37: The next occurrence is the first: for a recurring schedule with readable fields in a zone whose
  offset changes only at local hour boundaries, the answer is the first whole minute after the
  given instant and within 400 days whose local date, hour and minute match, or none when there is
  no such minute, although the scan jumps over whole hours.\<close>
theorem nextOccurrence_first:
  assumes "as_object schedule = Some dict" "\<not> isOneTimeSchedule schedule" "parse_fields dict = Inr f"
    and "zone (timezone_of dict) = Some off" "hour_stable off"
  shows "\<exists>r. nextOccurrence ms zone schedule frm = Some (Inr r) \<and>
    (\<forall>t. r = Some t \<longleftrightarrow>
       MINUTE_MS dvd t \<and> frm < t \<and> t \<le> frm + SCAN_CAP_DAYS * DAY_MS \<and> fires off f t \<and>
       (\<forall>u. MINUTE_MS dvd u \<longrightarrow> frm < u \<longrightarrow> u < t \<longrightarrow> \<not> fires off f u))"
proof -
  let ?cap = "frm + SCAN_CAP_DAYS * DAY_MS"
  obtain r where r: "scan off f ?cap (first_minute frm) = Some r" using scan_ends by blast
  note s = scan_first [OF assms(5) first_minute_spec r]
  have n: "nextOccurrence ms zone schedule frm = Some (Inr r)"
    using assms(1-4) r by (simp add: nextOccurrence_def formatterFor_def)
  have "r = Some t \<longleftrightarrow> MINUTE_MS dvd t \<and> frm < t \<and> t \<le> ?cap \<and> fires off f t \<and> quiet off f frm t" for t
  proof
    assume t: "MINUTE_MS dvd t \<and> frm < t \<and> t \<le> ?cap \<and> fires off f t \<and> quiet off f frm t"
    show "r = Some t"
    proof (cases r)
      case None
      then have "quiet off f frm (?cap + 1)" using s by simp
      moreover have "t < ?cap + 1" using t by simp
      ultimately have "\<not> fires off f t" using t unfolding quiet_def by blast
      then show ?thesis using t by blast
    next
      case (Some u)
      then have u: "MINUTE_MS dvd u" "frm < u" "fires off f u" "quiet off f frm u" using s by simp_all
      have "\<not> u < t" using u t unfolding quiet_def by blast
      moreover have "\<not> t < u" using u t unfolding quiet_def by blast
      ultimately show ?thesis using Some by simp
    qed
  qed (use s in blast)
  then show ?thesis using n unfolding quiet_def by blast
qed

definition sample_fields :: field_sets where
  "sample_fields = \<lparr>fs_minute = Some [0, 30], fs_hour = Some [9], fs_day = None, fs_month = None,
     fs_dow = Some [1, 2, 3, 4, 5]\<rparr>"

lemma nextOccurrence_first_witness:
  "nextOccurrence (\<lambda>_. None) sample_zone sample_schedule 1787000000000 = Some (Inr (Some 1787036400000)) \<and>
   fires (\<lambda>_. 120) sample_fields 1787036400000"
proof -
  define dict where "dict = [(''minute'', JStr ''*/30''), (''hour'', JNum (JFin 9)), (''day_of_week'', JStr ''0-4''),
     (''timezone'', JStr ''Etc/GMT-2'')]"
  have v: "nextOccurrence (\<lambda>_. None) sample_zone sample_schedule 1787000000000 = Some (Inr (Some 1787036400000))"
    by code_simp
  have "parse_fields dict = Inr sample_fields" unfolding dict_def by code_simp
  moreover have "as_object sample_schedule = Some dict" "\<not> isOneTimeSchedule sample_schedule"
    "sample_zone (timezone_of dict) = Some (\<lambda>_. 120)"
    by (simp_all add: sample_schedule_def dict_def isOneTimeSchedule_def member_def timezone_of_def sample_zone_def)
  ultimately obtain r where "nextOccurrence (\<lambda>_. None) sample_zone sample_schedule 1787000000000 = Some (Inr r)"
    "\<forall>t. r = Some t \<longrightarrow> fires (\<lambda>_. 120) sample_fields t"
    using nextOccurrence_first [of sample_schedule dict sample_fields sample_zone "\<lambda>_. 120" "\<lambda>_. None" 1787000000000,
        OF _ _ _ _ sample_stable] by blast
  then show ?thesis using v by auto
qed

section \<open>Fields\<close>

text \<open>A parsed schedule is well formed: the minute and the hour are present, and every restricted
  field is a nonempty set of values within its range, so no field can name a minute, an hour, a
  day, a month or a weekday that does not exist.\<close>
theorem parsed_fields_ok:
  assumes "parse_fields dict = Inr f"
  shows "member dict ''minute'' \<noteq> None \<and> member dict ''hour'' \<noteq> None \<and>
    field_ok 0 59 (fs_minute f) \<and> field_ok 0 23 (fs_hour f) \<and> field_ok 1 31 (fs_day f) \<and>
    field_ok 1 12 (fs_month f) \<and> field_ok 0 6 (fs_dow f)"
proof -
  obtain a b c d e where r: "parseField (member dict ''minute'') ''minute'' 0 59 True = Inr a"
    "parseField (member dict ''hour'') ''hour'' 0 23 True = Inr b"
    "parseField (member dict ''day'') ''day'' 1 31 False = Inr c"
    "parseField (member dict ''month'') ''month'' 1 12 False = Inr d"
    "parseDayOfWeek (member dict ''day_of_week'') = Inr e"
    and f: "f = \<lparr>fs_minute = a, fs_hour = b, fs_day = c, fs_month = d, fs_dow = e\<rparr>"
    using assms by (auto simp: parse_fields_def ebind_Inr_iff)
  show ?thesis unfolding f
    using parseField_ok [OF r(1)] parseField_ok [OF r(2)] parseField_ok [OF r(3)] parseField_ok [OF r(4)]
      parseDayOfWeek_ok [OF r(5)] by simp
qed

lemma parsed_fields_ok_witness:
  "field_ok 0 59 (fs_minute sample_fields) \<and> field_ok 0 6 (fs_dow sample_fields)"
proof -
  have "parse_fields [(''minute'', JStr ''*/30''), (''hour'', JNum (JFin 9)), (''day_of_week'', JStr ''0-4'')] =
      Inr sample_fields" by code_simp
  from parsed_fields_ok [OF this] show ?thesis by blast
qed

section \<open>Weekdays\<close>

text \<open>A weekday field in the scheduler's convention: days and ranges of days, 0 for Monday.\<close>

fun aps_item :: "nat \<times> nat \<Rightarrow> string" where
  "aps_item (a, b) = (if a = b then [digit_char a] else [digit_char a, CHR ''-'', digit_char b])"

definition aps_field :: "(nat \<times> nat) list \<Rightarrow> string" where
  "aps_field items = join_with CHR '','' (map aps_item items)"

text \<open>The days from \<open>a\<close> to \<open>b\<close>, going around the week.\<close>

definition in_days :: "nat \<times> nat \<Rightarrow> int \<Rightarrow> bool" where
  "in_days ab x = ((x - int (fst ab)) mod 7 \<le> (int (snd ab) - int (fst ab)) mod 7)"

lemma split_class_sep:
  "c \<in> set seps \<Longrightarrow> split_class seps (s @ c # t) = split_class seps s @ split_class seps t"
proof (induction s)
  case (Cons d s)
  have "split_class seps s \<noteq> []" by (cases s) (auto split: list.splits)
  with Cons show ?case by (cases "split_class seps s") auto
qed simp

lemma split_class_join:
  "c \<in> set seps \<Longrightarrow> ws \<noteq> [] \<Longrightarrow> split_class seps (join_with c ws) = concat (map (split_class seps) ws)"
  by (induction c ws rule: join_with.induct) (simp_all add: split_class_sep)

lemma js_split_join:
  "ws \<noteq> [] \<Longrightarrow> \<forall>w \<in> set ws. c \<notin> set w \<Longrightarrow> js_split c (join_with c ws) = ws"
  by (induction c ws rule: join_with.induct) (simp_all add: split_append_sep split_no_sep)

lemma map_join: "f c = c \<Longrightarrow> map f (join_with c ws) = join_with c (map (map f) ws)"
  by (induction c ws rule: join_with.induct) simp_all

lemma set_join: "set (join_with c ws) \<subseteq> insert c (\<Union> (set ` set ws))"
  by (induction c ws rule: join_with.induct) auto

definition shifted_item :: "nat \<times> nat \<Rightarrow> string" where
  "shifted_item ab = map shift_dow (aps_item ab)"

text \<open>What the parser does with one item, checked for all pairs of days.\<close>

definition item_days_ok :: "nat \<Rightarrow> nat \<Rightarrow> bool" where
  "item_days_ok a b =
     (replace_names (shifted_item (a, b)) = Some (shifted_item (a, b)) \<and>
      (case addFieldItem (shifted_item (a, b)) ''day_of_week'' 0 6 True of
         Inl e \<Rightarrow> False
       | Inr vs \<Rightarrow> list_all (\<lambda>x. ((x + 1) mod 7 \<in> set vs) = in_days (a, b) x) [0, 1, 2, 3, 4, 5, 6]))"

lemma all_item_days: "list_all (\<lambda>a. list_all (item_days_ok a) [0, 1, 2, 3, 4, 5, 6]) [0, 1, 2, 3, 4, 5, 6]"
  by code_simp

lemma item_days:
  assumes "a \<le> 6" "b \<le> 6"
  shows "\<exists>vs. replace_names (shifted_item (a, b)) = Some (shifted_item (a, b)) \<and>
    addFieldItem (shifted_item (a, b)) ''day_of_week'' 0 6 True = Inr vs \<and>
    (\<forall>x. 0 \<le> x \<longrightarrow> x \<le> 6 \<longrightarrow> ((x + 1) mod 7 \<in> set vs \<longleftrightarrow> in_days (a, b) x))"
proof -
  have "a \<in> set [0, 1, 2, 3, 4, 5, 6]" "b \<in> set [0, 1, 2, 3, 4, 5, 6]" using assms by (simp, arith)+
  then have i: "item_days_ok a b" using all_item_days unfolding list_all_iff by blast
  then obtain vs where vs: "addFieldItem (shifted_item (a, b)) ''day_of_week'' 0 6 True = Inr vs"
    "\<forall>x \<in> set [0, 1, 2, 3, 4, 5, 6]. (x + 1) mod 7 \<in> set vs \<longleftrightarrow> in_days (a, b) x"
    by (auto simp: item_days_ok_def list_all_iff split: sum.splits)
  have "x \<in> set [0, 1, 2, 3, 4, 5, 6]" if "0 \<le> x" "x \<le> 6" for x :: int using that by (simp, arith)
  then show ?thesis using i vs unfolding item_days_ok_def by blast
qed

lemma dow_items_days:
  assumes "\<forall>(a, b) \<in> set items. a \<le> 6 \<and> b \<le> 6"
  shows "\<exists>vs. add_dow_items (map shifted_item items) = Inr vs \<and>
    (\<forall>x. 0 \<le> x \<longrightarrow> x \<le> 6 \<longrightarrow> ((x + 1) mod 7 \<in> set vs \<longleftrightarrow> (\<exists>i \<in> set items. in_days i x)))"
  using assms
proof (induction items)
  case (Cons i items)
  obtain a b where i: "i = (a, b)" by (cases i)
  then have "a \<le> 6" "b \<le> 6" using Cons.prems by simp_all
  from item_days [OF this] obtain vs where vs: "replace_names (shifted_item i) = Some (shifted_item i)"
    "addFieldItem (shifted_item i) ''day_of_week'' 0 6 True = Inr vs"
    "\<forall>x. 0 \<le> x \<longrightarrow> x \<le> 6 \<longrightarrow> ((x + 1) mod 7 \<in> set vs \<longleftrightarrow> in_days i x)"
    unfolding i by blast
  obtain ws where ws: "add_dow_items (map shifted_item items) = Inr ws"
    "\<forall>x. 0 \<le> x \<longrightarrow> x \<le> 6 \<longrightarrow> ((x + 1) mod 7 \<in> set ws \<longleftrightarrow> (\<exists>i \<in> set items. in_days i x))"
    using Cons by auto
  then show ?case using vs by (intro exI [of _ "vs @ ws"]) auto
qed simp

lemma aps_chars:
  assumes "\<forall>(a, b) \<in> set items. a \<le> 6 \<and> b \<le> 6" "c \<in> set (aps_field items)"
  shows "c \<in> set ''0123456,-''"
proof -
  have item: "set (aps_item i) \<subseteq> set ''0123456,-''" if "i \<in> set items" for i
  proof -
    obtain a b where i: "i = (a, b)" by (cases i)
    have "digit_char n \<in> set ''0123456,-''" if "n \<le> 6" for n
    proof -
      have "n \<in> {0, 1, 2, 3, 4, 5, 6}" using that by (simp, arith)
      then show ?thesis by (elim insertE emptyE; hypsubst; code_simp)
    qed
    moreover have "a \<le> 6" "b \<le> 6" using assms(1) that unfolding i by auto
    ultimately show ?thesis unfolding i by auto
  qed
  then show ?thesis using assms(2) set_join [of "CHR '',''" "map aps_item items"] unfolding aps_field_def by fastforce
qed

lemma aps_to_cron:
  assumes "items \<noteq> []" "\<forall>(a, b) \<in> set items. a \<le> 6 \<and> b \<le> 6"
  shows "apschedulerDowToCron (FieldText (aps_field items)) = Inr (map shift_dow (aps_field items))"
proof -
  let ?t = "aps_field items"
  note chars = aps_chars [OF assms(2)]
  have low: "\<forall>c \<in> set ''0123456,-''. \<not> is_space c \<and> lower_char c = c" by code_simp
  have t: "to_lower (js_trim ?t) = ?t"
  proof -
    have "js_trim ?t = ?t" using chars low by (intro js_trim_id) blast
    moreover have "map lower_char ?t = ?t" using chars low by (intro map_idI) blast
    ultimately show ?thesis by (simp add: to_lower_def)
  qed
  have parts: "split_class '',-'' ?t = concat (map (split_class '',-'') (map aps_item items))"
    unfolding aps_field_def using assms(1) by (intro split_class_join) simp_all
  have digits: "\<exists>n \<le> 6. w = [digit_char n]" if wt: "w \<in> set (split_class '',-'' ?t)" for w
  proof -
    obtain i where "i \<in> set items" "w \<in> set (split_class '',-'' (aps_item i))"
      using wt unfolding parts by auto
    then obtain a b where ab: "(a, b) \<in> set items" "w \<in> set (split_class '',-'' (aps_item (a, b)))"
      by (metis surj_pair)
    have "a \<le> 6" "b \<le> 6" using ab(1) assms(2) by auto
    have sep: "digit_char n \<noteq> CHR '','' \<and> digit_char n \<noteq> CHR ''-''" if "n \<le> 6" for n
    proof -
      have "is_digit (digit_char n)" using that by simp
      then show ?thesis by (auto simp: is_digit_def)
    qed
    have "w = [digit_char a] \<or> w = [digit_char b]"
      using ab(2) sep [OF \<open>a \<le> 6\<close>] sep [OF \<open>b \<le> 6\<close>] by (auto split: if_splits)
    then show ?thesis using \<open>a \<le> 6\<close> \<open>b \<le> 6\<close> by blast
  qed
  have ne: "split_class '',-'' ?t \<noteq> []"
    unfolding parts using assms(1) by (cases items; cases "hd items") (auto split: list.splits if_splits)
  then obtain w ws where w: "split_class '',-'' ?t = w # ws" by (cases "split_class '',-'' ?t") auto
  then obtain n where n: "w = [digit_char n]" using digits by fastforce
  have "\<not> dow_names ?t" unfolding dow_names_def w n by (simp add: day_names_def)
  moreover have "dow_digits ?t" using digits
    by (fastforce simp: dow_digits_def list_all_iff dow_digit_def)
  moreover have "?t \<noteq> ''*''" using chars by force
  ultimately show ?thesis
    by (simp add: apschedulerDowToCron_def t Let_def)
qed

lemma shifted_field: "map shift_dow (aps_field items) = join_with CHR '','' (map shifted_item items)"
proof -
  have comma: "shift_dow (CHR '','') = CHR '',''" by code_simp
  show ?thesis
    unfolding aps_field_def map_join [of shift_dow, OF comma] by (simp add: shifted_item_def [abs_def] comp_def)
qed

lemma shifted_nocomma:
  assumes "\<forall>(a, b) \<in> set items. a \<le> 6 \<and> b \<le> 6"
  shows "\<forall>w \<in> set (map shifted_item items). CHR '','' \<notin> set w"
proof
  fix w assume "w \<in> set (map shifted_item items)"
  then obtain i where i: "i \<in> set items" "w = shifted_item i" by auto
  obtain a b where ab: "i = (a, b)" by (cases i)
  have "list_all (\<lambda>a. list_all (\<lambda>b. CHR '','' \<notin> set (shifted_item (a, b))) [0, 1, 2, 3, 4, 5, 6])
      [0, 1, 2, 3, 4, 5, 6]" by code_simp
  moreover have "n \<in> set [0, 1, 2, 3, 4, 5, 6]" if "n \<le> 6" for n :: nat using that by (simp, arith)
  moreover have "a \<le> 6" "b \<le> 6" using assms i ab by auto
  ultimately show "CHR '','' \<notin> set w" unfolding i ab list_all_iff by blast
qed

text \<open>The two weekday conventions agree: a field of days and ranges in the scheduler's convention, in
  which Monday is 0, matches a calendar day exactly when the field names its Monday-based weekday,
  ranges that go around the end of the week included, although the field is rewritten digit by
  digit into the convention in which Sunday is 0.\<close>
theorem weekdays_agree:
  assumes "items \<noteq> []" "\<forall>(a, b) \<in> set items. a \<le> 6 \<and> b \<le> 6"
  shows "\<exists>vs. parseDayOfWeek (Some (JStr (aps_field items))) = Inr (Some vs) \<and>
    (\<forall>day. matches (Some vs) ((day + 4) mod 7) \<longleftrightarrow> (\<exists>i \<in> set items. in_days i ((day + 3) mod 7)))"
proof -
  let ?t = "aps_field items"
  note cron = aps_to_cron [OF assms]
  note nocomma = shifted_nocomma [OF assms(2)]
  have split: "js_split CHR '','' (map shift_dow ?t) = map shifted_item items"
    unfolding shifted_field using assms(1) nocomma by (intro js_split_join) simp_all
  have nstar: "map shift_dow ?t \<noteq> ''*''"
  proof
    assume "map shift_dow ?t = ''*''"
    then obtain c where "?t = [c]" "shift_dow c = CHR ''*''" by auto
    moreover have "\<forall>c \<in> set ''0123456,-''. shift_dow c \<noteq> CHR ''*''" by code_simp
    ultimately show False using aps_chars [OF assms(2)] by auto
  qed
  obtain vs where vs: "add_dow_items (map shifted_item items) = Inr vs"
    "\<forall>x. 0 \<le> x \<longrightarrow> x \<le> 6 \<longrightarrow> ((x + 1) mod 7 \<in> set vs \<longleftrightarrow> (\<exists>i \<in> set items. in_days i x))"
    using dow_items_days [OF assms(2)] by blast
  have "parseDayOfWeek (Some (JStr ?t)) = Inr (Some vs)"
    using nstar by (simp add: parseDayOfWeek_def dow_value_def cron split vs(1))
  moreover have "(day + 4) mod 7 \<in> set vs \<longleftrightarrow> (\<exists>i \<in> set items. in_days i ((day + 3) mod 7))" for day
  proof -
    have "(day + 4) mod 7 = ((day + 3) mod 7 + 1) mod 7" by (simp add: mod_add_left_eq add.assoc)
    moreover have "0 \<le> (day + 3) mod 7" "(day + 3) mod 7 \<le> 6" by simp_all
    ultimately show ?thesis using vs(2) by simp
  qed
  ultimately show ?thesis by (intro exI [of _ vs]) (simp add: matches_def)
qed

lemma weekdays_agree_witness:
  "aps_field [(5, 0), (2, 2)] = ''5-0,2'' \<and>
   (\<exists>vs. parseDayOfWeek (Some (JStr (aps_field [(5, 0), (2, 2)]))) = Inr (Some vs))"
proof -
  have "aps_field [(5, 0), (2, 2)] = ''5-0,2''" by code_simp
  moreover have "\<exists>vs. parseDayOfWeek (Some (JStr (aps_field [(5, 0), (2, 2)]))) = Inr (Some vs)"
    using weekdays_agree [of "[(5, 0), (2, 2)]"] by auto
  ultimately show ?thesis by blast
qed

section \<open>A missing range end\<close>

text \<open>C40: A range without its first end is accepted: a minute field that is a hyphen and a number counts
  from zero, and is passed on unchanged as a cron field, although the grammar knows only stars,
  numbers and ranges with two ends.\<close>
theorem open_range_accepted:
  assumes "n \<le> 59"
  shows "(\<exists>vs. parseField (Some (JStr (CHR ''-'' # show_nat n))) ''minute'' 0 59 True = Inr (Some vs) \<and>
      set vs = {0..int n}) \<and>
    fieldToCron (Some (FieldText (CHR ''-'' # show_nat n))) ''minute'' 0 59 True = Inr (CHR ''-'' # show_nat n)"
proof -
  let ?t = "CHR ''-'' # show_nat n"
  have d: "list_all is_digit (show_nat n)" "show_nat n \<noteq> []"
    using all_digits_show_nat [of n] by (simp_all add: all_digits_def)
  have none: "c \<notin> set (show_nat n)" if "\<not> is_digit c" for c using d(1) that by (auto simp: list_all_iff)
  have no: "CHR '','' \<notin> set (show_nat n)" "CHR ''/'' \<notin> set (show_nat n)" "CHR ''-'' \<notin> set (show_nat n)"
    by (rule none; simp add: is_digit_def)+
  have sp: "\<not> is_space c" if "is_digit c" for c using that by (auto simp: is_digit_def is_space_def)
  have trim: "js_trim ?t = ?t"
  proof (rule js_trim_id, rule ballI)
    fix c assume "c \<in> set ?t"
    then show "\<not> is_space c" using d(1) sp by (auto simp: list_all_iff is_space_def)
  qed
  have cc: "list_all cron_char ?t" using d(1) by (auto simp: list_all_iff cron_char_def)
  have num: "number_of_text (show_nat n) = Some (int n)"
    using all_digits_show_nat [of n] assms d(2) by (simp add: number_of_text_def digits_val_show_nat overflows_def)
  have empty: "number_of_text [] = Some 0" by (simp add: number_of_text_def overflows_def)
  have item: "addFieldItem ?t ''minute'' 0 59 False = Inr (steps 0 (int n) 1)"
    using assms no split_no_sep [of "CHR ''/''" ?t] split_no_sep [of "CHR ''-''" "show_nat n"] num empty
    by (simp add: addFieldItem_def item_bounds_def item_values_def)
  have "set (steps 0 (int n) 1) = {0..int n}" by (subst set_steps) auto
  moreover have "parseField (Some (JStr ?t)) ''minute'' 0 59 True = Inr (Some (steps 0 (int n) 1))"
    using trim cc no split_no_sep [of "CHR '',''" ?t] item by (simp add: parseField_def Let_def)
  moreover have "split_class '',/-'' ?t = [[], show_nat n]"
  proof -
    have "split_class seps s = [s]" if "\<forall>c \<in> set s. c \<notin> set seps" for seps s
      using that by (induction s) auto
    moreover have "\<forall>c \<in> set (show_nat n). c \<notin> set '',/-''" using no by auto
    ultimately show ?thesis by simp
  qed
  then have "fieldToCron (Some (FieldText ?t)) ''minute'' 0 59 True = Inr ?t"
    using trim cc num assms d(2) by (auto simp: fieldToCron_def Let_def)
  ultimately show ?thesis by blast
qed

lemma open_range_accepted_witness:
  "\<exists>vs. parseField (Some (JStr ''-5'')) ''minute'' 0 59 True = Inr (Some vs) \<and> set vs = {0..5}"
proof -
  have "CHR ''-'' # show_nat 5 = ''-5''" by code_simp
  then show ?thesis using open_range_accepted [of 5] by simp
qed

end
