(* ===== verification/CronProperties.thy ===== *)
theory CronProperties
  imports CronSync
begin

text \<open>
  Reconciling the gateway's cron jobs with the triggers. What the code relies on of the
  gateway's command line is the hypothesis \<open>gateway_ok\<close>: listing reports the jobs, removing
  an id removes the jobs with that id, adding appends one job of the given name, and a
  command that fails changes no job. Whether a command fails is left open, so the properties
  cover every failure between two commands.
\<close>

section \<open>The gateway's contract\<close>

definition lists :: "'g cron_cli \<Rightarrow> ('g \<Rightarrow> cron_job list) \<Rightarrow> bool" where
  "lists cli jobs \<longleftrightarrow>
     (\<forall>g r g'. execJson cli [''cron'', ''list''] g = (r, g') \<longrightarrow>
        jobs g' = jobs g \<and> (\<forall>raw. r = Inr raw \<longrightarrow> parse_list raw = Some (jobs g)))"

definition removes :: "'g cron_cli \<Rightarrow> ('g \<Rightarrow> cron_job list) \<Rightarrow> bool" where
  "removes cli jobs \<longleftrightarrow>
     (\<forall>g i r g'. exec cli [''cron'', ''rm'', i, ''--json''] g = (r, g') \<longrightarrow>
        jobs g' = (case r of Inl _ \<Rightarrow> jobs g | Inr _ \<Rightarrow> filter (\<lambda>j. cj_id j \<noteq> i) (jobs g)))"

definition adds :: "'g cron_cli \<Rightarrow> ('g \<Rightarrow> cron_job list) \<Rightarrow> bool" where
  "adds cli jobs \<longleftrightarrow>
     (\<forall>g name p r g'. execJson cli (add_args name p) g = (r, g') \<longrightarrow>
        (case r of Inl _ \<Rightarrow> jobs g' = jobs g
         | Inr _ \<Rightarrow> \<exists>j. jobs g' = jobs g @ [j] \<and> cj_name j = Some name))"

definition gateway_ok :: "'g cron_cli \<Rightarrow> ('g \<Rightarrow> cron_job list) \<Rightarrow> bool" where
  "gateway_ok cli jobs \<longleftrightarrow> lists cli jobs \<and> removes cli jobs \<and> adds cli jobs"

text \<open>No command fails.\<close>

definition gateway_up :: "'g cron_cli \<Rightarrow> bool" where
  "gateway_up cli \<longleftrightarrow> 0 < retryAttempts cli \<and>
     (\<forall>args g. \<exists>raw g'. execJson cli args g = (Inr raw, g')) \<and>
     (\<forall>args g. \<exists>g'. exec cli args g = (Inr (), g'))"

definition named :: "string \<Rightarrow> cron_job \<Rightarrow> bool" where
  "named name j \<longleftrightarrow> cj_name j = Some name"

section \<open>Retrying\<close>

text \<open>A retried command ends in a failure, having changed nothing, or in its first success.\<close>

definition run_result :: "('g \<Rightarrow> (cli_error, 'a) res \<times> 'g) \<Rightarrow> ('g \<Rightarrow> cron_job list) \<Rightarrow> 'g \<Rightarrow>
    (cron_error, 'a) res \<Rightarrow> 'g \<Rightarrow> bool" where
  "run_result f jobs g r g' =
     (case r of Inl _ \<Rightarrow> jobs g' = jobs g | Inr a \<Rightarrow> \<exists>h. jobs h = jobs g \<and> f h = (Inr a, g'))"

lemma retry_runs:
  assumes same: "\<And>h e h'. f h = (Inl e, h') \<Longrightarrow> jobs h' = jobs h"
    and "withConfigReadRetry n f g = (r, g')"
  shows "run_result f jobs g r g'"
  using assms(2)
proof (induction n arbitrary: g)
  case (Suc n)
  show ?case
  proof (cases "f g")
    case (Pair x h)
    show ?thesis
    proof (cases x)
      case (Inr a)
      then show ?thesis using Suc.prems Pair by (auto simp: run_result_def)
    next
      case (Inl e)
      then have h: "jobs h = jobs g" using same Pair by blast
      show ?thesis
      proof (cases "\<not> isTransientConfigReadError e \<or> n = 0")
        case True
        then show ?thesis using Suc.prems Pair Inl h by (auto simp: run_result_def)
      next
        case False
        then have "withConfigReadRetry n f h = (r, g')" using Suc.prems Pair Inl by simp
        from Suc.IH [OF this] show ?thesis using h by (simp add: run_result_def split: sum.splits)
      qed
    qed
  qed
qed (auto simp: run_result_def)

lemma retry_first: "0 < n \<Longrightarrow> f g = (Inr a, g') \<Longrightarrow> withConfigReadRetry n f g = (Inr a, g')"
  by (cases n) simp_all

section \<open>Commands\<close>

lemma listJobs_runs:
  assumes "gateway_ok cli jobs" "listJobs cli g = (r, g')"
  shows "jobs g' = jobs g \<and> (\<forall>js. r = Inr js \<longrightarrow> js = jobs g)"
proof -
  let ?f = "execJson cli [''cron'', ''list'']"
  have law: "jobs h' = jobs h \<and> (\<forall>raw. x = Inr raw \<longrightarrow> parse_list raw = Some (jobs h))" if "?f h = (x, h')" for h x h'
    using assms(1) that by (auto simp: gateway_ok_def lists_def)
  obtain x h where x: "withConfigReadRetry (retryAttempts cli) ?f g = (x, h)" by (cases "withConfigReadRetry (retryAttempts cli) ?f g")
  have run: "run_result ?f jobs g x h" by (rule retry_runs [OF _ x]) (use law in blast)
  show ?thesis
  proof (cases x)
    case (Inl e)
    then show ?thesis using assms(2) x run
      by (auto simp: listJobs_def execJsonWithConfigRetry_def gbind_def run_result_def)
  next
    case (Inr raw)
    then obtain k where "jobs k = jobs g" "?f k = (Inr raw, h)" using run by (auto simp: run_result_def)
    with law have "jobs h = jobs g" "parse_list raw = Some (jobs g)" by metis+
    then show ?thesis using assms(2) x Inr
      by (auto simp: listJobs_def execJsonWithConfigRetry_def gbind_def)
  qed
qed

lemma removeJob_runs:
  assumes "gateway_ok cli jobs" "removeJob cli i g = (r, g')"
  shows "jobs g' = (case r of Inl _ \<Rightarrow> jobs g | Inr _ \<Rightarrow> filter (\<lambda>j. cj_id j \<noteq> i) (jobs g))"
proof -
  let ?f = "exec cli [''cron'', ''rm'', i, ''--json'']"
  have "run_result ?f jobs g r g'"
    using assms by (intro retry_runs) (auto simp: removeJob_def execWithConfigRetry_def gateway_ok_def removes_def)
  moreover have "jobs h' = filter (\<lambda>j. cj_id j \<noteq> i) (jobs h)" if "?f h = (Inr u, h')" for h u h'
    using assms(1) that by (fastforce simp: gateway_ok_def removes_def)
  ultimately show ?thesis by (cases r) (fastforce simp: run_result_def)+
qed

lemma addJob_runs:
  assumes "gateway_ok cli jobs" "addJob cli name p g = (r, g')"
  shows "(\<exists>e. r = Inl e) \<and> jobs g' = jobs g \<or> (\<exists>i j. r = Inr i \<and> jobs g' = jobs g @ [j] \<and> named name j)"
proof -
  let ?f = "execJson cli (add_args name p)"
  obtain x h where x: "withConfigReadRetry (retryAttempts cli) ?f g = (x, h)" by (cases "withConfigReadRetry (retryAttempts cli) ?f g")
  have run: "run_result ?f jobs g x h"
    by (rule retry_runs [OF _ x]) (use assms(1) in \<open>fastforce simp: gateway_ok_def adds_def\<close>)
  have law: "\<exists>j. jobs h' = jobs h @ [j] \<and> named name j" if "?f h = (Inr raw, h')" for h raw h'
    using assms(1) that by (fastforce simp: gateway_ok_def adds_def named_def)
  show ?thesis
  proof (cases x)
    case (Inl e)
    then show ?thesis using assms(2) x run
      by (auto simp: addJob_def execJsonWithConfigRetry_def gbind_def run_result_def)
  next
    case (Inr raw)
    then obtain k where "jobs k = jobs g" "?f k = (Inr raw, h)" using run by (auto simp: run_result_def)
    with law have "\<exists>j. jobs h = jobs g @ [j] \<and> named name j" by metis
    then show ?thesis using assms(2) x Inr
      by (auto simp: addJob_def execJsonWithConfigRetry_def gbind_def)
  qed
qed

lemma removeJobs_runs:
  assumes "gateway_ok cli jobs" "removeJobs cli js g = (r, g')"
  shows "\<exists>ids \<subseteq> set (map cj_id js). jobs g' = filter (\<lambda>j. cj_id j \<notin> ids) (jobs g) \<and>
    (\<forall>u. r = Inr u \<longrightarrow> ids = set (map cj_id js))"
  using assms(2)
proof (induction js arbitrary: g)
  case Nil
  then show ?case by auto
next
  case (Cons j js)
  obtain x h where x: "removeJob cli (cj_id j) g = (x, h)" by (cases "removeJob cli (cj_id j) g")
  note h = removeJob_runs [OF assms(1) x]
  show ?case
  proof (cases x)
    case (Inl e)
    then show ?thesis using Cons.prems x h by (intro exI [of _ "{}"]) (auto simp: gbind_def)
  next
    case (Inr u)
    then have "removeJobs cli js h = (r, g')" using Cons.prems x by (simp add: gbind_def)
    from Cons.IH [OF this] obtain ids where ids: "ids \<subseteq> set (map cj_id js)"
      "jobs g' = filter (\<lambda>j. cj_id j \<notin> ids) (jobs h)" "\<forall>u. r = Inr u \<longrightarrow> ids = set (map cj_id js)"
      by blast
    then show ?thesis using h Inr
      by (intro exI [of _ "insert (cj_id j) ids"]) (auto intro!: filter_cong)
  qed
qed

lemma commands_up:
  assumes "gateway_ok cli jobs" "gateway_up cli"
  shows "\<exists>g'. listJobs cli g = (Inr (jobs g), g')" "\<exists>g'. removeJobs cli js g = (Inr (), g')"
    "\<exists>i g'. addJob cli name p g = (Inr i, g')"
proof -
  have up: "0 < retryAttempts cli" "\<exists>raw g'. execJson cli args g = (Inr raw, g')"
    "\<exists>g'. exec cli args g = (Inr (), g')" for args g using assms(2) unfolding gateway_up_def by blast+
  obtain raw h where l: "execJson cli [''cron'', ''list''] g = (Inr raw, h)" using up(2) by blast
  then have "parse_list raw = Some (jobs g)" using assms(1) unfolding gateway_ok_def lists_def by blast
  then show "\<exists>g'. listJobs cli g = (Inr (jobs g), g')"
    using retry_first [OF up(1), of "execJson cli [''cron'', ''list'']", OF l]
    by (simp add: listJobs_def execJsonWithConfigRetry_def gbind_def)
  have rm: "\<exists>g'. removeJob cli i g = (Inr (), g')" for i g
    using retry_first [OF up(1)] up(3) unfolding removeJob_def execWithConfigRetry_def by metis
  show "\<exists>g'. removeJobs cli js g = (Inr (), g')"
  proof (induction js arbitrary: g)
    case (Cons j js)
    obtain h where "removeJob cli (cj_id j) g = (Inr (), h)" using rm by blast
    then show ?case using Cons.IH by (simp add: gbind_def)
  qed simp
  obtain raw' k where "execJson cli (add_args name p) g = (Inr raw', k)" using up(2) by blast
  then show "\<exists>i g'. addJob cli name p g = (Inr i, g')"
    using retry_first [OF up(1), of "execJson cli (add_args name p)"]
    by (simp add: addJob_def execJsonWithConfigRetry_def gbind_def)
qed

text \<open>Removing some of the jobs a predicate selects leaves the other jobs, and removing all of
  them leaves exactly the others, when ids are unique.\<close>

lemma remove_selected:
  assumes "distinct (map cj_id js)" "ids \<subseteq> set (map cj_id (filter P js))"
  shows "filter (\<lambda>j. \<not> P j) (filter (\<lambda>j. cj_id j \<notin> ids) js) = filter (\<lambda>j. \<not> P j) js"
    "ids = set (map cj_id (filter P js)) \<Longrightarrow> filter (\<lambda>j. cj_id j \<notin> ids) js = filter (\<lambda>j. \<not> P j) js"
proof -
  have inj: "inj_on cj_id (set js)" using assms(1) by (simp add: distinct_map)
  have own: "P j" if j: "j \<in> set js" "cj_id j \<in> ids" for j
  proof -
    obtain k where "k \<in> set js" "P k" "cj_id k = cj_id j" using j(2) assms(2) by auto
    then show ?thesis using inj j(1) by (metis inj_onD)
  qed
  then show "filter (\<lambda>j. \<not> P j) (filter (\<lambda>j. cj_id j \<notin> ids) js) = filter (\<lambda>j. \<not> P j) js"
    by (auto simp: filter_filter intro!: filter_cong)
  show "filter (\<lambda>j. cj_id j \<notin> ids) js = filter (\<lambda>j. \<not> P j) js" if "ids = set (map cj_id (filter P js))"
    using own that by (intro filter_cong) auto
qed

text \<open>Removing the selected jobs of the gateway.\<close>

lemma removal_runs:
  assumes "gateway_ok cli jobs" "distinct (map cj_id (jobs g))" "jobs h = jobs g"
    and "removeJobs cli (filter P (jobs g)) h = (r, g')"
  shows "filter (\<lambda>j. \<not> P j) (jobs g') = filter (\<lambda>j. \<not> P j) (jobs g)"
    "r = Inr u \<Longrightarrow> jobs g' = filter (\<lambda>j. \<not> P j) (jobs g)"
  using removeJobs_runs [OF assms(1,4)] remove_selected [OF assms(2), of _ P] assms(3) by auto

section \<open>A gateway\<close>

text \<open>A gateway that keeps ids and names, for the witnesses.\<close>

definition book_job :: "string \<times> string \<Rightarrow> cron_job" where
  "book_job p = \<lparr>cj_id = fst p, cj_name = Some (snd p), cj_enabled = None, cj_disabled = None,
     cj_fields = [(''id'', JStr (fst p)), (''name'', JStr (snd p))]\<rparr>"

definition book_cli :: "(string \<times> string) list cron_cli" where
  "book_cli = \<lparr>execJson = (\<lambda>args g.
       if args ! 1 = ''list'' then (Inr (JObj [(''jobs'', JArr (map (\<lambda>p. JObj (cj_fields (book_job p))) g))]), g)
       else (Inr (JObj [(''id'', JStr ''n'')]), g @ [(''n'', args ! 3)])),
     exec = (\<lambda>args g. (Inr (), filter (\<lambda>p. fst p \<noteq> args ! 2) g)), retryAttempts = 4\<rparr>"

lemma book_ok: "gateway_ok book_cli (map book_job)" "gateway_up book_cli"
proof -
  have "parse_jobs (map (\<lambda>p. JObj (cj_fields (book_job p))) g) = Some (map book_job g)" for g
    by (induction g) (simp_all add: book_job_def member_def)
  then have "lists book_cli (map book_job)" by (simp add: lists_def book_cli_def member_def)
  moreover have "removes book_cli (map book_job)"
    by (simp add: removes_def book_cli_def filter_map comp_def book_job_def)
  moreover have "adds book_cli (map book_job)"
    by (auto simp: adds_def book_cli_def add_args_def book_job_def)
  ultimately show "gateway_ok book_cli (map book_job)" by (simp add: gateway_ok_def)
  show "gateway_up book_cli" by (simp add: gateway_up_def book_cli_def)
qed

definition book_params :: sync_params where
  "book_params = \<lparr>sp_triggerId = ''7'', sp_openclawAgentId = ''a'', sp_cronExpr = ''0 9 * * *'', sp_tz = None,
     sp_prompt = ''go'', sp_enabled = True\<rparr>"

definition book_before :: "(string \<times> string) list" where
  "book_before = [(''x'', ''eden3:7''), (''y'', ''mine''), (''z'', ''eden3:7'')]"

section \<open>Reconciling\<close>

text \<open>What the gateway has to hold once the trigger of a name is reconciled, with the action reported.\<close>

definition reconciled :: "string \<Rightarrow> sync_params \<Rightarrow> cron_job list \<Rightarrow> cron_job list \<Rightarrow> sync_action \<Rightarrow> bool" where
  "reconciled name p before after act =
     (let old = filter (named name) before; new = filter (named name) after
      in if \<not> sp_enabled p then new = [] \<and> act = (if old = [] then JobAbsent else JobRemoved)
         else length new = 1 \<and>
           (if length old = 1 \<and> jobMatches (hd old) p then after = before \<and> act = JobUnchanged
            else act = (if old = [] then JobCreated else JobReplaced)))"

text \<open>C39: Reconciling one trigger never touches the jobs of other names, whatever command fails on the way;
  and when it returns, which it does when no command fails, the gateway holds no job of the name for
  a disabled trigger and exactly one for an enabled trigger, duplicates left by an earlier crash
  included, the action reported being the one that was taken.\<close>
theorem sync_trigger_exact:
  assumes "gateway_ok cli jobs" "distinct (map cj_id (jobs g))"
    and "cronJobName (sp_triggerId p) = Inr name" "syncTrigger cli p g = (r, g')"
  shows "filter (\<lambda>j. \<not> named name j) (jobs g') = filter (\<lambda>j. \<not> named name j) (jobs g) \<and>
    (\<forall>s. r = Inr s \<longrightarrow> sr_name s = name \<and> reconciled name p (jobs g) (jobs g') (sr_action s)) \<and>
    (gateway_up cli \<longrightarrow> (\<exists>s. r = Inr s))"
proof -
  let ?old = "filter (named name) (jobs g)"
  have nm: "(\<lambda>j. cj_name j = Some name) = named name" by (simp add: named_def fun_eq_iff)
  obtain x g1 where l: "listJobs cli g = (x, g1)" by (cases "listJobs cli g")
  note list = listJobs_runs [OF assms(1) l]
  show ?thesis
  proof (cases x)
    case (Inl e)
    moreover have "\<not> gateway_up cli" using commands_up(1) [OF assms(1), of g] l Inl by auto
    ultimately show ?thesis using assms(3,4) l list by (auto simp: syncTrigger_def gbind_def)
  next
    case (Inr js)
    then have js: "js = jobs g" "jobs g1 = jobs g" using list by auto
    obtain y g2 where rm: "removeJobs cli ?old g1 = (y, g2)" by (cases "removeJobs cli ?old g1")
    note gone = removal_runs [OF assms(1,2) js(2) rm]
    have up: "gateway_up cli \<Longrightarrow> y = Inr ()" using commands_up(2) [OF assms(1)] rm by (metis prod.inject)
    obtain z g3 where ad: "addJob cli name p g2 = (z, g3)" by (cases "addJob cli name p g2")
    note new = addJob_runs [OF assms(1) ad]
    have up': "gateway_up cli \<Longrightarrow> \<exists>i. z = Inr i" using commands_up(3) [OF assms(1)] ad by (metis prod.inject)
    consider (off) "\<not> sp_enabled p" | (same) "sp_enabled p" "length ?old = 1 \<and> jobMatches (hd ?old) p"
      | (add) "sp_enabled p" "\<not> (length ?old = 1 \<and> jobMatches (hd ?old) p)" by blast
    then show ?thesis
    proof cases
      case off
      then show ?thesis using assms(3,4) l Inr js rm gone up
        by (cases y) (auto simp: syncTrigger_def gbind_def nm reconciled_def Let_def)
    next
      case same
      then show ?thesis using assms(3,4) l Inr js
        by (auto simp: syncTrigger_def gbind_def nm reconciled_def Let_def)
    next
      case add
      then show ?thesis using assms(3,4) l Inr js rm gone ad new up up'
        by (cases y; cases z) (auto simp: syncTrigger_def gbind_def nm reconciled_def Let_def)
    qed
  qed
qed

lemma sync_trigger_exact_witness:
  "snd (syncTrigger book_cli book_params book_before) = [(''y'', ''mine''), (''n'', ''eden3:7'')] \<and>
   reconciled ''eden3:7'' book_params (map book_job book_before)
     (map book_job [(''y'', ''mine''), (''n'', ''eden3:7'')]) JobReplaced"
proof -
  have r: "syncTrigger book_cli book_params book_before =
      (Inr \<lparr>sr_name = ''eden3:7'', sr_action = JobReplaced, sr_jobId = Some ''n''\<rparr>, [(''y'', ''mine''), (''n'', ''eden3:7'')])"
    by code_simp
  have d: "distinct (map cj_id (map book_job book_before))" by code_simp
  have n: "cronJobName (sp_triggerId book_params) = Inr ''eden3:7''" by code_simp
  from sync_trigger_exact [OF book_ok(1) d n r] r show ?thesis by simp
qed

text \<open>The boot cleanup removes every job whose name has the program's prefix and no other job: foreign
  jobs stay whatever fails, and when it returns, which it does when no command fails, exactly they
  are left and the number reported is the number removed.\<close>
theorem remove_all_exact:
  assumes "gateway_ok cli jobs" "distinct (map cj_id (jobs g))" "removeAllEden3Jobs cli g = (r, g')"
  shows "filter (\<lambda>j. \<not> eden_named j) (jobs g') = filter (\<lambda>j. \<not> eden_named j) (jobs g) \<and>
    (\<forall>n. r = Inr n \<longrightarrow> jobs g' = filter (\<lambda>j. \<not> eden_named j) (jobs g) \<and> n + length (jobs g') = length (jobs g)) \<and>
    (gateway_up cli \<longrightarrow> (\<exists>n. r = Inr n))"
proof -
  obtain x g1 where l: "listJobs cli g = (x, g1)" by (cases "listJobs cli g")
  note list = listJobs_runs [OF assms(1) l]
  show ?thesis
  proof (cases x)
    case (Inl e)
    moreover have "\<not> gateway_up cli" using commands_up(1) [OF assms(1), of g] l Inl by auto
    ultimately show ?thesis using assms(3) l list by (auto simp: removeAllEden3Jobs_def listEdenJobs_def gbind_def)
  next
    case (Inr js)
    then have js: "js = jobs g" "jobs g1 = jobs g" using list by auto
    obtain y g2 where rm: "removeJobs cli (filter eden_named (jobs g)) g1 = (y, g2)"
      by (cases "removeJobs cli (filter eden_named (jobs g)) g1")
    note gone = removal_runs [OF assms(1,2) js(2) rm]
    have up: "gateway_up cli \<Longrightarrow> y = Inr ()" using commands_up(2) [OF assms(1)] rm by (metis prod.inject)
    show ?thesis using assms(3) l Inr js rm gone up sum_length_filter_compl [of eden_named "jobs g"]
      by (cases y) (auto simp: removeAllEden3Jobs_def listEdenJobs_def gbind_def)
  qed
qed

lemma remove_all_exact_witness:
  "removeAllEden3Jobs book_cli book_before = (Inr 2, [(''y'', ''mine'')]) \<and>
   map book_job [(''y'', ''mine'')] = filter (\<lambda>j. \<not> eden_named j) (map book_job book_before)"
proof -
  have r: "removeAllEden3Jobs book_cli book_before = (Inr 2, [(''y'', ''mine'')])" by code_simp
  moreover have d: "distinct (map cj_id (map book_job book_before))" by code_simp
  ultimately show ?thesis using remove_all_exact [OF book_ok(1) d r] by auto
qed

end
