(* ===== verification/Spec2Isabelle.thy ===== *)
theory Spec2Isabelle
  imports LedgerProperties TurnProperties StudioProperties StudioRouteProperties StudioEscrow MediaProperties WatcherProperties LimiterProperties MeteringProperties ConversationProperties PumpProperties ScheduleProperties CronProperties
begin

text \<open>
  A verification development for Eden3, a platform on which users chat with agents and pay
  for model turns and media in manna. The program is a TypeScript monorepo: the API server
  (apps/api), the web client (apps/web), shared packages (packages/core, packages/db,
  packages/gateway, packages/shared) and the gateway runtime it drives (infra/openclaw).

  The parts modelled here and how they interact. A chat turn passes the concurrency limiter
  (chat-limits.ts), is priced (metering.ts), reserved and authorized (turns.ts,
  turn-authorization.ts) over the manna ledger (manna.ts), runs at a provider, and is settled
  or reversed; orphaned reservations are returned by a reaper (turn-reservation-reaper.ts).
  A studio generation is paid from the same ledger: its debit and its row are committed together
  (studio-reservations.ts), its artifact completes the row, a failure is compensated in two
  transactions, and its own reaper finishes what a process left open.
  The events of a turn are framed as server-sent events (events.ts), kept by the pump of the web
  client (turn-pump.ts) and reduced to the view of the conversation (conversation-state.ts);
  the registry of active turns (turn-registry.ts) tells other requests which turn runs.
  Scheduled tasks compute their next run (task-schedule.ts) and are mirrored as cron jobs of
  the gateway (cron-sync.ts).

  The theories.

  \<^item> Prelude: results with an error alternative, the collections of facts, and the two
    locales for state machines: \<open>machine\<close> (a step, the admitted events, an invariant) and
    \<open>progressing_machine\<close> (with a relation of progress between a state and its successors).
  \<^item> JsNumber, JsText, JsDate, JsMap, JsSort, Json: what the source uses of the
    language. A Number is a binary64 value: an exact rational, an infinity or not-a-number,
    every operation followed by rounding to nearest even. Strings are lists of code units
    below 256, a Map an association list in insertion order, sorting is stable, dates are
    those of the proleptic Gregorian calendar.
  \<^item> Manna, LedgerArith, LedgerSafety, LedgerFrames, LedgerContracts, LedgerProperties:
    packages/core/src/manna.ts. The state \<open>ledger\<close> has the two tables \<open>manna_accounts\<close> and
    \<open>manna_transactions\<close>; amounts in rows are integers of ten-thousandths, as in their
    numeric(20,4) columns, amounts in parameters and results are Numbers. Each exported
    function is a definition of its name; a transaction that throws is \<open>Inl\<close> and has no
    effect. The commits of other transactions between two reads of one call are its \<open>env\<close>
    parameter. The lemmas: an invariant of the tables, what each operation changes and what
    it leaves alone, and the exact effect of debit, settlement and reversal in the range where
    the Number arithmetic is exact.
  \<^item> TurnLimiter, LimiterSafety, LimiterProperties: apps/api/src/services/chat-limits.ts,
    the whole class. Closures, promises, timers and abort listeners are explicit state; one
    call, timer or signal is one step. The lemmas: the counters agree with the grants and
    queues, both bounds hold, promises settle once, no waiter is left behind.
  \<^item> Metering, MeteringSelect, MeteringFacts, MeteringProperties:
    packages/core/src/metering.ts with its shipped tables. The locale \<open>dated_registry\<close> states
    the selection rule both tables share; both interpret it.
  \<^item> TurnAuth, TurnFunding: the transactions of turn-authorization.ts, and the money path of
    turns.ts with automation-budget.ts and turn-reservation-reaper.ts. The state is the
    ledger, the table of authorizations and the usage rows. TurnAuthFacts, TurnAuthSteps,
    TurnReserve and TurnMachine hold the invariant (what was given back of the debit of a turn
    is what the state of its row says) and show that each transaction keeps it and only moves
    rows forward; TurnOutcomes describes each call branch by branch, TurnSamples holds the
    concrete tables of the witnesses, TurnProperties the properties.
  \<^item> Jsonb, StudioReservations: a column of JSON and its operators, and
    apps/api/src/services/studio-reservations.ts, the whole file: the rows of one generation
    each (pending, at its provider, completed, waiting for its refund, ended in an error), their
    metadata as the column stores it, the reservation, admission, completion and
    compensation transactions, and the reaper class. \<open>studio_db\<close> is the ledger with the rows.
    StudioFacts and StudioSteps hold the invariant (the metadata of a row names the debit that
    funds it, what was given back of that debit is what the status says, an output kind has at
    most one active row, a quarantine mark is never on a row that can still complete) and show
    that each transaction keeps it; StudioMachine is their machine, StudioOutcomes describes a
    whole compensation and a run of the reaper, StudioSamples holds the concrete tables,
    StudioProperties the properties. StudioEscrow states the contract of a generation, an escrow
    whose price is held and then kept or given back, and that every run refines it; the price and
    what was given back are read from the ledger, and must agree with the row.
  \<^item> StudioQuote, StudioRoute, StudioRouteFacts, StudioRouteProperties: the requests of
    apps/api/src/routes/studio.ts: the closed schemas, the quote, the provider payload, and the
    handler that generates, with each of its failures compensated. What the gateway, the
    watcher, the provider and the ingest answer is the record \<open>outside\<close>; \<open>own_generation\<close> says
    that other transactions neither start nor complete the generation of the request.
  \<^item> MediaAdmission, MediaProperties: of
    apps/api/src/services/chat-media-authorization.ts, the pricing of a tool call at the gateway
    and the admission of a studio generation, whose last statement is the step \<open>AdmitRow\<close> of
    the machine of generations.
  \<^item> HostPath, MediaWatcher, WatcherProperties: apps/api/src/workers/media-watcher.ts, the
    watcher that hands the files of the gateway to claims, to the session a lookup names or to
    nobody, one step per await, with the map of container paths to host paths and the handler of
    attachment sightings. The properties interpret \<open>machine\<close> on its step.
  \<^item> LedgerClients, FundedRows, TurnClient, Platform: components that share one ledger. \<open>ledger_client\<close>
    is the contract of a component with its own keys: its steps keep its invariant and give back
    nothing but debits under its keys, and in return its invariant survives every change of the
    ledger that leaves its keys alone (\<open>touches\<close>). \<open>two_clients\<close> composes two of them with
    disjoint keys and with the other operations of the ledger in any interleaving. The turns and
    the studio generations interpret the first, their platform the second. \<open>funded_rows\<close> is the
    contract of rows that a debit pays for, with the moves of their invariant; the generations
    interpret it.
  \<^item> SessionEvents, Conversation, ConversationFacts, ConversationProperties, TurnPump,
    TurnRegistry, PumpProperties: events.ts, conversation-state.ts, turn-pump.ts (with
    \<open>attachPump\<close> of conversation.tsx) and turn-registry.ts.
  \<^item> TaskSchedule, ScheduleFacts, ScheduleProperties, CronSync, CronProperties:
    task-schedule.ts and cron-sync.ts.

  How the interfaces are used. The ledger, the limiter, the turns, the conversation and the
  pump each interpret \<open>machine\<close> or \<open>progressing_machine\<close> on their own step function, so a
  property of any sequence of events is the fact \<open>run_inv\<close> or \<open>run_le\<close> of the interpretation.
  The machine of the turns has the operations of the ledger among its events, admitted when
  their keys are not those of a turn, so its properties hold with everything else the ledger
  does in between.

  Bounds and fuel. No definition takes fuel. Loops are structural or have a measure (the
  queued waiters of a drain, the rest of a range or of a text, the distance of a year); the scan
  for the next occurrence is \<open>while_option\<close>, and a property states that it ends. The exact
  results on money assume amounts and balances up to \<open>unit_bound\<close> ten-thousandths, 2 to the
  49th, about 56 thousand million manna; below it the rounding of every sum and
  product of the ledger is undone by the rounding to four places, above it the code itself
  is not exact. Word sizes do not occur: the language has only Numbers.

  Parameters. What is not in the repository is an argument: the time zone data of \<open>Intl\<close>
  (an offset in minutes for each minute; instants beyond the range of a Date are not modelled),
  \<open>Date.parse\<close> on texts, JSON parsing and printing, the UUID test of zod, random identifiers,
  the command line of the gateway, the printing of errors, the caller's fence of a transaction,
  the clock, and the function of the database that records the end of a run for account
  erasure (\<open>evidence\<close>: whatever it writes, and its answer), the text of an instant (\<open>stamp\<close>), and the reversal a compensation
  is given (\<open>reverse\<close>, the ledger's own by default). Where a property relies on one of them, the hypothesis is named
  (\<open>gateway_ok\<close> for the listing and removal of jobs, \<open>good_env\<close>, \<open>good_studio_env\<close> and
  \<open>own_generation\<close> for the commits of other transactions) and a witness instantiates it.

  Findings. Six theorems show behaviour that differs from what the code documents or means:
  the LIKE query of a rolling cap also counts other scopes when the identifier holds an
  underscore; a price that overflows is zero; a turn that fails before its first token is
  reported twice; a range without its first end is accepted; a studio request with a fractional
  duration or a very long text is accepted and debited, and always refused at the gateway; a
  claim of the watcher may be given a file that landed before it.

  Not modelled, and why.

  \<^item> The rest of turns.ts (prompt assembly, streaming from the gateway, titles, wake-ups)
    and the other routes (apps/api/src/routes): HTTP handling, I/O and SQL around the steps above;
    of the studio route, the catalog, temporary files and the HTTP call of the speech provider;
    of the media admission, the reservations of chat turns; of the watcher, the acceptance and
    download of remote URLs.
  \<^item> Account erasure, uploads, transcription, voice, memory distillation, channel metering
    and synchronisation, provisioning: their logic is mainly SQL, object storage and
    calls of external services.
  \<^item> The rendering of the web client, the schema and its migrations, the configuration
    generator of the gateway, the plugins under infra, the scripts and the tests.
  \<^item> PostgreSQL, drizzle, zod, the gateway and the model providers: not code of
    the repository; their locks appear as the atomicity of the transaction functions.
\<close>

end
